(* ===== verification/Prelude.thy ===== *)
theory Prelude
  imports Main "HOL-Library.Word" "HOL-Library.State_Monad"
begin

unbundle bit_operations_syntax

text \<open>
  Shared vocabulary of the development: the machine integers of the code, the
  collections of facts that the component theories extend, and the generic lemmas
  on words and lists that more than one component needs.
\<close>

section \<open>Machine integers and bytes\<close>

text \<open>
  \<open>std::uintN_t\<close> is \<open>N word\<close>. The signed types of the wire are words too, read with
  \<open>sint\<close> where their value matters: a signed field travels in its two's complement
  pattern and comes back the same way.
\<close>

type_synonym u8 = "8 word"
type_synonym u16 = "16 word"
type_synonym u32 = "32 word"
type_synonym u64 = "64 word"
type_synonym i16 = "16 word"
type_synonym i32 = "32 word"
type_synonym i64 = "64 word"

text \<open>A \<open>std::string\<close> of the protocol is a sequence of bytes, never text.\<close>

type_synonym bytes = "u8 list"

section \<open>Fact collections\<close>

named_theorems emits
  "what a writer appends, and whether it can say the value"
named_theorems roundtrip
  "a reader standing at what a writer appended returns the written value"
named_theorems careful_intros
  "a reader stays inside its input and stays failed once it has failed"

section \<open>Lists\<close>

lemma list_all_True [simp]: "list_all (\<lambda>_. True) xs"
  by (simp add: list_all_iff)

section \<open>Words\<close>

lemma mask_literals:
  "(0xFF :: 'a::len word) = mask 8"
  "(0xFFFF :: 'a::len word) = mask 16"
  "(0xFFFFFFFF :: 'a::len word) = mask 32"
  by (simp_all add: mask_eq_exp_minus_1)

lemma unat_of_nat_len: "n < 2 ^ LENGTH('a::len) \<Longrightarrow> unat (of_nat n :: 'a word) = n"
  by (simp add: unat_of_nat take_bit_nat_eq_self)

lemma unat_lt2p_u32: "unat (v :: u32) < 2 ^ 32"
  using unsigned_less [of v] by simp

text \<open>A little-endian pair of halves, split by the writer and joined by the reader.\<close>

lemma split_u16:
  "ucast (ucast (v AND 0xFF) :: u8)
     OR push_bit 8 (ucast (ucast (drop_bit 8 v AND 0xFF) :: u8)) = (v :: u16)"
  unfolding mask_literals by (rule bit_word_eqI) (auto simp: bit_simps)

lemma split_u32:
  "ucast (ucast (v AND 0xFFFF) :: u16)
     OR push_bit 16 (ucast (ucast (drop_bit 16 v AND 0xFFFF) :: u16)) = (v :: u32)"
  unfolding mask_literals by (rule bit_word_eqI) (auto simp: bit_simps)

lemma split_u64:
  "ucast (ucast (v AND 0xFFFFFFFF) :: u32)
     OR push_bit 32 (ucast (ucast (drop_bit 32 v AND 0xFFFFFFFF) :: u32)) = (v :: u64)"
  unfolding mask_literals by (rule bit_word_eqI) (auto simp: bit_simps)

text \<open>The reader's joins, and that the writer's splits undo them.\<close>

definition join_u16 :: "u8 \<Rightarrow> u8 \<Rightarrow> u16" where
  "join_u16 low high = ucast low OR push_bit 8 (ucast high)"

definition join_u32 :: "u16 \<Rightarrow> u16 \<Rightarrow> u32" where
  "join_u32 low high = ucast low OR push_bit 16 (ucast high)"

lemma halves_join_u16:
  "ucast (join_u16 low high AND 0xFF) = low"
  "ucast (drop_bit 8 (join_u16 low high) AND 0xFF) = high"
  unfolding join_u16_def mask_literals
  by (rule bit_word_eqI, auto simp: bit_simps dest: bit_imp_le_length)+

lemma halves_join_u32:
  "ucast (join_u32 low high AND 0xFFFF) = low"
  "ucast (drop_bit 16 (join_u32 low high) AND 0xFFFF) = high"
  unfolding join_u32_def mask_literals
  by (rule bit_word_eqI, auto simp: bit_simps dest: bit_imp_le_length)+

end
