(* ===== verification/Wire_Bytes.thy ===== *)
theory Wire_Bytes
  imports Prelude
begin

text \<open>
  The two byte machines under the wire protocol, \<open>Writer\<close> and \<open>Reader\<close> of
  \<^verbatim>\<open>src/src/common/proto.cpp\<close>: both fail stickily, so that a whole message is written or
  read before anyone looks at the flag. The writer is a state transformer over the bytes so
  far; the reader is a state monad over the payload, a position in it, and the flag.

  The locales at the end are the contract every field, structure and message of the
  protocol meets: what its writer appends is what its reader takes back.
\<close>

section \<open>The writer\<close>

record writer =
  w_out :: bytes
  w_ok :: bool

definition w_new :: writer where
  "w_new = \<lparr>w_out = [], w_ok = True\<rparr>"

definition w_fail :: "writer \<Rightarrow> writer" where
  "w_fail w = w\<lparr>w_ok := False\<rparr>"

definition w_u8 :: "u8 \<Rightarrow> writer \<Rightarrow> writer" where
  "w_u8 v w = w\<lparr>w_out := w_out w @ [v]\<rparr>"

text \<open>A sequence of writes, one after the other, as the statements of a \<open>write\<close> overload.\<close>

definition writes :: "(writer \<Rightarrow> writer) list \<Rightarrow> writer \<Rightarrow> writer" where
  "writes fs w = fold (\<lambda>f. f) fs w"

definition w_u16 :: "u16 \<Rightarrow> writer \<Rightarrow> writer" where
  "w_u16 v = writes [w_u8 (ucast (v AND 0xFF)), w_u8 (ucast (drop_bit 8 v AND 0xFF))]"

definition w_u32 :: "u32 \<Rightarrow> writer \<Rightarrow> writer" where
  "w_u32 v = writes [w_u16 (ucast (v AND 0xFFFF)), w_u16 (ucast (drop_bit 16 v AND 0xFFFF))]"

definition w_u64 :: "u64 \<Rightarrow> writer \<Rightarrow> writer" where
  "w_u64 v = writes [w_u32 (ucast (v AND 0xFFFFFFFF)), w_u32 (ucast (drop_bit 32 v AND 0xFFFFFFFF))]"

text \<open>The signed widths are cast through the unsigned type of the same width.\<close>

definition w_i16 :: "i16 \<Rightarrow> writer \<Rightarrow> writer" where
  "w_i16 v = w_u16 v"

definition w_i32 :: "i32 \<Rightarrow> writer \<Rightarrow> writer" where
  "w_i32 v = w_u32 v"

definition w_i64 :: "i64 \<Rightarrow> writer \<Rightarrow> writer" where
  "w_i64 v = w_u64 v"

definition w_append :: "bytes \<Rightarrow> writer \<Rightarrow> writer" where
  "w_append bs w = w\<lparr>w_out := w_out w @ bs\<rparr>"

definition w_str :: "bytes \<Rightarrow> writer \<Rightarrow> writer" where
  "w_str cs w =
     (if length cs > 0xFFFF then w_fail w
      else writes [w_u16 (of_nat (length cs)), w_append cs] w)"

definition w_blob :: "bytes \<Rightarrow> writer \<Rightarrow> writer" where
  "w_blob bs w =
     (if length bs > 0xFFFFFFFF then w_fail w
      else writes [w_u32 (of_nat (length bs)), w_append bs] w)"

text \<open>A count and then the entries: the shape of every container on the wire.\<close>

definition w_counted :: "('a \<Rightarrow> writer \<Rightarrow> writer) \<Rightarrow> 'a list \<Rightarrow> writer \<Rightarrow> writer" where
  "w_counted entry xs = writes (w_u32 (of_nat (length xs)) # map entry xs)"

section \<open>The reader\<close>

record reader =
  r_bytes :: bytes
  r_pos :: nat
  r_ok :: bool

definition r_new :: "bytes \<Rightarrow> reader" where
  "r_new bs = \<lparr>r_bytes = bs, r_pos = 0, r_ok = True\<rparr>"

definition r_remaining :: "reader \<Rightarrow> nat" where
  "r_remaining r = (if r_ok r then length (r_bytes r) - r_pos r else 0)"

definition r_exhausted :: "reader \<Rightarrow> bool" where
  "r_exhausted r \<longleftrightarrow> r_remaining r = 0"

definition r_is_ok :: "(reader, bool) state" where
  "r_is_ok = State (\<lambda>r. (r_ok r, r))"

definition r_fail :: "(reader, unit) state" where
  "r_fail = State (\<lambda>r. ((), r\<lparr>r_ok := False\<rparr>))"

definition r_fail_if :: "bool \<Rightarrow> (reader, unit) state" where
  "r_fail_if b = (if b then r_fail else State_Monad.return ())"

definition r_take :: "nat \<Rightarrow> (reader, bool) state" where
  "r_take n = State (\<lambda>r.
     if \<not> r_ok r \<or> length (r_bytes r) - r_pos r < n then (False, r\<lparr>r_ok := False\<rparr>)
     else (True, r\<lparr>r_pos := r_pos r + n\<rparr>))"

definition r_u8 :: "(reader, u8) state" where
  "r_u8 = State (\<lambda>r. case run_state (r_take 1) r of
     (False, r') \<Rightarrow> (0, r')
   | (True, r') \<Rightarrow> (r_bytes r' ! (r_pos r' - 1), r'))"

definition r_u16 :: "(reader, u16) state" where
  "r_u16 = do {
     low \<leftarrow> r_u8;
     high \<leftarrow> r_u8;
     State_Monad.return (ucast low OR push_bit 8 (ucast high))
   }"

definition r_u32 :: "(reader, u32) state" where
  "r_u32 = do {
     low \<leftarrow> r_u16;
     high \<leftarrow> r_u16;
     State_Monad.return (ucast low OR push_bit 16 (ucast high))
   }"

definition r_u64 :: "(reader, u64) state" where
  "r_u64 = do {
     low \<leftarrow> r_u32;
     high \<leftarrow> r_u32;
     State_Monad.return (ucast low OR push_bit 32 (ucast high))
   }"

definition r_i16 :: "(reader, i16) state" where
  "r_i16 = r_u16"

definition r_i32 :: "(reader, i32) state" where
  "r_i32 = r_u32"

definition r_i64 :: "(reader, i64) state" where
  "r_i64 = r_u64"

definition r_bytes_of :: "nat \<Rightarrow> (reader, bytes) state" where
  "r_bytes_of n = State (\<lambda>r. case run_state (r_take n) r of
     (False, r') \<Rightarrow> ([], r')
   | (True, r') \<Rightarrow> (take n (drop (r_pos r' - n) (r_bytes r')), r'))"

definition r_str :: "(reader, bytes) state" where
  "r_str = do { len \<leftarrow> r_u16; r_bytes_of (unat len) }"

definition r_blob :: "u32 \<Rightarrow> (reader, bytes) state" where
  "r_blob cap = do {
     len \<leftarrow> r_u32;
     if len > cap then do { r_fail; State_Monad.return [] } else r_bytes_of (unat len)
   }"

text \<open>A count that is about to size a container, held to what is left in the payload.\<close>

definition r_count :: "nat \<Rightarrow> (reader, u32) state" where
  "r_count entry_bytes = do {
     value \<leftarrow> r_u32;
     State (\<lambda>r.
       if \<not> r_ok r \<or> entry_bytes = 0 \<or> unat value > r_remaining r div entry_bytes
       then (0, r\<lparr>r_ok := False\<rparr>)
       else (value, r))
   }"

text \<open>
  The entry loops. \<open>r_times\<close> keeps an entry only when the reader is still good after it
  (\<open>if (r.ok()) push_back\<close>); \<open>r_each\<close> keeps it whatever happened. Both stop at the first
  failure, which the \<open>&& r.ok()\<close> of the loop condition says.
\<close>

fun r_times :: "nat \<Rightarrow> (reader, 'a) state \<Rightarrow> (reader, 'a list) state" where
  "r_times 0 entry = State_Monad.return []"
| "r_times (Suc n) entry = do {
     good \<leftarrow> r_is_ok;
     if \<not> good then State_Monad.return []
     else do {
       x \<leftarrow> entry;
       still \<leftarrow> r_is_ok;
       xs \<leftarrow> r_times n entry;
       State_Monad.return (if still then x # xs else xs)
     }
   }"

fun r_each :: "nat \<Rightarrow> (reader, 'a) state \<Rightarrow> (reader, 'a list) state" where
  "r_each 0 entry = State_Monad.return []"
| "r_each (Suc n) entry = do {
     good \<leftarrow> r_is_ok;
     if \<not> good then State_Monad.return []
     else do {
       x \<leftarrow> entry;
       xs \<leftarrow> r_each n entry;
       State_Monad.return (x # xs)
     }
   }"

definition r_counted :: "nat \<Rightarrow> (reader, 'a) state \<Rightarrow> (reader, 'a list) state" where
  "r_counted entry_bytes entry = do { n \<leftarrow> r_count entry_bytes; r_times (unat n) entry }"

definition r_counted_each :: "nat \<Rightarrow> (reader, 'a) state \<Rightarrow> (reader, 'a list) state" where
  "r_counted_each entry_bytes entry = do { n \<leftarrow> r_count entry_bytes; r_each (unat n) entry }"

text \<open>An enumeration with a value it does not have is malformed, never clamped.\<close>

definition r_enum :: "(u8 \<Rightarrow> 'e) \<Rightarrow> u8 \<Rightarrow> u8 \<Rightarrow> (reader, 'e) state" where
  "r_enum of_code highest value =
     (if value > highest then do { r_fail; State_Monad.return (of_code 0) }
      else State_Monad.return (of_code value))"

section \<open>What a writer appends\<close>

text \<open>
  Every writer of the protocol is regular: it appends bytes that do not depend on what is
  already there, and it clears the flag or leaves it alone. \<open>emit\<close> is what it appends and
  \<open>fine\<close> whether the value can be said.
\<close>

definition emit :: "(writer \<Rightarrow> writer) \<Rightarrow> bytes" where
  "emit f = w_out (f w_new)"

definition fine :: "(writer \<Rightarrow> writer) \<Rightarrow> bool" where
  "fine f \<longleftrightarrow> w_ok (f w_new)"

definition regular :: "(writer \<Rightarrow> writer) \<Rightarrow> bool" where
  "regular f \<longleftrightarrow> (\<forall>w. f w = \<lparr>w_out = w_out w @ emit f, w_ok = w_ok w \<and> fine f\<rparr>)"

lemma regularI:
  assumes "\<And>w. f w = \<lparr>w_out = w_out w @ bs, w_ok = w_ok w \<and> k\<rparr>"
  shows "regular f" and "emit f = bs" and "fine f = k"
  using assms by (simp_all add: regular_def emit_def fine_def w_new_def)

lemma regularD: "regular f \<Longrightarrow> f w = \<lparr>w_out = w_out w @ emit f, w_ok = w_ok w \<and> fine f\<rparr>"
  by (simp add: regular_def)

lemma writes_Nil: "writes [] w = w" and writes_Cons: "writes (f # fs) w = writes fs (f w)"
  by (simp_all add: writes_def)

lemma writes_run:
  "\<forall>f \<in> set fs. regular f \<Longrightarrow>
     writes fs w = \<lparr>w_out = w_out w @ concat (map emit fs), w_ok = w_ok w \<and> list_all fine fs\<rparr>"
proof (induction fs arbitrary: w)
  case Nil
  then show ?case by (simp add: writes_Nil)
next
  case (Cons f fs)
  then have "f w = \<lparr>w_out = w_out w @ emit f, w_ok = w_ok w \<and> fine f\<rparr>"
    by (simp add: regularD)
  with Cons show ?case by (simp add: writes_Cons)
qed

lemma regular_writes [emits]: "\<forall>f \<in> set fs. regular f \<Longrightarrow> regular (writes fs)"
  and emit_writes [emits]: "\<forall>f \<in> set fs. regular f \<Longrightarrow> emit (writes fs) = concat (map emit fs)"
  and fine_writes [emits]: "\<forall>f \<in> set fs. regular f \<Longrightarrow> fine (writes fs) = list_all fine fs"
  by (rule regularI, erule writes_run)+

lemma w_u8_run: "w_u8 v w = \<lparr>w_out = w_out w @ [v], w_ok = w_ok w \<and> True\<rparr>"
  by (cases w) (simp add: w_u8_def)

lemma regular_w_u8 [emits]: "regular (w_u8 v)"
  and fine_w_u8 [emits]: "fine (w_u8 v)"
  and emit_w_u8: "emit (w_u8 v) = [v]"
  and length_w_u8 [emits]: "length (emit (w_u8 v)) = 1"
  using regularI [OF w_u8_run] by simp_all

lemma w_append_run: "w_append bs w = \<lparr>w_out = w_out w @ bs, w_ok = w_ok w \<and> True\<rparr>"
  by (cases w) (simp add: w_append_def)

lemmas w_append_emits [emits] = regularI [OF w_append_run]

lemma regular_w_u16 [emits]: "regular (w_u16 v)"
  and fine_w_u16 [emits]: "fine (w_u16 v)"
  and length_w_u16 [emits]: "length (emit (w_u16 v)) = 2"
  by (simp_all add: w_u16_def emits emit_w_u8)

lemma regular_w_u32 [emits]: "regular (w_u32 v)"
  and fine_w_u32 [emits]: "fine (w_u32 v)"
  and length_w_u32 [emits]: "length (emit (w_u32 v)) = 4"
  by (simp_all add: w_u32_def emits)

text \<open>Every pair of bytes is what some word is written as, and every four.\<close>

lemma emit_join:
  "emit (w_u16 (join_u16 low high)) = [low, high]"
  "emit (w_u32 (join_u32 l h)) = emit (w_u16 l) @ emit (w_u16 h)"
  by (simp_all add: w_u16_def w_u32_def emits emit_w_u8 halves_join_u16 halves_join_u32)

lemma regular_w_u64 [emits]: "regular (w_u64 v)"
  and fine_w_u64 [emits]: "fine (w_u64 v)"
  and length_w_u64 [emits]: "length (emit (w_u64 v)) = 8"
  by (simp_all add: w_u64_def emits)

lemma w_i16_emits [emits]: "regular (w_i16 v)" "fine (w_i16 v)" "length (emit (w_i16 v)) = 2"
  and w_i32_emits [emits]: "regular (w_i32 v')" "fine (w_i32 v')" "length (emit (w_i32 v')) = 4"
  and w_i64_emits [emits]: "regular (w_i64 u)" "fine (w_i64 u)" "length (emit (w_i64 u)) = 8"
  by (simp_all add: w_i16_def w_i32_def w_i64_def emits)

lemma w_str_run:
  "w_str cs w =
     \<lparr>w_out = w_out w @ (if length cs > 0xFFFF then [] else emit (w_u16 (of_nat (length cs))) @ cs),
      w_ok = w_ok w \<and> length cs \<le> 0xFFFF\<rparr>"
  by (cases w) (simp add: w_str_def w_fail_def writes_run emits)

lemma regular_w_str [emits]: "regular (w_str cs)"
  and fine_w_str [emits]: "fine (w_str cs) \<longleftrightarrow> length cs \<le> 0xFFFF"
  using regularI [OF w_str_run] by auto

lemma emit_w_str:
  "length cs \<le> 0xFFFF \<Longrightarrow> emit (w_str cs) = emit (w_u16 (of_nat (length cs))) @ cs"
  by (simp add: regularI [OF w_str_run])

lemma length_w_str [emits]: "length cs \<le> 0xFFFF \<Longrightarrow> length (emit (w_str cs)) = 2 + length cs"
  by (simp add: emit_w_str emits)

lemma w_blob_run:
  "w_blob bs w =
     \<lparr>w_out = w_out w @ (if length bs > 0xFFFFFFFF then [] else emit (w_u32 (of_nat (length bs))) @ bs),
      w_ok = w_ok w \<and> length bs \<le> 0xFFFFFFFF\<rparr>"
  by (cases w) (simp add: w_blob_def w_fail_def writes_run emits)

lemma regular_w_blob [emits]: "regular (w_blob bs)"
  and fine_w_blob [emits]: "fine (w_blob bs) \<longleftrightarrow> length bs \<le> 0xFFFFFFFF"
  using regularI [OF w_blob_run] by auto

lemma emit_w_blob:
  "length bs \<le> 0xFFFFFFFF \<Longrightarrow> emit (w_blob bs) = emit (w_u32 (of_nat (length bs))) @ bs"
  by (simp add: regularI [OF w_blob_run])

lemma length_w_blob [emits]: "length bs \<le> 0xFFFFFFFF \<Longrightarrow> length (emit (w_blob bs)) = 4 + length bs"
  by (simp add: emit_w_blob emits)

lemma regular_w_counted [emits]: "(\<And>x. regular (entry x)) \<Longrightarrow> regular (w_counted entry xs)"
  and fine_w_counted:
    "(\<And>x. regular (entry x)) \<Longrightarrow> fine (w_counted entry xs) \<longleftrightarrow> list_all (\<lambda>x. fine (entry x)) xs"
  and emit_w_counted:
    "(\<And>x. regular (entry x)) \<Longrightarrow>
       emit (w_counted entry xs) = emit (w_u32 (of_nat (length xs))) @ concat (map (\<lambda>x. emit (entry x)) xs)"
  by (simp_all add: w_counted_def emits list_all_iff comp_def)

lemma length_w_counted [emits]:
  "(\<And>x. regular (entry x)) \<Longrightarrow>
     length (emit (w_counted entry xs)) = 4 + (\<Sum>x\<leftarrow>xs. length (emit (entry x)))"
  by (simp add: emit_w_counted emits length_concat comp_def)

section \<open>A reader standing at what a writer appended\<close>

definition rd_at :: "bytes \<Rightarrow> bytes \<Rightarrow> reader" where
  "rd_at pre rest = \<lparr>r_bytes = pre @ rest, r_pos = length pre, r_ok = True\<rparr>"

lemma r_new_at: "r_new bs = rd_at [] bs"
  by (simp add: r_new_def rd_at_def)

lemma rd_at_ok [simp]: "r_ok (rd_at pre rest)"
  and rd_at_remaining [simp]: "r_remaining (rd_at pre rest) = length rest"
  by (simp_all add: rd_at_def r_remaining_def)

lemma r_is_ok_at [roundtrip]: "run_state r_is_ok (rd_at pre rest) = (True, rd_at pre rest)"
  by (simp add: r_is_ok_def)

lemma r_fail_if_False [roundtrip]: "run_state (r_fail_if False) r = ((), r)"
  by (simp add: r_fail_if_def)

lemma r_take_at: "run_state (r_take (length bs)) (rd_at pre (bs @ rest)) = (True, rd_at (pre @ bs) rest)"
  by (simp add: r_take_def rd_at_def)

lemma r_u8_at_Cons: "run_state r_u8 (rd_at pre (v # rest)) = (v, rd_at (pre @ [v]) rest)"
  using r_take_at [of "[v]" pre rest]
  by (simp add: r_u8_def) (simp add: rd_at_def nth_append)

lemma r_u8_at [roundtrip]:
  "run_state r_u8 (rd_at pre (emit (w_u8 v) @ rest)) = (v, rd_at (pre @ emit (w_u8 v)) rest)"
  by (simp add: emit_w_u8 r_u8_at_Cons)

lemma r_u16_at [roundtrip]:
  "run_state r_u16 (rd_at pre (emit (w_u16 v) @ rest)) = (v, rd_at (pre @ emit (w_u16 v)) rest)"
  by (simp add: r_u16_def w_u16_def emits emit_w_u8 r_u8_at_Cons split_u16)

lemma r_u32_at [roundtrip]:
  "run_state r_u32 (rd_at pre (emit (w_u32 v) @ rest)) = (v, rd_at (pre @ emit (w_u32 v)) rest)"
  by (simp add: r_u32_def w_u32_def emits r_u16_at split_u32)

lemma r_u64_at [roundtrip]:
  "run_state r_u64 (rd_at pre (emit (w_u64 v) @ rest)) = (v, rd_at (pre @ emit (w_u64 v)) rest)"
  by (simp add: r_u64_def w_u64_def emits r_u32_at split_u64)

lemma r_i16_at [roundtrip]:
    "run_state r_i16 (rd_at pre (emit (w_i16 v) @ rest)) = (v, rd_at (pre @ emit (w_i16 v)) rest)"
  and r_i32_at [roundtrip]:
    "run_state r_i32 (rd_at pre (emit (w_i32 v') @ rest)) = (v', rd_at (pre @ emit (w_i32 v')) rest)"
  and r_i64_at [roundtrip]:
    "run_state r_i64 (rd_at pre (emit (w_i64 u) @ rest)) = (u, rd_at (pre @ emit (w_i64 u)) rest)"
  by (simp_all add: r_i16_def w_i16_def r_i32_def w_i32_def r_i64_def w_i64_def roundtrip)

lemma r_bytes_of_at: "run_state (r_bytes_of (length bs)) (rd_at pre (bs @ rest)) = (bs, rd_at (pre @ bs) rest)"
  by (simp add: r_bytes_of_def r_take_at) (simp add: rd_at_def)

lemma r_str_at [roundtrip]:
  "length cs \<le> 0xFFFF \<Longrightarrow>
     run_state r_str (rd_at pre (emit (w_str cs) @ rest)) = (cs, rd_at (pre @ emit (w_str cs)) rest)"
  using r_bytes_of_at [of cs "pre @ emit (w_u16 (of_nat (length cs)))" rest]
  by (simp add: r_str_def emit_w_str roundtrip unat_of_nat_len)

lemma r_blob_at [roundtrip]:
  "length bs \<le> unat cap \<Longrightarrow>
     run_state (r_blob cap) (rd_at pre (emit (w_blob bs) @ rest)) = (bs, rd_at (pre @ emit (w_blob bs)) rest)"
proof -
  assume le: "length bs \<le> unat cap"
  have lt: "length bs < 2 ^ 32" using le unat_lt2p_u32 [of cap] by simp
  have "\<not> cap < of_nat (length bs)"
    using le lt by (simp add: word_less_nat_alt unat_of_nat_len)
  then show ?thesis
    using lt r_bytes_of_at [of bs "pre @ emit (w_u32 (of_nat (length bs)))" rest]
    by (simp add: r_blob_def emit_w_blob roundtrip unat_of_nat_len)
qed

lemma r_count_at:
  assumes "n < 2 ^ 32" and "0 < k" and "n * k \<le> length rest"
  shows "run_state (r_count k) (rd_at pre (emit (w_u32 (of_nat n)) @ rest))
       = (of_nat n, rd_at (pre @ emit (w_u32 (of_nat n))) rest)"
proof -
  have "n \<le> length rest div k" using assms by (simp add: less_eq_div_iff_mult_less_eq)
  then show ?thesis using assms by (auto simp: r_count_def roundtrip unat_of_nat_len)
qed

section \<open>Careful readers\<close>

text \<open>
  A careful reader never changes its input, never moves backwards, never moves past the end,
  and leaves a reader that has already failed exactly as it is.
\<close>

definition careful_step :: "reader \<Rightarrow> reader \<Rightarrow> bool" where
  "careful_step r r' \<longleftrightarrow>
     r_bytes r' = r_bytes r \<and> r_pos r \<le> r_pos r' \<and>
     (r_pos r \<le> length (r_bytes r) \<longrightarrow> r_pos r' \<le> length (r_bytes r)) \<and>
     (\<not> r_ok r \<longrightarrow> r' = r)"

definition careful :: "(reader, 'a) state \<Rightarrow> bool" where
  "careful m \<longleftrightarrow> (\<forall>r. careful_step r (snd (run_state m r)))"

lemma carefulI: "(\<And>r. careful_step r (snd (run_state m r))) \<Longrightarrow> careful m"
  by (simp add: careful_def)

lemma carefulD: "careful m \<Longrightarrow> careful_step r (snd (run_state m r))"
  by (simp add: careful_def)

lemma careful_step_refl [simp]: "careful_step r r"
  by (simp add: careful_step_def)

lemma careful_step_trans: "careful_step a b \<Longrightarrow> careful_step b c \<Longrightarrow> careful_step a c"
  by (auto simp: careful_step_def)

lemma careful_return [careful_intros]: "careful (State_Monad.return x)"
  by (simp add: careful_def)

lemma careful_bind [careful_intros]:
  "careful m \<Longrightarrow> (\<And>x. careful (f x)) \<Longrightarrow> careful (State_Monad.bind m f)"
  by (rule carefulI) (auto split: prod.split intro: careful_step_trans dest!: carefulD
      simp: careful_def eq_snd_iff)

lemma careful_if [careful_intros]: "careful m \<Longrightarrow> careful n \<Longrightarrow> careful (if b then m else n)"
  by simp

lemma careful_r_is_ok [careful_intros]: "careful r_is_ok"
  and careful_r_fail [careful_intros]: "careful r_fail"
  and careful_r_take: "careful (r_take n)"
  by (auto simp: careful_def careful_step_def r_is_ok_def r_fail_def r_take_def)

lemma careful_r_fail_if [careful_intros]: "careful (r_fail_if b)"
  by (simp add: r_fail_if_def careful_intros)

lemma careful_r_u8 [careful_intros]: "careful r_u8"
  and careful_r_bytes_of [careful_intros]: "careful (r_bytes_of n)"
  by (auto simp: careful_def careful_step_def r_u8_def r_bytes_of_def r_take_def)

lemma careful_r_u16 [careful_intros]: "careful r_u16"
  by (simp add: r_u16_def careful_intros)

lemma careful_r_u32 [careful_intros]: "careful r_u32"
  by (simp add: r_u32_def careful_intros)

lemma careful_r_u64 [careful_intros]: "careful r_u64"
  by (simp add: r_u64_def careful_intros)

lemma careful_r_signed [careful_intros]: "careful r_i16" "careful r_i32" "careful r_i64"
  by (simp_all add: r_i16_def r_i32_def r_i64_def careful_intros)

lemma careful_r_str [careful_intros]: "careful r_str"
  by (simp add: r_str_def careful_intros)

lemma careful_r_blob [careful_intros]: "careful (r_blob cap)"
  by (simp add: r_blob_def careful_intros)

lemma careful_r_enum [careful_intros]: "careful (r_enum of_code highest value)"
  by (simp add: r_enum_def careful_intros)

lemma careful_r_count [careful_intros]: "careful (r_count k)"
  unfolding r_count_def
  by (intro careful_bind careful_r_u32) (auto simp: careful_def careful_step_def)

lemma careful_r_times [careful_intros]: "careful entry \<Longrightarrow> careful (r_times n entry)"
  by (induction n) (simp_all add: careful_intros)

lemma careful_r_each [careful_intros]: "careful entry \<Longrightarrow> careful (r_each n entry)"
  by (induction n) (simp_all add: careful_intros)

lemma careful_r_counted [careful_intros]: "careful entry \<Longrightarrow> careful (r_counted k entry)"
  and careful_r_counted_each [careful_intros]: "careful entry \<Longrightarrow> careful (r_counted_each k entry)"
  by (simp_all add: r_counted_def r_counted_each_def careful_intros)

text \<open>A container is never larger than the payload can pay for.\<close>

lemma length_r_times: "length (fst (run_state (r_times n entry) r)) \<le> n"
proof (induction n arbitrary: r)
  case (Suc n)
  obtain x r1 where r1: "run_state entry r = (x, r1)" by force
  obtain xs r2 where "run_state (r_times n entry) r1 = (xs, r2)" by force
  with r1 Suc.IH [of r1] show ?case by (simp add: r_is_ok_def)
qed simp

lemma length_r_each: "length (fst (run_state (r_each n entry) r)) \<le> n"
proof (induction n arbitrary: r)
  case (Suc n)
  obtain x r1 where r1: "run_state entry r = (x, r1)" by force
  obtain xs r2 where "run_state (r_each n entry) r1 = (xs, r2)" by force
  with r1 Suc.IH [of r1] show ?case by (simp add: r_is_ok_def)
qed simp

lemma remaining_careful: "careful m \<Longrightarrow> r_remaining (snd (run_state m r)) \<le> r_remaining r"
  using carefulD [of m r] by (auto simp: careful_step_def r_remaining_def)

lemma r_count_bound: "unat (fst (run_state (r_count k) r)) * k \<le> r_remaining r"
proof -
  obtain v r1 where r1: "run_state r_u32 r = (v, r1)" by force
  have le: "r_remaining r1 \<le> r_remaining r"
    using remaining_careful [OF careful_r_u32, of r] r1 by simp
  show ?thesis
  proof (cases "\<not> r_ok r1 \<or> k = 0 \<or> unat v > r_remaining r1 div k")
    case True
    then show ?thesis by (simp add: r_count_def r1)
  next
    case False
    then have "unat v \<le> r_remaining r1 div k" and "0 < k" by simp_all
    then have "unat v * k \<le> r_remaining r1"
      by (simp add: less_eq_div_iff_mult_less_eq)
    with False le show ?thesis by (simp add: r_count_def r1)
  qed
qed

lemma r_counted_bound: "length (fst (run_state (r_counted k entry) r)) * k \<le> r_remaining r"
proof -
  obtain n r1 where r1: "run_state (r_count k) r = (n, r1)" by force
  have "length (fst (run_state (r_times (unat n) entry) r1)) * k \<le> unat n * k"
    by (simp add: length_r_times)
  also have "\<dots> \<le> r_remaining r" using r_count_bound [of k r] r1 by simp
  finally show ?thesis by (simp add: r_counted_def r1)
qed

lemma r_counted_each_bound: "length (fst (run_state (r_counted_each k entry) r)) * k \<le> r_remaining r"
proof -
  obtain n r1 where r1: "run_state (r_count k) r = (n, r1)" by force
  have "length (fst (run_state (r_each (unat n) entry) r1)) * k \<le> unat n * k"
    by (simp add: length_r_each)
  also have "\<dots> \<le> r_remaining r" using r_count_bound [of k r] r1 by simp
  finally show ?thesis by (simp add: r_counted_each_def r1)
qed

section \<open>The contract of a codec\<close>

text \<open>
  A \<open>codec\<close> is a writer and a reader of one type with a well-formedness predicate saying
  which values can be said on this wire. Its laws are the two halves of the protocol's
  promise: the writer is regular and can say every well-formed value, the reader is careful,
  and what the writer appended the reader takes back, leaving what follows alone.
\<close>

locale codec =
  fixes wr :: "'a \<Rightarrow> writer \<Rightarrow> writer"
    and rd :: "(reader, 'a) state"
    and wf :: "'a \<Rightarrow> bool"
  assumes wr_regular [emits]: "regular (wr v)"
    and wr_fine [emits]: "wf v \<Longrightarrow> fine (wr v)"
    and rd_careful [careful_intros]: "careful rd"
    and rd_at_wr [roundtrip]:
      "wf v \<Longrightarrow> run_state rd (rd_at pre (emit (wr v) @ rest)) = (v, rd_at (pre @ emit (wr v)) rest)"
begin

text \<open>The whole payload, from the first byte: nothing is left over and the value is back.\<close>

lemma decode_emit:
  assumes "wf v"
  shows "run_state rd (r_new (emit (wr v))) = (v, rd_at (emit (wr v)) [])"
  using rd_at_wr [OF assms, of "[]" "[]"] by (simp add: r_new_at)

text \<open>No two well-formed values are said in the same bytes.\<close>

lemma emit_inj: "wf v \<Longrightarrow> wf u \<Longrightarrow> emit (wr v) = emit (wr u) \<Longrightarrow> v = u"
  by (metis decode_emit prod.inject)

text \<open>Entries one after another, as the loops read them.\<close>

lemma times_at:
  "list_all wf xs \<Longrightarrow>
     run_state (r_times (length xs) rd) (rd_at pre (concat (map (\<lambda>x. emit (wr x)) xs) @ rest))
     = (xs, rd_at (pre @ concat (map (\<lambda>x. emit (wr x)) xs)) rest)"
  by (induction xs arbitrary: pre) (simp_all add: r_is_ok_at rd_at_wr)

lemma each_at:
  "list_all wf xs \<Longrightarrow>
     run_state (r_each (length xs) rd) (rd_at pre (concat (map (\<lambda>x. emit (wr x)) xs) @ rest))
     = (xs, rd_at (pre @ concat (map (\<lambda>x. emit (wr x)) xs)) rest)"
  by (induction xs arbitrary: pre) (simp_all add: r_is_ok_at rd_at_wr)

end

text \<open>
  An entry of a container also has a least size, the number the reader divides what is left
  of the payload by. The law says the number is honest: no well-formed entry is shorter, so
  a count the writer wrote is never refused.
\<close>

locale entry_codec = codec +
  fixes least :: nat
  assumes least_pos: "0 < least"
    and least_le: "wf v \<Longrightarrow> least \<le> length (emit (wr v))"
begin

lemma entries_least: "list_all wf xs \<Longrightarrow> length xs * least \<le> length (concat (map (\<lambda>x. emit (wr x)) xs))"
proof (induction xs)
  case (Cons x xs)
  then have "least \<le> length (emit (wr x))" by (simp add: least_le)
  with Cons show ?case by simp
qed simp

lemma count_at:
  assumes "list_all wf xs" and "length xs < 2 ^ 32"
  shows "run_state (r_count least)
           (rd_at pre (emit (w_u32 (of_nat (length xs))) @ concat (map (\<lambda>x. emit (wr x)) xs) @ rest))
       = (of_nat (length xs),
          rd_at (pre @ emit (w_u32 (of_nat (length xs)))) (concat (map (\<lambda>x. emit (wr x)) xs) @ rest))"
  using entries_least [OF assms(1)] assms(2) least_pos by (intro r_count_at) simp_all

lemma counted_at [roundtrip]:
  assumes "list_all wf xs" and "length xs < 2 ^ 32"
  shows "run_state (r_counted least rd) (rd_at pre (emit (w_counted wr xs) @ rest))
       = (xs, rd_at (pre @ emit (w_counted wr xs)) rest)"
  using assms times_at [OF assms(1), of "pre @ emit (w_u32 (of_nat (length xs)))" rest]
  by (simp add: r_counted_def emit_w_counted wr_regular count_at unat_of_nat_len)

lemma counted_each_at [roundtrip]:
  assumes "list_all wf xs" and "length xs < 2 ^ 32"
  shows "run_state (r_counted_each least rd) (rd_at pre (emit (w_counted wr xs) @ rest))
       = (xs, rd_at (pre @ emit (w_counted wr xs)) rest)"
  using assms each_at [OF assms(1), of "pre @ emit (w_u32 (of_nat (length xs)))" rest]
  by (simp add: r_counted_each_def emit_w_counted wr_regular count_at unat_of_nat_len)

lemma counted_fine [emits]: "list_all wf xs \<Longrightarrow> fine (w_counted wr xs)"
  by (auto simp: fine_w_counted wr_regular list_all_iff intro: wr_fine)

end

text \<open>A container of entries is a codec again.\<close>

sublocale entry_codec \<subseteq> counted: codec "w_counted wr" "r_counted least rd"
  "\<lambda>xs. list_all wf xs \<and> length xs < 2 ^ 32"
  by unfold_locales
    (simp_all add: regular_w_counted wr_regular counted_fine careful_r_counted rd_careful counted_at)

sublocale entry_codec \<subseteq> counted_each: codec "w_counted wr" "r_counted_each least rd"
  "\<lambda>xs. list_all wf xs \<and> length xs < 2 ^ 32"
  by unfold_locales
    (simp_all add: regular_w_counted wr_regular counted_fine careful_r_counted_each rd_careful counted_each_at)

text \<open>An enumeration travels as one byte, and only the values it has are read back.\<close>

locale wire_enum =
  fixes code :: "'e \<Rightarrow> u8"
    and of_code :: "u8 \<Rightarrow> 'e"
    and highest :: u8
  assumes of_code_code: "of_code (code e) = e"
    and code_le: "code e \<le> highest"
begin

lemma enum_at [roundtrip]: "run_state (r_enum of_code highest (code e)) r = (e, r)"
  using code_le [of e] by (simp add: r_enum_def of_code_code flip: not_less)

lemma enum_codec: "codec (\<lambda>e. w_u8 (code e)) (State_Monad.bind r_u8 (r_enum of_code highest)) (\<lambda>_. True)"
  by unfold_locales (simp_all add: emits careful_intros roundtrip enum_at)

lemma enum_refused: "value > highest \<Longrightarrow> \<not> r_ok (snd (run_state (r_enum of_code highest value) r))"
  by (simp add: r_enum_def r_fail_def)

end

text \<open>The integers and strings of the wire are codecs themselves.\<close>

interpretation u16_codec: entry_codec w_u16 r_u16 "\<lambda>_. True" 2
  by unfold_locales (simp_all add: emits careful_intros roundtrip)

interpretation u64_codec: entry_codec w_u64 r_u64 "\<lambda>_. True" 8
  by unfold_locales (simp_all add: emits careful_intros roundtrip)

interpretation str_codec: entry_codec w_str r_str "\<lambda>s. length s \<le> 0xFFFF" 2
  by unfold_locales (simp_all add: emits careful_intros roundtrip)

interpretation blob_codec: codec w_blob "r_blob cap" "\<lambda>bs. length bs \<le> unat cap" for cap
proof unfold_locales
  fix v :: bytes
  assume "length v \<le> unat cap"
  then show "fine (w_blob v)" using unat_lt2p_u32 [of cap] by (simp add: emits)
qed (simp_all add: emits careful_intros roundtrip)

end
