(* ===== verification/Wire_Types.thy ===== *)
theory Wire_Types
  imports Wire_Bytes
begin

text \<open>
  The values the protocol carries (\<^verbatim>\<open>src/src/common/proto.hpp\<close>) and the \<open>write\<close> and \<open>read\<close>
  of each (\<^verbatim>\<open>proto.cpp\<close>): cells and runs of cells, rectangles, cursors, print jobs, grid
  operations, and everything a snapshot says of a terminal. Each is shown to be a codec: what
  its writer appends, its reader takes back.

  Cells and their colours belong to the ckVision library. The model keeps of a cell what the
  code asks it (grapheme, width, style), and takes the library's constructors as a parameter.
\<close>

section \<open>The library's cells\<close>

text \<open>A colour as the three kinds its accessors tell apart.\<close>

datatype color = Default_Color | Indexed u8 | Rgb u8 u8 u8

record style =
  fg :: color
  bg :: color
  attrs :: u8
  underline :: u8
  underline_color :: color

record cell =
  grapheme :: bytes
  cell_width :: int
  cell_style :: style

text \<open>
  \<open>Cell::from_grapheme\<close>, \<open>Cell::continuation\<close>, \<open>Cell\<lbrace>\<rbrace>\<close> and \<open>Style\<lbrace>\<rbrace>\<close>: code of the library,
  so any functions and values of these types.
\<close>

record ckvision =
  from_grapheme :: "bytes \<Rightarrow> style \<Rightarrow> cell"
  continuation :: "style \<Rightarrow> cell"
  default_cell :: cell
  default_style :: style

section \<open>The caps of the protocol\<close>

definition max_payload_bytes :: u32 where
  "max_payload_bytes = 1024 * 1024"

definition max_chunk_payload_bytes :: u32 where
  "max_chunk_payload_bytes = 256 * 1024"

definition max_snapshot_payload_bytes :: u32 where
  "max_snapshot_payload_bytes = 16 * 1024 * 1024"

definition max_string_bytes :: u32 where
  "max_string_bytes = 64 * 1024"

definition max_cell_text_bytes :: nat where
  "max_cell_text_bytes = 15"

definition max_grid_columns :: u16 where
  "max_grid_columns = 1000"

definition max_grid_rows :: u16 where
  "max_grid_rows = 1000"

definition max_grid_cells :: nat where
  "max_grid_cells = unat max_grid_columns * unat max_grid_rows"

lemma cap_values [emits]:
  "unat max_string_bytes = 65536"
  "unat max_chunk_payload_bytes = 262144"
  "unat max_payload_bytes = 1048576"
  "unat max_snapshot_payload_bytes = 16777216"
  by (simp_all add: max_string_bytes_def max_chunk_payload_bytes_def max_payload_bytes_def
      max_snapshot_payload_bytes_def)

section \<open>Enumerations\<close>

datatype client_kind = Ui | Cli

primrec client_kind_code :: "client_kind \<Rightarrow> u8" where
  "client_kind_code Ui = 0"
| "client_kind_code Cli = 1"

definition client_kind_of :: "u8 \<Rightarrow> client_kind" where
  "client_kind_of v = (if v = 0 then Ui else Cli)"

interpretation client_kind_enum: wire_enum client_kind_code client_kind_of 1
proof unfold_locales
  fix e
  show "client_kind_of (client_kind_code e) = e" and "client_kind_code e \<le> 1"
    by (cases e; simp add: client_kind_of_def)+
qed

definition w_client_kind :: "client_kind \<Rightarrow> writer \<Rightarrow> writer" where
  "w_client_kind e = w_u8 (client_kind_code e)"

definition r_client_kind :: "(reader, client_kind) state" where
  "r_client_kind = do { value \<leftarrow> r_u8; r_enum client_kind_of 1 value }"

interpretation client_kind_codec: codec w_client_kind r_client_kind "\<lambda>_. True"
  unfolding w_client_kind_def r_client_kind_def by (rule client_kind_enum.enum_codec)

lemma length_w_client_kind [emits]: "length (emit (w_client_kind e)) = 1"
  by (simp add: w_client_kind_def emits)

datatype detach_reason = By_User | By_Takeover | Session_Killed | Server_Shutdown

primrec detach_reason_code :: "detach_reason \<Rightarrow> u8" where
  "detach_reason_code By_User = 0"
| "detach_reason_code By_Takeover = 1"
| "detach_reason_code Session_Killed = 2"
| "detach_reason_code Server_Shutdown = 3"

definition detach_reason_of :: "u8 \<Rightarrow> detach_reason" where
  "detach_reason_of v = (if v = 0 then By_User else if v = 1 then By_Takeover else if v = 2 then Session_Killed else Server_Shutdown)"

interpretation detach_reason_enum: wire_enum detach_reason_code detach_reason_of 3
proof unfold_locales
  fix e
  show "detach_reason_of (detach_reason_code e) = e" and "detach_reason_code e \<le> 3"
    by (cases e; simp add: detach_reason_of_def)+
qed

definition w_detach_reason :: "detach_reason \<Rightarrow> writer \<Rightarrow> writer" where
  "w_detach_reason e = w_u8 (detach_reason_code e)"

definition r_detach_reason :: "(reader, detach_reason) state" where
  "r_detach_reason = do { value \<leftarrow> r_u8; r_enum detach_reason_of 3 value }"

interpretation detach_reason_codec: codec w_detach_reason r_detach_reason "\<lambda>_. True"
  unfolding w_detach_reason_def r_detach_reason_def by (rule detach_reason_enum.enum_codec)

lemma length_w_detach_reason [emits]: "length (emit (w_detach_reason e)) = 1"
  by (simp add: w_detach_reason_def emits)

datatype diagnostic_kind = Limit_Exceeded | Unsupported_Sequence | Malformed_Sequence | Child_Exited

primrec diagnostic_kind_code :: "diagnostic_kind \<Rightarrow> u8" where
  "diagnostic_kind_code Limit_Exceeded = 0"
| "diagnostic_kind_code Unsupported_Sequence = 1"
| "diagnostic_kind_code Malformed_Sequence = 2"
| "diagnostic_kind_code Child_Exited = 3"

definition diagnostic_kind_of :: "u8 \<Rightarrow> diagnostic_kind" where
  "diagnostic_kind_of v = (if v = 0 then Limit_Exceeded else if v = 1 then Unsupported_Sequence else if v = 2 then Malformed_Sequence else Child_Exited)"

interpretation diagnostic_kind_enum: wire_enum diagnostic_kind_code diagnostic_kind_of 3
proof unfold_locales
  fix e
  show "diagnostic_kind_of (diagnostic_kind_code e) = e" and "diagnostic_kind_code e \<le> 3"
    by (cases e; simp add: diagnostic_kind_of_def)+
qed

definition w_diagnostic_kind :: "diagnostic_kind \<Rightarrow> writer \<Rightarrow> writer" where
  "w_diagnostic_kind e = w_u8 (diagnostic_kind_code e)"

definition r_diagnostic_kind :: "(reader, diagnostic_kind) state" where
  "r_diagnostic_kind = do { value \<leftarrow> r_u8; r_enum diagnostic_kind_of 3 value }"

interpretation diagnostic_kind_codec: codec w_diagnostic_kind r_diagnostic_kind "\<lambda>_. True"
  unfolding w_diagnostic_kind_def r_diagnostic_kind_def by (rule diagnostic_kind_enum.enum_codec)

lemma length_w_diagnostic_kind [emits]: "length (emit (w_diagnostic_kind e)) = 1"
  by (simp add: w_diagnostic_kind_def emits)

datatype printer_scope = Scope_Terminal | Scope_Session | Scope_Global

primrec printer_scope_code :: "printer_scope \<Rightarrow> u8" where
  "printer_scope_code Scope_Terminal = 0"
| "printer_scope_code Scope_Session = 1"
| "printer_scope_code Scope_Global = 2"

definition printer_scope_of :: "u8 \<Rightarrow> printer_scope" where
  "printer_scope_of v = (if v = 0 then Scope_Terminal else if v = 1 then Scope_Session else Scope_Global)"

interpretation printer_scope_enum: wire_enum printer_scope_code printer_scope_of 2
proof unfold_locales
  fix e
  show "printer_scope_of (printer_scope_code e) = e" and "printer_scope_code e \<le> 2"
    by (cases e; simp add: printer_scope_of_def)+
qed

definition w_printer_scope :: "printer_scope \<Rightarrow> writer \<Rightarrow> writer" where
  "w_printer_scope e = w_u8 (printer_scope_code e)"

definition r_printer_scope :: "(reader, printer_scope) state" where
  "r_printer_scope = do { value \<leftarrow> r_u8; r_enum printer_scope_of 2 value }"

interpretation printer_scope_codec: codec w_printer_scope r_printer_scope "\<lambda>_. True"
  unfolding w_printer_scope_def r_printer_scope_def by (rule printer_scope_enum.enum_codec)

lemma length_w_printer_scope [emits]: "length (emit (w_printer_scope e)) = 1"
  by (simp add: w_printer_scope_def emits)

datatype printer_mode = Mode_Ask | Mode_Capture | Mode_Off

primrec printer_mode_code :: "printer_mode \<Rightarrow> u8" where
  "printer_mode_code Mode_Ask = 0"
| "printer_mode_code Mode_Capture = 1"
| "printer_mode_code Mode_Off = 2"

definition printer_mode_of :: "u8 \<Rightarrow> printer_mode" where
  "printer_mode_of v = (if v = 0 then Mode_Ask else if v = 1 then Mode_Capture else Mode_Off)"

interpretation printer_mode_enum: wire_enum printer_mode_code printer_mode_of 2
proof unfold_locales
  fix e
  show "printer_mode_of (printer_mode_code e) = e" and "printer_mode_code e \<le> 2"
    by (cases e; simp add: printer_mode_of_def)+
qed

definition w_printer_mode :: "printer_mode \<Rightarrow> writer \<Rightarrow> writer" where
  "w_printer_mode e = w_u8 (printer_mode_code e)"

definition r_printer_mode :: "(reader, printer_mode) state" where
  "r_printer_mode = do { value \<leftarrow> r_u8; r_enum printer_mode_of 2 value }"

interpretation printer_mode_codec: codec w_printer_mode r_printer_mode "\<lambda>_. True"
  unfolding w_printer_mode_def r_printer_mode_def by (rule printer_mode_enum.enum_codec)

lemma length_w_printer_mode [emits]: "length (emit (w_printer_mode e)) = 1"
  by (simp add: w_printer_mode_def emits)

datatype printer_state = Printer_Idle | Printer_Capturing | Printer_Sunk | Printer_Full

primrec printer_state_code :: "printer_state \<Rightarrow> u8" where
  "printer_state_code Printer_Idle = 0"
| "printer_state_code Printer_Capturing = 1"
| "printer_state_code Printer_Sunk = 2"
| "printer_state_code Printer_Full = 3"

definition printer_state_of :: "u8 \<Rightarrow> printer_state" where
  "printer_state_of v = (if v = 0 then Printer_Idle else if v = 1 then Printer_Capturing else if v = 2 then Printer_Sunk else Printer_Full)"

interpretation printer_state_enum: wire_enum printer_state_code printer_state_of 3
proof unfold_locales
  fix e
  show "printer_state_of (printer_state_code e) = e" and "printer_state_code e \<le> 3"
    by (cases e; simp add: printer_state_of_def)+
qed

definition w_printer_state :: "printer_state \<Rightarrow> writer \<Rightarrow> writer" where
  "w_printer_state e = w_u8 (printer_state_code e)"

definition r_printer_state :: "(reader, printer_state) state" where
  "r_printer_state = do { value \<leftarrow> r_u8; r_enum printer_state_of 3 value }"

interpretation printer_state_codec: codec w_printer_state r_printer_state "\<lambda>_. True"
  unfolding w_printer_state_def r_printer_state_def by (rule printer_state_enum.enum_codec)

lemma length_w_printer_state [emits]: "length (emit (w_printer_state e)) = 1"
  by (simp add: w_printer_state_def emits)

datatype print_job_kind = Job_Screen | Job_Line | Job_Controller | Job_Autoprint

primrec print_job_kind_code :: "print_job_kind \<Rightarrow> u8" where
  "print_job_kind_code Job_Screen = 0"
| "print_job_kind_code Job_Line = 1"
| "print_job_kind_code Job_Controller = 2"
| "print_job_kind_code Job_Autoprint = 3"

definition print_job_kind_of :: "u8 \<Rightarrow> print_job_kind" where
  "print_job_kind_of v = (if v = 0 then Job_Screen else if v = 1 then Job_Line else if v = 2 then Job_Controller else Job_Autoprint)"

interpretation print_job_kind_enum: wire_enum print_job_kind_code print_job_kind_of 3
proof unfold_locales
  fix e
  show "print_job_kind_of (print_job_kind_code e) = e" and "print_job_kind_code e \<le> 3"
    by (cases e; simp add: print_job_kind_of_def)+
qed

definition w_print_job_kind :: "print_job_kind \<Rightarrow> writer \<Rightarrow> writer" where
  "w_print_job_kind e = w_u8 (print_job_kind_code e)"

definition r_print_job_kind :: "(reader, print_job_kind) state" where
  "r_print_job_kind = do { value \<leftarrow> r_u8; r_enum print_job_kind_of 3 value }"

interpretation print_job_kind_codec: codec w_print_job_kind r_print_job_kind "\<lambda>_. True"
  unfolding w_print_job_kind_def r_print_job_kind_def by (rule print_job_kind_enum.enum_codec)

lemma length_w_print_job_kind [emits]: "length (emit (w_print_job_kind e)) = 1"
  by (simp add: w_print_job_kind_def emits)

datatype term_stats_state = Stats_Unsupported | Stats_Available | Stats_Partial | Stats_Gone | Stats_Failed

primrec term_stats_state_code :: "term_stats_state \<Rightarrow> u8" where
  "term_stats_state_code Stats_Unsupported = 0"
| "term_stats_state_code Stats_Available = 1"
| "term_stats_state_code Stats_Partial = 2"
| "term_stats_state_code Stats_Gone = 3"
| "term_stats_state_code Stats_Failed = 4"

definition term_stats_state_of :: "u8 \<Rightarrow> term_stats_state" where
  "term_stats_state_of v = (if v = 0 then Stats_Unsupported else if v = 1 then Stats_Available else if v = 2 then Stats_Partial else if v = 3 then Stats_Gone else Stats_Failed)"

interpretation term_stats_state_enum: wire_enum term_stats_state_code term_stats_state_of 4
proof unfold_locales
  fix e
  show "term_stats_state_of (term_stats_state_code e) = e" and "term_stats_state_code e \<le> 4"
    by (cases e; simp add: term_stats_state_of_def)+
qed

definition w_term_stats_state :: "term_stats_state \<Rightarrow> writer \<Rightarrow> writer" where
  "w_term_stats_state e = w_u8 (term_stats_state_code e)"

definition r_term_stats_state :: "(reader, term_stats_state) state" where
  "r_term_stats_state = do { value \<leftarrow> r_u8; r_enum term_stats_state_of 4 value }"

interpretation term_stats_state_codec: codec w_term_stats_state r_term_stats_state "\<lambda>_. True"
  unfolding w_term_stats_state_def r_term_stats_state_def by (rule term_stats_state_enum.enum_codec)

lemma length_w_term_stats_state [emits]: "length (emit (w_term_stats_state e)) = 1"
  by (simp add: w_term_stats_state_def emits)

datatype term_stats_scope = Live_Process_Tree | Owned_Job_Lifetime

primrec term_stats_scope_code :: "term_stats_scope \<Rightarrow> u8" where
  "term_stats_scope_code Live_Process_Tree = 0"
| "term_stats_scope_code Owned_Job_Lifetime = 1"

definition term_stats_scope_of :: "u8 \<Rightarrow> term_stats_scope" where
  "term_stats_scope_of v = (if v = 0 then Live_Process_Tree else Owned_Job_Lifetime)"

interpretation term_stats_scope_enum: wire_enum term_stats_scope_code term_stats_scope_of 1
proof unfold_locales
  fix e
  show "term_stats_scope_of (term_stats_scope_code e) = e" and "term_stats_scope_code e \<le> 1"
    by (cases e; simp add: term_stats_scope_of_def)+
qed

definition w_term_stats_scope :: "term_stats_scope \<Rightarrow> writer \<Rightarrow> writer" where
  "w_term_stats_scope e = w_u8 (term_stats_scope_code e)"

definition r_term_stats_scope :: "(reader, term_stats_scope) state" where
  "r_term_stats_scope = do { value \<leftarrow> r_u8; r_enum term_stats_scope_of 1 value }"

interpretation term_stats_scope_codec: codec w_term_stats_scope r_term_stats_scope "\<lambda>_. True"
  unfolding w_term_stats_scope_def r_term_stats_scope_def by (rule term_stats_scope_enum.enum_codec)

lemma length_w_term_stats_scope [emits]: "length (emit (w_term_stats_scope e)) = 1"
  by (simp add: w_term_stats_scope_def emits)

datatype term_stats_memory = Platform_Cost | Private_Resident

primrec term_stats_memory_code :: "term_stats_memory \<Rightarrow> u8" where
  "term_stats_memory_code Platform_Cost = 0"
| "term_stats_memory_code Private_Resident = 1"

definition term_stats_memory_of :: "u8 \<Rightarrow> term_stats_memory" where
  "term_stats_memory_of v = (if v = 0 then Platform_Cost else Private_Resident)"

interpretation term_stats_memory_enum: wire_enum term_stats_memory_code term_stats_memory_of 1
proof unfold_locales
  fix e
  show "term_stats_memory_of (term_stats_memory_code e) = e" and "term_stats_memory_code e \<le> 1"
    by (cases e; simp add: term_stats_memory_of_def)+
qed

definition w_term_stats_memory :: "term_stats_memory \<Rightarrow> writer \<Rightarrow> writer" where
  "w_term_stats_memory e = w_u8 (term_stats_memory_code e)"

definition r_term_stats_memory :: "(reader, term_stats_memory) state" where
  "r_term_stats_memory = do { value \<leftarrow> r_u8; r_enum term_stats_memory_of 1 value }"

interpretation term_stats_memory_codec: codec w_term_stats_memory r_term_stats_memory "\<lambda>_. True"
  unfolding w_term_stats_memory_def r_term_stats_memory_def by (rule term_stats_memory_enum.enum_codec)

lemma length_w_term_stats_memory [emits]: "length (emit (w_term_stats_memory e)) = 1"
  by (simp add: w_term_stats_memory_def emits)

datatype grid_op_tag = Tag_Scroll | Tag_Cells | Tag_Cursor | Tag_Modes | Tag_Title | Tag_Scrollback_Push | Tag_Resize

primrec grid_op_tag_code :: "grid_op_tag \<Rightarrow> u8" where
  "grid_op_tag_code Tag_Scroll = 0"
| "grid_op_tag_code Tag_Cells = 1"
| "grid_op_tag_code Tag_Cursor = 2"
| "grid_op_tag_code Tag_Modes = 3"
| "grid_op_tag_code Tag_Title = 4"
| "grid_op_tag_code Tag_Scrollback_Push = 5"
| "grid_op_tag_code Tag_Resize = 6"

definition grid_op_tag_of :: "u8 \<Rightarrow> grid_op_tag" where
  "grid_op_tag_of v = (if v = 0 then Tag_Scroll else if v = 1 then Tag_Cells else if v = 2 then Tag_Cursor else if v = 3 then Tag_Modes else if v = 4 then Tag_Title else if v = 5 then Tag_Scrollback_Push else Tag_Resize)"

interpretation grid_op_tag_enum: wire_enum grid_op_tag_code grid_op_tag_of 6
proof unfold_locales
  fix e
  show "grid_op_tag_of (grid_op_tag_code e) = e" and "grid_op_tag_code e \<le> 6"
    by (cases e; simp add: grid_op_tag_of_def)+
qed

definition w_grid_op_tag :: "grid_op_tag \<Rightarrow> writer \<Rightarrow> writer" where
  "w_grid_op_tag e = w_u8 (grid_op_tag_code e)"

definition r_grid_op_tag :: "(reader, grid_op_tag) state" where
  "r_grid_op_tag = do { value \<leftarrow> r_u8; r_enum grid_op_tag_of 6 value }"

interpretation grid_op_tag_codec: codec w_grid_op_tag r_grid_op_tag "\<lambda>_. True"
  unfolding w_grid_op_tag_def r_grid_op_tag_def by (rule grid_op_tag_enum.enum_codec)

lemma length_w_grid_op_tag [emits]: "length (emit (w_grid_op_tag e)) = 1"
  by (simp add: w_grid_op_tag_def emits)

section \<open>Colours and cells\<close>

text \<open>
  One tagged word: the kind in the top byte, the rest whatever that kind has. An indexed
  colour keeps its index end to end.
\<close>

definition w_color :: "color \<Rightarrow> writer \<Rightarrow> writer" where
  "w_color c = w_u32 (case c of
       Rgb r g b \<Rightarrow> push_bit 24 2 OR push_bit 16 (ucast r) OR push_bit 8 (ucast g) OR ucast b
     | Indexed i \<Rightarrow> push_bit 24 1 OR ucast i
     | Default_Color \<Rightarrow> 0)"

definition r_color :: "(reader, color) state" where
  "r_color = do {
     value \<leftarrow> r_u32;
     let kind = drop_bit 24 value;
     if kind = 0 then do {
       r_fail_if (value AND 0x00FFFFFF \<noteq> 0);
       State_Monad.return Default_Color
     } else if kind = 1 then do {
       r_fail_if (value AND 0x00FFFF00 \<noteq> 0);
       State_Monad.return (Indexed (ucast (value AND 0xFF)))
     } else if kind = 2 then
       State_Monad.return (Rgb (ucast (drop_bit 16 value AND 0xFF))
                               (ucast (drop_bit 8 value AND 0xFF))
                               (ucast (value AND 0xFF)))
     else do {
       r_fail;
       State_Monad.return Default_Color
     }
   }"

definition w_cell :: "cell \<Rightarrow> writer \<Rightarrow> writer" where
  "w_cell c = writes [
     w_str (grapheme c),
     w_u8 (word_of_int (max 0 (min 255 (cell_width c)))),
     w_color (fg (cell_style c)),
     w_color (bg (cell_style c)),
     w_u8 (attrs (cell_style c)),
     w_u16 0]"

definition r_cell :: "ckvision \<Rightarrow> (reader, cell) state" where
  "r_cell lib = do {
     cs \<leftarrow> r_str;
     r_fail_if (length cs > max_cell_text_bytes);
     width \<leftarrow> r_u8;
     f \<leftarrow> r_color;
     b \<leftarrow> r_color;
     a \<leftarrow> r_u8;
     reserved \<leftarrow> r_u16;
     r_fail_if (reserved \<noteq> 0);
     good \<leftarrow> r_is_ok;
     let st = (default_style lib)\<lparr>fg := f, bg := b, attrs := a\<rparr>;
     if \<not> good then State_Monad.return (default_cell lib)
     else if width = 0 then
       (if cs \<noteq> [] then do { r_fail; State_Monad.return (default_cell lib) }
        else State_Monad.return (continuation lib st))
     else if cs = [] then do { r_fail; State_Monad.return (default_cell lib) }
     else State_Monad.return (from_grapheme lib cs st)
   }"

text \<open>
  The cells this wire can say: those the library itself builds from the text, the colours and
  the attributes that travel. Underline style and colour are not on the wire.
\<close>

definition wire_style :: "ckvision \<Rightarrow> cell \<Rightarrow> style" where
  "wire_style lib c =
     (default_style lib)\<lparr>fg := fg (cell_style c), bg := bg (cell_style c), attrs := attrs (cell_style c)\<rparr>"

definition wf_cell :: "ckvision \<Rightarrow> cell \<Rightarrow> bool" where
  "wf_cell lib c \<longleftrightarrow>
     (if cell_width c \<le> 0 then grapheme c = [] \<and> c = continuation lib (wire_style lib c)
      else grapheme c \<noteq> [] \<and> length (grapheme c) \<le> max_cell_text_bytes \<and>
           c = from_grapheme lib (grapheme c) (wire_style lib c))"

lemma color_rgb_word:
  fixes k r g b :: u8
  defines "v \<equiv> push_bit 24 (ucast k) OR push_bit 16 (ucast r) OR push_bit 8 (ucast g) OR ucast b :: u32"
  shows "drop_bit 24 v = ucast k"
    and "ucast (drop_bit 16 v AND 0xFF) = r"
    and "ucast (drop_bit 8 v AND 0xFF) = g"
    and "ucast (v AND 0xFF) = b"
  unfolding mask_literals v_def
  by (rule bit_word_eqI, auto simp: bit_simps dest: bit_imp_le_length)+

lemma color_indexed_word:
  fixes k i :: u8
  defines "v \<equiv> push_bit 24 (ucast k) OR ucast i :: u32"
  shows "drop_bit 24 v = ucast k"
    and "v AND 0x00FFFF00 = 0"
    and "ucast (v AND 0xFF) = i"
proof -
  have m: "(0x00FFFF00 :: u32) = push_bit 8 (mask 16)" by (simp add: mask_eq_exp_minus_1)
  show "drop_bit 24 v = ucast k" and "v AND 0x00FFFF00 = 0" and "ucast (v AND 0xFF) = i"
    unfolding mask_literals m v_def
    by (rule bit_word_eqI, auto simp: bit_simps dest: bit_imp_le_length)+
qed

interpretation color_codec: entry_codec w_color r_color "\<lambda>_. True" 4
proof unfold_locales
  fix v pre rest
  show "run_state r_color (rd_at pre (emit (w_color v) @ rest)) = (v, rd_at (pre @ emit (w_color v)) rest)"
  proof (cases v)
    case Default_Color
    then show ?thesis by (simp add: w_color_def r_color_def roundtrip Let_def)
  next
    case (Indexed i)
    then show ?thesis
      using color_indexed_word [of 1 i] by (simp add: w_color_def r_color_def roundtrip Let_def)
  next
    case (Rgb r g b)
    then show ?thesis
      using color_rgb_word [of 2 r g b] by (simp add: w_color_def r_color_def roundtrip Let_def)
  qed
qed (simp_all add: w_color_def r_color_def Let_def emits careful_intros)

lemma length_w_color [emits]: "length (emit (w_color c)) = 4"
  by (simp add: w_color_def emits)

lemma width_byte: "0 < w \<Longrightarrow> (word_of_int (max 0 (min 255 w)) :: u8) \<noteq> 0"
proof
  assume "0 < w" and z: "(word_of_int (max 0 (min 255 w)) :: u8) = 0"
  define u where "u = max 0 (min 255 w)"
  from \<open>0 < w\<close> have "0 < u" "u < 256" by (auto simp: u_def)
  moreover have "uint (word_of_int u :: u8) = u mod 256" by (simp add: uint_word_of_int)
  ultimately have "uint (word_of_int u :: u8) = u" by simp
  with z \<open>0 < u\<close> show False by (simp add: u_def)
qed

interpretation cell_codec: codec w_cell "r_cell lib" "wf_cell lib" for lib
proof unfold_locales
  fix v pre rest
  assume wf: "wf_cell lib v"
  have len: "length (grapheme v) \<le> max_cell_text_bytes"
    using wf by (auto simp: wf_cell_def max_cell_text_bytes_def split: if_splits)
  then have len16: "length (grapheme v) \<le> 0xFFFF" by (simp add: max_cell_text_bytes_def)
  show "run_state (r_cell lib) (rd_at pre (emit (w_cell v) @ rest)) = (v, rd_at (pre @ emit (w_cell v)) rest)"
  proof (cases "cell_width v \<le> 0")
    case True
    then have "max 0 (min 255 (cell_width v)) = 0" by simp
    with True wf len16 show ?thesis
      by (simp add: w_cell_def r_cell_def roundtrip emits Let_def wf_cell_def wire_style_def max_cell_text_bytes_def)
  next
    case False
    then have "(word_of_int (max 0 (min 255 (cell_width v))) :: u8) \<noteq> 0" by (intro width_byte) simp
    with False wf len len16 show ?thesis
      by (simp add: w_cell_def r_cell_def roundtrip emits Let_def wf_cell_def wire_style_def)
  qed
qed (auto simp: w_cell_def r_cell_def Let_def emits careful_intros wf_cell_def max_cell_text_bytes_def split: if_splits)

lemma length_w_cell [emits]:
  "length (grapheme c) \<le> 0xFFFF \<Longrightarrow> length (emit (w_cell c)) = 14 + length (grapheme c)"
  by (simp add: w_cell_def emits)
section \<open>Runs of cells\<close>

record cell_run =
  run_length :: u16
  run_cell :: cell

definition w_run :: "cell_run \<Rightarrow> writer \<Rightarrow> writer" where
  "w_run run = writes [w_u16 (run_length run), w_cell (run_cell run)]"

definition w_runs :: "cell_run list \<Rightarrow> writer \<Rightarrow> writer" where
  "w_runs = w_counted w_run"

definition w_lines :: "cell_run list list \<Rightarrow> writer \<Rightarrow> writer" where
  "w_lines = w_counted w_runs"

text \<open>A run of no cells is malformed; the shortest run is a continuation cell's sixteen bytes.\<close>

definition r_run :: "ckvision \<Rightarrow> (reader, cell_run) state" where
  "r_run lib = do {
     n \<leftarrow> r_u16;
     r_fail_if (n = 0);
     c \<leftarrow> r_cell lib;
     State_Monad.return \<lparr>run_length = n, run_cell = c\<rparr>
   }"

definition r_runs :: "ckvision \<Rightarrow> (reader, cell_run list) state" where
  "r_runs lib = r_counted 16 (r_run lib)"

definition r_lines :: "ckvision \<Rightarrow> (reader, cell_run list list) state" where
  "r_lines lib = r_counted_each 4 (r_runs lib)"

definition wf_run :: "ckvision \<Rightarrow> cell_run \<Rightarrow> bool" where
  "wf_run lib run \<longleftrightarrow> run_length run \<noteq> 0 \<and> wf_cell lib (run_cell run)"

definition wf_runs :: "ckvision \<Rightarrow> cell_run list \<Rightarrow> bool" where
  "wf_runs lib runs \<longleftrightarrow> list_all (wf_run lib) runs \<and> length runs < 2 ^ 32"

definition wf_lines :: "ckvision \<Rightarrow> cell_run list list \<Rightarrow> bool" where
  "wf_lines lib ls \<longleftrightarrow> list_all (wf_runs lib) ls \<and> length ls < 2 ^ 32"

lemma wf_cell_length: "wf_cell lib c \<Longrightarrow> length (grapheme c) \<le> 15"
  by (auto simp: wf_cell_def max_cell_text_bytes_def split: if_splits)

interpretation run_codec: entry_codec w_run "r_run lib" "wf_run lib" 16 for lib
proof unfold_locales
  fix v
  assume "wf_run lib v"
  then have "length (grapheme (run_cell v)) \<le> 0xFFFF"
    using wf_cell_length [of lib "run_cell v"] by (simp add: wf_run_def)
  then show "16 \<le> length (emit (w_run v))" by (simp add: w_run_def emits)
qed (auto simp: w_run_def r_run_def wf_run_def emits careful_intros roundtrip intro: cell_codec.wr_fine)

interpretation runs_codec: entry_codec w_runs "r_runs lib" "wf_runs lib" 4 for lib
proof unfold_locales
  show "careful (r_runs lib)" unfolding r_runs_def by (rule run_codec.counted.rd_careful)
next
  fix v pre rest
  assume "wf_runs lib v"
  then show "run_state (r_runs lib) (rd_at pre (emit (w_runs v) @ rest)) = (v, rd_at (pre @ emit (w_runs v)) rest)"
    unfolding w_runs_def r_runs_def wf_runs_def by (intro run_codec.counted.rd_at_wr)
next
  fix v
  assume "wf_runs lib v"
  then show "fine (w_runs v)" unfolding w_runs_def wf_runs_def using run_codec.counted_fine [of lib v] by blast
qed (simp_all add: w_runs_def emits)

interpretation lines_codec: codec w_lines "r_lines lib" "wf_lines lib" for lib
  unfolding w_lines_def r_lines_def wf_lines_def [abs_def] by (rule runs_codec.counted_each.codec_axioms)

section \<open>Small structures\<close>

record wire_rect =
  rect_x :: i16
  rect_y :: i16
  rect_width :: u16
  rect_height :: u16

definition w_rect :: "wire_rect \<Rightarrow> writer \<Rightarrow> writer" where
  "w_rect m = writes [w_i16 (rect_x m), w_i16 (rect_y m), w_u16 (rect_width m), w_u16 (rect_height m)]"

definition r_rect :: "(reader, wire_rect) state" where
  "r_rect = do {
     v_x \<leftarrow> r_i16;
     v_y \<leftarrow> r_i16;
     v_width \<leftarrow> r_u16;
     v_height \<leftarrow> r_u16;
     State_Monad.return \<lparr>rect_x = v_x, rect_y = v_y, rect_width = v_width, rect_height = v_height\<rparr>
   }"

interpretation rect_codec: codec w_rect "r_rect" "\<lambda>_. True"
  by unfold_locales (auto simp: w_rect_def r_rect_def emits careful_intros roundtrip)

lemma length_w_rect [emits]: "length (emit (w_rect m)) = 8"
  by (simp add: w_rect_def emits)

record tile_fraction =
  tile_x :: u16
  tile_y :: u16
  tile_width :: u16
  tile_height :: u16

definition w_tile :: "tile_fraction \<Rightarrow> writer \<Rightarrow> writer" where
  "w_tile m = writes [w_u16 (tile_x m), w_u16 (tile_y m), w_u16 (tile_width m), w_u16 (tile_height m)]"

definition r_tile :: "(reader, tile_fraction) state" where
  "r_tile = do {
     v_x \<leftarrow> r_u16;
     v_y \<leftarrow> r_u16;
     v_width \<leftarrow> r_u16;
     v_height \<leftarrow> r_u16;
     State_Monad.return \<lparr>tile_x = v_x, tile_y = v_y, tile_width = v_width, tile_height = v_height\<rparr>
   }"

interpretation tile_codec: codec w_tile "r_tile" "\<lambda>_. True"
  by unfold_locales (auto simp: w_tile_def r_tile_def emits careful_intros roundtrip)

lemma length_w_tile [emits]: "length (emit (w_tile m)) = 8"
  by (simp add: w_tile_def emits)

record cursor_op =
  cursor_column :: u16
  cursor_row :: u16
  cursor_style :: u8
  cursor_visible :: u8
  cursor_blink :: u8

definition w_cursor :: "cursor_op \<Rightarrow> writer \<Rightarrow> writer" where
  "w_cursor m = writes [w_u16 (cursor_column m), w_u16 (cursor_row m), w_u8 (cursor_style m), w_u8 (cursor_visible m), w_u8 (cursor_blink m)]"

definition r_cursor :: "(reader, cursor_op) state" where
  "r_cursor = do {
     v_column \<leftarrow> r_u16;
     v_row \<leftarrow> r_u16;
     v_style \<leftarrow> r_u8;
     v_visible \<leftarrow> r_u8;
     v_blink \<leftarrow> r_u8;
     State_Monad.return \<lparr>cursor_column = v_column, cursor_row = v_row, cursor_style = v_style, cursor_visible = v_visible, cursor_blink = v_blink\<rparr>
   }"

interpretation cursor_codec: codec w_cursor "r_cursor" "\<lambda>_. True"
  by unfold_locales (auto simp: w_cursor_def r_cursor_def emits careful_intros roundtrip)

lemma length_w_cursor [emits]: "length (emit (w_cursor m)) = 7"
  by (simp add: w_cursor_def emits)

record print_job_info =
  job_id :: u64
  job_kind :: print_job_kind
  job_bytes :: u32
  job_lines :: u32
  job_at :: i64

definition w_job :: "print_job_info \<Rightarrow> writer \<Rightarrow> writer" where
  "w_job m = writes [w_u64 (job_id m), w_print_job_kind (job_kind m), w_u32 (job_bytes m), w_u32 (job_lines m), w_i64 (job_at m)]"

definition r_job :: "(reader, print_job_info) state" where
  "r_job = do {
     v_id \<leftarrow> r_u64;
     v_kind \<leftarrow> r_print_job_kind;
     v_bytes \<leftarrow> r_u32;
     v_lines \<leftarrow> r_u32;
     v_at \<leftarrow> r_i64;
     State_Monad.return \<lparr>job_id = v_id, job_kind = v_kind, job_bytes = v_bytes, job_lines = v_lines, job_at = v_at\<rparr>
   }"

interpretation job_codec: entry_codec w_job "r_job" "\<lambda>_. True" 25
  by unfold_locales (auto simp: w_job_def r_job_def emits careful_intros roundtrip)

lemma length_w_job [emits]: "length (emit (w_job m)) = 25"
  by (simp add: w_job_def emits)

text \<open>\<open>AttachMode\<close>: what an attach asks of the readers already there. It travels as a plain byte.\<close>

datatype attach_mode = Take_Over | Join | Watch

primrec mode_code :: "attach_mode \<Rightarrow> u8" where
  "mode_code Take_Over = 0"
| "mode_code Join = 1"
| "mode_code Watch = 2"

end
