(* ===== verification/Wire_Messages.thy ===== *)
theory Wire_Messages
  imports Wire_Types
begin

text \<open>
  The whole catalogue of \<^verbatim>\<open>src/src/common/proto.hpp\<close>: the operations of a grid delta, the
  state of a terminal in a snapshot, and every message, with the \<open>write\<close> and \<open>read\<close> pair of
  each from \<^verbatim>\<open>proto.cpp\<close>. A structure of several fields is a record, written and read field
  by field in the order of the wire; a message of one field is a constructor over that field.
\<close>

section \<open>Grid operations\<close>

datatype grid_op =
    ScrollOp (scroll_top: u16) (scroll_bottom: u16) (scroll_lines: i16)
  | CellsOp (cells_row: u16) (cells_column: u16) (cells_runs: "cell_run list")
  | CursorOp cursor_op
  | ModesOp (modes_mask: u32) (modes_values: u32)
  | TitleOp bytes
  | ScrollbackPushOp (push_lines: "cell_run list list")
  | ResizeOp (resize_columns: u16) (resize_rows: u16)

fun w_grid_op :: "grid_op \<Rightarrow> writer \<Rightarrow> writer" where
  "w_grid_op (ScrollOp top_row bottom_row lns) =
     writes [w_grid_op_tag Tag_Scroll, w_u16 top_row, w_u16 bottom_row, w_i16 lns]"
| "w_grid_op (CellsOp row column runs) =
     writes [w_grid_op_tag Tag_Cells, w_u16 row, w_u16 column, w_runs runs]"
| "w_grid_op (CursorOp value) = writes [w_grid_op_tag Tag_Cursor, w_cursor value]"
| "w_grid_op (ModesOp changed_mask values) =
     writes [w_grid_op_tag Tag_Modes, w_u32 changed_mask, w_u32 values]"
| "w_grid_op (TitleOp title) = writes [w_grid_op_tag Tag_Title, w_str title]"
| "w_grid_op (ScrollbackPushOp lns) = writes [w_grid_op_tag Tag_Scrollback_Push, w_lines lns]"
| "w_grid_op (ResizeOp columns rows) =
     writes [w_grid_op_tag Tag_Resize, w_u16 columns, w_u16 rows]"

definition r_grid_op :: "ckvision \<Rightarrow> (reader, grid_op) state" where
  "r_grid_op lib = do {
     tag \<leftarrow> r_grid_op_tag;
     (case tag of
       Tag_Scroll \<Rightarrow> do {
         top_row \<leftarrow> r_u16; bottom_row \<leftarrow> r_u16; lns \<leftarrow> r_i16;
         State_Monad.return (ScrollOp top_row bottom_row lns) }
     | Tag_Cells \<Rightarrow> do {
         row \<leftarrow> r_u16; column \<leftarrow> r_u16; runs \<leftarrow> r_runs lib;
         State_Monad.return (CellsOp row column runs) }
     | Tag_Cursor \<Rightarrow> do {
         value \<leftarrow> r_cursor;
         State_Monad.return (CursorOp value) }
     | Tag_Modes \<Rightarrow> do {
         changed_mask \<leftarrow> r_u32; values \<leftarrow> r_u32;
         State_Monad.return (ModesOp changed_mask values) }
     | Tag_Title \<Rightarrow> do {
         title \<leftarrow> r_str;
         State_Monad.return (TitleOp title) }
     | Tag_Scrollback_Push \<Rightarrow> do {
         lns \<leftarrow> r_lines lib;
         State_Monad.return (ScrollbackPushOp lns) }
     | Tag_Resize \<Rightarrow> do {
         columns \<leftarrow> r_u16; rows \<leftarrow> r_u16;
         State_Monad.return (ResizeOp columns rows) })
   }"

fun wf_grid_op :: "ckvision \<Rightarrow> grid_op \<Rightarrow> bool" where
  "wf_grid_op lib (CellsOp row column runs) = wf_runs lib runs"
| "wf_grid_op lib (TitleOp title) = (length title \<le> 0xFFFF)"
| "wf_grid_op lib (ScrollbackPushOp lns) = wf_lines lib lns"
| "wf_grid_op lib (ScrollOp top_row bottom_row lns) = True"
| "wf_grid_op lib (CursorOp value) = True"
| "wf_grid_op lib (ModesOp changed_mask values) = True"
| "wf_grid_op lib (ResizeOp columns rows) = True"

lemma least_w_runs: "4 \<le> length (emit (w_runs runs))"
  by (simp add: w_runs_def emit_w_counted run_codec.wr_regular emits)

lemma least_w_lines: "4 \<le> length (emit (w_lines lns))"
  by (simp add: w_lines_def emit_w_counted runs_codec.wr_regular emits)

lemma regular_w_grid_op [emits]: "regular (w_grid_op op)"
  by (cases op) (simp_all add: emits)

interpretation grid_op_codec: entry_codec w_grid_op "r_grid_op lib" "wf_grid_op lib" 3 for lib
proof unfold_locales
  show "careful (r_grid_op lib)"
    unfolding r_grid_op_def
    by (intro careful_bind grid_op_tag_codec.rd_careful) (simp add: careful_intros split: grid_op_tag.split)
next
  fix v
  assume "wf_grid_op lib v"
  then show "fine (w_grid_op v)"
    by (cases v) (auto simp: emits intro: runs_codec.wr_fine lines_codec.wr_fine)
next
  fix v pre rest
  assume "wf_grid_op lib v"
  then show "run_state (r_grid_op lib) (rd_at pre (emit (w_grid_op v) @ rest))
      = (v, rd_at (pre @ emit (w_grid_op v)) rest)"
    by (cases v) (simp_all add: r_grid_op_def emits roundtrip)
next
  fix v
  assume "wf_grid_op lib v"
  then show "3 \<le> length (emit (w_grid_op v))"
    using least_w_runs [of "cells_runs v"] least_w_lines [of "push_lines v"]
    by (cases v) (auto simp: emits)
qed (simp_all add: emits)

section \<open>Sessions and windows\<close>

record session_info =
  si_id :: u64
  si_name :: bytes
  si_terminals :: u16
  si_attached :: u8
  si_created :: i64
  si_last_attached :: i64

definition w_session_info :: "session_info \<Rightarrow> writer \<Rightarrow> writer" where
  "w_session_info m = writes [w_u64 (si_id m), w_str (si_name m), w_u16 (si_terminals m), w_u8 (si_attached m), w_i64 (si_created m), w_i64 (si_last_attached m)]"

definition r_session_info :: "(reader, session_info) state" where
  "r_session_info = do {
     v_id \<leftarrow> r_u64;
     v_name \<leftarrow> r_str;
     v_terminals \<leftarrow> r_u16;
     v_attached \<leftarrow> r_u8;
     v_created \<leftarrow> r_i64;
     v_last_attached \<leftarrow> r_i64;
     State_Monad.return \<lparr>si_id = v_id, si_name = v_name, si_terminals = v_terminals, si_attached = v_attached, si_created = v_created, si_last_attached = v_last_attached\<rparr>
   }"

definition wf_session_info :: "session_info \<Rightarrow> bool" where
  "wf_session_info m \<longleftrightarrow> length (si_name m) \<le> 0xFFFF"

interpretation session_info_codec: entry_codec w_session_info "r_session_info" "wf_session_info" 29
  by unfold_locales (auto simp: w_session_info_def r_session_info_def wf_session_info_def emits careful_intros roundtrip)

record layout_entry =
  le_term :: u64
  le_rect :: wire_rect
  le_z_order :: u16
  le_zoomed :: u8
  le_tile :: tile_fraction

definition w_layout_entry :: "layout_entry \<Rightarrow> writer \<Rightarrow> writer" where
  "w_layout_entry m = writes [w_u64 (le_term m), w_rect (le_rect m), w_u16 (le_z_order m), w_u8 (le_zoomed m), w_tile (le_tile m)]"

definition r_layout_entry :: "(reader, layout_entry) state" where
  "r_layout_entry = do {
     v_term \<leftarrow> r_u64;
     v_rect \<leftarrow> r_rect;
     v_z_order \<leftarrow> r_u16;
     v_zoomed \<leftarrow> r_u8;
     v_tile \<leftarrow> r_tile;
     State_Monad.return \<lparr>le_term = v_term, le_rect = v_rect, le_z_order = v_z_order, le_zoomed = v_zoomed, le_tile = v_tile\<rparr>
   }"

interpretation layout_entry_codec: entry_codec w_layout_entry "r_layout_entry" "\<lambda>_. True" 27
  by unfold_locales (auto simp: w_layout_entry_def r_layout_entry_def emits careful_intros roundtrip)

definition w_layout_entries :: "layout_entry list \<Rightarrow> writer \<Rightarrow> writer" where
  "w_layout_entries = w_counted w_layout_entry"

definition r_layout_entries :: "(reader, layout_entry list) state" where
  "r_layout_entries = r_counted 27 r_layout_entry"

interpretation layout_entries_codec: codec w_layout_entries r_layout_entries "\<lambda>xs. length xs < 2 ^ 32"
  using layout_entry_codec.counted.codec_axioms
  by (simp add: w_layout_entries_def r_layout_entries_def list_all_iff)

section \<open>The attach snapshot\<close>

record terminal_state =
  ts_term :: u64
  ts_index :: u16
  ts_title :: bytes
  ts_custom_title :: bytes
  ts_flags :: u8
  ts_columns :: u16
  ts_rows :: u16
  ts_rect :: wire_rect
  ts_z_order :: u16
  ts_zoomed :: u8
  ts_tile :: tile_fraction
  ts_cursor :: cursor_op
  ts_modes :: u32
  ts_grid :: "cell_run list"
  ts_scrollback :: "cell_run list list"
  ts_images :: "u64 list"
  ts_printer_mode :: printer_mode
  ts_printer_scope :: printer_scope
  ts_printer_state :: printer_state
  ts_printer_bytes :: u32
  ts_print_jobs :: "print_job_info list"
  ts_clipboard_serial :: u64
  ts_exited :: u8
  ts_exit_status :: i32
  ts_hold :: u8
  ts_diagnostic_kind :: diagnostic_kind
  ts_diagnostic :: bytes
  ts_bell_serial :: u32
  ts_activity_serial :: u32

definition w_terminal_state :: "terminal_state \<Rightarrow> writer \<Rightarrow> writer" where
  "w_terminal_state m = writes [w_u64 (ts_term m), w_u16 (ts_index m), w_str (ts_title m), w_str (ts_custom_title m), w_u8 (ts_flags m), w_u16 (ts_columns m), w_u16 (ts_rows m), w_rect (ts_rect m), w_u16 (ts_z_order m), w_u8 (ts_zoomed m), w_tile (ts_tile m), w_cursor (ts_cursor m), w_u32 (ts_modes m), w_runs (ts_grid m), w_lines (ts_scrollback m), w_counted w_u64 (ts_images m), w_printer_mode (ts_printer_mode m), w_printer_scope (ts_printer_scope m), w_printer_state (ts_printer_state m), w_u32 (ts_printer_bytes m), w_counted w_job (ts_print_jobs m), w_u64 (ts_clipboard_serial m), w_u8 (ts_exited m), w_i32 (ts_exit_status m), w_u8 (ts_hold m), w_diagnostic_kind (ts_diagnostic_kind m), w_str (ts_diagnostic m), w_u32 (ts_bell_serial m), w_u32 (ts_activity_serial m)]"

definition r_terminal_state :: "ckvision \<Rightarrow> (reader, terminal_state) state" where
  "r_terminal_state lib = do {
     v_term \<leftarrow> r_u64;
     v_index \<leftarrow> r_u16;
     v_title \<leftarrow> r_str;
     v_custom_title \<leftarrow> r_str;
     v_flags \<leftarrow> r_u8;
     v_columns \<leftarrow> r_u16;
     v_rows \<leftarrow> r_u16;
     v_rect \<leftarrow> r_rect;
     v_z_order \<leftarrow> r_u16;
     v_zoomed \<leftarrow> r_u8;
     v_tile \<leftarrow> r_tile;
     v_cursor \<leftarrow> r_cursor;
     v_modes \<leftarrow> r_u32;
     v_grid \<leftarrow> r_runs lib;
     v_scrollback \<leftarrow> r_lines lib;
     v_images \<leftarrow> r_counted_each 8 r_u64;
     v_printer_mode \<leftarrow> r_printer_mode;
     v_printer_scope \<leftarrow> r_printer_scope;
     v_printer_state \<leftarrow> r_printer_state;
     v_printer_bytes \<leftarrow> r_u32;
     v_print_jobs \<leftarrow> r_counted_each 25 r_job;
     v_clipboard_serial \<leftarrow> r_u64;
     v_exited \<leftarrow> r_u8;
     v_exit_status \<leftarrow> r_i32;
     v_hold \<leftarrow> r_u8;
     v_diagnostic_kind \<leftarrow> r_diagnostic_kind;
     v_diagnostic \<leftarrow> r_str;
     v_bell_serial \<leftarrow> r_u32;
     v_activity_serial \<leftarrow> r_u32;
     State_Monad.return \<lparr>ts_term = v_term, ts_index = v_index, ts_title = v_title, ts_custom_title = v_custom_title, ts_flags = v_flags, ts_columns = v_columns, ts_rows = v_rows, ts_rect = v_rect, ts_z_order = v_z_order, ts_zoomed = v_zoomed, ts_tile = v_tile, ts_cursor = v_cursor, ts_modes = v_modes, ts_grid = v_grid, ts_scrollback = v_scrollback, ts_images = v_images, ts_printer_mode = v_printer_mode, ts_printer_scope = v_printer_scope, ts_printer_state = v_printer_state, ts_printer_bytes = v_printer_bytes, ts_print_jobs = v_print_jobs, ts_clipboard_serial = v_clipboard_serial, ts_exited = v_exited, ts_exit_status = v_exit_status, ts_hold = v_hold, ts_diagnostic_kind = v_diagnostic_kind, ts_diagnostic = v_diagnostic, ts_bell_serial = v_bell_serial, ts_activity_serial = v_activity_serial\<rparr>
   }"

definition wf_terminal_state :: "ckvision \<Rightarrow> terminal_state \<Rightarrow> bool" where
  "wf_terminal_state lib m \<longleftrightarrow> length (ts_title m) \<le> 0xFFFF \<and> length (ts_custom_title m) \<le> 0xFFFF \<and> wf_runs lib (ts_grid m) \<and> wf_lines lib (ts_scrollback m) \<and> length (ts_images m) < 2 ^ 32 \<and> length (ts_print_jobs m) < 2 ^ 32 \<and> length (ts_diagnostic m) \<le> 0xFFFF"

interpretation terminal_state_codec: entry_codec w_terminal_state "r_terminal_state lib" "wf_terminal_state lib" 97 for lib
proof unfold_locales
  fix v
  assume "wf_terminal_state lib v"
  then show "fine (w_terminal_state v)"
    by (auto simp: w_terminal_state_def wf_terminal_state_def emits
        intro: runs_codec.wr_fine lines_codec.wr_fine)
next
  fix v
  assume wf: "wf_terminal_state lib v"
  then have "length (emit (w_terminal_state v)) \<ge> 89 + length (emit (w_runs (ts_grid v)))
      + length (emit (w_lines (ts_scrollback v)))"
    by (simp add: w_terminal_state_def wf_terminal_state_def emits)
  then show "97 \<le> length (emit (w_terminal_state v))"
    using least_w_runs [of "ts_grid v"] least_w_lines [of "ts_scrollback v"] by simp
next
  fix v pre rest
  assume "wf_terminal_state lib v"
  then show "run_state (r_terminal_state lib) (rd_at pre (emit (w_terminal_state v) @ rest))
      = (v, rd_at (pre @ emit (w_terminal_state v)) rest)"
    by (simp add: w_terminal_state_def r_terminal_state_def wf_terminal_state_def emits roundtrip)
qed (simp_all add: w_terminal_state_def r_terminal_state_def emits careful_intros)

record snapshot =
  sn_desktop_columns :: u16
  sn_desktop_rows :: u16
  sn_focused_term :: u64
  sn_terminals :: "terminal_state list"

definition w_snapshot :: "snapshot \<Rightarrow> writer \<Rightarrow> writer" where
  "w_snapshot m = writes [w_u16 (sn_desktop_columns m), w_u16 (sn_desktop_rows m), w_u64 (sn_focused_term m), w_counted w_terminal_state (sn_terminals m)]"

definition r_snapshot :: "ckvision \<Rightarrow> (reader, snapshot) state" where
  "r_snapshot lib = do {
     v_desktop_columns \<leftarrow> r_u16;
     v_desktop_rows \<leftarrow> r_u16;
     v_focused_term \<leftarrow> r_u64;
     v_terminals \<leftarrow> r_counted 97 (r_terminal_state lib);
     State_Monad.return \<lparr>sn_desktop_columns = v_desktop_columns, sn_desktop_rows = v_desktop_rows, sn_focused_term = v_focused_term, sn_terminals = v_terminals\<rparr>
   }"

definition wf_snapshot :: "ckvision \<Rightarrow> snapshot \<Rightarrow> bool" where
  "wf_snapshot lib m \<longleftrightarrow> list_all (wf_terminal_state lib) (sn_terminals m) \<and> length (sn_terminals m) < 2 ^ 32"

interpretation snapshot_codec: codec w_snapshot "r_snapshot lib" "wf_snapshot lib" for lib
  by unfold_locales (auto simp: w_snapshot_def r_snapshot_def wf_snapshot_def emits careful_intros roundtrip intro: terminal_state_codec.counted_fine)

section \<open>The messages\<close>

record hello =
  hello_proto_version :: u32
  hello_build :: bytes
  hello_client_kind :: client_kind

definition w_hello :: "hello \<Rightarrow> writer \<Rightarrow> writer" where
  "w_hello m = writes [w_u32 (hello_proto_version m), w_str (hello_build m), w_client_kind (hello_client_kind m)]"

definition r_hello :: "(reader, hello) state" where
  "r_hello = do {
     v_proto_version \<leftarrow> r_u32;
     v_build \<leftarrow> r_str;
     v_client_kind \<leftarrow> r_client_kind;
     State_Monad.return \<lparr>hello_proto_version = v_proto_version, hello_build = v_build, hello_client_kind = v_client_kind\<rparr>
   }"

definition wf_hello :: "hello \<Rightarrow> bool" where
  "wf_hello m \<longleftrightarrow> length (hello_build m) \<le> 0xFFFF"

interpretation hello_codec: codec w_hello "r_hello" "wf_hello"
  by unfold_locales (auto simp: w_hello_def r_hello_def wf_hello_def emits careful_intros roundtrip)

record hello_ack =
  hello_ack_proto_version :: u32
  hello_ack_build :: bytes

definition w_hello_ack :: "hello_ack \<Rightarrow> writer \<Rightarrow> writer" where
  "w_hello_ack m = writes [w_u32 (hello_ack_proto_version m), w_str (hello_ack_build m)]"

definition r_hello_ack :: "(reader, hello_ack) state" where
  "r_hello_ack = do {
     v_proto_version \<leftarrow> r_u32;
     v_build \<leftarrow> r_str;
     State_Monad.return \<lparr>hello_ack_proto_version = v_proto_version, hello_ack_build = v_build\<rparr>
   }"

definition wf_hello_ack :: "hello_ack \<Rightarrow> bool" where
  "wf_hello_ack m \<longleftrightarrow> length (hello_ack_build m) \<le> 0xFFFF"

interpretation hello_ack_codec: codec w_hello_ack "r_hello_ack" "wf_hello_ack"
  by unfold_locales (auto simp: w_hello_ack_def r_hello_ack_def wf_hello_ack_def emits careful_intros roundtrip)

record new_session =
  ns_name :: bytes
  ns_spawn_first :: u8
  ns_command :: bytes

definition w_new_session :: "new_session \<Rightarrow> writer \<Rightarrow> writer" where
  "w_new_session m = writes [w_str (ns_name m), w_u8 (ns_spawn_first m), w_str (ns_command m)]"

definition r_new_session :: "(reader, new_session) state" where
  "r_new_session = do {
     v_name \<leftarrow> r_str;
     v_spawn_first \<leftarrow> r_u8;
     v_command \<leftarrow> r_str;
     State_Monad.return \<lparr>ns_name = v_name, ns_spawn_first = v_spawn_first, ns_command = v_command\<rparr>
   }"

definition wf_new_session :: "new_session \<Rightarrow> bool" where
  "wf_new_session m \<longleftrightarrow> length (ns_name m) \<le> 0xFFFF \<and> length (ns_command m) \<le> 0xFFFF"

interpretation new_session_codec: codec w_new_session "r_new_session" "wf_new_session"
  by unfold_locales (auto simp: w_new_session_def r_new_session_def wf_new_session_def emits careful_intros roundtrip)

record attach =
  attach_session :: u64
  attach_columns :: u16
  attach_rows :: u16
  attach_pixel_width :: u16
  attach_pixel_height :: u16
  attach_mode :: u8
  attach_host_sixel :: u8

definition w_attach :: "attach \<Rightarrow> writer \<Rightarrow> writer" where
  "w_attach m = writes [w_u64 (attach_session m), w_u16 (attach_columns m), w_u16 (attach_rows m), w_u16 (attach_pixel_width m), w_u16 (attach_pixel_height m), w_u8 (attach_host_sixel m), w_u8 (attach_mode m)]"

definition r_attach :: "(reader, attach) state" where
  "r_attach = do {
     v_session \<leftarrow> r_u64;
     v_columns \<leftarrow> r_u16;
     v_rows \<leftarrow> r_u16;
     v_pixel_width \<leftarrow> r_u16;
     v_pixel_height \<leftarrow> r_u16;
     v_host_sixel \<leftarrow> r_u8;
     v_mode \<leftarrow> r_u8;
     State_Monad.return \<lparr>attach_session = v_session, attach_columns = v_columns, attach_rows = v_rows, attach_pixel_width = v_pixel_width, attach_pixel_height = v_pixel_height, attach_mode = v_mode, attach_host_sixel = v_host_sixel\<rparr>
   }"

interpretation attach_codec: codec w_attach "r_attach" "\<lambda>_. True"
  by unfold_locales (auto simp: w_attach_def r_attach_def emits careful_intros roundtrip)

record client_resize =
  cr_columns :: u16
  cr_rows :: u16
  cr_pixel_width :: u16
  cr_pixel_height :: u16

definition w_client_resize :: "client_resize \<Rightarrow> writer \<Rightarrow> writer" where
  "w_client_resize m = writes [w_u16 (cr_columns m), w_u16 (cr_rows m), w_u16 (cr_pixel_width m), w_u16 (cr_pixel_height m)]"

definition r_client_resize :: "(reader, client_resize) state" where
  "r_client_resize = do {
     v_columns \<leftarrow> r_u16;
     v_rows \<leftarrow> r_u16;
     v_pixel_width \<leftarrow> r_u16;
     v_pixel_height \<leftarrow> r_u16;
     State_Monad.return \<lparr>cr_columns = v_columns, cr_rows = v_rows, cr_pixel_width = v_pixel_width, cr_pixel_height = v_pixel_height\<rparr>
   }"

interpretation client_resize_codec: codec w_client_resize "r_client_resize" "\<lambda>_. True"
  by unfold_locales (auto simp: w_client_resize_def r_client_resize_def emits careful_intros roundtrip)

record rename_session =
  rs_id :: u64
  rs_name :: bytes

definition w_rename_session :: "rename_session \<Rightarrow> writer \<Rightarrow> writer" where
  "w_rename_session m = writes [w_u64 (rs_id m), w_str (rs_name m)]"

definition r_rename_session :: "(reader, rename_session) state" where
  "r_rename_session = do {
     v_id \<leftarrow> r_u64;
     v_name \<leftarrow> r_str;
     State_Monad.return \<lparr>rs_id = v_id, rs_name = v_name\<rparr>
   }"

definition wf_rename_session :: "rename_session \<Rightarrow> bool" where
  "wf_rename_session m \<longleftrightarrow> length (rs_name m) \<le> 0xFFFF"

interpretation rename_session_codec: codec w_rename_session "r_rename_session" "wf_rename_session"
  by unfold_locales (auto simp: w_rename_session_def r_rename_session_def wf_rename_session_def emits careful_intros roundtrip)

record kill_session =
  ks_session :: u64
  ks_force :: u8
  ks_grace_seconds :: u16

definition w_kill_session :: "kill_session \<Rightarrow> writer \<Rightarrow> writer" where
  "w_kill_session m = writes [w_u64 (ks_session m), w_u8 (ks_force m), w_u16 (ks_grace_seconds m)]"

definition r_kill_session :: "(reader, kill_session) state" where
  "r_kill_session = do {
     v_session \<leftarrow> r_u64;
     v_force \<leftarrow> r_u8;
     v_grace_seconds \<leftarrow> r_u16;
     State_Monad.return \<lparr>ks_session = v_session, ks_force = v_force, ks_grace_seconds = v_grace_seconds\<rparr>
   }"

interpretation kill_session_codec: codec w_kill_session "r_kill_session" "\<lambda>_. True"
  by unfold_locales (auto simp: w_kill_session_def r_kill_session_def emits careful_intros roundtrip)

record attached =
  attached_session :: u64
  attached_snapshot :: snapshot

definition w_attached :: "attached \<Rightarrow> writer \<Rightarrow> writer" where
  "w_attached m = writes [w_u64 (attached_session m), w_snapshot (attached_snapshot m)]"

definition r_attached :: "ckvision \<Rightarrow> (reader, attached) state" where
  "r_attached lib = do {
     v_session \<leftarrow> r_u64;
     v_snapshot \<leftarrow> r_snapshot lib;
     State_Monad.return \<lparr>attached_session = v_session, attached_snapshot = v_snapshot\<rparr>
   }"

definition wf_attached :: "ckvision \<Rightarrow> attached \<Rightarrow> bool" where
  "wf_attached lib m \<longleftrightarrow> wf_snapshot lib (attached_snapshot m)"

interpretation attached_codec: codec w_attached "r_attached lib" "wf_attached lib" for lib
  by unfold_locales (auto simp: w_attached_def r_attached_def wf_attached_def emits careful_intros roundtrip intro: snapshot_codec.wr_fine)

record detached =
  detached_reason :: detach_reason
  detached_text :: bytes

definition w_detached :: "detached \<Rightarrow> writer \<Rightarrow> writer" where
  "w_detached m = writes [w_detach_reason (detached_reason m), w_str (detached_text m)]"

definition r_detached :: "(reader, detached) state" where
  "r_detached = do {
     v_reason \<leftarrow> r_detach_reason;
     v_text \<leftarrow> r_str;
     State_Monad.return \<lparr>detached_reason = v_reason, detached_text = v_text\<rparr>
   }"

definition wf_detached :: "detached \<Rightarrow> bool" where
  "wf_detached m \<longleftrightarrow> length (detached_text m) \<le> 0xFFFF"

interpretation detached_codec: codec w_detached "r_detached" "wf_detached"
  by unfold_locales (auto simp: w_detached_def r_detached_def wf_detached_def emits careful_intros roundtrip)

record new_terminal =
  nt_session :: u64
  nt_command :: bytes
  nt_rect :: wire_rect
  nt_host_sixel :: u8

definition w_new_terminal :: "new_terminal \<Rightarrow> writer \<Rightarrow> writer" where
  "w_new_terminal m = writes [w_u64 (nt_session m), w_str (nt_command m), w_rect (nt_rect m), w_u8 (nt_host_sixel m)]"

definition r_new_terminal :: "(reader, new_terminal) state" where
  "r_new_terminal = do {
     v_session \<leftarrow> r_u64;
     v_command \<leftarrow> r_str;
     v_rect \<leftarrow> r_rect;
     v_host_sixel \<leftarrow> r_u8;
     State_Monad.return \<lparr>nt_session = v_session, nt_command = v_command, nt_rect = v_rect, nt_host_sixel = v_host_sixel\<rparr>
   }"

definition wf_new_terminal :: "new_terminal \<Rightarrow> bool" where
  "wf_new_terminal m \<longleftrightarrow> length (nt_command m) \<le> 0xFFFF"

interpretation new_terminal_codec: codec w_new_terminal "r_new_terminal" "wf_new_terminal"
  by unfold_locales (auto simp: w_new_terminal_def r_new_terminal_def wf_new_terminal_def emits careful_intros roundtrip)

record close_terminal =
  ct_term :: u64
  ct_force :: u8
  ct_grace_seconds :: u16

definition w_close_terminal :: "close_terminal \<Rightarrow> writer \<Rightarrow> writer" where
  "w_close_terminal m = writes [w_u64 (ct_term m), w_u8 (ct_force m), w_u16 (ct_grace_seconds m)]"

definition r_close_terminal :: "(reader, close_terminal) state" where
  "r_close_terminal = do {
     v_term \<leftarrow> r_u64;
     v_force \<leftarrow> r_u8;
     v_grace_seconds \<leftarrow> r_u16;
     State_Monad.return \<lparr>ct_term = v_term, ct_force = v_force, ct_grace_seconds = v_grace_seconds\<rparr>
   }"

interpretation close_terminal_codec: codec w_close_terminal "r_close_terminal" "\<lambda>_. True"
  by unfold_locales (auto simp: w_close_terminal_def r_close_terminal_def emits careful_intros roundtrip)

record set_desktop_size =
  sds_columns :: u16
  sds_rows :: u16

definition w_set_desktop_size :: "set_desktop_size \<Rightarrow> writer \<Rightarrow> writer" where
  "w_set_desktop_size m = writes [w_u16 (sds_columns m), w_u16 (sds_rows m)]"

definition r_set_desktop_size :: "(reader, set_desktop_size) state" where
  "r_set_desktop_size = do {
     v_columns \<leftarrow> r_u16;
     v_rows \<leftarrow> r_u16;
     State_Monad.return \<lparr>sds_columns = v_columns, sds_rows = v_rows\<rparr>
   }"

interpretation set_desktop_size_codec: codec w_set_desktop_size "r_set_desktop_size" "\<lambda>_. True"
  by unfold_locales (auto simp: w_set_desktop_size_def r_set_desktop_size_def emits careful_intros roundtrip)

record set_reader_mode =
  srm_scope :: u8
  srm_mode :: u8

definition w_set_reader_mode :: "set_reader_mode \<Rightarrow> writer \<Rightarrow> writer" where
  "w_set_reader_mode m = writes [w_u8 (srm_scope m), w_u8 (srm_mode m)]"

definition r_set_reader_mode :: "(reader, set_reader_mode) state" where
  "r_set_reader_mode = do {
     v_scope \<leftarrow> r_u8;
     v_mode \<leftarrow> r_u8;
     State_Monad.return \<lparr>srm_scope = v_scope, srm_mode = v_mode\<rparr>
   }"

interpretation set_reader_mode_codec: codec w_set_reader_mode "r_set_reader_mode" "\<lambda>_. True"
  by unfold_locales (auto simp: w_set_reader_mode_def r_set_reader_mode_def emits careful_intros roundtrip)

record move_terminal =
  mt_term :: u64
  mt_destination_session :: u64
  mt_to_new_session :: u8

definition w_move_terminal :: "move_terminal \<Rightarrow> writer \<Rightarrow> writer" where
  "w_move_terminal m = writes [w_u64 (mt_term m), w_u64 (mt_destination_session m), w_u8 (mt_to_new_session m)]"

definition r_move_terminal :: "(reader, move_terminal) state" where
  "r_move_terminal = do {
     v_term \<leftarrow> r_u64;
     v_destination_session \<leftarrow> r_u64;
     v_to_new_session \<leftarrow> r_u8;
     State_Monad.return \<lparr>mt_term = v_term, mt_destination_session = v_destination_session, mt_to_new_session = v_to_new_session\<rparr>
   }"

interpretation move_terminal_codec: codec w_move_terminal "r_move_terminal" "\<lambda>_. True"
  by unfold_locales (auto simp: w_move_terminal_def r_move_terminal_def emits careful_intros roundtrip)

record move_resize =
  mr_term :: u64
  mr_rect :: wire_rect

definition w_move_resize :: "move_resize \<Rightarrow> writer \<Rightarrow> writer" where
  "w_move_resize m = writes [w_u64 (mr_term m), w_rect (mr_rect m)]"

definition r_move_resize :: "(reader, move_resize) state" where
  "r_move_resize = do {
     v_term \<leftarrow> r_u64;
     v_rect \<leftarrow> r_rect;
     State_Monad.return \<lparr>mr_term = v_term, mr_rect = v_rect\<rparr>
   }"

interpretation move_resize_codec: codec w_move_resize "r_move_resize" "\<lambda>_. True"
  by unfold_locales (auto simp: w_move_resize_def r_move_resize_def emits careful_intros roundtrip)

record zoom_term =
  zt_term :: u64
  zt_on :: u8

definition w_zoom_term :: "zoom_term \<Rightarrow> writer \<Rightarrow> writer" where
  "w_zoom_term m = writes [w_u64 (zt_term m), w_u8 (zt_on m)]"

definition r_zoom_term :: "(reader, zoom_term) state" where
  "r_zoom_term = do {
     v_term \<leftarrow> r_u64;
     v_on \<leftarrow> r_u8;
     State_Monad.return \<lparr>zt_term = v_term, zt_on = v_on\<rparr>
   }"

interpretation zoom_term_codec: codec w_zoom_term "r_zoom_term" "\<lambda>_. True"
  by unfold_locales (auto simp: w_zoom_term_def r_zoom_term_def emits careful_intros roundtrip)

record rename_terminal =
  rt_id :: u64
  rt_name :: bytes

definition w_rename_terminal :: "rename_terminal \<Rightarrow> writer \<Rightarrow> writer" where
  "w_rename_terminal m = writes [w_u64 (rt_id m), w_str (rt_name m)]"

definition r_rename_terminal :: "(reader, rename_terminal) state" where
  "r_rename_terminal = do {
     v_id \<leftarrow> r_u64;
     v_name \<leftarrow> r_str;
     State_Monad.return \<lparr>rt_id = v_id, rt_name = v_name\<rparr>
   }"

definition wf_rename_terminal :: "rename_terminal \<Rightarrow> bool" where
  "wf_rename_terminal m \<longleftrightarrow> length (rt_name m) \<le> 0xFFFF"

interpretation rename_terminal_codec: codec w_rename_terminal "r_rename_terminal" "wf_rename_terminal"
  by unfold_locales (auto simp: w_rename_terminal_def r_rename_terminal_def wf_rename_terminal_def emits careful_intros roundtrip)

record input_msg =
  input_term :: u64
  input_bytes :: bytes

definition w_input_msg :: "input_msg \<Rightarrow> writer \<Rightarrow> writer" where
  "w_input_msg m = writes [w_u64 (input_term m), w_blob (input_bytes m)]"

definition r_input_msg :: "(reader, input_msg) state" where
  "r_input_msg = do {
     v_term \<leftarrow> r_u64;
     v_bytes \<leftarrow> r_blob max_string_bytes;
     State_Monad.return \<lparr>input_term = v_term, input_bytes = v_bytes\<rparr>
   }"

definition wf_input_msg :: "input_msg \<Rightarrow> bool" where
  "wf_input_msg m \<longleftrightarrow> length (input_bytes m) \<le> unat max_string_bytes"

interpretation input_msg_codec: codec w_input_msg "r_input_msg" "wf_input_msg"
  by unfold_locales (auto simp: w_input_msg_def r_input_msg_def wf_input_msg_def emits careful_intros roundtrip)

record paste_chunk =
  pc_term :: u64
  pc_seq :: u32
  pc_final_chunk :: u8
  pc_bytes :: bytes

definition w_paste_chunk :: "paste_chunk \<Rightarrow> writer \<Rightarrow> writer" where
  "w_paste_chunk m = writes [w_u64 (pc_term m), w_u32 (pc_seq m), w_u8 (pc_final_chunk m), w_blob (pc_bytes m)]"

definition r_paste_chunk :: "(reader, paste_chunk) state" where
  "r_paste_chunk = do {
     v_term \<leftarrow> r_u64;
     v_seq \<leftarrow> r_u32;
     v_final_chunk \<leftarrow> r_u8;
     v_bytes \<leftarrow> r_blob max_string_bytes;
     State_Monad.return \<lparr>pc_term = v_term, pc_seq = v_seq, pc_final_chunk = v_final_chunk, pc_bytes = v_bytes\<rparr>
   }"

definition wf_paste_chunk :: "paste_chunk \<Rightarrow> bool" where
  "wf_paste_chunk m \<longleftrightarrow> length (pc_bytes m) \<le> unat max_string_bytes"

interpretation paste_chunk_codec: codec w_paste_chunk "r_paste_chunk" "wf_paste_chunk"
  by unfold_locales (auto simp: w_paste_chunk_def r_paste_chunk_def wf_paste_chunk_def emits careful_intros roundtrip)

record layout_delta =
  ld_session :: u64
  ld_entries :: "layout_entry list"
  ld_focused_term :: u64
  ld_desktop_columns :: u16
  ld_desktop_rows :: u16

definition w_layout_delta :: "layout_delta \<Rightarrow> writer \<Rightarrow> writer" where
  "w_layout_delta m = writes [w_u64 (ld_session m), w_layout_entries (ld_entries m), w_u64 (ld_focused_term m), w_u16 (ld_desktop_columns m), w_u16 (ld_desktop_rows m)]"

definition r_layout_delta :: "(reader, layout_delta) state" where
  "r_layout_delta = do {
     v_session \<leftarrow> r_u64;
     v_entries \<leftarrow> r_layout_entries;
     v_focused_term \<leftarrow> r_u64;
     v_desktop_columns \<leftarrow> r_u16;
     v_desktop_rows \<leftarrow> r_u16;
     State_Monad.return \<lparr>ld_session = v_session, ld_entries = v_entries, ld_focused_term = v_focused_term, ld_desktop_columns = v_desktop_columns, ld_desktop_rows = v_desktop_rows\<rparr>
   }"

definition wf_layout_delta :: "layout_delta \<Rightarrow> bool" where
  "wf_layout_delta m \<longleftrightarrow> length (ld_entries m) < 2 ^ 32"

interpretation layout_delta_codec: codec w_layout_delta "r_layout_delta" "wf_layout_delta"
  by unfold_locales (auto simp: w_layout_delta_def r_layout_delta_def wf_layout_delta_def emits careful_intros roundtrip)

record term_opened =
  to_term :: u64
  to_session :: u64
  to_index :: u16
  to_rect :: wire_rect
  to_title :: bytes
  to_columns :: u16
  to_rows :: u16

definition w_term_opened :: "term_opened \<Rightarrow> writer \<Rightarrow> writer" where
  "w_term_opened m = writes [w_u64 (to_term m), w_u64 (to_session m), w_u16 (to_index m), w_rect (to_rect m), w_str (to_title m), w_u16 (to_columns m), w_u16 (to_rows m)]"

definition r_term_opened :: "(reader, term_opened) state" where
  "r_term_opened = do {
     v_term \<leftarrow> r_u64;
     v_session \<leftarrow> r_u64;
     v_index \<leftarrow> r_u16;
     v_rect \<leftarrow> r_rect;
     v_title \<leftarrow> r_str;
     v_columns \<leftarrow> r_u16;
     v_rows \<leftarrow> r_u16;
     State_Monad.return \<lparr>to_term = v_term, to_session = v_session, to_index = v_index, to_rect = v_rect, to_title = v_title, to_columns = v_columns, to_rows = v_rows\<rparr>
   }"

definition wf_term_opened :: "term_opened \<Rightarrow> bool" where
  "wf_term_opened m \<longleftrightarrow> length (to_title m) \<le> 0xFFFF"

interpretation term_opened_codec: codec w_term_opened "r_term_opened" "wf_term_opened"
  by unfold_locales (auto simp: w_term_opened_def r_term_opened_def wf_term_opened_def emits careful_intros roundtrip)

record term_closed =
  tc_term :: u64
  tc_exited :: u8
  tc_exit_status :: i32
  tc_hold :: u8

definition w_term_closed :: "term_closed \<Rightarrow> writer \<Rightarrow> writer" where
  "w_term_closed m = writes [w_u64 (tc_term m), w_u8 (tc_exited m), w_i32 (tc_exit_status m), w_u8 (tc_hold m)]"

definition r_term_closed :: "(reader, term_closed) state" where
  "r_term_closed = do {
     v_term \<leftarrow> r_u64;
     v_exited \<leftarrow> r_u8;
     v_exit_status \<leftarrow> r_i32;
     v_hold \<leftarrow> r_u8;
     State_Monad.return \<lparr>tc_term = v_term, tc_exited = v_exited, tc_exit_status = v_exit_status, tc_hold = v_hold\<rparr>
   }"

interpretation term_closed_codec: codec w_term_closed "r_term_closed" "\<lambda>_. True"
  by unfold_locales (auto simp: w_term_closed_def r_term_closed_def emits careful_intros roundtrip)

record term_meta =
  tm_term :: u64
  tm_index :: u16
  tm_title :: bytes
  tm_custom_title :: bytes
  tm_flags :: u8
  tm_bell_serial :: u32
  tm_activity_serial :: u32

definition w_term_meta :: "term_meta \<Rightarrow> writer \<Rightarrow> writer" where
  "w_term_meta m = writes [w_u64 (tm_term m), w_u16 (tm_index m), w_str (tm_title m), w_str (tm_custom_title m), w_u8 (tm_flags m), w_u32 (tm_bell_serial m), w_u32 (tm_activity_serial m)]"

definition r_term_meta :: "(reader, term_meta) state" where
  "r_term_meta = do {
     v_term \<leftarrow> r_u64;
     v_index \<leftarrow> r_u16;
     v_title \<leftarrow> r_str;
     v_custom_title \<leftarrow> r_str;
     v_flags \<leftarrow> r_u8;
     v_bell_serial \<leftarrow> r_u32;
     v_activity_serial \<leftarrow> r_u32;
     State_Monad.return \<lparr>tm_term = v_term, tm_index = v_index, tm_title = v_title, tm_custom_title = v_custom_title, tm_flags = v_flags, tm_bell_serial = v_bell_serial, tm_activity_serial = v_activity_serial\<rparr>
   }"

definition wf_term_meta :: "term_meta \<Rightarrow> bool" where
  "wf_term_meta m \<longleftrightarrow> length (tm_title m) \<le> 0xFFFF \<and> length (tm_custom_title m) \<le> 0xFFFF"

interpretation term_meta_codec: codec w_term_meta "r_term_meta" "wf_term_meta"
  by unfold_locales (auto simp: w_term_meta_def r_term_meta_def wf_term_meta_def emits careful_intros roundtrip)

record grid_delta =
  gd_term :: u64
  gd_seq :: u32
  gd_ops :: "grid_op list"

definition w_grid_delta :: "grid_delta \<Rightarrow> writer \<Rightarrow> writer" where
  "w_grid_delta m = writes [w_u64 (gd_term m), w_u32 (gd_seq m), w_counted w_grid_op (gd_ops m)]"

definition r_grid_delta :: "ckvision \<Rightarrow> (reader, grid_delta) state" where
  "r_grid_delta lib = do {
     v_term \<leftarrow> r_u64;
     v_seq \<leftarrow> r_u32;
     v_ops \<leftarrow> r_counted 3 (r_grid_op lib);
     State_Monad.return \<lparr>gd_term = v_term, gd_seq = v_seq, gd_ops = v_ops\<rparr>
   }"

definition wf_grid_delta :: "ckvision \<Rightarrow> grid_delta \<Rightarrow> bool" where
  "wf_grid_delta lib m \<longleftrightarrow> list_all (wf_grid_op lib) (gd_ops m) \<and> length (gd_ops m) < 2 ^ 32"

interpretation grid_delta_codec: codec w_grid_delta "r_grid_delta lib" "wf_grid_delta lib" for lib
  by unfold_locales (auto simp: w_grid_delta_def r_grid_delta_def wf_grid_delta_def emits careful_intros roundtrip intro: grid_op_codec.counted_fine)

record image_add_begin =
  iab_id :: u64
  iab_width :: u16
  iab_height :: u16

definition w_image_add_begin :: "image_add_begin \<Rightarrow> writer \<Rightarrow> writer" where
  "w_image_add_begin m = writes [w_u64 (iab_id m), w_u16 (iab_width m), w_u16 (iab_height m)]"

definition r_image_add_begin :: "(reader, image_add_begin) state" where
  "r_image_add_begin = do {
     v_id \<leftarrow> r_u64;
     v_width \<leftarrow> r_u16;
     v_height \<leftarrow> r_u16;
     State_Monad.return \<lparr>iab_id = v_id, iab_width = v_width, iab_height = v_height\<rparr>
   }"

interpretation image_add_begin_codec: codec w_image_add_begin "r_image_add_begin" "\<lambda>_. True"
  by unfold_locales (auto simp: w_image_add_begin_def r_image_add_begin_def emits careful_intros roundtrip)

record image_chunk =
  ic_id :: u64
  ic_seq :: u32
  ic_bytes :: bytes

definition w_image_chunk :: "image_chunk \<Rightarrow> writer \<Rightarrow> writer" where
  "w_image_chunk m = writes [w_u64 (ic_id m), w_u32 (ic_seq m), w_blob (ic_bytes m)]"

definition r_image_chunk :: "(reader, image_chunk) state" where
  "r_image_chunk = do {
     v_id \<leftarrow> r_u64;
     v_seq \<leftarrow> r_u32;
     v_bytes \<leftarrow> r_blob max_chunk_payload_bytes;
     State_Monad.return \<lparr>ic_id = v_id, ic_seq = v_seq, ic_bytes = v_bytes\<rparr>
   }"

definition wf_image_chunk :: "image_chunk \<Rightarrow> bool" where
  "wf_image_chunk m \<longleftrightarrow> length (ic_bytes m) \<le> unat max_chunk_payload_bytes"

interpretation image_chunk_codec: codec w_image_chunk "r_image_chunk" "wf_image_chunk"
  by unfold_locales (auto simp: w_image_chunk_def r_image_chunk_def wf_image_chunk_def emits careful_intros roundtrip)

record image_place =
  ip_term :: u64
  ip_id :: u64
  ip_cells :: wire_rect
  ip_pixel_offset_x :: i16
  ip_pixel_offset_y :: i16

definition w_image_place :: "image_place \<Rightarrow> writer \<Rightarrow> writer" where
  "w_image_place m = writes [w_u64 (ip_term m), w_u64 (ip_id m), w_rect (ip_cells m), w_i16 (ip_pixel_offset_x m), w_i16 (ip_pixel_offset_y m)]"

definition r_image_place :: "(reader, image_place) state" where
  "r_image_place = do {
     v_term \<leftarrow> r_u64;
     v_id \<leftarrow> r_u64;
     v_cells \<leftarrow> r_rect;
     v_pixel_offset_x \<leftarrow> r_i16;
     v_pixel_offset_y \<leftarrow> r_i16;
     State_Monad.return \<lparr>ip_term = v_term, ip_id = v_id, ip_cells = v_cells, ip_pixel_offset_x = v_pixel_offset_x, ip_pixel_offset_y = v_pixel_offset_y\<rparr>
   }"

interpretation image_place_codec: codec w_image_place "r_image_place" "\<lambda>_. True"
  by unfold_locales (auto simp: w_image_place_def r_image_place_def emits careful_intros roundtrip)

record image_remove =
  ir_term :: u64
  ir_id :: u64

definition w_image_remove :: "image_remove \<Rightarrow> writer \<Rightarrow> writer" where
  "w_image_remove m = writes [w_u64 (ir_term m), w_u64 (ir_id m)]"

definition r_image_remove :: "(reader, image_remove) state" where
  "r_image_remove = do {
     v_term \<leftarrow> r_u64;
     v_id \<leftarrow> r_u64;
     State_Monad.return \<lparr>ir_term = v_term, ir_id = v_id\<rparr>
   }"

interpretation image_remove_codec: codec w_image_remove "r_image_remove" "\<lambda>_. True"
  by unfold_locales (auto simp: w_image_remove_def r_image_remove_def emits careful_intros roundtrip)

record clipboard_set =
  cs_term :: u64
  cs_text :: bytes

definition w_clipboard_set :: "clipboard_set \<Rightarrow> writer \<Rightarrow> writer" where
  "w_clipboard_set m = writes [w_u64 (cs_term m), w_blob (cs_text m)]"

definition r_clipboard_set :: "(reader, clipboard_set) state" where
  "r_clipboard_set = do {
     v_term \<leftarrow> r_u64;
     v_text \<leftarrow> r_blob max_string_bytes;
     State_Monad.return \<lparr>cs_term = v_term, cs_text = v_text\<rparr>
   }"

definition wf_clipboard_set :: "clipboard_set \<Rightarrow> bool" where
  "wf_clipboard_set m \<longleftrightarrow> length (cs_text m) \<le> unat max_string_bytes"

interpretation clipboard_set_codec: codec w_clipboard_set "r_clipboard_set" "wf_clipboard_set"
  by unfold_locales (auto simp: w_clipboard_set_def r_clipboard_set_def wf_clipboard_set_def emits careful_intros roundtrip)

record term_diagnostic =
  td_term :: u64
  td_kind :: diagnostic_kind
  td_text :: bytes

definition w_term_diagnostic :: "term_diagnostic \<Rightarrow> writer \<Rightarrow> writer" where
  "w_term_diagnostic m = writes [w_u64 (td_term m), w_diagnostic_kind (td_kind m), w_str (td_text m)]"

definition r_term_diagnostic :: "(reader, term_diagnostic) state" where
  "r_term_diagnostic = do {
     v_term \<leftarrow> r_u64;
     v_kind \<leftarrow> r_diagnostic_kind;
     v_text \<leftarrow> r_str;
     State_Monad.return \<lparr>td_term = v_term, td_kind = v_kind, td_text = v_text\<rparr>
   }"

definition wf_term_diagnostic :: "term_diagnostic \<Rightarrow> bool" where
  "wf_term_diagnostic m \<longleftrightarrow> length (td_text m) \<le> 0xFFFF"

interpretation term_diagnostic_codec: codec w_term_diagnostic "r_term_diagnostic" "wf_term_diagnostic"
  by unfold_locales (auto simp: w_term_diagnostic_def r_term_diagnostic_def wf_term_diagnostic_def emits careful_intros roundtrip)

record error_msg =
  err_code :: u16
  err_context :: bytes
  err_human :: bytes

definition w_error_msg :: "error_msg \<Rightarrow> writer \<Rightarrow> writer" where
  "w_error_msg m = writes [w_u16 (err_code m), w_str (err_context m), w_str (err_human m)]"

definition r_error_msg :: "(reader, error_msg) state" where
  "r_error_msg = do {
     v_code \<leftarrow> r_u16;
     v_context \<leftarrow> r_str;
     v_human \<leftarrow> r_str;
     State_Monad.return \<lparr>err_code = v_code, err_context = v_context, err_human = v_human\<rparr>
   }"

definition wf_error_msg :: "error_msg \<Rightarrow> bool" where
  "wf_error_msg m \<longleftrightarrow> length (err_context m) \<le> 0xFFFF \<and> length (err_human m) \<le> 0xFFFF"

interpretation error_msg_codec: codec w_error_msg "r_error_msg" "wf_error_msg"
  by unfold_locales (auto simp: w_error_msg_def r_error_msg_def wf_error_msg_def emits careful_intros roundtrip)

record set_printer_policy =
  spp_scope :: printer_scope
  spp_target :: u64
  spp_mode :: printer_mode
  spp_ask_cache :: u32
  spp_spool_limit :: u32

definition w_set_printer_policy :: "set_printer_policy \<Rightarrow> writer \<Rightarrow> writer" where
  "w_set_printer_policy m = writes [w_printer_scope (spp_scope m), w_u64 (spp_target m), w_printer_mode (spp_mode m), w_u32 (spp_ask_cache m), w_u32 (spp_spool_limit m)]"

definition r_set_printer_policy :: "(reader, set_printer_policy) state" where
  "r_set_printer_policy = do {
     v_scope \<leftarrow> r_printer_scope;
     v_target \<leftarrow> r_u64;
     v_mode \<leftarrow> r_printer_mode;
     v_ask_cache \<leftarrow> r_u32;
     v_spool_limit \<leftarrow> r_u32;
     State_Monad.return \<lparr>spp_scope = v_scope, spp_target = v_target, spp_mode = v_mode, spp_ask_cache = v_ask_cache, spp_spool_limit = v_spool_limit\<rparr>
   }"

interpretation set_printer_policy_codec: codec w_set_printer_policy "r_set_printer_policy" "\<lambda>_. True"
  by unfold_locales (auto simp: w_set_printer_policy_def r_set_printer_policy_def emits careful_intros roundtrip)

record print_state_msg =
  ps_term :: u64
  ps_mode :: printer_mode
  ps_state :: printer_state
  ps_bytes :: u32
  ps_jobs :: u16

definition w_print_state_msg :: "print_state_msg \<Rightarrow> writer \<Rightarrow> writer" where
  "w_print_state_msg m = writes [w_u64 (ps_term m), w_printer_mode (ps_mode m), w_printer_state (ps_state m), w_u32 (ps_bytes m), w_u16 (ps_jobs m)]"

definition r_print_state_msg :: "(reader, print_state_msg) state" where
  "r_print_state_msg = do {
     v_term \<leftarrow> r_u64;
     v_mode \<leftarrow> r_printer_mode;
     v_state \<leftarrow> r_printer_state;
     v_bytes \<leftarrow> r_u32;
     v_jobs \<leftarrow> r_u16;
     State_Monad.return \<lparr>ps_term = v_term, ps_mode = v_mode, ps_state = v_state, ps_bytes = v_bytes, ps_jobs = v_jobs\<rparr>
   }"

interpretation print_state_msg_codec: codec w_print_state_msg "r_print_state_msg" "\<lambda>_. True"
  by unfold_locales (auto simp: w_print_state_msg_def r_print_state_msg_def emits careful_intros roundtrip)

record print_job_added =
  pja_term :: u64
  pja_job :: print_job_info

definition w_print_job_added :: "print_job_added \<Rightarrow> writer \<Rightarrow> writer" where
  "w_print_job_added m = writes [w_u64 (pja_term m), w_job (pja_job m)]"

definition r_print_job_added :: "(reader, print_job_added) state" where
  "r_print_job_added = do {
     v_term \<leftarrow> r_u64;
     v_job \<leftarrow> r_job;
     State_Monad.return \<lparr>pja_term = v_term, pja_job = v_job\<rparr>
   }"

interpretation print_job_added_codec: codec w_print_job_added "r_print_job_added" "\<lambda>_. True"
  by unfold_locales (auto simp: w_print_job_added_def r_print_job_added_def emits careful_intros roundtrip)

record print_job_fetch =
  pjf_term :: u64
  pjf_job :: u64

definition w_print_job_fetch :: "print_job_fetch \<Rightarrow> writer \<Rightarrow> writer" where
  "w_print_job_fetch m = writes [w_u64 (pjf_term m), w_u64 (pjf_job m)]"

definition r_print_job_fetch :: "(reader, print_job_fetch) state" where
  "r_print_job_fetch = do {
     v_term \<leftarrow> r_u64;
     v_job \<leftarrow> r_u64;
     State_Monad.return \<lparr>pjf_term = v_term, pjf_job = v_job\<rparr>
   }"

interpretation print_job_fetch_codec: codec w_print_job_fetch "r_print_job_fetch" "\<lambda>_. True"
  by unfold_locales (auto simp: w_print_job_fetch_def r_print_job_fetch_def emits careful_intros roundtrip)

record print_job_data =
  pjd_term :: u64
  pjd_job :: u64
  pjd_seq :: u32
  pjd_final_chunk :: u8
  pjd_bytes :: bytes

definition w_print_job_data :: "print_job_data \<Rightarrow> writer \<Rightarrow> writer" where
  "w_print_job_data m = writes [w_u64 (pjd_term m), w_u64 (pjd_job m), w_u32 (pjd_seq m), w_u8 (pjd_final_chunk m), w_blob (pjd_bytes m)]"

definition r_print_job_data :: "(reader, print_job_data) state" where
  "r_print_job_data = do {
     v_term \<leftarrow> r_u64;
     v_job \<leftarrow> r_u64;
     v_seq \<leftarrow> r_u32;
     v_final_chunk \<leftarrow> r_u8;
     v_bytes \<leftarrow> r_blob max_chunk_payload_bytes;
     State_Monad.return \<lparr>pjd_term = v_term, pjd_job = v_job, pjd_seq = v_seq, pjd_final_chunk = v_final_chunk, pjd_bytes = v_bytes\<rparr>
   }"

definition wf_print_job_data :: "print_job_data \<Rightarrow> bool" where
  "wf_print_job_data m \<longleftrightarrow> length (pjd_bytes m) \<le> unat max_chunk_payload_bytes"

interpretation print_job_data_codec: codec w_print_job_data "r_print_job_data" "wf_print_job_data"
  by unfold_locales (auto simp: w_print_job_data_def r_print_job_data_def wf_print_job_data_def emits careful_intros roundtrip)

record print_job_discard =
  pjx_term :: u64
  pjx_job :: u64

definition w_print_job_discard :: "print_job_discard \<Rightarrow> writer \<Rightarrow> writer" where
  "w_print_job_discard m = writes [w_u64 (pjx_term m), w_u64 (pjx_job m)]"

definition r_print_job_discard :: "(reader, print_job_discard) state" where
  "r_print_job_discard = do {
     v_term \<leftarrow> r_u64;
     v_job \<leftarrow> r_u64;
     State_Monad.return \<lparr>pjx_term = v_term, pjx_job = v_job\<rparr>
   }"

interpretation print_job_discard_codec: codec w_print_job_discard "r_print_job_discard" "\<lambda>_. True"
  by unfold_locales (auto simp: w_print_job_discard_def r_print_job_discard_def emits careful_intros roundtrip)

record term_stats =
  tst_term :: u64
  tst_cpu_permille :: u32
  tst_rss_bytes :: u64
  tst_real_bytes :: u64
  tst_flags :: u8
  tst_state :: term_stats_state
  tst_cpu_scope :: term_stats_scope
  tst_real_kind :: term_stats_memory
  tst_live_processes :: u32
  tst_unreadable_processes :: u32
  tst_system_error :: u32

definition w_term_stats :: "term_stats \<Rightarrow> writer \<Rightarrow> writer" where
  "w_term_stats m = writes [w_u64 (tst_term m), w_u32 (tst_cpu_permille m), w_u64 (tst_rss_bytes m), w_u64 (tst_real_bytes m), w_u8 (tst_flags m), w_term_stats_state (tst_state m), w_term_stats_scope (tst_cpu_scope m), w_term_stats_memory (tst_real_kind m), w_u32 (tst_live_processes m), w_u32 (tst_unreadable_processes m), w_u32 (tst_system_error m)]"

definition r_term_stats :: "(reader, term_stats) state" where
  "r_term_stats = do {
     v_term \<leftarrow> r_u64;
     v_cpu_permille \<leftarrow> r_u32;
     v_rss_bytes \<leftarrow> r_u64;
     v_real_bytes \<leftarrow> r_u64;
     v_flags \<leftarrow> r_u8;
     v_state \<leftarrow> r_term_stats_state;
     v_cpu_scope \<leftarrow> r_term_stats_scope;
     v_real_kind \<leftarrow> r_term_stats_memory;
     v_live_processes \<leftarrow> r_u32;
     v_unreadable_processes \<leftarrow> r_u32;
     v_system_error \<leftarrow> r_u32;
     State_Monad.return \<lparr>tst_term = v_term, tst_cpu_permille = v_cpu_permille, tst_rss_bytes = v_rss_bytes, tst_real_bytes = v_real_bytes, tst_flags = v_flags, tst_state = v_state, tst_cpu_scope = v_cpu_scope, tst_real_kind = v_real_kind, tst_live_processes = v_live_processes, tst_unreadable_processes = v_unreadable_processes, tst_system_error = v_system_error\<rparr>
   }"

interpretation term_stats_codec: codec w_term_stats "r_term_stats" "\<lambda>_. True"
  by unfold_locales (auto simp: w_term_stats_def r_term_stats_def emits careful_intros roundtrip)

datatype (plugins only: size code) message =
    Hello hello
  | HelloAck hello_ack
  | Refuse bytes
  | Ping u64
  | Pong u64
  | ListSessions
  | NewSession new_session
  | Attach attach
  | Detach
  | ClientResize client_resize
  | RenameSession rename_session
  | KillSession kill_session
  | KillServer
  | SessionList "session_info list"
  | SessionsChanged
  | Attached attached
  | Detached detached
  | NewTerminal new_terminal
  | CloseTerminal close_terminal
  | KillTerminal u64
  | RespawnTerminal u64
  | SetDesktopSize set_desktop_size
  | SetReaderMode set_reader_mode
  | ReaderMode u8
  | MoveTerminal move_terminal
  | MoveResize move_resize
  | Raise u64
  | FocusTerm u64
  | ZoomTerm zoom_term
  | SetLayout "layout_entry list"
  | RenameTerminal rename_terminal
  | Input input_msg
  | PasteChunk paste_chunk
  | PasteAck u32
  | LayoutDelta layout_delta
  | TermOpened term_opened
  | TermClosed term_closed
  | TermMeta term_meta
  | GridDelta grid_delta
  | ImageAddBegin image_add_begin
  | ImageChunk image_chunk
  | ImageEnd u64
  | ImagePlace image_place
  | ImageRemove image_remove
  | ClipboardSet clipboard_set
  | TermDiagnostic term_diagnostic
  | Error error_msg
  | SetPrinterPolicy set_printer_policy
  | PrintState print_state_msg
  | PrintJobAdded print_job_added
  | PrintJobFetch print_job_fetch
  | PrintJobData print_job_data
  | PrintJobDiscard print_job_discard
  | WatchStats u8
  | TermStats term_stats

text \<open>\<open>kType\<close> of each alternative, the value of \<open>enum class MessageType\<close>.\<close>

primrec type_of :: "message \<Rightarrow> u16" where
  "type_of (Hello m) = 0x0001"
| "type_of (HelloAck m) = 0x0002"
| "type_of (Refuse m) = 0x0003"
| "type_of (Ping m) = 0x0004"
| "type_of (Pong m) = 0x0005"
| "type_of ListSessions = 0x0101"
| "type_of (NewSession m) = 0x0102"
| "type_of (Attach m) = 0x0103"
| "type_of Detach = 0x0104"
| "type_of (ClientResize m) = 0x0105"
| "type_of (RenameSession m) = 0x0106"
| "type_of (KillSession m) = 0x0107"
| "type_of KillServer = 0x0108"
| "type_of (SessionList m) = 0x0109"
| "type_of SessionsChanged = 0x010A"
| "type_of (Attached m) = 0x010B"
| "type_of (Detached m) = 0x010C"
| "type_of (NewTerminal m) = 0x0201"
| "type_of (CloseTerminal m) = 0x0202"
| "type_of (KillTerminal m) = 0x0203"
| "type_of (RespawnTerminal m) = 0x0204"
| "type_of (SetDesktopSize m) = 0x0210"
| "type_of (SetReaderMode m) = 0x0211"
| "type_of (ReaderMode m) = 0x030E"
| "type_of (MoveTerminal m) = 0x0205"
| "type_of (MoveResize m) = 0x0206"
| "type_of (Raise m) = 0x0207"
| "type_of (FocusTerm m) = 0x0208"
| "type_of (ZoomTerm m) = 0x0209"
| "type_of (SetLayout m) = 0x020E"
| "type_of (RenameTerminal m) = 0x020A"
| "type_of (Input m) = 0x020B"
| "type_of (PasteChunk m) = 0x020C"
| "type_of (PasteAck m) = 0x020D"
| "type_of (LayoutDelta m) = 0x0301"
| "type_of (TermOpened m) = 0x0302"
| "type_of (TermClosed m) = 0x0303"
| "type_of (TermMeta m) = 0x0304"
| "type_of (GridDelta m) = 0x0305"
| "type_of (ImageAddBegin m) = 0x0306"
| "type_of (ImageChunk m) = 0x0307"
| "type_of (ImageEnd m) = 0x0308"
| "type_of (ImagePlace m) = 0x0309"
| "type_of (ImageRemove m) = 0x030A"
| "type_of (ClipboardSet m) = 0x030B"
| "type_of (TermDiagnostic m) = 0x030C"
| "type_of (Error m) = 0x0401"
| "type_of (SetPrinterPolicy m) = 0x0402"
| "type_of (PrintState m) = 0x0403"
| "type_of (PrintJobAdded m) = 0x0404"
| "type_of (PrintJobFetch m) = 0x0405"
| "type_of (PrintJobData m) = 0x0406"
| "type_of (PrintJobDiscard m) = 0x0407"
| "type_of (WatchStats m) = 0x020F"
| "type_of (TermStats m) = 0x030D"

text \<open>The overload of \<open>write\<close> for each alternative.\<close>

primrec write_message :: "message \<Rightarrow> writer \<Rightarrow> writer" where
  "write_message (Hello m) = w_hello m"
| "write_message (HelloAck m) = w_hello_ack m"
| "write_message (Refuse m) = w_str m"
| "write_message (Ping m) = w_u64 m"
| "write_message (Pong m) = w_u64 m"
| "write_message ListSessions = writes []"
| "write_message (NewSession m) = w_new_session m"
| "write_message (Attach m) = w_attach m"
| "write_message Detach = writes []"
| "write_message (ClientResize m) = w_client_resize m"
| "write_message (RenameSession m) = w_rename_session m"
| "write_message (KillSession m) = w_kill_session m"
| "write_message KillServer = writes []"
| "write_message (SessionList m) = w_counted w_session_info m"
| "write_message SessionsChanged = writes []"
| "write_message (Attached m) = w_attached m"
| "write_message (Detached m) = w_detached m"
| "write_message (NewTerminal m) = w_new_terminal m"
| "write_message (CloseTerminal m) = w_close_terminal m"
| "write_message (KillTerminal m) = w_u64 m"
| "write_message (RespawnTerminal m) = w_u64 m"
| "write_message (SetDesktopSize m) = w_set_desktop_size m"
| "write_message (SetReaderMode m) = w_set_reader_mode m"
| "write_message (ReaderMode m) = w_u8 m"
| "write_message (MoveTerminal m) = w_move_terminal m"
| "write_message (MoveResize m) = w_move_resize m"
| "write_message (Raise m) = w_u64 m"
| "write_message (FocusTerm m) = w_u64 m"
| "write_message (ZoomTerm m) = w_zoom_term m"
| "write_message (SetLayout m) = w_layout_entries m"
| "write_message (RenameTerminal m) = w_rename_terminal m"
| "write_message (Input m) = w_input_msg m"
| "write_message (PasteChunk m) = w_paste_chunk m"
| "write_message (PasteAck m) = w_u32 m"
| "write_message (LayoutDelta m) = w_layout_delta m"
| "write_message (TermOpened m) = w_term_opened m"
| "write_message (TermClosed m) = w_term_closed m"
| "write_message (TermMeta m) = w_term_meta m"
| "write_message (GridDelta m) = w_grid_delta m"
| "write_message (ImageAddBegin m) = w_image_add_begin m"
| "write_message (ImageChunk m) = w_image_chunk m"
| "write_message (ImageEnd m) = w_u64 m"
| "write_message (ImagePlace m) = w_image_place m"
| "write_message (ImageRemove m) = w_image_remove m"
| "write_message (ClipboardSet m) = w_clipboard_set m"
| "write_message (TermDiagnostic m) = w_term_diagnostic m"
| "write_message (Error m) = w_error_msg m"
| "write_message (SetPrinterPolicy m) = w_set_printer_policy m"
| "write_message (PrintState m) = w_print_state_msg m"
| "write_message (PrintJobAdded m) = w_print_job_added m"
| "write_message (PrintJobFetch m) = w_print_job_fetch m"
| "write_message (PrintJobData m) = w_print_job_data m"
| "write_message (PrintJobDiscard m) = w_print_job_discard m"
| "write_message (WatchStats m) = w_u8 m"
| "write_message (TermStats m) = w_term_stats m"

text \<open>The alternatives in the order of the variant, each with its type and its overload of \<open>read\<close>.\<close>

definition alternatives :: "ckvision \<Rightarrow> (u16 \<times> (reader, message) state) list" where
  "alternatives lib = [
     (0x0001, do { m \<leftarrow> r_hello; State_Monad.return (Hello m) }),
     (0x0002, do { m \<leftarrow> r_hello_ack; State_Monad.return (HelloAck m) }),
     (0x0003, do { m \<leftarrow> r_str; State_Monad.return (Refuse m) }),
     (0x0004, do { m \<leftarrow> r_u64; State_Monad.return (Ping m) }),
     (0x0005, do { m \<leftarrow> r_u64; State_Monad.return (Pong m) }),
     (0x0101, State_Monad.return ListSessions),
     (0x0102, do { m \<leftarrow> r_new_session; State_Monad.return (NewSession m) }),
     (0x0103, do { m \<leftarrow> r_attach; State_Monad.return (Attach m) }),
     (0x0104, State_Monad.return Detach),
     (0x0105, do { m \<leftarrow> r_client_resize; State_Monad.return (ClientResize m) }),
     (0x0106, do { m \<leftarrow> r_rename_session; State_Monad.return (RenameSession m) }),
     (0x0107, do { m \<leftarrow> r_kill_session; State_Monad.return (KillSession m) }),
     (0x0108, State_Monad.return KillServer),
     (0x0109, do { m \<leftarrow> r_counted 29 r_session_info; State_Monad.return (SessionList m) }),
     (0x010A, State_Monad.return SessionsChanged),
     (0x010B, do { m \<leftarrow> r_attached lib; State_Monad.return (Attached m) }),
     (0x010C, do { m \<leftarrow> r_detached; State_Monad.return (Detached m) }),
     (0x0201, do { m \<leftarrow> r_new_terminal; State_Monad.return (NewTerminal m) }),
     (0x0202, do { m \<leftarrow> r_close_terminal; State_Monad.return (CloseTerminal m) }),
     (0x0203, do { m \<leftarrow> r_u64; State_Monad.return (KillTerminal m) }),
     (0x0204, do { m \<leftarrow> r_u64; State_Monad.return (RespawnTerminal m) }),
     (0x0210, do { m \<leftarrow> r_set_desktop_size; State_Monad.return (SetDesktopSize m) }),
     (0x0211, do { m \<leftarrow> r_set_reader_mode; State_Monad.return (SetReaderMode m) }),
     (0x030E, do { m \<leftarrow> r_u8; State_Monad.return (ReaderMode m) }),
     (0x0205, do { m \<leftarrow> r_move_terminal; State_Monad.return (MoveTerminal m) }),
     (0x0206, do { m \<leftarrow> r_move_resize; State_Monad.return (MoveResize m) }),
     (0x0207, do { m \<leftarrow> r_u64; State_Monad.return (Raise m) }),
     (0x0208, do { m \<leftarrow> r_u64; State_Monad.return (FocusTerm m) }),
     (0x0209, do { m \<leftarrow> r_zoom_term; State_Monad.return (ZoomTerm m) }),
     (0x020E, do { m \<leftarrow> r_layout_entries; State_Monad.return (SetLayout m) }),
     (0x020A, do { m \<leftarrow> r_rename_terminal; State_Monad.return (RenameTerminal m) }),
     (0x020B, do { m \<leftarrow> r_input_msg; State_Monad.return (Input m) }),
     (0x020C, do { m \<leftarrow> r_paste_chunk; State_Monad.return (PasteChunk m) }),
     (0x020D, do { m \<leftarrow> r_u32; State_Monad.return (PasteAck m) }),
     (0x0301, do { m \<leftarrow> r_layout_delta; State_Monad.return (LayoutDelta m) }),
     (0x0302, do { m \<leftarrow> r_term_opened; State_Monad.return (TermOpened m) }),
     (0x0303, do { m \<leftarrow> r_term_closed; State_Monad.return (TermClosed m) }),
     (0x0304, do { m \<leftarrow> r_term_meta; State_Monad.return (TermMeta m) }),
     (0x0305, do { m \<leftarrow> r_grid_delta lib; State_Monad.return (GridDelta m) }),
     (0x0306, do { m \<leftarrow> r_image_add_begin; State_Monad.return (ImageAddBegin m) }),
     (0x0307, do { m \<leftarrow> r_image_chunk; State_Monad.return (ImageChunk m) }),
     (0x0308, do { m \<leftarrow> r_u64; State_Monad.return (ImageEnd m) }),
     (0x0309, do { m \<leftarrow> r_image_place; State_Monad.return (ImagePlace m) }),
     (0x030A, do { m \<leftarrow> r_image_remove; State_Monad.return (ImageRemove m) }),
     (0x030B, do { m \<leftarrow> r_clipboard_set; State_Monad.return (ClipboardSet m) }),
     (0x030C, do { m \<leftarrow> r_term_diagnostic; State_Monad.return (TermDiagnostic m) }),
     (0x0401, do { m \<leftarrow> r_error_msg; State_Monad.return (Error m) }),
     (0x0402, do { m \<leftarrow> r_set_printer_policy; State_Monad.return (SetPrinterPolicy m) }),
     (0x0403, do { m \<leftarrow> r_print_state_msg; State_Monad.return (PrintState m) }),
     (0x0404, do { m \<leftarrow> r_print_job_added; State_Monad.return (PrintJobAdded m) }),
     (0x0405, do { m \<leftarrow> r_print_job_fetch; State_Monad.return (PrintJobFetch m) }),
     (0x0406, do { m \<leftarrow> r_print_job_data; State_Monad.return (PrintJobData m) }),
     (0x0407, do { m \<leftarrow> r_print_job_discard; State_Monad.return (PrintJobDiscard m) }),
     (0x020F, do { m \<leftarrow> r_u8; State_Monad.return (WatchStats m) }),
     (0x030D, do { m \<leftarrow> r_term_stats; State_Monad.return (TermStats m) })]"

text \<open>What this wire can say.\<close>

primrec wf_message :: "ckvision \<Rightarrow> message \<Rightarrow> bool" where
  "wf_message lib (Hello m) \<longleftrightarrow> wf_hello m"
| "wf_message lib (HelloAck m) \<longleftrightarrow> wf_hello_ack m"
| "wf_message lib (Refuse m) \<longleftrightarrow> length m \<le> 0xFFFF"
| "wf_message lib (Ping m) \<longleftrightarrow> True"
| "wf_message lib (Pong m) \<longleftrightarrow> True"
| "wf_message lib ListSessions \<longleftrightarrow> True"
| "wf_message lib (NewSession m) \<longleftrightarrow> wf_new_session m"
| "wf_message lib (Attach m) \<longleftrightarrow> True"
| "wf_message lib Detach \<longleftrightarrow> True"
| "wf_message lib (ClientResize m) \<longleftrightarrow> True"
| "wf_message lib (RenameSession m) \<longleftrightarrow> wf_rename_session m"
| "wf_message lib (KillSession m) \<longleftrightarrow> True"
| "wf_message lib KillServer \<longleftrightarrow> True"
| "wf_message lib (SessionList m) \<longleftrightarrow> list_all wf_session_info m \<and> length m < 2 ^ 32"
| "wf_message lib SessionsChanged \<longleftrightarrow> True"
| "wf_message lib (Attached m) \<longleftrightarrow> wf_attached lib m"
| "wf_message lib (Detached m) \<longleftrightarrow> wf_detached m"
| "wf_message lib (NewTerminal m) \<longleftrightarrow> wf_new_terminal m"
| "wf_message lib (CloseTerminal m) \<longleftrightarrow> True"
| "wf_message lib (KillTerminal m) \<longleftrightarrow> True"
| "wf_message lib (RespawnTerminal m) \<longleftrightarrow> True"
| "wf_message lib (SetDesktopSize m) \<longleftrightarrow> True"
| "wf_message lib (SetReaderMode m) \<longleftrightarrow> True"
| "wf_message lib (ReaderMode m) \<longleftrightarrow> True"
| "wf_message lib (MoveTerminal m) \<longleftrightarrow> True"
| "wf_message lib (MoveResize m) \<longleftrightarrow> True"
| "wf_message lib (Raise m) \<longleftrightarrow> True"
| "wf_message lib (FocusTerm m) \<longleftrightarrow> True"
| "wf_message lib (ZoomTerm m) \<longleftrightarrow> True"
| "wf_message lib (SetLayout m) \<longleftrightarrow> length m < 2 ^ 32"
| "wf_message lib (RenameTerminal m) \<longleftrightarrow> wf_rename_terminal m"
| "wf_message lib (Input m) \<longleftrightarrow> wf_input_msg m"
| "wf_message lib (PasteChunk m) \<longleftrightarrow> wf_paste_chunk m"
| "wf_message lib (PasteAck m) \<longleftrightarrow> True"
| "wf_message lib (LayoutDelta m) \<longleftrightarrow> wf_layout_delta m"
| "wf_message lib (TermOpened m) \<longleftrightarrow> wf_term_opened m"
| "wf_message lib (TermClosed m) \<longleftrightarrow> True"
| "wf_message lib (TermMeta m) \<longleftrightarrow> wf_term_meta m"
| "wf_message lib (GridDelta m) \<longleftrightarrow> wf_grid_delta lib m"
| "wf_message lib (ImageAddBegin m) \<longleftrightarrow> True"
| "wf_message lib (ImageChunk m) \<longleftrightarrow> wf_image_chunk m"
| "wf_message lib (ImageEnd m) \<longleftrightarrow> True"
| "wf_message lib (ImagePlace m) \<longleftrightarrow> True"
| "wf_message lib (ImageRemove m) \<longleftrightarrow> True"
| "wf_message lib (ClipboardSet m) \<longleftrightarrow> wf_clipboard_set m"
| "wf_message lib (TermDiagnostic m) \<longleftrightarrow> wf_term_diagnostic m"
| "wf_message lib (Error m) \<longleftrightarrow> wf_error_msg m"
| "wf_message lib (SetPrinterPolicy m) \<longleftrightarrow> True"
| "wf_message lib (PrintState m) \<longleftrightarrow> True"
| "wf_message lib (PrintJobAdded m) \<longleftrightarrow> True"
| "wf_message lib (PrintJobFetch m) \<longleftrightarrow> True"
| "wf_message lib (PrintJobData m) \<longleftrightarrow> wf_print_job_data m"
| "wf_message lib (PrintJobDiscard m) \<longleftrightarrow> True"
| "wf_message lib (WatchStats m) \<longleftrightarrow> True"
| "wf_message lib (TermStats m) \<longleftrightarrow> True"

end
