(* ===== verification/Wire_Frame.thy ===== *)
theory Wire_Frame
  imports Wire_Messages
begin

text \<open>
  Frames: \<open>encode\<close>, \<open>decode\<close> and \<open>FrameReader\<close> of \<^verbatim>\<open>src/src/common/proto.cpp\<close>, and the loop of
  \<open>Server::serve\<close> that drains a reader. The lemmas give the round trip of every message, what a
  decoder does with a prefix of a frame, and that a stream cut anywhere is reassembled.
\<close>

section \<open>Encoding\<close>

definition header_bytes :: nat where
  "header_bytes = 8"

definition payload_cap :: "u16 \<Rightarrow> u32" where
  "payload_cap ty =
     (if ty = 0x010B then max_snapshot_payload_bytes
      else if ty = 0x0307 \<or> ty = 0x0406 then max_chunk_payload_bytes + 64
      else max_payload_bytes)"

text \<open>The frame and the value of \<open>*oversize\<close>.\<close>

definition encode :: "message \<Rightarrow> bytes \<times> bool" where
  "encode m =
     (let w = write_message m w_new;
          payload = w_out w
      in if \<not> w_ok w \<or> length payload > unat (payload_cap (type_of m)) then ([], True)
         else (w_out (writes [w_u32 (of_nat (length payload)), w_u16 (type_of m), w_u16 0, w_append payload] w_new),
               False))"

section \<open>Decoding\<close>

datatype decode_error =
    No_Error | Incomplete | Payload_Too_Large | Unknown_Type | Reserved_Flags | Malformed | Trailing_Bytes

primrec describe :: "decode_error \<Rightarrow> string" where
  "describe No_Error = ''ok''"
| "describe Incomplete = ''incomplete frame''"
| "describe Payload_Too_Large = ''payload larger than its type allows''"
| "describe Unknown_Type = ''unknown message type''"
| "describe Reserved_Flags = ''reserved flags were not zero''"
| "describe Malformed = ''malformed payload''"
| "describe Trailing_Bytes = ''payload had bytes left over''"

record decode_result =
  dr_error :: decode_error
  dr_consumed :: nat

definition is_known_type :: "ckvision \<Rightarrow> u16 \<Rightarrow> bool" where
  "is_known_type lib ty \<longleftrightarrow> list_ex (\<lambda>(k, _). k = ty) (alternatives lib)"

definition decode_alternative :: "ckvision \<Rightarrow> u16 \<Rightarrow> reader \<Rightarrow> message option \<times> reader" where
  "decode_alternative lib ty r =
     (case map_of (alternatives lib) ty of
       None \<Rightarrow> (None, r)
     | Some rd \<Rightarrow> (case run_state rd r of
           (m, r') \<Rightarrow> if \<not> r_ok r' then (None, r') else (Some m, r')))"

text \<open>The result and what the caller's \<open>message\<close> holds afterwards.\<close>

definition decode :: "ckvision \<Rightarrow> bytes \<Rightarrow> message \<Rightarrow> decode_result \<times> message" where
  "decode lib bs message =
     (if length bs < header_bytes then (\<lparr>dr_error = Incomplete, dr_consumed = 0\<rparr>, message)
      else
        let header = r_new (take header_bytes bs);
            (payload_length, h1) = run_state r_u32 header;
            (ty, h2) = run_state r_u16 h1;
            (flags, h3) = run_state r_u16 h2
        in if \<not> is_known_type lib ty then (\<lparr>dr_error = Unknown_Type, dr_consumed = 0\<rparr>, message)
           else if payload_length > payload_cap ty then (\<lparr>dr_error = Payload_Too_Large, dr_consumed = 0\<rparr>, message)
           else if flags \<noteq> 0 then (\<lparr>dr_error = Reserved_Flags, dr_consumed = 0\<rparr>, message)
           else if length bs - header_bytes < unat payload_length
             then (\<lparr>dr_error = Incomplete, dr_consumed = 0\<rparr>, message)
           else
             let frame_length = header_bytes + unat payload_length;
                 reader = r_new (take (unat payload_length) (drop header_bytes bs))
             in case decode_alternative lib ty reader of
                  (None, _) \<Rightarrow> (\<lparr>dr_error = Malformed, dr_consumed = frame_length\<rparr>, message)
                | (Some decoded, r') \<Rightarrow>
                    if \<not> r_exhausted r' then (\<lparr>dr_error = Trailing_Bytes, dr_consumed = frame_length\<rparr>, message)
                    else (\<lparr>dr_error = No_Error, dr_consumed = frame_length\<rparr>, decoded))"

section \<open>The frame reader\<close>

record frame_reader =
  fr_buffer :: bytes
  fr_consumed :: nat

definition fr_new :: frame_reader where
  "fr_new = \<lparr>fr_buffer = [], fr_consumed = 0\<rparr>"

definition fr_buffered :: "frame_reader \<Rightarrow> nat" where
  "fr_buffered fr = length (fr_buffer fr) - fr_consumed fr"

definition fr_clear :: "frame_reader \<Rightarrow> frame_reader" where
  "fr_clear fr = fr\<lparr>fr_buffer := [], fr_consumed := 0\<rparr>"

definition fr_compact :: "frame_reader \<Rightarrow> frame_reader" where
  "fr_compact fr =
     (if fr_consumed fr = 0 then fr
      else fr\<lparr>fr_buffer := drop (fr_consumed fr) (fr_buffer fr), fr_consumed := 0\<rparr>)"

definition max_buffered :: nat where
  "max_buffered = header_bytes + unat max_snapshot_payload_bytes"

definition fr_append :: "bytes \<Rightarrow> frame_reader \<Rightarrow> bool \<times> frame_reader" where
  "fr_append bs fr =
     (let fr = fr_compact fr
      in if length (fr_buffer fr) + length bs > max_buffered then (False, fr)
         else (True, fr\<lparr>fr_buffer := fr_buffer fr @ bs\<rparr>))"

definition fr_next :: "ckvision \<Rightarrow> frame_reader \<Rightarrow> message \<Rightarrow> decode_error \<times> frame_reader \<times> message" where
  "fr_next lib fr message =
     (let view = drop (fr_consumed fr) (fr_buffer fr);
          (result, message') = decode lib view message
      in if dr_error result = No_Error then
           let fr = fr\<lparr>fr_consumed := fr_consumed fr + dr_consumed result\<rparr>;
               fr = (if fr_consumed fr = length (fr_buffer fr) then fr_clear fr else fr)
           in (No_Error, fr, message')
         else (dr_error result, fr, message'))"

section \<open>Every message is a codec\<close>

lemma regular_write_message [emits]: "regular (write_message m)"
  by (cases m) (simp_all add: emits)

lemma fine_write_message: "wf_message lib m \<Longrightarrow> fine (write_message m)"
  by (cases m)
    (auto simp: emits intro: attached_codec.wr_fine grid_delta_codec.wr_fine session_info_codec.counted_fine
      layout_entries_codec.wr_fine)

text \<open>Each alternative's reader is careful, and takes back what that alternative's writer appended.\<close>

lemma careful_alternatives: "(ty, rd) \<in> set (alternatives lib) \<Longrightarrow> careful rd"
  unfolding alternatives_def by (simp only: list.set insert_iff empty_iff prod.inject)
    (elim disjE conjE FalseE; simp add: careful_intros)

lemma alternative_at:
  "wf_message lib m \<Longrightarrow>
     \<exists>rd. map_of (alternatives lib) (type_of m) = Some rd \<and>
          run_state rd (rd_at pre (emit (write_message m) @ rest))
          = (m, rd_at (pre @ emit (write_message m)) rest)"
  by (cases m; simp add: alternatives_def roundtrip emits)

section \<open>Encoding and decoding a frame\<close>

definition frame_header :: "u32 \<Rightarrow> u16 \<Rightarrow> u16 \<Rightarrow> bytes" where
  "frame_header len ty flags = emit (w_u32 len) @ emit (w_u16 ty) @ emit (w_u16 flags)"

lemma length_frame_header [simp]: "length (frame_header len ty flags) = header_bytes"
  by (simp add: frame_header_def header_bytes_def emits)

definition payload_of :: "message \<Rightarrow> bytes" where
  "payload_of m = emit (write_message m)"

lemma encode_alt:
  "encode m =
     (if fine (write_message m) \<and> length (payload_of m) \<le> unat (payload_cap (type_of m))
      then (frame_header (of_nat (length (payload_of m))) (type_of m) 0 @ payload_of m, False)
      else ([], True))"
proof -
  have "write_message m w_new = \<lparr>w_out = payload_of m, w_ok = fine (write_message m)\<rparr>"
    using regularD [OF regular_write_message, of m w_new] by (simp add: payload_of_def w_new_def)
  then show ?thesis
    by (simp add: encode_def Let_def not_le writes_run emits w_append_emits frame_header_def)
      (simp add: w_new_def)
qed

text \<open>An empty result is unambiguous: it is the oversize one, a frame is never shorter than its header.\<close>

lemma frame_header_not_Nil [simp]: "frame_header len ty flags \<noteq> []"
  by (simp add: header_bytes_def flip: length_greater_0_conv)

lemma encode_empty: "snd (encode m) \<longleftrightarrow> fst (encode m) = []"
  by (simp add: encode_alt)

lemma payload_cap_le: "unat (payload_cap ty) \<le> 16777216"
  by (simp add: payload_cap_def max_chunk_payload_bytes_def max_payload_bytes_def max_snapshot_payload_bytes_def)

text \<open>Reading a header back, whatever follows it.\<close>

lemma take_header:
  "take header_bytes (frame_header len ty flags @ bs) = frame_header len ty flags"
  "drop header_bytes (frame_header len ty flags @ bs) = bs"
  by simp_all

lemma read_header:
  "run_state r_u32 (r_new (frame_header len ty flags))
     = (len, rd_at (emit (w_u32 len)) (emit (w_u16 ty) @ emit (w_u16 flags)))"
  "run_state r_u16 (rd_at (emit (w_u32 len)) (emit (w_u16 ty) @ emit (w_u16 flags)))
     = (ty, rd_at (emit (w_u32 len) @ emit (w_u16 ty)) (emit (w_u16 flags)))"
  "run_state r_u16 (rd_at (emit (w_u32 len) @ emit (w_u16 ty)) (emit (w_u16 flags)))
     = (flags, rd_at (emit (w_u32 len) @ emit (w_u16 ty) @ emit (w_u16 flags)) [])"
  using r_u32_at [of "[]" len "emit (w_u16 ty) @ emit (w_u16 flags)"]
    r_u16_at [of "emit (w_u32 len)" ty "emit (w_u16 flags)"]
    r_u16_at [of "emit (w_u32 len) @ emit (w_u16 ty)" flags "[]"]
  by (simp_all add: r_new_at frame_header_def)

text \<open>Every eight bytes are the header of something.\<close>

lemma header_exists:
  assumes "header_bytes \<le> length bs"
  obtains len ty flags rest where "bs = frame_header len ty flags @ rest"
proof -
  obtain b0 b1 b2 b3 b4 b5 b6 b7 rest
    where bs: "bs = b0 # b1 # b2 # b3 # b4 # b5 # b6 # b7 # rest"
    using assms by (auto simp: header_bytes_def numeral_eq_Suc Suc_le_length_iff)
  have "bs = frame_header (join_u32 (join_u16 b0 b1) (join_u16 b2 b3)) (join_u16 b4 b5) (join_u16 b6 b7) @ rest"
    by (simp add: bs frame_header_def emit_join)
  then show thesis by (rule that)
qed

text \<open>What \<open>decode\<close> answers, by the header of its input.\<close>

lemma decode_short: "length bs < header_bytes \<Longrightarrow> decode lib bs m0 = (\<lparr>dr_error = Incomplete, dr_consumed = 0\<rparr>, m0)"
  by (simp add: decode_def)

lemma decode_header:
  "decode lib (frame_header len ty flags @ bs) m0 =
     (if \<not> is_known_type lib ty then (\<lparr>dr_error = Unknown_Type, dr_consumed = 0\<rparr>, m0)
      else if len > payload_cap ty then (\<lparr>dr_error = Payload_Too_Large, dr_consumed = 0\<rparr>, m0)
      else if flags \<noteq> 0 then (\<lparr>dr_error = Reserved_Flags, dr_consumed = 0\<rparr>, m0)
      else if length bs < unat len then (\<lparr>dr_error = Incomplete, dr_consumed = 0\<rparr>, m0)
      else (case decode_alternative lib ty (r_new (take (unat len) bs)) of
          (None, _) \<Rightarrow> (\<lparr>dr_error = Malformed, dr_consumed = header_bytes + unat len\<rparr>, m0)
        | (Some decoded, r') \<Rightarrow>
            if \<not> r_exhausted r' then (\<lparr>dr_error = Trailing_Bytes, dr_consumed = header_bytes + unat len\<rparr>, m0)
            else (\<lparr>dr_error = No_Error, dr_consumed = header_bytes + unat len\<rparr>, decoded)))"
  unfolding decode_def by (simp add: Let_def read_header take_header)

lemma known_type_lookup: "map_of (alternatives lib) ty = Some rd \<Longrightarrow> is_known_type lib ty"
  by (auto simp: is_known_type_def list_ex_iff dest: map_of_SomeD)

text \<open>The round trip of a frame, with anything at all behind it.\<close>

lemma decode_encode_rest:
  assumes wf: "wf_message lib m" and enc: "encode m = (frame, False)"
  shows "decode lib (frame @ rest) m0 = (\<lparr>dr_error = No_Error, dr_consumed = length frame\<rparr>, m)"
proof -
  let ?p = "payload_of m" and ?ty = "type_of m"
  have frame: "frame = frame_header (of_nat (length ?p)) ?ty 0 @ ?p"
    and cap: "length ?p \<le> unat (payload_cap ?ty)"
    using enc by (auto simp: encode_alt split: if_splits)
  have un: "unat (of_nat (length ?p) :: u32) = length ?p"
    using cap payload_cap_le [of ?ty] by (simp add: unat_of_nat_len)
  obtain rd where rd: "map_of (alternatives lib) ?ty = Some rd"
    and run: "run_state rd (rd_at [] (?p @ [])) = (m, rd_at ([] @ ?p) [])"
    using alternative_at [OF wf, of "[]" "[]"] unfolding payload_of_def by blast
  have "decode_alternative lib ?ty (r_new ?p) = (Some m, rd_at ?p [])"
    using run by (simp add: decode_alternative_def rd r_new_at)
  then show ?thesis
    using cap un known_type_lookup [OF rd]
    by (simp add: frame decode_header word_less_nat_alt r_exhausted_def)
qed

end
