(* ===== verification/Wire_Stream.thy ===== *)
theory Wire_Stream
  imports Wire_Frame
begin

text \<open>
  A connection's bytes: what \<open>decode\<close> promises of any input, hostile ones included, the
  \<open>FrameReader\<close> against its abstraction (the bytes not taken yet), and the receiving half of
  \<open>Server::serve\<close> in \<^verbatim>\<open>src/src/server/server.cpp\<close>: append what arrived, then take frames until
  the reader has none. The main lemma is that a stream of frames, cut into reads anywhere,
  comes out as the messages that were sent.
\<close>

section \<open>What any input gets\<close>

lemma decode_error_untouched: "dr_error (fst (decode lib bs m0)) \<noteq> No_Error \<Longrightarrow> snd (decode lib bs m0) = m0"
  by (auto simp: decode_def Let_def split: prod.splits option.splits if_splits)

lemma decode_consumed_le: "dr_consumed (fst (decode lib bs m0)) \<le> length bs"
  by (auto simp: decode_def Let_def header_bytes_def split: prod.splits option.splits if_splits)

lemma decode_consumed_pos:
  "dr_error (fst (decode lib bs m0)) = No_Error \<Longrightarrow> header_bytes \<le> dr_consumed (fst (decode lib bs m0))"
  by (auto simp: decode_def Let_def header_bytes_def split: prod.splits option.splits if_splits)

lemma decode_consumed_cap: "dr_consumed (fst (decode lib bs m0)) \<le> max_buffered"
proof (cases "length bs < header_bytes")
  case False
  then obtain len ty flags rest where bs: "bs = frame_header len ty flags @ rest"
    by (meson header_exists not_less)
  have "unat len \<le> unat max_snapshot_payload_bytes" if "\<not> len > payload_cap ty"
    using that payload_cap_le [of ty] by (simp add: word_less_nat_alt emits)
  then show ?thesis
    by (auto simp: bs decode_header max_buffered_def split: prod.splits option.splits)
qed (simp add: decode_short)

text \<open>An answer is final: more bytes behind the frame cannot change it.\<close>

lemma decode_stable:
  assumes "dr_error (fst (decode lib bs m0)) \<noteq> Incomplete"
  shows "decode lib (bs @ extra) m0 = decode lib bs m0"
proof (cases "length bs < header_bytes")
  case True
  then show ?thesis using assms by (simp add: decode_short)
next
  case False
  then obtain len ty flags rest where bs: "bs = frame_header len ty flags @ rest"
    by (meson header_exists not_less)
  show ?thesis using assms
    by (auto simp: bs decode_header simp del: not_less split: if_splits)
qed

text \<open>A reader is never asked to wait for more than a frame may be.\<close>

lemma decode_full: "max_buffered \<le> length bs \<Longrightarrow> dr_error (fst (decode lib bs m0)) \<noteq> Incomplete"
proof -
  assume long: "max_buffered \<le> length bs"
  then have "header_bytes \<le> length bs" by (simp add: max_buffered_def)
  then obtain len ty flags rest where bs: "bs = frame_header len ty flags @ rest"
    by (meson header_exists)
  have "unat len \<le> length rest" if "\<not> len > payload_cap ty"
    using that payload_cap_le [of ty] long by (simp add: word_less_nat_alt bs max_buffered_def emits)
  then show ?thesis
    by (auto simp: bs decode_header split: prod.splits option.splits)
qed

text \<open>A length past the cap of its type is refused as soon as the header is here.\<close>

lemma decode_oversize_at_once:
  "is_known_type lib ty \<Longrightarrow> len > payload_cap ty \<Longrightarrow>
     decode lib (frame_header len ty flags @ bs) m0 = (\<lparr>dr_error = Payload_Too_Large, dr_consumed = 0\<rparr>, m0)"
  by (simp add: decode_header)

text \<open>A proper prefix of a frame the encoder made is a frame to wait for.\<close>

lemma decode_cut_frame:
  assumes wf: "wf_message lib m" and enc: "encode m = (a @ b, False)" and "b \<noteq> []"
  shows "decode lib a m0 = (\<lparr>dr_error = Incomplete, dr_consumed = 0\<rparr>, m0)"
proof (rule ccontr)
  assume wrong: "decode lib a m0 \<noteq> (\<lparr>dr_error = Incomplete, dr_consumed = 0\<rparr>, m0)"
  have "dr_error (fst (decode lib a m0)) \<noteq> Incomplete"
  proof
    assume incomplete: "dr_error (fst (decode lib a m0)) = Incomplete"
    then have "fst (decode lib a m0) = \<lparr>dr_error = Incomplete, dr_consumed = 0\<rparr>"
      by (auto simp: decode_def Let_def split: prod.splits option.splits if_splits)
    with decode_error_untouched [of lib a m0] incomplete wrong show False
      by (metis decode_error.distinct(1) prod.collapse)
  qed
  from decode_stable [OF this, of b] decode_encode_rest [OF wf enc, of "[]" m0]
  have "decode lib a m0 = (\<lparr>dr_error = No_Error, dr_consumed = length (a @ b)\<rparr>, m)" by simp
  with decode_consumed_le [of lib a m0] \<open>b \<noteq> []\<close> show False by simp
qed

section \<open>The frame reader against the bytes it has not taken\<close>

definition fr_wf :: "frame_reader \<Rightarrow> bool" where
  "fr_wf fr \<longleftrightarrow> fr_consumed fr \<le> length (fr_buffer fr) \<and> length (fr_buffer fr) \<le> max_buffered"

definition fr_pending :: "frame_reader \<Rightarrow> bytes" where
  "fr_pending fr = drop (fr_consumed fr) (fr_buffer fr)"

lemma fr_new_wf: "fr_wf fr_new" and fr_new_pending: "fr_pending fr_new = []"
  by (simp_all add: fr_wf_def fr_pending_def fr_new_def)

lemma fr_buffered_pending: "fr_buffered fr = length (fr_pending fr)"
  by (simp add: fr_buffered_def fr_pending_def)

lemma fr_compact_wf: "fr_wf fr \<Longrightarrow> fr_wf (fr_compact fr)"
  and fr_compact_pending: "fr_pending (fr_compact fr) = fr_pending fr"
  and fr_compact_buffer: "fr_buffer (fr_compact fr) = fr_pending fr"
  and fr_compact_consumed: "fr_consumed (fr_compact fr) = 0"
  by (auto simp: fr_compact_def fr_wf_def fr_pending_def)

lemma fr_append_cases:
  "fr_append bs fr =
     (if length (fr_pending fr) + length bs > max_buffered then (False, fr_compact fr)
      else (True, \<lparr>fr_buffer = fr_pending fr @ bs, fr_consumed = 0\<rparr>))"
  by (auto simp: fr_append_def Let_def fr_compact_buffer fr_compact_consumed intro!: frame_reader.equality)

lemma fr_append_pending: "fr_append bs fr = (True, fr') \<Longrightarrow> fr_pending fr' = fr_pending fr @ bs"
  and fr_append_wf: "fr_wf fr \<Longrightarrow> fr_append bs fr = (ok, fr') \<Longrightarrow> fr_wf fr'"
  by (auto simp: fr_append_cases fr_compact_wf split: if_splits) (auto simp: fr_pending_def fr_wf_def)

lemma fr_next_pending:
  assumes "fr_next lib fr m0 = (e, fr', m)" and "fr_wf fr"
  shows "fr_wf fr' \<and> e = dr_error (fst (decode lib (fr_pending fr) m0))
       \<and> m = snd (decode lib (fr_pending fr) m0)
       \<and> fr_pending fr' = (if e = No_Error then drop (dr_consumed (fst (decode lib (fr_pending fr) m0))) (fr_pending fr)
                           else fr_pending fr)"
proof -
  obtain r m' where d: "decode lib (fr_pending fr) m0 = (r, m')" by force
  have le: "dr_consumed r \<le> length (fr_buffer fr) - fr_consumed fr"
    using decode_consumed_le [of lib "fr_pending fr" m0] d by (simp add: fr_pending_def)
  show ?thesis using assms d le
    by (auto simp: fr_next_def fr_pending_def fr_wf_def fr_clear_def Let_def ac_simps split: if_splits)
qed

section \<open>Draining a reader\<close>

definition protocol_version :: u32 where
  "protocol_version = 4"

text \<open>\<open>proto::Message message;\<close> holds the first alternative with its defaults.\<close>

definition default_message :: message where
  "default_message = Hello \<lparr>hello_proto_version = protocol_version, hello_build = [], hello_client_kind = Ui\<rparr>"

text \<open>
  The loop of \<open>Server::serve\<close>: the frames a reader holds, the error that ended the loop, and the
  reader afterwards. Every turn that goes round again has taken a frame of at least eight
  bytes, so the loop ends.
\<close>

function fr_drain :: "ckvision \<Rightarrow> frame_reader \<Rightarrow> message list \<times> decode_error \<times> frame_reader" where
  "fr_drain lib fr =
     (case fr_next lib fr default_message of
       (e, fr', m) \<Rightarrow>
         if e \<noteq> No_Error then ([], e, fr')
         else (case fr_drain lib fr' of (ms, e', fr'') \<Rightarrow> (m # ms, e', fr'')))"
  by pat_completeness auto

lemma fr_next_shrinks:
  assumes "fr_next lib fr m0 = (No_Error, fr', m)"
  shows "fr_buffered fr' < fr_buffered fr"
proof -
  obtain r m' where d: "decode lib (drop (fr_consumed fr) (fr_buffer fr)) m0 = (r, m')" by force
  have "dr_error r = No_Error" using assms by (auto simp: fr_next_def d Let_def split: if_splits)
  then have "header_bytes \<le> dr_consumed r" and "dr_consumed r \<le> length (fr_buffer fr) - fr_consumed fr"
    using decode_consumed_pos [of lib "drop (fr_consumed fr) (fr_buffer fr)" m0]
      decode_consumed_le [of lib "drop (fr_consumed fr) (fr_buffer fr)" m0] by (simp_all add: d)
  then show ?thesis using assms
    by (auto simp: fr_next_def d Let_def fr_buffered_def fr_clear_def header_bytes_def split: if_splits)
qed

termination fr_drain
  by (relation "measure (\<lambda>(lib, fr). fr_buffered fr)") (auto dest: fr_next_shrinks [OF sym])

declare fr_drain.simps [simp del]

section \<open>Serving a connection\<close>

text \<open>
  The receiving half of \<open>Server::serve\<close>: what one read brought in, appended and drained. The
  messages are those handed to \<open>handle\<close>, in order; the text is why the connection was dropped.
\<close>

definition serve_read :: "ckvision \<Rightarrow> bytes \<Rightarrow> frame_reader \<Rightarrow> message list \<times> string option \<times> frame_reader" where
  "serve_read lib arrived fr =
     (case (if arrived = [] then (True, fr) else fr_append arrived fr) of
       (False, fr) \<Rightarrow> ([], Some ''sent more than a frame may ever be'', fr)
     | (True, fr) \<Rightarrow>
         (case fr_drain lib fr of
           (ms, e, fr') \<Rightarrow>
             if e = Incomplete then (ms, None, fr')
             else (ms, Some ''sent a frame this server cannot read'', fr')))"

fun serve_reads :: "ckvision \<Rightarrow> bytes list \<Rightarrow> frame_reader \<Rightarrow> message list \<times> string option \<times> frame_reader" where
  "serve_reads lib [] fr = ([], None, fr)"
| "serve_reads lib (c # cs) fr =
     (case serve_read lib c fr of
       (ms, Some why, fr') \<Rightarrow> (ms, Some why, fr')
     | (ms, None, fr') \<Rightarrow>
         (case serve_reads lib cs fr' of (ms', why, fr'') \<Rightarrow> (ms @ ms', why, fr'')))"

text \<open>A message this wire can carry, and the frame it travels in.\<close>

definition sendable :: "ckvision \<Rightarrow> message \<Rightarrow> bool" where
  "sendable lib m \<longleftrightarrow> wf_message lib m \<and> \<not> snd (encode m)"

definition frame_of :: "message \<Rightarrow> bytes" where
  "frame_of m = fst (encode m)"

lemma decode_frame:
  "sendable lib m \<Longrightarrow> decode lib (frame_of m @ rest) m0 = (\<lparr>dr_error = No_Error, dr_consumed = length (frame_of m)\<rparr>, m)"
  using decode_encode_rest [of lib m "frame_of m"] by (simp add: sendable_def frame_of_def prod_eq_iff)

lemma decode_part:
  "sendable lib m \<Longrightarrow> frame_of m = a @ b \<Longrightarrow> b \<noteq> [] \<Longrightarrow>
     decode lib a m0 = (\<lparr>dr_error = Incomplete, dr_consumed = 0\<rparr>, m0)"
  using decode_cut_frame [of lib m a b] by (simp add: sendable_def frame_of_def prod_eq_iff)

lemma frame_of_not_Nil: "sendable lib m \<Longrightarrow> frame_of m \<noteq> []"
  by (simp add: sendable_def frame_of_def encode_empty)

text \<open>What is left of a stream after some of it was taken: whole frames, or one cut short.\<close>

definition partial :: "bytes \<Rightarrow> message list \<Rightarrow> bool" where
  "partial bs ms \<longleftrightarrow> bs = [] \<or> (\<exists>m ms' b. ms = m # ms' \<and> frame_of m = bs @ b \<and> b \<noteq> [])"

lemma partial_waits:
  "list_all (sendable lib) ms \<Longrightarrow> partial bs ms \<Longrightarrow>
     decode lib bs m0 = (\<lparr>dr_error = Incomplete, dr_consumed = 0\<rparr>, m0)"
  by (auto simp: partial_def decode_short header_bytes_def intro: decode_part)

lemma drain_partial:
  assumes "list_all (sendable lib) ms" "partial bs ms" "fr_wf fr" "fr_pending fr = bs"
  shows "\<exists>fr'. fr_drain lib fr = ([], Incomplete, fr') \<and> fr_wf fr' \<and> fr_pending fr' = bs"
proof -
  obtain e fr' m where n: "fr_next lib fr default_message = (e, fr', m)" by (metis prod_cases3)
  from fr_next_pending [OF n] partial_waits [OF assms(1,2)] assms(3,4)
  have "e = Incomplete" "fr_wf fr'" "fr_pending fr' = bs" by auto
  with n show ?thesis by (subst fr_drain.simps) simp
qed

lemma drain_frames:
  assumes "list_all (sendable lib) (ms @ later)" "partial bs later" "fr_wf fr"
    and "fr_pending fr = concat (map frame_of ms) @ bs"
  shows "\<exists>fr'. fr_drain lib fr = (ms, Incomplete, fr') \<and> fr_wf fr' \<and> fr_pending fr' = bs"
  using assms
proof (induction ms arbitrary: fr)
  case Nil
  then show ?case using drain_partial by auto
next
  case (Cons m ms)
  obtain e fr' m' where n: "fr_next lib fr default_message = (e, fr', m')" by (metis prod_cases3)
  have "decode lib (fr_pending fr) default_message = (\<lparr>dr_error = No_Error, dr_consumed = length (frame_of m)\<rparr>, m)"
    using Cons.prems decode_frame [of lib m "concat (map frame_of ms) @ bs"] by simp
  with fr_next_pending [OF n] Cons.prems
  have got: "e = No_Error" "m' = m" "fr_wf fr'" "fr_pending fr' = concat (map frame_of ms) @ bs" by auto
  from Cons.IH [OF _ _ got(3,4)] Cons.prems obtain fr'' where
    "fr_drain lib fr' = (ms, Incomplete, fr'')" "fr_wf fr''" "fr_pending fr'' = bs" by auto
  with n got show ?case by (subst fr_drain.simps) simp
qed

text \<open>Any prefix of a stream of frames is whole frames and part of the next.\<close>

lemma split_stream:
  assumes "a @ b = concat (map frame_of ms)"
  shows "\<exists>done later bs. ms = done @ later \<and> a = concat (map frame_of done) @ bs \<and> partial bs later
           \<and> bs @ b = concat (map frame_of later)"
  using assms
proof (induction ms arbitrary: a)
  case Nil
  then show ?case by (auto simp: partial_def)
next
  case (Cons m ms)
  show ?case
  proof (cases "length (frame_of m) \<le> length a")
    case True
    then obtain a' where a: "a = frame_of m @ a'"
      using Cons.prems by (metis append_eq_append_conv_if append_take_drop_id concat.simps(2) list.simps(9))
    with Cons.prems have "a' @ b = concat (map frame_of ms)" by simp
    from Cons.IH [OF this] obtain d later bs where
      "ms = d @ later" "a' = concat (map frame_of d) @ bs" "partial bs later" "bs @ b = concat (map frame_of later)"
      by blast
    with a show ?thesis by (intro exI [of _ "m # d"] exI [of _ later] exI [of _ bs]) simp
  next
    case False
    from Cons.prems have "a @ b = frame_of m @ concat (map frame_of ms)" by simp
    then obtain c where "a = frame_of m @ c \<or> a @ c = frame_of m"
      unfolding append_eq_append_conv2 by blast
    with False have "frame_of m = a @ c" and "c \<noteq> []" by auto
    then have "partial a (m # ms)" by (auto simp: partial_def)
    with Cons.prems show ?thesis by (intro exI [of _ "[]"] exI [of _ "m # ms"] exI [of _ a]) simp
  qed
qed

lemma partial_length: "partial bs ms \<Longrightarrow> bs \<noteq> [] \<Longrightarrow> \<exists>m \<in> set ms. length bs < length (frame_of m)"
  by (auto simp: partial_def)

lemma serve_reads_stream:
  assumes "list_all (sendable lib) ms" "fr_wf fr" "partial (fr_pending fr) ms"
    and "fr_pending fr @ concat cs = concat (map frame_of ms)"
    and "\<forall>m \<in> set ms. \<forall>c \<in> set cs. length (frame_of m) + length c \<le> max_buffered"
  shows "\<exists>fr'. serve_reads lib cs fr = (ms, None, fr') \<and> fr_pending fr' = []"
  using assms
proof (induction cs arbitrary: ms fr)
  case Nil
  have "ms = []"
  proof (cases ms)
    case (Cons m ms')
    then show ?thesis using Nil.prems frame_of_not_Nil [of lib m] by (auto simp: partial_def)
  qed simp
  with Nil.prems show ?case by simp
next
  case (Cons c cs)
  from split_stream [of "fr_pending fr @ c" "concat cs" ms] Cons.prems(4)
  obtain d later bs where ms: "ms = d @ later" and got: "fr_pending fr @ c = concat (map frame_of d) @ bs"
    and part: "partial bs later" and rest: "bs @ concat cs = concat (map frame_of later)" by auto
  have room: "length (fr_pending fr) + length c \<le> max_buffered" if "c \<noteq> []"
  proof (cases "fr_pending fr = []")
    case False
    from partial_length [OF Cons.prems(3) this] Cons.prems(5) show ?thesis by fastforce
  next
    case True
    note \<open>c \<noteq> []\<close>
    then have "ms \<noteq> []" using Cons.prems(4) True by auto
    then obtain m where "m \<in> set ms" by (cases ms) auto
    with Cons.prems(5) True show ?thesis by fastforce
  qed
  define fr1 where "fr1 = (if c = [] then fr else snd (fr_append c fr))"
  have fr1: "(if c = [] then (True, fr) else fr_append c fr) = (True, fr1)"
    using room by (cases "c = []") (auto simp: fr1_def fr_append_cases)
  have fr1_pending: "fr_pending fr1 = concat (map frame_of d) @ bs"
    using fr1 got fr_append_pending [of c fr fr1] by (auto split: if_splits)
  have "fr_wf fr1" using fr1 Cons.prems(2) fr_append_wf [of fr c True fr1] by (auto split: if_splits)
  with drain_frames [OF _ part _ fr1_pending] Cons.prems(1) ms obtain fr2 where
    drain: "fr_drain lib fr1 = (d, Incomplete, fr2)" and fr2: "fr_wf fr2" "fr_pending fr2 = bs" by auto
  have "\<exists>fr'. serve_reads lib cs fr2 = (later, None, fr') \<and> fr_pending fr' = []"
    by (rule Cons.IH) (use Cons.prems ms part rest fr2 in auto)
  then show ?case using fr1 drain ms by (auto simp: serve_read_def)
qed

end
