(* ===== verification/Wire_Convert.thy ===== *)
theory Wire_Convert
  imports Wire_Messages
begin

text \<open>
  The library's values as wire values and back (\<open>to_wire\<close>, \<open>from_wire\<close>, \<open>to_runs\<close>, \<open>from_runs\<close>)
  and what a value will cost before it is written (\<open>encoded_size\<close>), all from
  \<^verbatim>\<open>src/src/common/proto.cpp\<close>. Runs are shown to expand to the cells they came from, and the size
  arithmetic to be the length of what the writers append.
\<close>

section \<open>Geometry\<close>

text \<open>\<open>ckv::Size\<close> and \<open>ckv::Rect\<close>: integers, negative ones included.\<close>

record extent =
  width :: int
  height :: int

record ckv_rect =
  ckv_x :: int
  ckv_y :: int
  ckv_w :: int
  ckv_h :: int

definition to_wire :: "ckv_rect \<Rightarrow> wire_rect" where
  "to_wire r = \<lparr>rect_x = word_of_int (ckv_x r), rect_y = word_of_int (ckv_y r),
     rect_width = word_of_int (max 0 (ckv_w r)), rect_height = word_of_int (max 0 (ckv_h r))\<rparr>"

definition from_wire :: "wire_rect \<Rightarrow> ckv_rect" where
  "from_wire r = \<lparr>ckv_x = sint (rect_x r), ckv_y = sint (rect_y r),
     ckv_w = uint (rect_width r), ckv_h = uint (rect_height r)\<rparr>"

lemma to_wire_from_wire: "to_wire (from_wire r) = r"
  by (simp add: to_wire_def from_wire_def)

lemma sint_i16: "- 32768 \<le> i \<Longrightarrow> i < 32768 \<Longrightarrow> sint (word_of_int i :: i16) = i"
  by (simp add: sint_sbintrunc' signed_take_bit_int_eq_self)

lemma from_wire_to_wire:
  assumes "- 32768 \<le> ckv_x r" "ckv_x r < 32768" "- 32768 \<le> ckv_y r" "ckv_y r < 32768"
    and "0 \<le> ckv_w r" "ckv_w r < 65536" "0 \<le> ckv_h r" "ckv_h r < 65536"
  shows "from_wire (to_wire r) = r"
  using assms by (cases r) (simp add: to_wire_def from_wire_def sint_i16 uint_word_of_int)

section \<open>Runs\<close>

text \<open>The comparison of \<open>to_runs\<close> and of \<open>same_cell\<close>: grapheme, width and the whole style.\<close>

definition same_cell :: "cell \<Rightarrow> cell \<Rightarrow> bool" where
  "same_cell a b \<longleftrightarrow> grapheme a = grapheme b \<and> cell_width a = cell_width b \<and> cell_style a = cell_style b"

lemma same_cell_eq [simp]: "same_cell a b \<longleftrightarrow> a = b"
  by (auto simp: same_cell_def intro: cell.equality)

definition add_cell :: "cell_run list \<Rightarrow> cell \<Rightarrow> cell_run list" where
  "add_cell runs c =
     (if runs \<noteq> [] \<and> run_length (last runs) < 0xFFFF \<and> same_cell (run_cell (last runs)) c
      then butlast runs @ [(last runs)\<lparr>run_length := run_length (last runs) + 1\<rparr>]
      else runs @ [\<lparr>run_length = 1, run_cell = c\<rparr>])"

definition to_runs :: "cell list \<Rightarrow> cell_run list" where
  "to_runs cells = foldl add_cell [] cells"

definition total_length :: "cell_run list \<Rightarrow> nat" where
  "total_length runs = (\<Sum>run\<leftarrow>runs. unat (run_length run))"

definition run_cells :: "cell_run \<Rightarrow> cell list" where
  "run_cells run = replicate (unat (run_length run)) (run_cell run)"

definition from_runs :: "cell_run list \<Rightarrow> cell list" where
  "from_runs runs = (if total_length runs > max_grid_cells then [] else concat (map run_cells runs))"

lemma length_concat_runs: "length (concat (map run_cells runs)) = total_length runs"
  by (simp add: length_concat comp_def total_length_def run_cells_def)

lemma length_from_runs: "total_length runs \<le> max_grid_cells \<Longrightarrow> length (from_runs runs) = total_length runs"
  by (simp add: from_runs_def length_concat_runs)

lemma max_grid_cells_value: "max_grid_cells = 1000000"
  by (simp add: max_grid_cells_def max_grid_columns_def max_grid_rows_def)

text \<open>A run never claims no cells, so \<open>++run_length\<close> never wraps.\<close>

lemma unat_succ_u16: "(n :: u16) < 0xFFFF \<Longrightarrow> unat (n + 1) = Suc (unat n)"
  by (simp add: word_less_nat_alt unat_word_ariths)

lemma expand_add_cell: "concat (map run_cells (add_cell runs c)) = concat (map run_cells runs) @ [c]"
proof (cases runs rule: rev_cases)
  case (snoc front run)
  then show ?thesis
    by (simp add: add_cell_def run_cells_def unat_succ_u16 replicate_append_same)
qed (simp add: add_cell_def run_cells_def)

lemma expand_add_cells: "concat (map run_cells (foldl add_cell runs cs)) = concat (map run_cells runs) @ cs"
  by (induction cs arbitrary: runs) (simp_all add: expand_add_cell)

lemma expand_to_runs: "concat (map run_cells (to_runs cs)) = cs"
  by (simp add: to_runs_def expand_add_cells)

lemma total_length_to_runs [simp]: "total_length (to_runs cs) = length cs"
  by (metis length_concat_runs expand_to_runs)

lemma from_runs_to_runs: "length cs \<le> max_grid_cells \<Longrightarrow> from_runs (to_runs cs) = cs"
  by (simp add: from_runs_def expand_to_runs)

text \<open>What \<open>to_runs\<close> makes is what the wire can say: no empty run, no run of an unsayable cell.\<close>

lemma add_cell_wf:
  assumes "list_all (wf_run lib) runs" and "wf_cell lib c"
  shows "list_all (wf_run lib) (add_cell runs c)"
proof (cases runs rule: rev_cases)
  case (snoc front run)
  have "run_length run + 1 \<noteq> 0" if "run_length run < 0xFFFF"
    using unat_succ_u16 [OF that] by (metis nat.distinct(1) unat_0)
  with snoc assms show ?thesis by (simp add: add_cell_def wf_run_def)
qed (use assms in \<open>simp add: add_cell_def wf_run_def\<close>)

lemma add_cells_wf:
  "list_all (wf_run lib) runs \<Longrightarrow> list_all (wf_cell lib) cs \<Longrightarrow> list_all (wf_run lib) (foldl add_cell runs cs)"
  by (induction cs arbitrary: runs) (simp_all add: add_cell_wf)

lemma length_add_cells: "length (foldl add_cell runs cs) \<le> length runs + length cs"
proof (induction cs arbitrary: runs)
  case (Cons c cs)
  have "length (add_cell runs c) \<le> Suc (length runs)" by (simp add: add_cell_def)
  then show ?case using Cons.IH [of "add_cell runs c"] by simp
qed simp

lemma to_runs_wf: "list_all (wf_cell lib) cs \<Longrightarrow> length cs < 2 ^ 32 \<Longrightarrow> wf_runs lib (to_runs cs)"
  using add_cells_wf [of lib "[]" cs] length_add_cells [of "[]" cs] by (simp add: to_runs_def wf_runs_def)

text \<open>Neighbouring runs hold different cells, unless the first could take no more.\<close>

fun tight :: "cell_run list \<Rightarrow> bool" where
  "tight (a # b # runs) \<longleftrightarrow> (run_cell a \<noteq> run_cell b \<or> run_length a = 0xFFFF) \<and> tight (b # runs)"
| "tight runs \<longleftrightarrow> True"

lemma tight_snoc:
  "tight (runs @ [b]) \<longleftrightarrow>
     tight runs \<and> (runs = [] \<or> run_cell (last runs) \<noteq> run_cell b \<or> run_length (last runs) = 0xFFFF)"
proof (induction runs rule: tight.induct)
  case (1 a c runs)
  then show ?case by auto
qed auto

lemma tight_add_cell: "tight runs \<Longrightarrow> tight (add_cell runs c)"
proof (cases runs rule: rev_cases)
  case (snoc front run)
  have "run_length run = 0xFFFF" if "\<not> run_length run < 0xFFFF"
    using that unsigned_less [where 'a = nat, of "run_length run"] by (simp add: word_less_nat_alt word_unat_eq_iff)
  moreover assume "tight runs"
  ultimately show ?thesis
    using snoc tight_snoc [of runs "\<lparr>run_length = 1, run_cell = c\<rparr>"] by (auto simp: add_cell_def tight_snoc)
qed (simp add: add_cell_def)

lemma tight_to_runs: "tight (to_runs cs)"
proof -
  have "tight runs \<Longrightarrow> tight (foldl add_cell runs cs)" for runs
    by (induction cs arbitrary: runs) (simp_all add: tight_add_cell)
  then show ?thesis by (simp add: to_runs_def)
qed

section \<open>What a value costs on the wire\<close>

definition run_size :: "cell_run \<Rightarrow> nat" where
  "run_size run = 16 + length (grapheme (run_cell run))"

definition runs_size :: "cell_run list \<Rightarrow> nat" where
  "runs_size runs = 4 + (\<Sum>run\<leftarrow>runs. run_size run)"

text \<open>A \<open>CellsOp\<close> by its runs: neither its row nor its column changes what it costs.\<close>

definition cells_op_size :: "cell_run list \<Rightarrow> nat" where
  "cells_op_size runs = 1 + 2 + 2 + runs_size runs"

definition lines_size :: "cell_run list list \<Rightarrow> nat" where
  "lines_size lns = 4 + (\<Sum>line\<leftarrow>lns. runs_size line)"

definition terminal_state_size :: "terminal_state \<Rightarrow> nat" where
  "terminal_state_size s =
     89 + length (ts_title s) + length (ts_custom_title s) + length (ts_diagnostic s)
     + runs_size (ts_grid s) + lines_size (ts_scrollback s) + 8 * length (ts_images s)
     + 25 * length (ts_print_jobs s)"

definition snapshot_size :: "snapshot \<Rightarrow> nat" where
  "snapshot_size sn = 16 + (\<Sum>s\<leftarrow>sn_terminals sn. terminal_state_size s)"

lemma length_w_run: "wf_run lib run \<Longrightarrow> length (emit (w_run run)) = run_size run"
  using wf_cell_length [of lib "run_cell run"] by (simp add: w_run_def run_size_def wf_run_def emits)

lemma length_entries:
  "list_all P xs \<Longrightarrow> (\<And>x. P x \<Longrightarrow> length (emit (entry x)) = cost x) \<Longrightarrow>
     (\<Sum>x\<leftarrow>xs. length (emit (entry x))) = (\<Sum>x\<leftarrow>xs. cost x)"
  by (induction xs) simp_all

lemma length_w_runs: "wf_runs lib runs \<Longrightarrow> length (emit (w_runs runs)) = runs_size runs"
  using length_entries [of "wf_run lib" runs w_run run_size]
  by (simp add: w_runs_def wf_runs_def runs_size_def length_w_counted run_codec.wr_regular length_w_run)

lemma length_w_lines: "wf_lines lib lns \<Longrightarrow> length (emit (w_lines lns)) = lines_size lns"
  using length_entries [of "wf_runs lib" lns w_runs runs_size]
  by (simp add: w_lines_def wf_lines_def lines_size_def length_w_counted runs_codec.wr_regular length_w_runs)

lemma length_w_cells_op:
  "wf_runs lib runs \<Longrightarrow> length (emit (w_grid_op (CellsOp row column runs))) = cells_op_size runs"
  by (simp add: emits cells_op_size_def length_w_runs)

lemma length_w_terminal_state:
  "wf_terminal_state lib s \<Longrightarrow> length (emit (w_terminal_state s)) = terminal_state_size s"
  by (simp add: w_terminal_state_def wf_terminal_state_def terminal_state_size_def emits length_w_runs [of lib]
      length_w_lines [of lib] sum_list_triv)

lemma length_w_snapshot: "wf_snapshot lib sn \<Longrightarrow> length (emit (w_snapshot sn)) = snapshot_size sn"
  using length_entries [of "wf_terminal_state lib" "sn_terminals sn" w_terminal_state terminal_state_size]
  by (simp add: w_snapshot_def wf_snapshot_def snapshot_size_def emits length_w_terminal_state
      terminal_state_codec.wr_regular)

end
