(* ===== verification/Grid.thy ===== *)
theory Grid
  imports Wire_Convert
begin

text \<open>
  The mirror of a terminal: \<open>GridState\<close> of \<^verbatim>\<open>src/src/common/grid_delta.hpp\<close> and the operations of
  \<^verbatim>\<open>grid_delta.cpp\<close> that change one. The history is one flat buffer and an offset; its abstraction
  is the list of lines a reader can scroll to, and pushing, resizing and enforcing the capacity
  are shown to be the obvious operations on that list.
\<close>

section \<open>The state\<close>

record grid_cursor =
  gc_column :: u16
  gc_row :: u16
  gc_style :: u8
  gc_visible :: u8
  gc_blink :: u8

record grid_state =
  gs_cells :: extent
  gs_grid :: "cell list"
  gs_scrollback :: "cell list"
  gs_start :: nat
  gs_max_lines :: nat
  gs_cursor :: grid_cursor
  gs_modes :: u32
  gs_title :: bytes

definition default_cursor :: grid_cursor where
  "default_cursor = \<lparr>gc_column = 0, gc_row = 0, gc_style = 0, gc_visible = 1, gc_blink = 0\<rparr>"

definition area :: "extent \<Rightarrow> nat" where
  "area e = nat (max 0 (width e)) * nat (max 0 (height e))"

definition blank_cell :: "ckvision \<Rightarrow> cell" where
  "blank_cell lib = from_grapheme lib [0x20] (default_style lib)"

definition blank_state :: "ckvision \<Rightarrow> extent \<Rightarrow> nat \<Rightarrow> grid_state" where
  "blank_state lib e max_lines =
     \<lparr>gs_cells = e, gs_grid = replicate (area e) (blank_cell lib), gs_scrollback = [], gs_start = 0,
      gs_max_lines = max_lines, gs_cursor = default_cursor, gs_modes = 0, gs_title = []\<rparr>"

section \<open>The history\<close>

definition scrollback_width :: "grid_state \<Rightarrow> nat" where
  "scrollback_width s = nat (max 1 (width (gs_cells s)))"

definition scrollback_lines :: "grid_state \<Rightarrow> nat" where
  "scrollback_lines s =
     (let total = length (gs_scrollback s) div scrollback_width s
      in if total > gs_start s then total - gs_start s else 0)"

definition scrollback_cells :: "grid_state \<Rightarrow> cell list" where
  "scrollback_cells s =
     (let lns = scrollback_lines s
      in if lns = 0 then []
         else let w = scrollback_width s in take (lns * w) (drop (gs_start s * w) (gs_scrollback s)))"

definition enforce_scrollback_capacity :: "grid_state \<Rightarrow> grid_state" where
  "enforce_scrollback_capacity s =
     (if gs_max_lines s = 0 then s\<lparr>gs_scrollback := [], gs_start := 0\<rparr>
      else
        let w = scrollback_width s;
            live = scrollback_lines s;
            s = (if live > gs_max_lines s then s\<lparr>gs_start := gs_start s + (live - gs_max_lines s)\<rparr> else s)
        in if gs_start s \<ge> scrollback_lines s \<and> gs_start s > 0
           then s\<lparr>gs_scrollback := drop (gs_start s * w) (gs_scrollback s), gs_start := 0\<rparr>
           else s)"

text \<open>A line as the history keeps it: cut or padded to the width.\<close>

definition fit_line :: "ckvision \<Rightarrow> nat \<Rightarrow> cell list \<Rightarrow> cell list" where
  "fit_line lib w line = map (\<lambda>column. if column < length line then line ! column else blank_cell lib) [0..<w]"

definition push_scrollback_line :: "ckvision \<Rightarrow> cell list \<Rightarrow> grid_state \<Rightarrow> grid_state" where
  "push_scrollback_line lib line s =
     (if gs_max_lines s = 0 then s
      else enforce_scrollback_capacity
             (s\<lparr>gs_scrollback := gs_scrollback s @ fit_line lib (scrollback_width s) line\<rparr>))"

section \<open>Resizing\<close>

text \<open>The loop that pushes the old history back in, a line of the old width at a time.\<close>

function relay_history :: "ckvision \<Rightarrow> nat \<Rightarrow> cell list \<Rightarrow> grid_state \<Rightarrow> grid_state" where
  "relay_history lib old_width history s =
     (if old_width > 0 \<and> old_width \<le> length history
      then relay_history lib old_width (drop old_width history)
             (push_scrollback_line lib (take old_width history) s)
      else s)"
  by pat_completeness auto

termination relay_history
  by (relation "measure (\<lambda>(_, _, history, _). length history)") auto

declare relay_history.simps [simp del]

definition clamp_cursor :: "extent \<Rightarrow> grid_cursor \<Rightarrow> grid_cursor" where
  "clamp_cursor e c =
     (let last_column = max 0 (width e);
          last_row = max 0 (height e - 1);
          c = (if uint (gc_column c) > last_column then c\<lparr>gc_column := word_of_int last_column\<rparr> else c)
      in if uint (gc_row c) > last_row then c\<lparr>gc_row := word_of_int last_row\<rparr> else c)"

definition resize_state :: "ckvision \<Rightarrow> extent \<Rightarrow> grid_state \<Rightarrow> grid_state" where
  "resize_state lib e s =
     (if gs_cells s = e then s
      else
        let same_width = (width (gs_cells s) = width e);
            old_width = (if same_width then 0 else scrollback_width s);
            history = (if same_width then [] else scrollback_cells s);
            s = (if same_width then s else s\<lparr>gs_scrollback := [], gs_start := 0\<rparr>);
            s = s\<lparr>gs_cells := e, gs_grid := replicate (area e) (blank_cell lib)\<rparr>;
            s = s\<lparr>gs_cursor := clamp_cursor e (gs_cursor s)\<rparr>
        in if same_width then enforce_scrollback_capacity s
           else relay_history lib old_width history s)"

section \<open>Changing the grid\<close>

text \<open>\<open>std::copy\<close>, \<open>std::fill\<close> and \<open>std::move\<close> over ranges of the flat grid.\<close>

definition write_at :: "nat \<Rightarrow> 'a list \<Rightarrow> 'a list \<Rightarrow> 'a list" where
  "write_at at xs grid = take at grid @ xs @ drop (at + length xs) grid"

definition fill_range :: "nat \<Rightarrow> nat \<Rightarrow> 'a \<Rightarrow> 'a list \<Rightarrow> 'a list" where
  "fill_range lo hi x grid = write_at lo (replicate (hi - lo) x) grid"

definition move_range :: "nat \<Rightarrow> nat \<Rightarrow> nat \<Rightarrow> 'a list \<Rightarrow> 'a list" where
  "move_range lo hi to grid = write_at to (take (hi - lo) (drop lo grid)) grid"

definition row_of :: "cell list \<Rightarrow> int \<Rightarrow> int \<Rightarrow> cell list" where
  "row_of grid w row = take (nat w) (drop (nat row * nat w) grid)"

definition shift_rows :: "ckvision \<Rightarrow> cell list \<Rightarrow> int \<Rightarrow> int \<Rightarrow> int \<Rightarrow> int \<Rightarrow> cell list" where
  "shift_rows lib grid w upper lower lns =
     (let h = lower - upper;
          blank = blank_cell lib;
          row_begin = (\<lambda>row. nat row * nat w)
      in if h \<le> 0 \<or> lns = 0 then grid
         else if \<bar>lns\<bar> \<ge> h then fill_range (row_begin upper) (row_begin lower) blank grid
         else if lns > 0 then
           fill_range (row_begin (lower - lns)) (row_begin lower) blank
             (move_range (row_begin (upper + lns)) (row_begin lower) (row_begin upper) grid)
         else
           let down = - lns
           in fill_range (row_begin upper) (row_begin (upper + down)) blank
                (move_range (row_begin upper) (row_begin (lower - down)) (row_begin (upper + down)) grid))"

section \<open>Applying a delta\<close>

text \<open>The first pass: every operation against the geometry as it will be when it is reached.\<close>

fun check_op :: "grid_op \<Rightarrow> extent \<Rightarrow> extent option" where
  "check_op (ResizeOp columns rows) e =
     (if columns = 0 \<or> rows = 0 \<or> columns > max_grid_columns \<or> rows > max_grid_rows then None
      else Some \<lparr>width = uint columns, height = uint rows\<rparr>)"
| "check_op (ScrollOp upper lower lns) e =
     (if upper > lower \<or> uint lower > height e then None
      else if \<bar>sint lns\<bar> > uint lower - uint upper then None else Some e)"
| "check_op (CellsOp row column runs) e =
     (if uint row \<ge> height e \<or> uint column > width e then None
      else if total_length runs > nat (width e - uint column) then None else Some e)"
| "check_op (CursorOp c) e =
     (if uint (cursor_row c) \<ge> height e \<or> uint (cursor_column c) > width e then None else Some e)"
| "check_op (ScrollbackPushOp lns) e =
     (if list_ex (\<lambda>line. total_length line = 0 \<or> total_length line > nat (max 0 (width e))) lns then None
      else Some e)"
| "check_op (ModesOp changed_mask values) e = Some e"
| "check_op (TitleOp title) e = Some e"

fun check_ops :: "grid_op list \<Rightarrow> extent \<Rightarrow> bool" where
  "check_ops [] e \<longleftrightarrow> True"
| "check_ops (op # ops) e \<longleftrightarrow> (case check_op op e of None \<Rightarrow> False | Some e' \<Rightarrow> check_ops ops e')"

text \<open>The second pass. The local \<open>width\<close> is always the state's own.\<close>

fun perform_op :: "ckvision \<Rightarrow> grid_op \<Rightarrow> grid_state \<Rightarrow> grid_state" where
  "perform_op lib (ResizeOp columns rows) s =
     resize_state lib \<lparr>width = uint columns, height = uint rows\<rparr> s"
| "perform_op lib (ScrollbackPushOp lns) s =
     (if gs_max_lines s = 0 then s
      else fold (\<lambda>line. push_scrollback_line lib (from_runs line)) lns s)"
| "perform_op lib (ScrollOp upper lower lns) s =
     s\<lparr>gs_grid := shift_rows lib (gs_grid s) (width (gs_cells s)) (uint upper) (uint lower) (sint lns)\<rparr>"
| "perform_op lib (CellsOp row column runs) s =
     s\<lparr>gs_grid := write_at (unat row * nat (width (gs_cells s)) + unat column) (from_runs runs) (gs_grid s)\<rparr>"
| "perform_op lib (CursorOp c) s =
     s\<lparr>gs_cursor := \<lparr>gc_column = cursor_column c, gc_row = cursor_row c, gc_style = cursor_style c,
                     gc_visible = cursor_visible c, gc_blink = cursor_blink c\<rparr>\<rparr>"
| "perform_op lib (ModesOp changed_mask values) s =
     s\<lparr>gs_modes := (gs_modes s AND NOT changed_mask) OR (values AND changed_mask)\<rparr>"
| "perform_op lib (TitleOp title) s = s\<lparr>gs_title := title\<rparr>"

definition apply_delta :: "ckvision \<Rightarrow> grid_op list \<Rightarrow> grid_state \<Rightarrow> bool \<times> grid_state" where
  "apply_delta lib ops mirror =
     (if length (gs_grid mirror) \<noteq> area (gs_cells mirror) then (False, mirror)
      else if \<not> check_ops ops (gs_cells mirror) then (False, mirror)
      else (True, fold (perform_op lib) ops mirror))"

section \<open>Comparing and carrying a whole grid\<close>

definition same_state :: "grid_state \<Rightarrow> grid_state \<Rightarrow> bool" where
  "same_state a b \<longleftrightarrow>
     gs_cells a = gs_cells b \<and> gs_cursor a = gs_cursor b \<and> gs_modes a = gs_modes b \<and> gs_title a = gs_title b \<and>
     length (gs_grid a) = length (gs_grid b) \<and> list_all2 same_cell (gs_grid a) (gs_grid b) \<and>
     length (scrollback_cells a) = length (scrollback_cells b) \<and>
     list_all2 same_cell (scrollback_cells a) (scrollback_cells b)"

definition encode_grid :: "grid_state \<Rightarrow> cell_run list" where
  "encode_grid s = to_runs (gs_grid s)"

definition decode_grid :: "cell_run list \<Rightarrow> extent \<Rightarrow> grid_state \<Rightarrow> bool \<times> grid_state" where
  "decode_grid runs e s =
     (if width e < 0 \<or> height e < 0 then (False, s)
      else if width e > uint max_grid_columns \<or> height e > uint max_grid_rows then (False, s)
      else if total_length runs \<noteq> area e then (False, s)
      else (True, s\<lparr>gs_cells := e, gs_grid := from_runs runs\<rparr>))"

section \<open>Rows of a flat buffer\<close>

definition rows_of :: "nat \<Rightarrow> 'a list \<Rightarrow> 'a list list" where
  "rows_of w xs = map (\<lambda>i. take w (drop (i * w) xs)) [0..<length xs div w]"

definition take_last :: "nat \<Rightarrow> 'a list \<Rightarrow> 'a list" where
  "take_last n xs = drop (length xs - n) xs"

lemma length_rows_of [simp]: "length (rows_of w xs) = length xs div w"
  by (simp add: rows_of_def)

lemma rows_of_short: "length xs < w \<Longrightarrow> rows_of w xs = []"
  by (simp add: rows_of_def)

lemma rows_of_Cons: "0 < w \<Longrightarrow> w \<le> length xs \<Longrightarrow> rows_of w xs = take w xs # rows_of w (drop w xs)"
proof -
  assume "0 < w" "w \<le> length xs"
  then have "length xs div w = Suc (length (drop w xs) div w)"
    by (simp add: le_div_geq)
  then show ?thesis
    by (simp add: rows_of_def upt_conv_Cons map_Suc_upt [symmetric] comp_def add.commute del: upt_Suc)
qed

lemma rows_of_append: "0 < w \<Longrightarrow> w dvd length xs \<Longrightarrow> rows_of w (xs @ ys) = rows_of w xs @ rows_of w ys"
proof (induction "length xs" arbitrary: xs rule: less_induct)
  case less
  show ?case
  proof (cases "xs = []")
    case True
    then show ?thesis by (simp add: rows_of_def)
  next
    case False
    with less.prems have le: "w \<le> length xs" by (auto intro: dvd_imp_le)
    then have "rows_of w (drop w xs @ ys) = rows_of w (drop w xs) @ rows_of w ys"
      using less False by simp
    then show ?thesis using le less.prems by (simp add: rows_of_Cons)
  qed
qed

lemma rows_of_line: "0 < w \<Longrightarrow> length line = w \<Longrightarrow> rows_of w line = [line]"
  by (simp add: rows_of_Cons rows_of_short)

lemma rows_of_Nil [simp]: "rows_of w [] = []"
  by (simp add: rows_of_def)

lemma rows_of_drop: "0 < w \<Longrightarrow> rows_of w (drop (k * w) xs) = drop k (rows_of w xs)"
proof (induction k arbitrary: xs)
  case (Suc k)
  show ?case
  proof (cases "w \<le> length xs")
    case True
    then show ?thesis using Suc.IH [of "drop w xs"] Suc.prems by (simp add: rows_of_Cons add.commute)
  next
    case False
    then show ?thesis by (simp add: rows_of_short)
  qed
qed simp

lemma concat_rows_of: "0 < w \<Longrightarrow> w dvd length xs \<Longrightarrow> concat (rows_of w xs) = xs"
proof (induction "length xs" arbitrary: xs rule: less_induct)
  case less
  show ?case
  proof (cases "xs = []")
    case False
    with less.prems have "w \<le> length xs" by (auto intro: dvd_imp_le)
    with less False show ?thesis by (simp add: rows_of_Cons)
  qed simp
qed

lemma rows_of_length: "row \<in> set (rows_of w xs) \<Longrightarrow> length row = w"
proof -
  assume "row \<in> set (rows_of w xs)"
  then obtain i where i: "row = take w (drop (i * w) xs)" "i < length xs div w" by (auto simp: rows_of_def)
  then have "Suc i * w \<le> length xs" by (metis Suc_leI div_times_less_eq_dividend le_trans mult_le_mono1)
  with i show ?thesis by simp
qed

lemma take_last_all: "length xs \<le> n \<Longrightarrow> take_last n xs = xs"
  by (simp add: take_last_def)

lemma length_take_last [simp]: "length (take_last n xs) = min n (length xs)"
  by (simp add: take_last_def)

lemma take_last_append: "take_last n (take_last n xs @ ys) = take_last n (xs @ ys)"
  by (cases "length xs \<le> n") (simp_all add: take_last_def add.commute)

section \<open>The history a reader can scroll to\<close>

definition history :: "grid_state \<Rightarrow> cell list list" where
  "history s = rows_of (scrollback_width s) (scrollback_cells s)"

text \<open>
  A well-formed state: the grid has the cells its size says, the buffer is whole lines with the
  offset inside it, no more lines are live than the reader asked to keep, and the dead prefix is
  smaller than what is kept.
\<close>

definition wf_history :: "grid_state \<Rightarrow> bool" where
  "wf_history s \<longleftrightarrow>
     scrollback_width s dvd length (gs_scrollback s) \<and>
     gs_start s \<le> length (gs_scrollback s) div scrollback_width s \<and>
     scrollback_lines s \<le> gs_max_lines s \<and>
     (gs_start s = 0 \<or> gs_start s < scrollback_lines s)"

definition wf_state :: "grid_state \<Rightarrow> bool" where
  "wf_state s \<longleftrightarrow> length (gs_grid s) = area (gs_cells s) \<and> wf_history s"

lemma scrollback_width_pos [simp]: "0 < scrollback_width s"
  by (simp add: scrollback_width_def)

lemma scrollback_lines_eq: "scrollback_lines s = length (gs_scrollback s) div scrollback_width s - gs_start s"
  by (simp add: scrollback_lines_def Let_def)

lemma scrollback_cells_eq:
  assumes "scrollback_width s dvd length (gs_scrollback s)"
  shows "scrollback_cells s = drop (gs_start s * scrollback_width s) (gs_scrollback s)"
proof -
  obtain k where k: "length (gs_scrollback s) = scrollback_width s * k" using assms by (rule dvdE)
  then have "scrollback_lines s = k - gs_start s" by (simp add: scrollback_lines_eq)
  then show ?thesis
    by (cases "k \<le> gs_start s") (simp_all add: scrollback_cells_def Let_def k algebra_simps)
qed

lemma length_history: "scrollback_width s dvd length (gs_scrollback s) \<Longrightarrow> length (history s) = scrollback_lines s"
  by (auto simp: history_def scrollback_cells_eq scrollback_lines_eq elim!: dvdE)
    (metis diff_mult_distrib2 mult.commute nonzero_mult_div_cancel_left scrollback_width_pos less_numeral_extra(3))

text \<open>Enforcing the capacity keeps the newest lines, and leaves a well-formed history.\<close>

lemma enforce_keeps [simp]:
  "gs_cells (enforce_scrollback_capacity s) = gs_cells s"
  "gs_grid (enforce_scrollback_capacity s) = gs_grid s"
  "gs_max_lines (enforce_scrollback_capacity s) = gs_max_lines s"
  "gs_cursor (enforce_scrollback_capacity s) = gs_cursor s"
  "gs_modes (enforce_scrollback_capacity s) = gs_modes s"
  "gs_title (enforce_scrollback_capacity s) = gs_title s"
  "scrollback_width (enforce_scrollback_capacity s) = scrollback_width s"
  by (simp_all add: enforce_scrollback_capacity_def Let_def scrollback_width_def)

definition extent_columns :: "extent \<Rightarrow> nat" where
  "extent_columns e = nat (max 1 (width e))"

lemma width_update [simp]:
  "scrollback_width (s\<lparr>gs_cells := e\<rparr>) = extent_columns e"
  "scrollback_width (s\<lparr>gs_scrollback := sb\<rparr>) = scrollback_width s"
  "scrollback_width (s\<lparr>gs_start := n\<rparr>) = scrollback_width s"
  "scrollback_width (s\<lparr>gs_grid := g\<rparr>) = scrollback_width s"
  "scrollback_width (s\<lparr>gs_cursor := c\<rparr>) = scrollback_width s"
  by (simp_all add: scrollback_width_def extent_columns_def)

text \<open>A state whose buffer is \<open>k\<close> whole lines.\<close>

lemma enforce_history:
  assumes k: "length (gs_scrollback s) = k * scrollback_width s" and "gs_start s \<le> k"
  shows "wf_history (enforce_scrollback_capacity s)"
    and "history (enforce_scrollback_capacity s) = take_last (gs_max_lines s) (history s)"
proof -
  let ?w = "scrollback_width s" and ?m = "gs_max_lines s" and ?e = "enforce_scrollback_capacity s"
  have dvd: "?w dvd length (gs_scrollback s)" by (simp add: k)
  have lns: "scrollback_lines s = k - gs_start s" by (simp add: scrollback_lines_eq k)
  define n where "n = gs_start s + (k - gs_start s - ?m)"
  have n: "n \<le> k" "gs_start s \<le> n" and kn: "k - n = min ?m (k - gs_start s)"
    using assms(2) by (auto simp: n_def)
  have h: "history s = rows_of ?w (drop (gs_start s * ?w) (gs_scrollback s))"
    by (simp add: history_def scrollback_cells_eq dvd)
  have last: "take_last ?m (history s) = drop (n - gs_start s) (history s)"
    by (simp add: take_last_def length_history dvd lns n_def)
  have cut: "drop (n - gs_start s) (history s) = rows_of ?w (drop (n * ?w) (gs_scrollback s))"
    using n(2) by (simp add: h flip: rows_of_drop) (simp add: algebra_simps flip: mult.commute)
  have fin: "take_last ?m (history s) = rows_of ?w (drop (n * ?w) (gs_scrollback s))"
    by (simp only: last cut)
  show "wf_history ?e" and "history ?e = take_last ?m (history s)"
  proof (atomize (full), cases "?m = 0")
    case True
    then show "wf_history ?e \<and> history ?e = take_last ?m (history s)"
      by (simp add: enforce_scrollback_capacity_def wf_history_def history_def scrollback_lines_eq
          scrollback_cells_eq take_last_def)
  next
    case False
    have mid: "(if scrollback_lines s > ?m then s\<lparr>gs_start := gs_start s + (scrollback_lines s - ?m)\<rparr> else s)
        = s\<lparr>gs_start := n\<rparr>"
      by (simp add: n_def lns)
    have midl: "scrollback_lines (s\<lparr>gs_start := n\<rparr>) = k - n"
      by (simp add: scrollback_lines_eq k)
    have e: "?e = (if n \<ge> k - n \<and> n > 0
        then s\<lparr>gs_scrollback := drop (n * ?w) (gs_scrollback s), gs_start := 0\<rparr> else s\<lparr>gs_start := n\<rparr>)"
      using False by (simp add: enforce_scrollback_capacity_def Let_def mid midl)
    show "wf_history ?e \<and> history ?e = take_last ?m (history s)"
    proof (cases "n \<ge> k - n \<and> n > 0")
      case True
      have len: "length (drop (n * ?w) (gs_scrollback s)) = (k - n) * ?w"
        by (simp add: k diff_mult_distrib)
      with True show ?thesis unfolding fin
        by (simp add: e wf_history_def history_def scrollback_lines_eq scrollback_cells_eq kn)
    next
      case False
      then show ?thesis unfolding fin using n
        by (auto simp: e wf_history_def history_def scrollback_lines_eq scrollback_cells_eq k kn)
    qed
  qed
qed

lemma wf_history_lines:
  "wf_history s \<Longrightarrow> \<exists>k. length (gs_scrollback s) = k * scrollback_width s \<and> gs_start s \<le> k"
  by (auto simp: wf_history_def elim!: dvdE)

lemma wf_history_bound: "wf_history s \<Longrightarrow> length (history s) \<le> gs_max_lines s"
  by (simp add: wf_history_def length_history)

text \<open>The memory a history holds is less than twice what is kept of it.\<close>

lemma wf_history_storage:
  assumes "wf_history s"
  shows "length (gs_scrollback s) \<le> 2 * gs_max_lines s * scrollback_width s"
proof -
  obtain k where k: "length (gs_scrollback s) = k * scrollback_width s" "gs_start s \<le> k"
    using wf_history_lines [OF assms] by blast
  then have "k \<le> 2 * gs_max_lines s"
    using assms by (auto simp: wf_history_def scrollback_lines_eq)
  with k show ?thesis by simp
qed

lemma wf_history_empty: "wf_history s \<Longrightarrow> gs_max_lines s = 0 \<Longrightarrow> history s = []"
  using wf_history_bound by fastforce

section \<open>Pushing a line\<close>

lemma length_fit_line [simp]: "length (fit_line lib w line) = w"
  by (simp add: fit_line_def)

lemma fit_line_exact: "length line = w \<Longrightarrow> fit_line lib w line = line"
  by (auto simp: fit_line_def intro: nth_equalityI)

lemma push_keeps [simp]:
  "gs_cells (push_scrollback_line lib line s) = gs_cells s"
  "gs_grid (push_scrollback_line lib line s) = gs_grid s"
  "gs_max_lines (push_scrollback_line lib line s) = gs_max_lines s"
  "gs_cursor (push_scrollback_line lib line s) = gs_cursor s"
  "gs_modes (push_scrollback_line lib line s) = gs_modes s"
  "gs_title (push_scrollback_line lib line s) = gs_title s"
  "scrollback_width (push_scrollback_line lib line s) = scrollback_width s"
  by (simp_all add: push_scrollback_line_def)

lemma push_history:
  assumes "wf_history s"
  shows "wf_history (push_scrollback_line lib line s)"
    and "history (push_scrollback_line lib line s)
       = take_last (gs_max_lines s) (history s @ [fit_line lib (scrollback_width s) line])"
proof -
  let ?w = "scrollback_width s" and ?l = "fit_line lib (scrollback_width s) line"
  let ?t = "s\<lparr>gs_scrollback := gs_scrollback s @ ?l\<rparr>"
  obtain k where k: "length (gs_scrollback s) = k * ?w" "gs_start s \<le> k"
    using wf_history_lines [OF assms] by blast
  have kt: "length (gs_scrollback ?t) = (k + 1) * scrollback_width ?t" "gs_start ?t \<le> k + 1"
    using k by simp_all
  have "scrollback_cells ?t = scrollback_cells s @ ?l"
  proof -
    have "gs_start s * ?w \<le> length (gs_scrollback s)" using k by simp
    moreover have "?w dvd length (gs_scrollback s @ ?l)" by (simp add: k)
    ultimately show ?thesis using k by (simp add: scrollback_cells_eq)
  qed
  moreover have "?w dvd length (scrollback_cells s)"
    by (simp add: scrollback_cells_eq k flip: diff_mult_distrib)
  ultimately have h: "history ?t = history s @ [?l]"
    by (simp add: history_def rows_of_append rows_of_line)
  show "wf_history (push_scrollback_line lib line s)"
    using assms enforce_history(1) [OF kt] by (simp add: push_scrollback_line_def)
  show "history (push_scrollback_line lib line s) = take_last (gs_max_lines s) (history s @ [?l])"
  proof (cases "gs_max_lines s = 0")
    case True
    then show ?thesis
      using wf_history_empty [OF assms] by (simp add: push_scrollback_line_def take_last_def)
  next
    case False
    then show ?thesis using enforce_history(2) [OF kt] by (simp add: push_scrollback_line_def h)
  qed
qed

lemma fold_push_keeps [simp]:
  "gs_cells (fold (push_scrollback_line lib) lns s) = gs_cells s"
  "gs_grid (fold (push_scrollback_line lib) lns s) = gs_grid s"
  "gs_max_lines (fold (push_scrollback_line lib) lns s) = gs_max_lines s"
  "gs_cursor (fold (push_scrollback_line lib) lns s) = gs_cursor s"
  "gs_modes (fold (push_scrollback_line lib) lns s) = gs_modes s"
  "gs_title (fold (push_scrollback_line lib) lns s) = gs_title s"
  "scrollback_width (fold (push_scrollback_line lib) lns s) = scrollback_width s"
  by (induction lns arbitrary: s) simp_all

lemma fold_push_history:
  "wf_history s \<Longrightarrow> wf_history (fold (push_scrollback_line lib) lns s) \<and>
     history (fold (push_scrollback_line lib) lns s)
       = take_last (gs_max_lines s) (history s @ map (fit_line lib (scrollback_width s)) lns)"
proof (induction lns arbitrary: s)
  case Nil
  then show ?case using wf_history_bound by (simp add: take_last_all)
next
  case (Cons line lns)
  from Cons.IH [OF push_history(1) [OF Cons.prems]] show ?case
    by (simp add: push_history(2) [OF Cons.prems] take_last_append)
qed

section \<open>Resizing\<close>

lemma relay_history_fold:
  "0 < w \<Longrightarrow> relay_history lib w h s = fold (push_scrollback_line lib) (rows_of w h) s"
proof (induction lib w h s rule: relay_history.induct)
  case (1 lib w h s)
  then show ?case
    by (subst relay_history.simps) (simp add: rows_of_Cons rows_of_short)
qed

lemma resize_keeps [simp]:
  "gs_max_lines (resize_state lib e s) = gs_max_lines s"
  "gs_modes (resize_state lib e s) = gs_modes s"
  "gs_title (resize_state lib e s) = gs_title s"
  by (simp_all add: resize_state_def Let_def relay_history_fold)

lemma resize_cells [simp]: "gs_cells (resize_state lib e s) = e"
  by (simp add: resize_state_def Let_def relay_history_fold)

lemma resize_grid:
  "gs_grid (resize_state lib e s) = (if gs_cells s = e then gs_grid s else replicate (area e) (blank_cell lib))"
  by (simp add: resize_state_def Let_def relay_history_fold)

lemma resize_cursor:
  "gs_cursor (resize_state lib e s) = (if gs_cells s = e then gs_cursor s else clamp_cursor e (gs_cursor s))"
  by (simp add: resize_state_def Let_def relay_history_fold)

lemma resize_history:
  assumes "wf_history s"
  shows "wf_history (resize_state lib e s)"
    and "history (resize_state lib e s) = map (fit_line lib (extent_columns e)) (history s)"
proof -
  have fit: "map (fit_line lib (scrollback_width s)) (history s) = history s"
    by (rule map_idI) (simp add: history_def rows_of_length fit_line_exact)
  have "wf_history (resize_state lib e s) \<and>
      history (resize_state lib e s) = map (fit_line lib (extent_columns e)) (history s)"
  proof (cases "width (gs_cells s) = width e")
    case True
    then have w: "extent_columns e = scrollback_width s"
      by (simp add: extent_columns_def scrollback_width_def)
    show ?thesis
    proof (cases "gs_cells s = e")
      case True
      then show ?thesis using assms by (simp add: resize_state_def w fit)
    next
      case False
      let ?t = "s\<lparr>gs_cells := e, gs_grid := replicate (area e) (blank_cell lib),
        gs_cursor := clamp_cursor e (gs_cursor s)\<rparr>"
      have t: "scrollback_width ?t = scrollback_width s"
        using w by simp
      have ht: "history ?t = history s"
        by (simp add: history_def scrollback_cells_def scrollback_lines_def w Let_def)
      obtain k where "length (gs_scrollback s) = k * scrollback_width s" "gs_start s \<le> k"
        using wf_history_lines [OF assms] by blast
      then have "wf_history (enforce_scrollback_capacity ?t)"
        and "history (enforce_scrollback_capacity ?t) = take_last (gs_max_lines s) (history ?t)"
        using enforce_history [of ?t k] t by simp_all
      then show ?thesis
        using False True wf_history_bound [OF assms]
        by (simp add: resize_state_def Let_def ht w fit take_last_all)
    qed
  next
    case False
    let ?t = "s\<lparr>gs_scrollback := [], gs_start := 0, gs_cells := e, gs_grid := replicate (area e) (blank_cell lib),
      gs_cursor := clamp_cursor e (gs_cursor s)\<rparr>"
    have t: "scrollback_width ?t = extent_columns e" by simp
    have "wf_history ?t" and h: "history ?t = []"
      by (simp_all add: wf_history_def history_def scrollback_lines_eq scrollback_cells_eq)
    from fold_push_history [OF this(1), of lib "history s"] wf_history_bound [OF assms] False
    show ?thesis
      by (auto simp: resize_state_def Let_def relay_history_fold t h take_last_all simp flip: history_def)
  qed
  then show "wf_history (resize_state lib e s)"
    and "history (resize_state lib e s) = map (fit_line lib (extent_columns e)) (history s)" by simp_all
qed

section \<open>Writing inside the grid\<close>

lemma length_write_at [simp]: "at + length xs \<le> length grid \<Longrightarrow> length (write_at at xs grid) = length grid"
  by (simp add: write_at_def)

lemma nth_write_at:
  "at + length xs \<le> length grid \<Longrightarrow> i < length grid \<Longrightarrow>
     write_at at xs grid ! i = (if at \<le> i \<and> i < at + length xs then xs ! (i - at) else grid ! i)"
  by (auto simp: write_at_def nth_append min_def)

lemma area_eq: "area e = nat (width e) * nat (height e)"
  by (simp add: area_def max_def)

lemma row_end: "0 \<le> row \<Longrightarrow> row \<le> h \<Longrightarrow> nat row * nat w \<le> nat (max 0 w) * nat (max 0 h)"
  by (subst mult.commute, intro mult_le_mono) simp_all

lemma length_fill_range:
  "lo \<le> hi \<Longrightarrow> hi \<le> length grid \<Longrightarrow> length (fill_range lo hi x grid) = length grid"
  by (simp add: fill_range_def)

lemma length_move_range:
  "lo \<le> hi \<Longrightarrow> hi \<le> length grid \<Longrightarrow> to + (hi - lo) \<le> length grid \<Longrightarrow>
     length (move_range lo hi to grid) = length grid"
  by (simp add: move_range_def)

lemma row_begin_mono: "(a :: int) \<le> b \<Longrightarrow> nat a * nat w \<le> nat b * nat w"
  by (intro mult_le_mono1 nat_mono)

lemma row_begin_diff: "0 \<le> (a :: int) \<Longrightarrow> a \<le> b \<Longrightarrow> nat b * nat w - nat a * nat w = nat (b - a) * nat w"
  by (simp add: nat_diff_distrib' diff_mult_distrib)

lemma row_begin_add: "0 \<le> (a :: int) \<Longrightarrow> 0 \<le> b \<Longrightarrow> nat a * nat w + nat b * nat w = nat (a + b) * nat w"
  by (simp add: nat_add_distrib add_mult_distrib)

lemma length_shift_rows:
  assumes "0 \<le> upper" and "nat lower * nat w \<le> length grid"
  shows "length (shift_rows lib grid w upper lower lns) = length grid"
proof (cases "lower - upper \<le> 0 \<or> lns = 0 \<or> \<bar>lns\<bar> \<ge> lower - upper")
  case True
  then show ?thesis
    using assms row_begin_mono [of upper lower w] by (auto simp: shift_rows_def Let_def length_fill_range)
next
  case False
  have inside: "nat r * nat w \<le> length grid" if "r \<le> lower" for r
    using order_trans [OF row_begin_mono [OF that, of w] assms(2)] .
  show ?thesis
  proof (cases "lns > 0")
    case True
    have "nat upper * nat w + (nat lower * nat w - nat (upper + lns) * nat w) = nat (lower - lns) * nat w"
      using False True assms(1) by (simp add: row_begin_diff row_begin_add)
    then have "length (move_range (nat (upper + lns) * nat w) (nat lower * nat w) (nat upper * nat w) grid) = length grid"
      using False True inside [of "lower - lns"] inside [of lower]
      by (intro length_move_range row_begin_mono) auto
    with False True show ?thesis using inside [of lower]
      by (simp add: shift_rows_def Let_def length_fill_range nat_mono)
  next
    case neg: False
    have "nat (upper - lns) * nat w + (nat (lower + lns) * nat w - nat upper * nat w) = nat lower * nat w"
      using False neg assms(1) by (simp add: row_begin_diff row_begin_add)
    then have "length (move_range (nat upper * nat w) (nat (lower + lns) * nat w) (nat (upper - lns) * nat w) grid) = length grid"
      using False neg inside [of "lower + lns"] inside [of lower]
      by (intro length_move_range row_begin_mono) auto
    with False neg show ?thesis using inside [of "upper - lns"]
      by (simp add: shift_rows_def Let_def length_fill_range nat_mono)
  qed
qed

lemma length_from_runs_le: "length (from_runs runs) \<le> total_length runs"
  by (simp add: from_runs_def length_concat_runs)

text \<open>A \<open>CellsOp\<close> that passed the check writes inside its row.\<close>

lemma cells_inside:
  assumes "uint row < height e" and "uint column \<le> width e" and "n \<le> nat (width e - uint column)"
  shows "unat row * nat (width e) + unat column + n \<le> area e"
proof -
  have col: "int (unat column) = uint column" by simp
  have "unat column + n \<le> nat (width e)"
    using assms(2,3) col by arith
  moreover have "unat row < nat (height e)" using assms(1) by (simp add: zless_nat_eq_int_zless)
  ultimately have "unat row * nat (width e) + (unat column + n) \<le> Suc (unat row) * nat (width e)" by simp
  also have "\<dots> \<le> nat (height e) * nat (width e)"
    using \<open>unat row < nat (height e)\<close> by (intro mult_le_mono1) simp
  finally show ?thesis by (simp add: area_eq mult.commute)
qed

section \<open>Applying keeps a state well formed\<close>

lemma wf_history_cong:
  "gs_scrollback s = gs_scrollback t \<Longrightarrow> gs_start s = gs_start t \<Longrightarrow> gs_max_lines s = gs_max_lines t \<Longrightarrow>
     scrollback_width s = scrollback_width t \<Longrightarrow> wf_history s = wf_history t"
  by (simp add: wf_history_def scrollback_lines_eq)

lemma history_cong:
  "gs_scrollback s = gs_scrollback t \<Longrightarrow> gs_start s = gs_start t \<Longrightarrow>
     scrollback_width s = scrollback_width t \<Longrightarrow> history s = history t"
  by (simp add: history_def scrollback_cells_def scrollback_lines_eq)

lemma perform_wf:
  assumes wf: "wf_state s" and ok: "check_op op (gs_cells s) = Some e"
  shows "wf_state (perform_op lib op s) \<and> gs_cells (perform_op lib op s) = e"
proof (cases op)
  case (ScrollOp upper lower lns)
  from ok ScrollOp have lo: "uint lower \<le> height (gs_cells s)" and e: "e = gs_cells s"
    by (auto split: if_splits)
  have "nat (uint lower) * nat (width (gs_cells s)) \<le> length (gs_grid s)"
    using wf row_end [of "uint lower" "height (gs_cells s)" "width (gs_cells s)"] lo
    by (simp add: wf_state_def area_def)
  then have "length (shift_rows lib (gs_grid s) (width (gs_cells s)) (uint upper) (uint lower) (sint lns)) = length (gs_grid s)"
    by (intro length_shift_rows) simp_all
  moreover have "wf_history (perform_op lib op s) = wf_history s"
    by (rule wf_history_cong) (simp_all add: ScrollOp)
  ultimately show ?thesis using wf by (simp add: ScrollOp e wf_state_def)
next
  case (CellsOp row column runs)
  from ok CellsOp have fits: "uint row < height (gs_cells s)" "uint column \<le> width (gs_cells s)"
    "total_length runs \<le> nat (width (gs_cells s) - uint column)" and e: "e = gs_cells s"
    by (auto split: if_splits)
  have "unat row * nat (width (gs_cells s)) + unat column + length (from_runs runs) \<le> length (gs_grid s)"
    using cells_inside [OF fits] length_from_runs_le [of runs] wf by (simp add: wf_state_def)
  moreover have "wf_history (perform_op lib op s) = wf_history s"
    by (rule wf_history_cong) (simp_all add: CellsOp)
  ultimately show ?thesis using wf by (simp add: CellsOp e wf_state_def)
next
  case (ScrollbackPushOp lns)
  with ok have e: "e = gs_cells s" by (auto split: if_splits)
  have "fold (\<lambda>line. push_scrollback_line lib (from_runs line)) lns s
      = fold (push_scrollback_line lib) (map from_runs lns) s"
    by (simp add: fold_map comp_def)
  with fold_push_history [of s lib "map from_runs lns"] wf show ?thesis
    by (simp add: ScrollbackPushOp e wf_state_def)
next
  case (ResizeOp columns rows)
  with ok have e: "e = \<lparr>width = uint columns, height = uint rows\<rparr>" by (auto split: if_splits)
  have "length (gs_grid (resize_state lib e s)) = area e" using wf by (auto simp: resize_grid wf_state_def)
  with resize_history(1) [of s lib e] wf show ?thesis
    by (simp add: ResizeOp wf_state_def e [symmetric])
next
  case (CursorOp c)
  with ok wf show ?thesis
    using wf_history_cong [of "perform_op lib op s" s] by (auto simp: wf_state_def split: if_splits)
next
  case (ModesOp m v)
  with ok wf show ?thesis
    using wf_history_cong [of "perform_op lib op s" s] by (simp add: wf_state_def scrollback_width_def)
next
  case (TitleOp t)
  with ok wf show ?thesis
    using wf_history_cong [of "perform_op lib op s" s] by (simp add: wf_state_def scrollback_width_def)
qed

lemma perform_ops_wf:
  "wf_state s \<Longrightarrow> check_ops ops (gs_cells s) \<Longrightarrow> wf_state (fold (perform_op lib) ops s)"
proof (induction ops arbitrary: s)
  case (Cons op ops)
  then obtain e where "check_op op (gs_cells s) = Some e" "check_ops ops e" by (auto split: option.splits)
  with perform_wf [OF Cons.prems(1), of op e lib] Cons.IH [of "perform_op lib op s"] show ?case by simp
qed simp

lemma check_ops_append:
  "check_ops (xs @ ys) e \<longleftrightarrow>
     check_ops xs e \<and> check_ops ys (fold (\<lambda>op e. case check_op op e of None \<Rightarrow> e | Some e' \<Rightarrow> e') xs e)"
  by (induction xs arbitrary: e) (auto split: option.splits)

end
