(* ===== verification/Diff.thy ===== *)
theory Diff
  imports Grid
begin

text \<open>
  The grid diff of \<^verbatim>\<open>src/src/common/grid_delta.cpp\<close>: \<open>row_hash\<close>, \<open>emit_changed_row\<close>, \<open>diff\<close> and
  \<open>full_repaint\<close>. The claim its header states up front is proved here: applying \<open>diff(a, b)\<close> to a
  mirror holding \<open>a\<close> leaves it holding \<open>b\<close> exactly, whatever the hashes collide on.
\<close>

section \<open>Views and damage\<close>

record grid_view =
  gv_cells :: extent
  gv_grid :: "cell list"
  gv_cursor :: grid_cursor
  gv_modes :: u32
  gv_title :: bytes

record row_damage =
  dmg_first :: int
  dmg_last :: int

definition damage_empty :: "row_damage \<Rightarrow> bool" where
  "damage_empty d \<longleftrightarrow> dmg_first d \<ge> dmg_last d"

definition view_of :: "grid_state \<Rightarrow> grid_view" where
  "view_of s = \<lparr>gv_cells = gs_cells s, gv_grid = gs_grid s, gv_cursor = gs_cursor s,
     gv_modes = gs_modes s, gv_title = gs_title s\<rparr>"

section \<open>Hashing a row\<close>

text \<open>FNV-1a, over what \<open>same_cell\<close> compares.\<close>

definition mix :: "u8 \<Rightarrow> u64 \<Rightarrow> u64" where
  "mix byte hash = (hash XOR ucast byte) * 0x100000001B3"

definition mix_color :: "color \<Rightarrow> u64 \<Rightarrow> u64" where
  "mix_color c hash =
     (case c of
       Rgb r g b \<Rightarrow> mix b (mix g (mix r (mix 2 hash)))
     | Indexed i \<Rightarrow> mix i (mix 1 hash)
     | Default_Color \<Rightarrow> mix 0 hash)"

definition row_hash :: "cell list \<Rightarrow> u64" where
  "row_hash row =
     fold (\<lambda>c hash.
       let hash = fold mix (grapheme c) hash;
           hash = mix 0xFF hash;
           hash = mix (word_of_int (cell_width c)) hash;
           hash = mix_color (fg (cell_style c)) hash;
           hash = mix_color (bg (cell_style c)) hash;
           hash = mix (attrs (cell_style c)) hash;
           hash = mix (underline (cell_style c)) hash
       in mix_color (underline_color (cell_style c)) hash) row 0xCBF29CE484222325"

section \<open>One changed row\<close>

text \<open>The end of the run of same cells that begins at \<open>run_first\<close>.\<close>

definition run_end :: "cell list \<Rightarrow> nat \<Rightarrow> nat" where
  "run_end wanted run_first =
     run_first + 1 + length (takeWhile (same_cell (wanted ! run_first)) (drop (run_first + 1) wanted))"

text \<open>\<open>first_changed\<close> and \<open>last_changed\<close> after the loop over one run's columns.\<close>

definition changed_span :: "cell list \<Rightarrow> cell list \<Rightarrow> nat \<Rightarrow> nat \<Rightarrow> nat \<times> nat" where
  "changed_span mirror wanted run_first run_last =
     fold (\<lambda>column (first_changed, last_changed).
       if same_cell (mirror ! column) (wanted ! column) then (first_changed, last_changed)
       else (min first_changed column, column + 1)) [run_first..<run_last] (run_last, run_first)"

record span_state =
  have_span :: bool
  span_first :: nat
  span_last :: nat
  gap_bytes :: nat
  span_ops :: "grid_op list"

definition emit_span :: "u16 \<Rightarrow> cell list \<Rightarrow> span_state \<Rightarrow> span_state" where
  "emit_span row wanted st =
     st\<lparr>span_ops := span_ops st @
          [CellsOp row (of_nat (span_first st))
             (to_runs (take (span_last st - span_first st) (drop (span_first st) wanted)))]\<rparr>"

text \<open>One turn of the loop: the run from \<open>run_first\<close> to \<open>run_last\<close>.\<close>

definition span_step :: "u16 \<Rightarrow> cell list \<Rightarrow> cell list \<Rightarrow> nat \<Rightarrow> nat \<Rightarrow> span_state \<Rightarrow> span_state" where
  "span_step row mirror wanted run_first run_last st =
     (case changed_span mirror wanted run_first run_last of
       (first_changed, last_changed) \<Rightarrow>
         if first_changed = run_last then
           (if have_span st
            then st\<lparr>gap_bytes := gap_bytes st + run_size \<lparr>run_length = of_nat (run_last - run_first), run_cell = wanted ! run_first\<rparr>\<rparr>
            else st)
         else
           (if \<not> have_span st then st\<lparr>have_span := True, span_first := first_changed, span_last := last_changed\<rparr>
            else if gap_bytes st > cells_op_size [] then
              (emit_span row wanted st)\<lparr>span_first := first_changed, span_last := last_changed\<rparr>
            else st\<lparr>span_last := last_changed\<rparr>)\<lparr>gap_bytes := 0\<rparr>)"

function span_loop :: "u16 \<Rightarrow> cell list \<Rightarrow> cell list \<Rightarrow> nat \<Rightarrow> span_state \<Rightarrow> span_state" where
  "span_loop row mirror wanted run_first st =
     (if run_first < length wanted
      then span_loop row mirror wanted (run_end wanted run_first)
             (span_step row mirror wanted run_first (run_end wanted run_first) st)
      else st)"
  by pat_completeness auto

termination span_loop
  by (relation "measure (\<lambda>(_, _, wanted, run_first, _). length wanted - run_first)") (auto simp: run_end_def)

declare span_loop.simps [simp del]

definition emit_changed_row :: "u16 \<Rightarrow> cell list \<Rightarrow> cell list \<Rightarrow> grid_op list" where
  "emit_changed_row row mirror wanted =
     (if length mirror \<noteq> length wanted \<or> wanted = [] then []
      else
        let st = span_loop row mirror wanted 0
                   \<lparr>have_span = False, span_first = 0, span_last = 0, gap_bytes = 0, span_ops = []\<rparr>
        in if have_span st then span_ops (emit_span row wanted st) else span_ops st)"

definition emit_every_row :: "grid_view \<Rightarrow> grid_op list" where
  "emit_every_row v =
     (if length (gv_grid v) \<noteq> area (gv_cells v) then []
      else map (\<lambda>row. CellsOp (of_nat row) 0 (to_runs (row_of (gv_grid v) (width (gv_cells v)) (int row))))
             [0..<nat (height (gv_cells v))])"

section \<open>Looking for a scroll\<close>

function first_changed_row :: "(nat \<Rightarrow> bool) \<Rightarrow> nat \<Rightarrow> nat \<Rightarrow> nat" where
  "first_changed_row changed h row =
     (if row < h \<and> \<not> changed row then first_changed_row changed h (row + 1) else row)"
  by pat_completeness auto

termination first_changed_row
  by (relation "measure (\<lambda>(_, h, row). h - row)") auto

fun last_changed_row :: "(nat \<Rightarrow> bool) \<Rightarrow> nat \<Rightarrow> nat \<Rightarrow> nat" where
  "last_changed_row changed upper 0 = 0"
| "last_changed_row changed upper (Suc row) =
     (if Suc row > upper \<and> \<not> changed row then last_changed_row changed upper row else Suc row)"

declare first_changed_row.simps [simp del]

definition score_for :: "(nat \<Rightarrow> u64) \<Rightarrow> (nat \<Rightarrow> u64) \<Rightarrow> u64 \<Rightarrow> nat \<Rightarrow> nat \<Rightarrow> int \<Rightarrow> nat" where
  "score_for before after blank upper lower lns =
     length (filter (\<lambda>row.
       let source = int row + lns;
           moved = (if source \<ge> int upper \<and> source < int lower then before (nat source) else blank)
       in moved = after row) [upper..<lower])"

definition best_shift :: "(int \<Rightarrow> nat) \<Rightarrow> int \<Rightarrow> int \<times> nat" where
  "best_shift score band =
     fold (\<lambda>lns (best_lines, best_score).
       if lns = 0 then (best_lines, best_score)
       else if score lns > best_score then (lns, score lns)
       else (best_lines, best_score)) [- (band - 1)..band - 1] (0, score 0)"

text \<open>The band of rows a shift might explain and the shift chosen, if one saves two rows or more.\<close>

definition find_scroll :: "ckvision \<Rightarrow> (nat \<Rightarrow> bool) \<Rightarrow> cell list \<Rightarrow> cell list \<Rightarrow> int \<Rightarrow> nat \<Rightarrow> (nat \<times> nat \<times> int) option" where
  "find_scroll lib examined held current w h =
     (let before = (\<lambda>row. row_hash (row_of held w (int row)));
          after = (\<lambda>row. row_hash (row_of current w (int row)));
          changed = (\<lambda>row. examined row \<and> before row \<noteq> after row);
          upper = first_changed_row changed h 0;
          lower = last_changed_row changed upper h
      in if lower - upper \<ge> 2 then
           let blank = row_hash (replicate (nat w) (blank_cell lib));
               score = score_for before after blank upper lower;
               (best_lines, best_score) = best_shift score (int (lower - upper))
           in if best_lines \<noteq> 0 \<and> best_score - score 0 \<ge> 2 then Some (upper, lower, best_lines) else None
         else None)"

section \<open>The diff\<close>

definition named_by :: "row_damage list \<Rightarrow> nat \<Rightarrow> bool" where
  "named_by damaged row \<longleftrightarrow>
     damaged = [] \<or> (row < length damaged \<and> \<not> damage_empty (damaged ! row))"

definition resize_op :: "extent \<Rightarrow> grid_op" where
  "resize_op e = ResizeOp (word_of_int (max 0 (width e))) (word_of_int (max 0 (height e)))"

definition push_ops :: "cell list list \<Rightarrow> grid_op list" where
  "push_ops pushed = (if pushed = [] then [] else [ScrollbackPushOp (map to_runs pushed)])"

definition cursor_op_of :: "grid_cursor \<Rightarrow> grid_op" where
  "cursor_op_of c = CursorOp \<lparr>cursor_column = gc_column c, cursor_row = gc_row c, cursor_style = gc_style c,
     cursor_visible = gc_visible c, cursor_blink = gc_blink c\<rparr>"

text \<open>The rows of two grids of one geometry.\<close>

definition diff_rows :: "ckvision \<Rightarrow> row_damage list \<Rightarrow> cell list \<Rightarrow> cell list \<Rightarrow> int \<Rightarrow> nat \<Rightarrow> grid_op list" where
  "diff_rows lib damaged held current w h =
     (let (scroll, mirror, examined) =
            (case find_scroll lib (named_by damaged) held current w h of
              None \<Rightarrow> ([], held, named_by damaged)
            | Some (upper, lower, lns) \<Rightarrow>
                ([ScrollOp (of_nat upper) (of_nat lower) (word_of_int lns)],
                 shift_rows lib held w (int upper) (int lower) lns,
                 (\<lambda>row. named_by damaged row \<or> (upper \<le> row \<and> row < lower))))
      in scroll @ concat (map (\<lambda>row.
           if \<not> examined row then []
           else emit_changed_row (of_nat row) (row_of mirror w (int row)) (row_of current w (int row))) [0..<h]))"

definition diff :: "ckvision \<Rightarrow> grid_state \<Rightarrow> grid_view \<Rightarrow> cell list list \<Rightarrow> row_damage list \<Rightarrow> grid_op list" where
  "diff lib previous current pushed damaged =
     (let w = width (gv_cells current);
          h = height (gv_cells current);
          expected = area (gv_cells current);
          same_geometry = (gs_cells previous = gv_cells current \<and> length (gs_grid previous) = expected \<and>
                           length (gv_grid current) = expected)
      in (if \<not> same_geometry then [resize_op (gv_cells current)] else [])
         @ push_ops pushed
         @ (if \<not> same_geometry then emit_every_row current
            else if w > 0 \<and> h > 0 then diff_rows lib damaged (gs_grid previous) (gv_grid current) w (nat h)
            else [])
         @ (if gs_cursor previous \<noteq> gv_cursor current then [cursor_op_of (gv_cursor current)] else [])
         @ (if gs_modes previous \<noteq> gv_modes current
            then [ModesOp (gs_modes previous XOR gv_modes current) (gv_modes current)] else [])
         @ (if gs_title previous \<noteq> gv_title current then [TitleOp (gv_title current)] else []))"

definition full_repaint :: "grid_view \<Rightarrow> cell list list \<Rightarrow> grid_op list" where
  "full_repaint current pushed =
     [resize_op (gv_cells current)] @ push_ops pushed @ emit_every_row current
     @ [cursor_op_of (gv_cursor current), ModesOp 0xFFFFFFFF (gv_modes current), TitleOp (gv_title current)]"

text \<open>The overload for two states: no damage report, so every row is examined.\<close>

definition diff_states :: "ckvision \<Rightarrow> grid_state \<Rightarrow> grid_state \<Rightarrow> cell list list \<Rightarrow> grid_op list" where
  "diff_states lib previous current pushed = diff lib previous (view_of current) pushed []"

section \<open>A changed row comes out as wanted\<close>

text \<open>What the cells operations of one row do to that row.\<close>

definition apply_row :: "grid_op list \<Rightarrow> cell list \<Rightarrow> cell list" where
  "apply_row ops row =
     fold (\<lambda>op row. case op of CellsOp r column runs \<Rightarrow> write_at (unat column) (from_runs runs) row | _ \<Rightarrow> row) ops row"

definition row_op :: "u16 \<Rightarrow> nat \<Rightarrow> grid_op \<Rightarrow> bool" where
  "row_op row w op \<longleftrightarrow>
     (\<exists>column runs. op = CellsOp row column runs \<and> unat column + total_length runs \<le> w \<and> total_length runs \<le> max_grid_cells)"

lemma apply_row_append: "apply_row (xs @ ys) row = apply_row ys (apply_row xs row)"
  by (simp add: apply_row_def)

lemma length_apply_row: "\<forall>op \<in> set ops. row_op row (length cells) op \<Longrightarrow> length (apply_row ops cells) = length cells"
proof (induction ops arbitrary: cells)
  case (Cons op ops)
  then obtain column runs where "op = CellsOp row column runs" "unat column + total_length runs \<le> length cells"
    "total_length runs \<le> max_grid_cells" by (auto simp: row_op_def)
  moreover from this have "length (write_at (unat column) (from_runs runs) cells) = length cells"
    by (intro length_write_at) (simp add: length_from_runs)
  ultimately show ?case using Cons by (simp add: apply_row_def)
qed (simp add: apply_row_def)

lemma run_end_bounds: "run_first < length wanted \<Longrightarrow> run_first < run_end wanted run_first \<and> run_end wanted run_first \<le> length wanted"
  using length_takeWhile_le [of "same_cell (wanted ! run_first)" "drop (run_first + 1) wanted"]
  by (simp add: run_end_def del: length_takeWhile_le)

lemma changed_span_spec:
  assumes "a \<le> b" and "changed_span mirror wanted a b = (lo, hi)"
  shows "(lo = b \<and> (\<forall>k. a \<le> k \<and> k < b \<longrightarrow> mirror ! k = wanted ! k))
       \<or> (a \<le> lo \<and> lo < hi \<and> hi \<le> b \<and> (\<forall>k. a \<le> k \<and> k < b \<and> (k < lo \<or> hi \<le> k) \<longrightarrow> mirror ! k = wanted ! k))"
proof -
  define f where "f = (\<lambda>column (lo, hi). if same_cell (mirror ! column) (wanted ! column) then (lo, hi)
    else (min lo column, column + 1 :: nat))"
  have "fold f [a..<n] (b, a) = (lo, hi) \<Longrightarrow>
      (lo = b \<and> (\<forall>k. a \<le> k \<and> k < n \<longrightarrow> mirror ! k = wanted ! k))
      \<or> (a \<le> lo \<and> lo < hi \<and> hi \<le> n \<and> (\<forall>k. a \<le> k \<and> k < n \<and> (k < lo \<or> hi \<le> k) \<longrightarrow> mirror ! k = wanted ! k))"
    if "a \<le> n" "n \<le> b" for n lo hi
    using that
  proof (induction n arbitrary: lo hi rule: dec_induct)
    case base
    then show ?case by auto
  next
    case (step n)
    obtain lo' hi' where prev: "fold f [a..<n] (b, a) = (lo', hi')" by force
    with step.prems step.hyps have "f n (lo', hi') = (lo, hi)" by simp
    with step.IH [OF prev] step.hyps step.prems show ?case
      by (auto simp: f_def less_Suc_eq min_def split: if_splits)
  qed
  from this [of b lo hi] assms show ?thesis by (simp add: changed_span_def f_def)
qed

text \<open>
  The invariant of the loop, once the columns before \<open>j\<close> are done: what was emitted has made
  them right outside the open span, and has left the columns from \<open>j\<close> on alone.
\<close>

definition span_inv :: "u16 \<Rightarrow> cell list \<Rightarrow> cell list \<Rightarrow> nat \<Rightarrow> span_state \<Rightarrow> bool" where
  "span_inv row mirror wanted j st \<longleftrightarrow>
     (\<forall>op \<in> set (span_ops st). row_op row (length wanted) op) \<and>
     (have_span st \<longrightarrow> span_first st < span_last st \<and> span_last st \<le> j) \<and>
     j \<le> length wanted \<and>
     (\<forall>k < j. (have_span st \<and> span_first st \<le> k \<and> k < span_last st) \<or> apply_row (span_ops st) mirror ! k = wanted ! k) \<and>
     (\<forall>k < length wanted. j \<le> k \<longrightarrow> apply_row (span_ops st) mirror ! k = mirror ! k)"

lemma span_invI:
  assumes "\<forall>op \<in> set (span_ops st). row_op row (length wanted) op"
    and "have_span st \<Longrightarrow> span_first st < span_last st \<and> span_last st \<le> j" and "j \<le> length wanted"
    and "\<And>k. k < j \<Longrightarrow> \<not> (have_span st \<and> span_first st \<le> k \<and> k < span_last st) \<Longrightarrow>
           apply_row (span_ops st) mirror ! k = wanted ! k"
    and "\<And>k. k < length wanted \<Longrightarrow> j \<le> k \<Longrightarrow> apply_row (span_ops st) mirror ! k = mirror ! k"
  shows "span_inv row mirror wanted j st"
  using assms by (auto simp: span_inv_def)

lemma unat_column: "n \<le> 1000 \<Longrightarrow> unat (of_nat n :: u16) = n"
  by (simp add: unat_of_nat_len)

lemma emit_span_ops:
  assumes "span_last st \<le> length wanted" and "span_first st \<le> span_last st" and "length wanted \<le> 1000"
    and "length mirror = length wanted" and "\<forall>op \<in> set (span_ops st). row_op row (length wanted) op"
  shows "\<forall>op \<in> set (span_ops (emit_span row wanted st)). row_op row (length wanted) op"
    and "apply_row (span_ops (emit_span row wanted st)) mirror
       = write_at (span_first st) (take (span_last st - span_first st) (drop (span_first st) wanted))
           (apply_row (span_ops st) mirror)"
proof -
  have "unat (of_nat (span_first st) :: u16) = span_first st" using assms by (intro unat_column) simp
  with assms show "\<forall>op \<in> set (span_ops (emit_span row wanted st)). row_op row (length wanted) op"
    and "apply_row (span_ops (emit_span row wanted st)) mirror
       = write_at (span_first st) (take (span_last st - span_first st) (drop (span_first st) wanted))
           (apply_row (span_ops st) mirror)"
    by (auto simp: emit_span_def row_op_def apply_row_append max_grid_cells_value)
      (simp add: apply_row_def from_runs_to_runs max_grid_cells_value)
qed

lemma emit_span_nth:
  assumes inv: "span_inv row mirror wanted j st" and "have_span st" and "length wanted \<le> 1000"
    and "length mirror = length wanted" and "k < length wanted"
  shows "apply_row (span_ops (emit_span row wanted st)) mirror ! k = (if k < j then wanted ! k else mirror ! k)"
proof -
  have b: "span_first st < span_last st" "span_last st \<le> j" "j \<le> length wanted"
    and ops: "\<forall>op \<in> set (span_ops st). row_op row (length wanted) op"
    using inv assms(2) by (auto simp: span_inv_def)
  have len: "length (apply_row (span_ops st) mirror) = length wanted"
    using length_apply_row [of "span_ops st" row mirror] ops assms(4) by simp
  have app: "apply_row (span_ops (emit_span row wanted st)) mirror
      = write_at (span_first st) (take (span_last st - span_first st) (drop (span_first st) wanted))
          (apply_row (span_ops st) mirror)"
    using b ops assms(3,4) by (intro emit_span_ops) auto
  show ?thesis
    unfolding app using inv b assms(5) len
    by (subst nth_write_at) (auto simp: span_inv_def dest!: spec [of _ k])
qed

lemma span_step_inv:
  assumes inv: "span_inv row mirror wanted a st" and "a < b" "b \<le> length wanted" "length wanted \<le> 1000"
    and len: "length mirror = length wanted"
  shows "span_inv row mirror wanted b (span_step row mirror wanted a b st)" (is "span_inv _ _ _ _ ?s")
proof -
  obtain lo hi where c: "changed_span mirror wanted a b = (lo, hi)" by force
  note cs = changed_span_spec [OF less_imp_le [OF \<open>a < b\<close>] c]
  have ops: "\<forall>op \<in> set (span_ops st). row_op row (length wanted) op"
    and open_span: "have_span st \<Longrightarrow> span_first st < span_last st \<and> span_last st \<le> a"
    and before: "\<And>k. k < a \<Longrightarrow> \<not> (have_span st \<and> span_first st \<le> k \<and> k < span_last st) \<Longrightarrow>
      apply_row (span_ops st) mirror ! k = wanted ! k"
    and after: "\<And>k. k < length wanted \<Longrightarrow> a \<le> k \<Longrightarrow> apply_row (span_ops st) mirror ! k = mirror ! k"
    using inv by (auto simp: span_inv_def)
  show ?thesis
  proof (cases "lo = b")
    case True
    with cs have same: "mirror ! k = wanted ! k" if "a \<le> k" "k < b" for k using that by auto
    have kept: "span_ops ?s = span_ops st" "have_span ?s = have_span st" "span_first ?s = span_first st"
      "span_last ?s = span_last st"
      by (simp_all add: span_step_def c True)
    show ?thesis
    proof (rule span_invI, unfold kept)
      fix k
      assume "k < b" "\<not> (have_span st \<and> span_first st \<le> k \<and> k < span_last st)"
      then show "apply_row (span_ops st) mirror ! k = wanted ! k"
        using before [of k] after [of k] same [of k] assms(3) by (cases "k < a") auto
    qed (use ops open_span after assms(2,3) in auto)
  next
    case False
    with cs have s: "a \<le> lo" "lo < hi" "hi \<le> b" by auto
    from False cs have same: "mirror ! k = wanted ! k" if "a \<le> k" "k < b" "k < lo \<or> hi \<le> k" for k
      using that by auto
    have rest: "apply_row (span_ops st) mirror ! k = wanted ! k" if "a \<le> k" "k < b" "k < lo \<or> hi \<le> k" for k
      using that same [of k] after [of k] assms(3) by simp
    consider (fresh) "\<not> have_span st" | (split) "have_span st" "gap_bytes st > cells_op_size []"
      | (join) "have_span st" "\<not> gap_bytes st > cells_op_size []" by blast
    then show ?thesis
    proof cases
      case fresh
      then have new: "span_ops ?s = span_ops st" "have_span ?s" "span_first ?s = lo" "span_last ?s = hi"
        by (simp_all add: span_step_def c False)
      show ?thesis
      proof (rule span_invI)
        fix k
        assume "k < b" "\<not> (have_span ?s \<and> span_first ?s \<le> k \<and> k < span_last ?s)"
        then show "apply_row (span_ops ?s) mirror ! k = wanted ! k"
          using new fresh before [of k] rest [of k] by (cases "k < a") auto
      qed (use new ops s after assms(2,3) in auto)
    next
      case join
      then have new: "span_ops ?s = span_ops st" "have_span ?s" "span_first ?s = span_first st" "span_last ?s = hi"
        by (simp_all add: span_step_def c False)
      show ?thesis
      proof (rule span_invI)
        fix k
        assume "k < b" "\<not> (have_span ?s \<and> span_first ?s \<le> k \<and> k < span_last ?s)"
        then show "apply_row (span_ops ?s) mirror ! k = wanted ! k"
          using new join(1) open_span s before [of k] rest [of k] by (cases "k < a") auto
      qed (use new join(1) ops open_span s after assms(2,3) in auto)
    next
      case split
      then have new: "span_ops ?s = span_ops (emit_span row wanted st)" "have_span ?s" "span_first ?s = lo" "span_last ?s = hi"
        by (simp_all add: span_step_def c False) (simp_all add: emit_span_def)
      have emitted: "\<forall>op \<in> set (span_ops (emit_span row wanted st)). row_op row (length wanted) op"
        using open_span split ops assms by (intro emit_span_ops) auto
      note nth = emit_span_nth [OF inv split(1) assms(4) len]
      show ?thesis
      proof (rule span_invI)
        fix k
        assume "k < b" "\<not> (have_span ?s \<and> span_first ?s \<le> k \<and> k < span_last ?s)"
        then show "apply_row (span_ops ?s) mirror ! k = wanted ! k"
          using new nth [of k] same [of k] assms(3) by (cases "k < a") auto
      qed (use new emitted s nth assms(2,3) in auto)
    qed
  qed
qed

lemma span_loop_inv:
  assumes "span_inv row mirror wanted a st" and "length wanted \<le> 1000" and "length mirror = length wanted"
  shows "span_inv row mirror wanted (length wanted) (span_loop row mirror wanted a st)"
  using assms
proof (induction row mirror wanted a st rule: span_loop.induct)
  case (1 row mirror wanted a st)
  show ?case
  proof (cases "a < length wanted")
    case True
    with 1 run_end_bounds [OF True] show ?thesis
      by (subst span_loop.simps) (simp add: span_step_inv)
  next
    case False
    with "1.prems" have "a = length wanted" by (simp add: span_inv_def)
    with "1.prems" show ?thesis by (subst span_loop.simps) simp
  qed
qed

lemma emit_changed_row_correct:
  assumes len: "length mirror = length wanted" and small: "length wanted \<le> 1000"
  shows "apply_row (emit_changed_row row mirror wanted) mirror = wanted"
    and "\<forall>op \<in> set (emit_changed_row row mirror wanted). row_op row (length wanted) op"
proof -
  define st where "st = span_loop row mirror wanted 0
      \<lparr>have_span = False, span_first = 0, span_last = 0, gap_bytes = 0, span_ops = []\<rparr>"
  have "span_inv row mirror wanted (length wanted) st"
    unfolding st_def using assms by (intro span_loop_inv) (auto simp: span_inv_def apply_row_def)
  note inv = this
  then have ops: "\<forall>op \<in> set (span_ops st). row_op row (length wanted) op" by (simp add: span_inv_def)
  have last: "\<forall>op \<in> set (span_ops (emit_span row wanted st)). row_op row (length wanted) op" if "have_span st"
    using inv that len small by (intro emit_span_ops) (auto simp: span_inv_def)
  show all: "\<forall>op \<in> set (emit_changed_row row mirror wanted). row_op row (length wanted) op"
    using ops last by (auto simp: emit_changed_row_def st_def [symmetric] Let_def)
  have nth: "apply_row (emit_changed_row row mirror wanted) mirror ! k = wanted ! k" if "k < length wanted" for k
  proof (cases "have_span st")
    case True
    with emit_span_nth [OF inv True small len that] that len show ?thesis
      by (auto simp: emit_changed_row_def st_def [symmetric] Let_def)
  next
    case False
    with inv that len show ?thesis
      by (auto simp: emit_changed_row_def st_def [symmetric] Let_def span_inv_def)
  qed
  show "apply_row (emit_changed_row row mirror wanted) mirror = wanted"
    using nth length_apply_row [of "emit_changed_row row mirror wanted" row mirror] all len
    by (intro nth_equalityI) simp_all
qed

end
