(* ===== verification/Diff_Correct.thy ===== *)
theory Diff_Correct
  imports Diff
begin

text \<open>
  The diff and the apply of \<^verbatim>\<open>grid_delta.cpp\<close> against each other: a delta computed from what a
  mirror holds is accepted by that mirror and leaves it holding the current side exactly, with
  the pushed lines at the end of its history.
\<close>

section \<open>Deltas one after the other\<close>

text \<open>The delta passes the check from the state \<open>s\<close> and turns it into \<open>t\<close>.\<close>

definition takes :: "ckvision \<Rightarrow> grid_op list \<Rightarrow> grid_state \<Rightarrow> grid_state \<Rightarrow> bool" where
  "takes lib ops s t \<longleftrightarrow> check_ops ops (gs_cells s) \<and> fold (perform_op lib) ops s = t"

lemma check_perform_cells: "check_op op (gs_cells s) = Some e \<Longrightarrow> gs_cells (perform_op lib op s) = e"
proof (cases op)
  case (ScrollbackPushOp lns)
  have "fold (\<lambda>line. push_scrollback_line lib (from_runs line)) lns s
      = fold (push_scrollback_line lib) (map from_runs lns) s"
    by (simp add: fold_map comp_def)
  moreover assume "check_op op (gs_cells s) = Some e"
  ultimately show ?thesis using ScrollbackPushOp by (auto split: if_splits)
qed (auto split: if_splits)

lemma takes_Nil: "takes lib [] s s"
  by (simp add: takes_def)

lemma takes_Cons:
  "check_op op (gs_cells s) = Some e \<Longrightarrow> takes lib ops (perform_op lib op s) t \<Longrightarrow> takes lib (op # ops) s t"
  by (simp add: takes_def check_perform_cells)

lemma takes_append: "takes lib xs s t \<Longrightarrow> takes lib ys t u \<Longrightarrow> takes lib (xs @ ys) s u"
proof (induction xs arbitrary: s)
  case (Cons op xs)
  then obtain e where ok: "check_op op (gs_cells s) = Some e" and "check_ops xs e"
    by (auto simp: takes_def split: option.splits)
  then have "takes lib xs (perform_op lib op s) t"
    using Cons.prems(1) by (simp add: takes_def check_perform_cells)
  with takes_Cons [OF ok] Cons.IH Cons.prems(2) show ?case by simp
qed (simp add: takes_def)

lemma takes_one: "check_op op (gs_cells s) = Some e \<Longrightarrow> t = perform_op lib op s \<Longrightarrow> takes lib [op] s t"
  by (simp add: takes_def)

lemma takes_apply: "takes lib ops s t \<Longrightarrow> length (gs_grid s) = area (gs_cells s) \<Longrightarrow> apply_delta lib ops s = (True, t)"
  by (simp add: takes_def apply_delta_def)

section \<open>Rows of a grid\<close>

lemma length_row_of: "length grid = nat w * h \<Longrightarrow> i < h \<Longrightarrow> length (row_of grid w (int i)) = nat w"
proof -
  assume "length grid = nat w * h" "i < h"
  then have "Suc i * nat w \<le> length grid" by (metis Suc_leI mult.commute mult_le_mono1)
  then show ?thesis by (simp add: row_of_def)
qed

lemma nth_row_of:
  assumes "length grid = nat w * h" "i < h" "k < nat w"
  shows "row_of grid w (int i) ! k = grid ! (i * nat w + k)" and "i * nat w + k < length grid"
proof -
  have "Suc i * nat w \<le> length grid" using assms by (metis Suc_leI mult.commute mult_le_mono1)
  then show "row_of grid w (int i) ! k = grid ! (i * nat w + k)" and "i * nat w + k < length grid"
    using assms(3) by (simp_all add: row_of_def)
qed

lemma rows_determine_grid:
  assumes "length a = nat w * h" "length b = nat w * h"
    and rows: "\<And>i. i < h \<Longrightarrow> row_of a w (int i) = row_of b w (int i)"
  shows "a = b"
proof (rule nth_equalityI)
  fix j
  assume j: "j < length a"
  then have w: "0 < nat w" using assms(1) by (cases "nat w") auto
  have i: "j div nat w < h" using j assms(1) w by (simp add: less_mult_imp_div_less mult.commute)
  have k: "j mod nat w < nat w" using w by simp
  have "row_of a w (int (j div nat w)) ! (j mod nat w) = row_of b w (int (j div nat w)) ! (j mod nat w)"
    using rows [OF i] by simp
  then show "a ! j = b ! j"
    by (simp add: nth_row_of(1) [OF assms(1) i k] nth_row_of(1) [OF assms(2) i k])
qed (use assms in simp)

text \<open>A write that stays inside row \<open>r\<close> changes that row and no other.\<close>

lemma row_of_write:
  assumes g: "length grid = nat w * h" and "r < h" and fit: "c + length xs \<le> nat w" and "i < h"
  shows "row_of (write_at (r * nat w + c) xs grid) w (int i)
       = (if i = r then write_at c xs (row_of grid w (int r)) else row_of grid w (int i))"
proof -
  have "Suc r * nat w \<le> length grid" using assms by (metis Suc_leI mult.commute mult_le_mono1)
  then have inside: "r * nat w + c + length xs \<le> length grid" using fit by simp
  let ?g = "write_at (r * nat w + c) xs grid"
  have lg: "length ?g = nat w * h" using inside g by simp
  have lr: "length (row_of grid w (int r)) = nat w" using length_row_of [OF g \<open>r < h\<close>] .
  have nth: "row_of ?g w (int i) ! k = (if i = r then write_at c xs (row_of grid w (int r)) else row_of grid w (int i)) ! k"
    if k: "k < nat w" for k
  proof -
    have at: "row_of ?g w (int i) ! k = (if r * nat w + c \<le> i * nat w + k \<and> i * nat w + k < r * nat w + c + length xs
        then xs ! (i * nat w + k - (r * nat w + c)) else grid ! (i * nat w + k))"
      using nth_row_of [OF lg \<open>i < h\<close> k] nth_row_of(2) [OF g \<open>i < h\<close> k] inside
      by (simp add: nth_write_at)
    consider "i = r" | "Suc i \<le> r" | "Suc r \<le> i" by linarith
    then show ?thesis
    proof cases
      case 1
      then show ?thesis using at k fit lr nth_row_of(1) [OF g \<open>r < h\<close> k] by (simp add: nth_write_at)
    next
      case 2
      then have "Suc i * nat w \<le> r * nat w" by (rule mult_le_mono1)
      with 2 at k nth_row_of(1) [OF g \<open>i < h\<close> k] show ?thesis by simp
    next
      case 3
      then have "Suc r * nat w \<le> i * nat w" by (rule mult_le_mono1)
      with 3 at k fit nth_row_of(1) [OF g \<open>i < h\<close> k] show ?thesis by simp
    qed
  qed
  show ?thesis
    using nth length_row_of [OF lg \<open>i < h\<close>] length_row_of [OF g \<open>i < h\<close>] lr fit
    by (intro nth_equalityI) (simp_all split: if_splits)
qed

text \<open>A write that misses row \<open>i\<close> leaves it alone.\<close>

lemma row_of_write_outside:
  assumes "at + length xs \<le> length grid" and "at + length xs \<le> i * nat w \<or> Suc i * nat w \<le> at"
    and "length grid = nat w * h" and "i < h"
  shows "row_of (write_at at xs grid) w (int i) = row_of grid w (int i)"
proof (rule nth_equalityI)
  fix k
  assume "k < length (row_of (write_at at xs grid) w (int i))"
  then have k: "k < nat w" using assms length_row_of [of "write_at at xs grid" w h i] by simp
  show "row_of (write_at at xs grid) w (int i) ! k = row_of grid w (int i) ! k"
    using assms k nth_row_of [OF assms(3,4) k] nth_row_of(1) [of "write_at at xs grid" w h i k]
    by (auto simp: nth_write_at)
qed (use assms length_row_of [of "write_at at xs grid" w h i] length_row_of [of grid w h i] in simp)

section \<open>The cells operations of one row\<close>

lemma fits_width: "0 \<le> w \<Longrightarrow> c + n \<le> nat w \<Longrightarrow> int c \<le> w \<and> n \<le> nat (w - int c)"
  by arith

lemma takes_row:
  assumes "\<forall>op \<in> set ops. row_op (of_nat r) (nat (width (gs_cells s))) op"
    and "0 \<le> width (gs_cells s)" "r < h" "h \<le> 1000" "height (gs_cells s) = int h" "length (gs_grid s) = nat (width (gs_cells s)) * h"
  shows "\<exists>grid. takes lib ops s (s\<lparr>gs_grid := grid\<rparr>) \<and> length grid = length (gs_grid s) \<and>
     (\<forall>i < h. row_of grid (width (gs_cells s)) (int i)
        = (if i = r then apply_row ops (row_of (gs_grid s) (width (gs_cells s)) (int r))
           else row_of (gs_grid s) (width (gs_cells s)) (int i)))"
  using assms
proof (induction ops arbitrary: s)
  case Nil
  then show ?case by (auto simp: apply_row_def intro!: exI [of _ "gs_grid s"] takes_Nil)
next
  case (Cons op ops)
  let ?w = "width (gs_cells s)"
  from Cons.prems(1) obtain column runs where op: "op = CellsOp (of_nat r) column runs"
    and fit: "unat column + total_length runs \<le> nat ?w" "total_length runs \<le> max_grid_cells"
    by (auto simp: row_op_def)
  have r: "unat (of_nat r :: u16) = r" using Cons.prems by (intro unat_column) simp
  have col: "uint column = int (unat column)" by simp
  have ur: "uint (of_nat r :: u16) = int r" using r by (metis uint_nat)
  have ok: "check_op op (gs_cells s) = Some (gs_cells s)"
    using fits_width [OF Cons.prems(2) fit(1)] Cons.prems(3,5) by (simp add: op ur del: uint_nat)
  let ?g = "write_at (r * nat ?w + unat column) (from_runs runs) (gs_grid s)"
  have perform: "perform_op lib op s = s\<lparr>gs_grid := ?g\<rparr>" by (simp add: op r)
  have fit': "unat column + length (from_runs runs) \<le> nat ?w" using fit by (simp add: length_from_runs)
  have "Suc r * nat ?w \<le> length (gs_grid s)"
    using Cons.prems(3,6) by (metis Suc_leI mult.commute mult_le_mono1)
  then have len: "length ?g = length (gs_grid s)" using fit' by simp
  have rows: "row_of ?g ?w (int i) = (if i = r then apply_row [op] (row_of (gs_grid s) ?w (int r)) else row_of (gs_grid s) ?w (int i))"
    if "i < h" for i
    using row_of_write [OF Cons.prems(6,3) fit' that] by (simp add: op apply_row_def)
  obtain grid where grid: "takes lib ops (s\<lparr>gs_grid := ?g\<rparr>) (s\<lparr>gs_grid := grid\<rparr>)" "length grid = length ?g"
    "\<forall>i < h. row_of grid ?w (int i) = (if i = r then apply_row ops (row_of ?g ?w (int r)) else row_of ?g ?w (int i))"
    using Cons.IH [of "s\<lparr>gs_grid := ?g\<rparr>"] Cons.prems len by auto
  from grid(1) have "takes lib (op # ops) s (s\<lparr>gs_grid := grid\<rparr>)"
    using takes_Cons [OF ok] perform by simp
  moreover have "apply_row (op # ops) row = apply_row ops (apply_row [op] row)" for row
    using apply_row_append [of "[op]" ops row] by simp
  ultimately show ?case using grid len rows Cons.prems(3) by (intro exI [of _ grid]) auto
qed

text \<open>Row after row: each comes out as its operations make it, whatever is done to the others.\<close>

lemma takes_rows:
  assumes "distinct rs" "\<forall>r \<in> set rs. r < h \<and> (\<forall>op \<in> set (f r). row_op (of_nat r) (nat (width (gs_cells s))) op)"
    and "0 \<le> width (gs_cells s)" "h \<le> 1000" "height (gs_cells s) = int h"
    and "length (gs_grid s) = nat (width (gs_cells s)) * h"
  shows "\<exists>grid. takes lib (concat (map f rs)) s (s\<lparr>gs_grid := grid\<rparr>) \<and> length grid = length (gs_grid s) \<and>
     (\<forall>i < h. row_of grid (width (gs_cells s)) (int i)
        = (if i \<in> set rs then apply_row (f i) (row_of (gs_grid s) (width (gs_cells s)) (int i))
           else row_of (gs_grid s) (width (gs_cells s)) (int i)))"
  using assms
proof (induction rs arbitrary: s)
  case Nil
  then show ?case by (auto intro!: exI [of _ "gs_grid s"] takes_Nil)
next
  case (Cons r rs)
  let ?w = "width (gs_cells s)"
  obtain g where g: "takes lib (f r) s (s\<lparr>gs_grid := g\<rparr>)" "length g = length (gs_grid s)"
    "\<forall>i < h. row_of g ?w (int i) = (if i = r then apply_row (f r) (row_of (gs_grid s) ?w (int r)) else row_of (gs_grid s) ?w (int i))"
    using takes_row [of "f r" r s h lib] Cons.prems by auto
  obtain g' where g': "takes lib (concat (map f rs)) (s\<lparr>gs_grid := g\<rparr>) (s\<lparr>gs_grid := g'\<rparr>)" "length g' = length g"
    "\<forall>i < h. row_of g' ?w (int i) = (if i \<in> set rs then apply_row (f i) (row_of g ?w (int i)) else row_of g ?w (int i))"
    using Cons.IH [of "s\<lparr>gs_grid := g\<rparr>"] Cons.prems g(2) by auto
  from takes_append [OF g(1) g'(1)] g(2,3) g'(2,3) Cons.prems(1)
  show ?case by (intro exI [of _ g']) auto
qed

section \<open>The scroll\<close>

lemma best_shift_bound:
  assumes "2 \<le> band" and "best_shift score band = (lns, best)"
  shows "\<bar>lns\<bar> \<le> band - 1"
proof -
  define f where "f = (\<lambda>lns (best_lines, best_score).
       if lns = 0 then (best_lines, best_score)
       else if score lns > best_score then (lns, score lns)
       else (best_lines, best_score))"
  have "\<bar>fst (fold f xs a)\<bar> \<le> band - 1" if "\<forall>x \<in> set xs. \<bar>x\<bar> \<le> band - 1" "\<bar>fst a\<bar> \<le> band - 1" for xs a
    using that by (induction xs arbitrary: a) (auto simp: f_def split: prod.splits)
  moreover have "\<forall>x \<in> set [- (band - 1)..band - 1]. \<bar>x\<bar> \<le> band - 1" by auto
  ultimately have "\<bar>fst (fold f [- (band - 1)..band - 1] (0, score 0))\<bar> \<le> band - 1" using assms(1) by simp
  then show ?thesis using assms(2) by (simp add: best_shift_def f_def)
qed

lemma first_changed_row_ge: "row \<le> first_changed_row changed h row"
  by (induction changed h row rule: first_changed_row.induct) (subst first_changed_row.simps, auto)

lemma last_changed_row_le: "last_changed_row changed upper row \<le> row"
  by (induction row) (simp_all add: le_SucI)

lemma find_scroll_bounds:
  assumes "find_scroll lib examined held current w h = Some (upper, lower, lns)"
  shows "upper < lower" "lower \<le> h" "\<bar>lns\<bar> < int (lower - upper)"
  using assms last_changed_row_le
    best_shift_bound [of "int (lower - upper)"
      "score_for (\<lambda>row. row_hash (row_of held w (int row))) (\<lambda>row. row_hash (row_of current w (int row)))
        (row_hash (replicate (nat w) (blank_cell lib))) upper lower" lns]
  by (auto simp: find_scroll_def Let_def split: if_splits prod.splits)

lemma row_of_fill_outside:
  assumes "a \<le> b" "b \<le> h" "length grid = nat w * h" "i < h" "i < a \<or> b \<le> i"
  shows "row_of (fill_range (a * nat w) (b * nat w) x grid) w (int i) = row_of grid w (int i)"
  unfolding fill_range_def
proof (rule row_of_write_outside [OF _ _ assms(3,4)])
  have ab: "a * nat w \<le> b * nat w" and bh: "b * nat w \<le> h * nat w" using assms by (simp_all add: mult_le_mono1)
  then show "a * nat w + length (replicate (b * nat w - a * nat w) x) \<le> length grid"
    using assms(3) by (simp add: mult.commute)
  from assms(5) show "a * nat w + length (replicate (b * nat w - a * nat w) x) \<le> i * nat w \<or> Suc i * nat w \<le> a * nat w"
  proof
    assume "i < a"
    then have "Suc i * nat w \<le> a * nat w" by (intro mult_le_mono1) simp
    then show ?thesis ..
  next
    assume "b \<le> i"
    then have "b * nat w \<le> i * nat w" by (rule mult_le_mono1)
    with ab show ?thesis by simp
  qed
qed

lemma row_of_move_outside:
  assumes "a \<le> b" "b \<le> h" "c + (b - a) \<le> h" "length grid = nat w * h" "i < h" "i < c \<or> c + (b - a) \<le> i"
  shows "row_of (move_range (a * nat w) (b * nat w) (c * nat w) grid) w (int i) = row_of grid w (int i)"
  unfolding move_range_def
proof (rule row_of_write_outside [OF _ _ assms(4,5)])
  have bh: "b * nat w \<le> length grid" using assms(2,4) by (simp add: mult.commute mult_le_mono1)
  have len: "length (take (b * nat w - a * nat w) (drop (a * nat w) grid)) = (b - a) * nat w"
    using bh by (simp add: diff_mult_distrib)
  have end_at: "c * nat w + (b - a) * nat w = (c + (b - a)) * nat w" by (simp add: add_mult_distrib)
  show "c * nat w + length (take (b * nat w - a * nat w) (drop (a * nat w) grid)) \<le> length grid"
    unfolding len end_at assms(4) using assms(3) by (subst mult.commute) (rule mult_le_mono2)
  from assms(6) show "c * nat w + length (take (b * nat w - a * nat w) (drop (a * nat w) grid)) \<le> i * nat w
      \<or> Suc i * nat w \<le> c * nat w"
    unfolding len end_at
  proof
    assume "i < c"
    then have "Suc i * nat w \<le> c * nat w" by (intro mult_le_mono1) simp
    then show "(c + (b - a)) * nat w \<le> i * nat w \<or> Suc i * nat w \<le> c * nat w" ..
  qed (simp add: mult_le_mono1)
qed

text \<open>A shift of a region moves nothing outside it.\<close>

lemma row_of_shift_outside:
  assumes "upper \<le> lower" "lower \<le> h" "length grid = nat w * h" "i < h" "i < upper \<or> lower \<le> i"
  shows "row_of (shift_rows lib grid w (int upper) (int lower) lns) w (int i) = row_of grid w (int i)"
proof (cases "upper = lower \<or> lns = 0")
  case True
  then show ?thesis by (auto simp: shift_rows_def)
next
  case False
  then have lt: "upper < lower" "lns \<noteq> 0" using assms(1) by auto
  show ?thesis
  proof (cases "\<bar>lns\<bar> \<ge> int lower - int upper")
    case True
    with lt assms show ?thesis by (simp add: shift_rows_def Let_def row_of_fill_outside)
  next
    case small: False
    define n where "n = nat \<bar>lns\<bar>"
    have n: "0 < n" "upper + n < lower" using small lt by (simp_all add: n_def)
    show ?thesis
    proof (cases "lns > 0")
      case True
      then have [simp]: "nat (int upper + lns) = upper + n" "nat (int lower - lns) = lower - n"
        using n by (simp_all add: n_def)
      let ?m = "move_range ((upper + n) * nat w) (lower * nat w) (upper * nat w) grid"
      have "length ?m = nat w * h"
      proof -
        have "upper * nat w + (lower * nat w - (upper + n) * nat w) = (lower - n) * nat w"
        proof -
          have "(upper + n) * nat w \<le> lower * nat w" using n by (intro mult_le_mono1) simp
          then show ?thesis by (simp add: add_mult_distrib diff_mult_distrib)
        qed
        moreover have "(lower - n) * nat w \<le> h * nat w" "lower * nat w \<le> h * nat w" "(upper + n) * nat w \<le> lower * nat w"
          using assms(2) n by (auto intro!: mult_le_mono1)
        ultimately show ?thesis using assms(3) by (simp add: length_move_range mult.commute)
      qed
      then have "row_of (fill_range ((lower - n) * nat w) (lower * nat w) (blank_cell lib) ?m) w (int i) = row_of ?m w (int i)"
        using assms n by (intro row_of_fill_outside) auto
      moreover have "row_of ?m w (int i) = row_of grid w (int i)"
        using assms n by (intro row_of_move_outside) auto
      ultimately show ?thesis
        using small lt True by (simp add: shift_rows_def Let_def)
    next
      case neg: False
      then have [simp]: "nat (int lower + lns) = lower - n" "nat (int upper - lns) = upper + n"
        using n lt by (simp_all add: n_def)
      let ?m = "move_range (upper * nat w) ((lower - n) * nat w) ((upper + n) * nat w) grid"
      have "length ?m = nat w * h"
      proof -
        have "(upper + n) * nat w + ((lower - n) * nat w - upper * nat w) = lower * nat w"
        proof -
          have "upper * nat w \<le> (lower - n) * nat w" using n by (intro mult_le_mono1) simp
          then have "(upper + n) * nat w + ((lower - n) * nat w - upper * nat w) = n * nat w + (lower - n) * nat w"
            by (simp add: add_mult_distrib)
          also have "\<dots> = (n + (lower - n)) * nat w" by (simp add: add_mult_distrib)
          finally show ?thesis using n by simp
        qed
        moreover have "(lower - n) * nat w \<le> h * nat w" "lower * nat w \<le> h * nat w" "upper * nat w \<le> (lower - n) * nat w"
          using assms(2) n by (auto intro!: mult_le_mono1)
        ultimately show ?thesis using assms(3) by (simp add: length_move_range mult.commute)
      qed
      then have "row_of (fill_range (upper * nat w) ((upper + n) * nat w) (blank_cell lib) ?m) w (int i) = row_of ?m w (int i)"
        using assms n by (intro row_of_fill_outside) auto
      moreover have "row_of ?m w (int i) = row_of grid w (int i)"
        using assms n by (intro row_of_move_outside) auto
      ultimately show ?thesis
        using small lt neg by (simp add: shift_rows_def Let_def)
    qed
  qed
qed

section \<open>Applying a diff\<close>

text \<open>The current side of a diff, as a terminal has it: a size this protocol carries, as many cells as
  the size says, and a cursor inside.\<close>

definition wf_view :: "grid_view \<Rightarrow> bool" where
  "wf_view v \<longleftrightarrow>
     1 \<le> width (gv_cells v) \<and> width (gv_cells v) \<le> 1000 \<and>
     1 \<le> height (gv_cells v) \<and> height (gv_cells v) \<le> 1000 \<and>
     length (gv_grid v) = area (gv_cells v) \<and>
     uint (gc_column (gv_cursor v)) \<le> width (gv_cells v) \<and> uint (gc_row (gv_cursor v)) < height (gv_cells v)"

text \<open>The lines that entered the history: rows of the current width, none of them empty.\<close>

definition pushable :: "extent \<Rightarrow> cell list list \<Rightarrow> bool" where
  "pushable e pushed \<longleftrightarrow> list_all (\<lambda>line. line \<noteq> [] \<and> length line \<le> nat (width e)) pushed"

text \<open>A damage report is honest when the rows it does not name did not change.\<close>

definition honest_damage :: "grid_state \<Rightarrow> grid_view \<Rightarrow> row_damage list \<Rightarrow> bool" where
  "honest_damage previous v damaged \<longleftrightarrow>
     gs_cells previous \<noteq> gv_cells v \<or>
     list_all (\<lambda>row. named_by damaged row \<or>
       row_of (gs_grid previous) (width (gv_cells v)) (int row) = row_of (gv_grid v) (width (gv_cells v)) (int row))
       [0..<nat (height (gv_cells v))]"

text \<open>The mirror holds what the sender believes it holds. Its history is its own.\<close>

definition holds :: "grid_state \<Rightarrow> grid_state \<Rightarrow> bool" where
  "holds mirror previous \<longleftrightarrow> view_of mirror = view_of previous"

text \<open>What a mirror is after a delta: the current side, and its own history with the pushed lines.\<close>

definition shows_view :: "ckvision \<Rightarrow> grid_state \<Rightarrow> grid_view \<Rightarrow> cell list list \<Rightarrow> grid_state \<Rightarrow> bool" where
  "shows_view lib before v pushed after \<longleftrightarrow>
     view_of after = v \<and> gs_max_lines after = gs_max_lines before \<and>
     history after = take_last (gs_max_lines before)
       (map (fit_line lib (extent_columns (gv_cells v))) (history before @ pushed))"

lemma view_of_eq:
  "view_of s = v \<longleftrightarrow> gs_cells s = gv_cells v \<and> gs_grid s = gv_grid v \<and> gs_cursor s = gv_cursor v \<and>
     gs_modes s = gv_modes v \<and> gs_title s = gv_title v"
  by (cases v) (auto simp: view_of_def)

lemma wf_view_area: "wf_view v \<Longrightarrow> length (gv_grid v) = nat (width (gv_cells v)) * nat (height (gv_cells v))"
  by (simp add: wf_view_def area_eq)

text \<open>The pieces of a delta. Pushed lines:\<close>

lemma takes_push:
  assumes "wf_state s" and "pushable (gs_cells s) pushed" and "width (gs_cells s) \<le> 1000"
  shows "takes lib (push_ops pushed) s (fold (push_scrollback_line lib) (if gs_max_lines s = 0 then [] else pushed) s)"
proof (cases "pushed = []")
  case True
  then show ?thesis by (simp add: push_ops_def takes_Nil)
next
  case False
  have small: "length line \<le> max_grid_cells" if "line \<in> set pushed" for line
    using that assms by (auto simp: pushable_def list_all_iff max_grid_cells_value)
  have "map (from_runs \<circ> to_runs) pushed = pushed"
    by (rule map_idI) (simp add: from_runs_to_runs small)
  moreover have ok: "check_op (ScrollbackPushOp (map to_runs pushed)) (gs_cells s) = Some (gs_cells s)"
    using assms(2) by (auto simp: pushable_def list_all_iff list_ex_iff)
  moreover have "fold (\<lambda>line. push_scrollback_line lib (from_runs line)) (map to_runs pushed) s
      = fold (push_scrollback_line lib) (map (from_runs \<circ> to_runs) pushed) s"
    by (simp add: fold_map comp_def)
  ultimately have "perform_op lib (ScrollbackPushOp (map to_runs pushed)) s
      = fold (push_scrollback_line lib) (if gs_max_lines s = 0 then [] else pushed) s" by simp
  from takes_one [OF ok this [symmetric]] show ?thesis
    unfolding push_ops_def using False by (simp only: if_False)
qed

lemma push_all_history:
  assumes "wf_state s"
    and t: "t = fold (push_scrollback_line lib) (if gs_max_lines s = 0 then [] else pushed) s"
  shows "wf_state t" and "gs_cells t = gs_cells s" and "gs_grid t = gs_grid s" and "gs_cursor t = gs_cursor s"
    and "gs_modes t = gs_modes s" and "gs_title t = gs_title s" and "gs_max_lines t = gs_max_lines s"
    and "history t = take_last (gs_max_lines s) (history s @ map (fit_line lib (scrollback_width s)) pushed)"
proof -
  have wf: "wf_history s" using assms(1) by (simp add: wf_state_def)
  note fold = fold_push_history [OF wf, of lib "if gs_max_lines s = 0 then [] else pushed", folded t]
  show "gs_cells t = gs_cells s" and "gs_grid t = gs_grid s" and "gs_cursor t = gs_cursor s"
    and "gs_modes t = gs_modes s" and "gs_title t = gs_title s" and "gs_max_lines t = gs_max_lines s"
    by (simp_all add: t)
  then show "wf_state t" using fold assms(1) by (simp add: wf_state_def)
  show "history t = take_last (gs_max_lines s) (history s @ map (fit_line lib (scrollback_width s)) pushed)"
  proof (cases "gs_max_lines s = 0")
    case True
    then show ?thesis using wf_history_empty [OF wf] by (simp add: t take_last_def)
  next
    case False
    then show ?thesis using fold by (simp only: if_False)
  qed
qed

text \<open>Every row, stated in full:\<close>

lemma takes_every_row:
  assumes "wf_view v" "gs_cells s = gv_cells v" "length (gs_grid s) = area (gs_cells s)"
  shows "takes lib (emit_every_row v) s (s\<lparr>gs_grid := gv_grid v\<rparr>)"
proof -
  let ?w = "width (gv_cells v)" and ?h = "nat (height (gv_cells v))"
  define f where "f r = [CellsOp (of_nat r) 0 (to_runs (row_of (gv_grid v) ?w (int r)))]" for r
  have every: "emit_every_row v = concat (map f [0..<?h])"
    unfolding f_def concat_map_singleton using assms(1) by (simp add: emit_every_row_def wf_view_def)
  have len: "length (row_of (gv_grid v) ?w (int r)) = nat ?w" if "r < ?h" for r
    using length_row_of [OF wf_view_area [OF assms(1)] that] .
  have small: "nat ?w \<le> 1000" using assms(1) by (auto simp: wf_view_def nat_le_iff)
  have ok: "\<forall>r \<in> set [0..<?h]. r < ?h \<and> (\<forall>op \<in> set (f r). row_op (of_nat r) (nat ?w) op)"
    using len small by (auto simp: f_def row_op_def max_grid_cells_value)
  have all: "apply_row (f i) (row_of (gs_grid s) ?w (int i)) = row_of (gv_grid v) ?w (int i)" if "i < ?h" for i
    using len [OF that] small assms length_row_of [of "gs_grid s" ?w ?h i] that
    by (simp add: f_def apply_row_def from_runs_to_runs max_grid_cells_value wf_view_def area_eq write_at_def)
  have hyps: "0 \<le> width (gs_cells s)" "?h \<le> 1000" "height (gs_cells s) = int ?h"
    "length (gs_grid s) = nat (width (gs_cells s)) * ?h"
    using assms by (auto simp: wf_view_def area_eq)
  obtain grid where grid: "takes lib (concat (map f [0..<?h])) s (s\<lparr>gs_grid := grid\<rparr>)" "length grid = length (gs_grid s)"
    "\<forall>i < ?h. row_of grid ?w (int i) = row_of (gv_grid v) ?w (int i)"
    using takes_rows [of "[0..<?h]" ?h f s lib] ok hyps all assms(2) by (auto simp: assms(2))
  have "grid = gv_grid v"
    using grid(2,3) hyps(4) wf_view_area [OF assms(1)] assms(2) by (intro rows_determine_grid [of grid ?w ?h]) auto
  then show ?thesis using grid(1) every by simp
qed

text \<open>The rows that differ, with or without a scroll first:\<close>

lemma takes_examined:
  assumes v: "wf_view v" and cells: "gs_cells s = gv_cells v" and held: "gs_grid s = held" and len: "length held = area (gs_cells s)"
    and skip: "\<forall>r < nat (height (gv_cells v)). examined r \<or>
      row_of held (width (gv_cells v)) (int r) = row_of (gv_grid v) (width (gv_cells v)) (int r)"
  shows "takes lib (concat (map (\<lambda>r. if \<not> examined r then []
       else emit_changed_row (of_nat r) (row_of held (width (gv_cells v)) (int r))
              (row_of (gv_grid v) (width (gv_cells v)) (int r))) [0..<nat (height (gv_cells v))]))
     s (s\<lparr>gs_grid := gv_grid v\<rparr>)"
proof -
  let ?w = "width (gv_cells v)" and ?h = "nat (height (gv_cells v))"
  let ?f = "\<lambda>r. if \<not> examined r then [] else emit_changed_row (of_nat r) (row_of held ?w (int r)) (row_of (gv_grid v) ?w (int r))"
  have hyps: "0 \<le> width (gs_cells s)" "?h \<le> 1000" "height (gs_cells s) = int ?h"
    "length held = nat (width (gs_cells s)) * ?h"
    using v cells len by (auto simp: wf_view_def area_eq)
  have lens: "length (row_of held ?w (int r)) = nat ?w" "length (row_of (gv_grid v) ?w (int r)) = nat ?w" if "r < ?h" for r
    using length_row_of [of held ?w ?h r] length_row_of [OF wf_view_area [OF v] that] that hyps(4) cells by auto
  have small: "nat ?w \<le> 1000" using v by (auto simp: wf_view_def nat_le_iff)
  have ok: "\<forall>r \<in> set [0..<?h]. r < ?h \<and> (\<forall>op \<in> set (?f r). row_op (of_nat r) (nat (width (gs_cells s))) op)"
  proof (intro ballI conjI)
    fix r op
    assume "r \<in> set [0..<?h]" "op \<in> set (?f r)"
    then show "row_op (of_nat r) (nat (width (gs_cells s))) op"
      using lens [of r] small cells
        emit_changed_row_correct(2) [of "row_of held ?w (int r)" "row_of (gv_grid v) ?w (int r)" "of_nat r"]
      by (auto split: if_splits)
  qed simp
  have all: "apply_row (?f i) (row_of held ?w (int i)) = row_of (gv_grid v) ?w (int i)" if "i < ?h" for i
    using emit_changed_row_correct(1) [of "row_of held ?w (int i)" "row_of (gv_grid v) ?w (int i)" "of_nat i"]
      lens [OF that] small skip that by (auto simp: apply_row_def)
  obtain grid where grid: "takes lib (concat (map ?f [0..<?h])) s (s\<lparr>gs_grid := grid\<rparr>)" "length grid = length held"
    "\<forall>i < ?h. row_of grid ?w (int i) = row_of (gv_grid v) ?w (int i)"
    using takes_rows [of "[0..<?h]" ?h ?f s lib] ok hyps all by (auto simp: cells held)
  have "grid = gv_grid v"
    using grid(2,3) hyps(4) wf_view_area [OF v] cells by (intro rows_determine_grid [of grid ?w ?h]) auto
  then show ?thesis using grid(1) by simp
qed

lemma uint_row: "n \<le> 1000 \<Longrightarrow> uint (of_nat n :: u16) = int n"
  using unat_column [of n] by (metis uint_nat)

lemma takes_diff_rows:
  assumes v: "wf_view v" and cells: "gs_cells s = gv_cells v" and len: "length (gs_grid s) = area (gs_cells s)"
    and honest: "\<forall>r < nat (height (gv_cells v)). named_by damaged r \<or>
      row_of (gs_grid s) (width (gv_cells v)) (int r) = row_of (gv_grid v) (width (gv_cells v)) (int r)"
  shows "takes lib (diff_rows lib damaged (gs_grid s) (gv_grid v) (width (gv_cells v)) (nat (height (gv_cells v))))
     s (s\<lparr>gs_grid := gv_grid v\<rparr>)"
proof (cases "find_scroll lib (named_by damaged) (gs_grid s) (gv_grid v) (width (gv_cells v)) (nat (height (gv_cells v)))")
  case None
  then show ?thesis using takes_examined [OF v cells refl len honest, of lib] by (simp add: diff_rows_def)
next
  case (Some found)
  then obtain upper lower lns where
    scroll: "find_scroll lib (named_by damaged) (gs_grid s) (gv_grid v) (width (gv_cells v)) (nat (height (gv_cells v)))
      = Some (upper, lower, lns)" by (cases found) auto
  let ?w = "width (gv_cells v)" and ?h = "nat (height (gv_cells v))"
  from find_scroll_bounds [OF scroll] have b: "upper < lower" "lower \<le> ?h" "\<bar>lns\<bar> < int (lower - upper)" by auto
  have h: "?h \<le> 1000" "height (gv_cells v) = int ?h" using v by (auto simp: wf_view_def)
  have u: "uint (of_nat upper :: u16) = int upper" "uint (of_nat lower :: u16) = int lower"
    using b h by (simp_all add: uint_row del: uint_nat)
  have "- 32768 \<le> lns" "lns < 32768" using b h by linarith+
  then have sl: "sint (word_of_int lns :: i16) = lns" by (rule sint_i16)
  let ?op = "ScrollOp (of_nat upper) (of_nat lower) (word_of_int lns)"
  let ?g = "shift_rows lib (gs_grid s) ?w (int upper) (int lower) lns"
  have "check_op ?op (gs_cells s) = Some (gs_cells s)"
    using b h(2) cells by (simp add: u sl word_less_def del: uint_nat)
  moreover have "perform_op lib ?op s = s\<lparr>gs_grid := ?g\<rparr>"
    by (simp add: u sl cells del: uint_nat)
  ultimately have one: "takes lib [?op] s (s\<lparr>gs_grid := ?g\<rparr>)" by (metis takes_one)
  have grid_len: "length (gs_grid s) = nat ?w * ?h" using len cells by (simp add: area_eq)
  have "nat (int lower) * nat ?w \<le> length (gs_grid s)"
    unfolding grid_len using b(2) by (subst mult.commute) (simp add: mult_le_mono2)
  then have len': "length ?g = area (gs_cells s)" using len by (subst length_shift_rows) simp_all
  let ?examined = "\<lambda>row. named_by damaged row \<or> (upper \<le> row \<and> row < lower)"
  have "row_of ?g ?w (int r) = row_of (gv_grid v) ?w (int r)" if "r < ?h" "\<not> ?examined r" for r
    using that honest b row_of_shift_outside [OF _ b(2) grid_len that(1), of upper lib lns] by auto
  then have skip: "\<forall>r < ?h. ?examined r \<or> row_of ?g ?w (int r) = row_of (gv_grid v) ?w (int r)" by blast
  have rest: "takes lib (concat (map (\<lambda>r. if \<not> ?examined r then []
       else emit_changed_row (of_nat r) (row_of ?g ?w (int r)) (row_of (gv_grid v) ?w (int r))) [0..<?h]))
     (s\<lparr>gs_grid := ?g\<rparr>) (s\<lparr>gs_grid := gv_grid v\<rparr>)"
    using takes_examined [of v "s\<lparr>gs_grid := ?g\<rparr>" ?g ?examined lib] v cells len' skip by simp
  from takes_append [OF one rest] show ?thesis by (simp add: diff_rows_def scroll)
qed

section \<open>The cursor, the modes and the title\<close>

lemma modes_word: "(a AND NOT (a XOR b)) OR (b AND (a XOR b)) = (b :: u32)"
  by (rule bit_word_eqI) (auto simp: bit_simps)

lemma cursor_op_ok:
  assumes "wf_view v" "gs_cells s = gv_cells v"
  shows "check_op (cursor_op_of (gv_cursor v)) (gs_cells s) = Some (gs_cells s)"
    and "perform_op lib (cursor_op_of (gv_cursor v)) s = s\<lparr>gs_cursor := gv_cursor v\<rparr>"
  using assms by (auto simp: cursor_op_of_def wf_view_def)

lemma takes_if: "(c \<Longrightarrow> takes lib ops s t) \<Longrightarrow> (\<not> c \<Longrightarrow> s = t) \<Longrightarrow> takes lib (if c then ops else []) s t"
  by (simp add: takes_Nil)

lemma takes_scalars:
  assumes v: "wf_view v" and cells: "gs_cells s = gv_cells v"
    and cursor: "gs_cursor previous = gv_cursor v \<Longrightarrow> gs_cursor s = gv_cursor v"
    and modes: "gs_modes s = gs_modes previous" and title: "gs_title s = gs_title previous"
  shows "takes lib ((if gs_cursor previous \<noteq> gv_cursor v then [cursor_op_of (gv_cursor v)] else [])
       @ (if gs_modes previous \<noteq> gv_modes v then [ModesOp (gs_modes previous XOR gv_modes v) (gv_modes v)] else [])
       @ (if gs_title previous \<noteq> gv_title v then [TitleOp (gv_title v)] else []))
     s (s\<lparr>gs_cursor := gv_cursor v, gs_modes := gv_modes v, gs_title := gv_title v\<rparr>)"
proof (intro takes_append takes_if)
  show "takes lib [cursor_op_of (gv_cursor v)] s (s\<lparr>gs_cursor := gv_cursor v\<rparr>)"
    using cursor_op_ok [OF v cells] by (metis takes_one)
  show "takes lib [ModesOp (gs_modes previous XOR gv_modes v) (gv_modes v)] (s\<lparr>gs_cursor := gv_cursor v\<rparr>)
      (s\<lparr>gs_cursor := gv_cursor v, gs_modes := gv_modes v\<rparr>)"
    by (rule takes_one) (simp_all add: modes modes_word)
  show "takes lib [TitleOp (gv_title v)] (s\<lparr>gs_cursor := gv_cursor v, gs_modes := gv_modes v\<rparr>)
      (s\<lparr>gs_cursor := gv_cursor v, gs_modes := gv_modes v, gs_title := gv_title v\<rparr>)"
    by (rule takes_one) simp_all
qed (use cursor modes title in \<open>auto intro!: grid_state.equality\<close>)

lemma takes_scalars_stated:
  assumes v: "wf_view v" and cells: "gs_cells s = gv_cells v"
  shows "takes lib [cursor_op_of (gv_cursor v), ModesOp 0xFFFFFFFF (gv_modes v), TitleOp (gv_title v)]
     s (s\<lparr>gs_cursor := gv_cursor v, gs_modes := gv_modes v, gs_title := gv_title v\<rparr>)"
proof -
  have minus: "(0xFFFFFFFF :: u32) = - 1" by simp
  have ones: "(m AND NOT 0xFFFFFFFF) OR (n AND 0xFFFFFFFF) = (n :: u32)" for m n
    unfolding minus by simp
  show ?thesis
    using cursor_op_ok [OF v cells] ones by (simp add: takes_def cells)
qed

section \<open>The resize that opens a repaint\<close>

lemma resize_op_ok:
  assumes "wf_view v"
  shows "check_op (resize_op (gv_cells v)) e = Some (gv_cells v)"
    and "perform_op lib (resize_op (gv_cells v)) s = resize_state lib (gv_cells v) s"
proof -
  have w: "uint (word_of_int (max 0 (width (gv_cells v))) :: u16) = width (gv_cells v)"
    and h: "uint (word_of_int (max 0 (height (gv_cells v))) :: u16) = height (gv_cells v)"
    using assms by (auto simp: wf_view_def uint_word_of_int max_def)
  have "\<lparr>width = width (gv_cells v), height = height (gv_cells v)\<rparr> = gv_cells v" by simp
  moreover have "word_of_int (max 0 (width (gv_cells v))) \<noteq> (0 :: u16)" "word_of_int (max 0 (height (gv_cells v))) \<noteq> (0 :: u16)"
    using w h assms by (auto simp: wf_view_def)
  moreover have "\<not> word_of_int (max 0 (width (gv_cells v))) > max_grid_columns"
    "\<not> word_of_int (max 0 (height (gv_cells v))) > max_grid_rows"
    unfolding word_less_def w h using assms
    by (simp_all add: max_grid_columns_def max_grid_rows_def wf_view_def)
  ultimately show "check_op (resize_op (gv_cells v)) e = Some (gv_cells v)"
    and "perform_op lib (resize_op (gv_cells v)) s = resize_state lib (gv_cells v) s"
    by (simp_all only: resize_op_def check_op.simps perform_op.simps w h) simp
qed

lemma clamp_inside: "wf_view v \<Longrightarrow> clamp_cursor (gv_cells v) (gv_cursor v) = gv_cursor v"
  by (auto simp: clamp_cursor_def wf_view_def Let_def)

text \<open>A repaint, whatever the mirror's geometry: resized, pushed to and painted.\<close>

lemma takes_repaint:
  assumes v: "wf_view v" and wf: "wf_state s" and pushed: "pushable (gv_cells v) pushed"
  shows "\<exists>t. takes lib ([resize_op (gv_cells v)] @ push_ops pushed @ emit_every_row v) s t \<and>
     gs_cells t = gv_cells v \<and> gs_grid t = gv_grid v \<and> gs_modes t = gs_modes s \<and> gs_title t = gs_title s \<and>
     (gs_cursor s = gv_cursor v \<longrightarrow> gs_cursor t = gv_cursor v) \<and> gs_max_lines t = gs_max_lines s \<and>
     history t = take_last (gs_max_lines s) (map (fit_line lib (extent_columns (gv_cells v))) (history s @ pushed))"
proof -
  let ?r = "resize_state lib (gv_cells v) s"
  have one: "takes lib [resize_op (gv_cells v)] s ?r"
    using resize_op_ok [OF v] by (metis takes_one)
  have "length (gs_grid ?r) = area (gv_cells v)" using wf by (auto simp: resize_grid wf_state_def)
  then have wr: "wf_state ?r" using wf by (simp add: wf_state_def resize_history)
  let ?p = "fold (push_scrollback_line lib) (if gs_max_lines ?r = 0 then [] else pushed) ?r"
  have two: "takes lib (push_ops pushed) ?r ?p"
    using wr pushed v by (intro takes_push) (auto simp: wf_view_def)
  note p = push_all_history [OF wr, of ?p lib pushed, OF refl]
  have three: "takes lib (emit_every_row v) ?p (?p\<lparr>gs_grid := gv_grid v\<rparr>)"
    using p(1,2) v by (intro takes_every_row) (auto simp: wf_state_def)
  have "history (?p\<lparr>gs_grid := gv_grid v\<rparr>) = history ?p" by (rule history_cong) simp_all
  moreover have "scrollback_width ?r = extent_columns (gv_cells v)"
    by (simp add: scrollback_width_def extent_columns_def)
  ultimately have hist: "history (?p\<lparr>gs_grid := gv_grid v\<rparr>)
      = take_last (gs_max_lines s) (map (fit_line lib (extent_columns (gv_cells v))) (history s @ pushed))"
    using p(8) wf by (simp add: resize_history wf_state_def)
  show ?thesis
    using takes_append [OF one takes_append [OF two three]] hist p clamp_inside [OF v]
    by (intro exI [of _ "?p\<lparr>gs_grid := gv_grid v\<rparr>"]) (simp add: resize_cursor)
qed

section \<open>The claim\<close>

lemma full_repaint_takes:
  assumes v: "wf_view v" and wf: "wf_state s" and pushed: "pushable (gv_cells v) pushed"
  shows "\<exists>t. takes lib (full_repaint v pushed) s t \<and> shows_view lib s v pushed t"
proof -
  obtain t where t: "takes lib ([resize_op (gv_cells v)] @ push_ops pushed @ emit_every_row v) s t"
    "gs_cells t = gv_cells v" "gs_grid t = gv_grid v" "gs_max_lines t = gs_max_lines s"
    "history t = take_last (gs_max_lines s) (map (fit_line lib (extent_columns (gv_cells v))) (history s @ pushed))"
    using takes_repaint [OF assms, of lib] by blast
  let ?u = "t\<lparr>gs_cursor := gv_cursor v, gs_modes := gv_modes v, gs_title := gv_title v\<rparr>"
  have "takes lib (full_repaint v pushed) s ?u"
    using takes_append [OF t(1) takes_scalars_stated [OF v t(2)]] by (simp add: full_repaint_def)
  moreover have "history ?u = history t" by (rule history_cong) (simp_all add: scrollback_width_def)
  ultimately show ?thesis using t by (auto simp: shows_view_def view_of_eq)
qed

lemma diff_takes:
  assumes v: "wf_view v" and wf: "wf_state s" and pushed: "pushable (gv_cells v) pushed"
    and holds: "holds s previous" and honest: "honest_damage previous v damaged"
  shows "\<exists>t. takes lib (diff lib previous v pushed damaged) s t \<and> shows_view lib s v pushed t"
proof -
  from holds have eq: "gs_cells previous = gs_cells s" "gs_grid previous = gs_grid s" "gs_cursor previous = gs_cursor s"
    "gs_modes previous = gs_modes s" "gs_title previous = gs_title s"
    by (auto simp: holds_def view_of_def)
  have grid_len: "length (gs_grid s) = area (gs_cells s)" and vlen: "length (gv_grid v) = area (gv_cells v)"
    using wf v by (auto simp: wf_state_def wf_view_def)
  let ?tail = "(if gs_cursor previous \<noteq> gv_cursor v then [cursor_op_of (gv_cursor v)] else [])
       @ (if gs_modes previous \<noteq> gv_modes v then [ModesOp (gs_modes previous XOR gv_modes v) (gv_modes v)] else [])
       @ (if gs_title previous \<noteq> gv_title v then [TitleOp (gv_title v)] else [])"
  have "\<exists>t front. diff lib previous v pushed damaged = front @ ?tail \<and> takes lib front s t \<and>
     gs_cells t = gv_cells v \<and> gs_grid t = gv_grid v \<and> gs_modes t = gs_modes s \<and> gs_title t = gs_title s \<and>
     (gs_cursor s = gv_cursor v \<longrightarrow> gs_cursor t = gv_cursor v) \<and> gs_max_lines t = gs_max_lines s \<and>
     history t = take_last (gs_max_lines s) (map (fit_line lib (extent_columns (gv_cells v))) (history s @ pushed))"
  proof (cases "gs_cells s = gv_cells v")
    case False
    then have "diff lib previous v pushed damaged
        = ([resize_op (gv_cells v)] @ push_ops pushed @ emit_every_row v) @ ?tail"
      by (simp add: diff_def Let_def eq)
    then show ?thesis using takes_repaint [OF v wf pushed, of lib] by blast
  next
    case True
    let ?p = "fold (push_scrollback_line lib) (if gs_max_lines s = 0 then [] else pushed) s"
    let ?rows = "diff_rows lib damaged (gs_grid s) (gv_grid v) (width (gv_cells v)) (nat (height (gv_cells v)))"
    have one: "takes lib (push_ops pushed) s ?p"
      using wf pushed v True by (intro takes_push) (auto simp: wf_view_def)
    note p = push_all_history [OF wf, of ?p lib pushed, OF refl]
    have "\<forall>r < nat (height (gv_cells v)). named_by damaged r \<or>
      row_of (gs_grid ?p) (width (gv_cells v)) (int r) = row_of (gv_grid v) (width (gv_cells v)) (int r)"
      using honest True by (auto simp: honest_damage_def eq p(3) list_all_iff)
    from takes_diff_rows [OF v _ _ this, of lib] p(1,2,3) True
    have two: "takes lib ?rows ?p (?p\<lparr>gs_grid := gv_grid v\<rparr>)" by (simp add: wf_state_def)
    have "history (?p\<lparr>gs_grid := gv_grid v\<rparr>) = history ?p" by (rule history_cong) simp_all
    moreover have "scrollback_width s = extent_columns (gv_cells v)"
      by (simp add: scrollback_width_def extent_columns_def True)
    moreover from this have "map (fit_line lib (extent_columns (gv_cells v))) (history s) = history s"
      by (intro map_idI) (auto simp: history_def rows_of_length fit_line_exact)
    ultimately have hist: "history (?p\<lparr>gs_grid := gv_grid v\<rparr>)
      = take_last (gs_max_lines s) (map (fit_line lib (extent_columns (gv_cells v))) (history s @ pushed))"
      using p(8) by simp
    have "diff lib previous v pushed damaged = (push_ops pushed @ ?rows) @ ?tail"
      using True v grid_len vlen by (simp add: diff_def Let_def eq wf_view_def)
    with takes_append [OF one two] hist p True show ?thesis
      by (intro exI [of _ "?p\<lparr>gs_grid := gv_grid v\<rparr>"] exI [of _ "push_ops pushed @ ?rows"]) simp
  qed
  then obtain t front where front: "diff lib previous v pushed damaged = front @ ?tail" "takes lib front s t"
    and t: "gs_cells t = gv_cells v" "gs_grid t = gv_grid v" "gs_modes t = gs_modes s" "gs_title t = gs_title s"
     "gs_cursor s = gv_cursor v \<longrightarrow> gs_cursor t = gv_cursor v" "gs_max_lines t = gs_max_lines s"
     "history t = take_last (gs_max_lines s) (map (fit_line lib (extent_columns (gv_cells v))) (history s @ pushed))"
    by blast
  let ?u = "t\<lparr>gs_cursor := gv_cursor v, gs_modes := gv_modes v, gs_title := gv_title v\<rparr>"
  have "takes lib ?tail t ?u"
    by (rule takes_scalars [OF v t(1)]) (use t eq in auto)
  with takes_append [OF front(2)] front(1) have "takes lib (diff lib previous v pushed damaged) s ?u" by simp
  moreover have "history ?u = history t" by (rule history_cong) (simp_all add: scrollback_width_def)
  ultimately show ?thesis using t by (auto simp: shows_view_def view_of_eq)
qed

section \<open>Nothing changed\<close>

lemma changed_span_same: "changed_span row row a b = (b, a)"
proof -
  have "fold (\<lambda>column (first_changed, last_changed).
      if same_cell (row ! column) (row ! column) then (first_changed, last_changed)
      else (min first_changed column, column + 1 :: nat)) xs (b, a) = (b, a)" for xs
    by (induction xs) simp_all
  then show ?thesis by (simp add: changed_span_def)
qed

lemma span_loop_same: "\<not> have_span st \<Longrightarrow> span_loop r row row a st = st"
proof (induction "length row - a" arbitrary: a rule: less_induct)
  case less
  show ?case
  proof (cases "a < length row")
    case True
    then have "span_loop r row row (run_end row a) st = st"
      using less run_end_bounds [OF True] by (intro less.hyps) auto
    moreover have "span_step r row row a (run_end row a) st = st"
      using less.prems by (simp add: span_step_def changed_span_same)
    ultimately show ?thesis using True by (subst span_loop.simps) simp
  qed (subst span_loop.simps, simp)
qed

lemma emit_unchanged_row: "emit_changed_row r row row = []"
  by (simp add: emit_changed_row_def span_loop_same)

lemma first_changed_row_none: "(\<And>r. \<not> changed r) \<Longrightarrow> row \<le> h \<Longrightarrow> first_changed_row changed h row = h"
proof (induction "h - row" arbitrary: row)
  case (Suc n)
  then show ?case by (subst first_changed_row.simps) auto
qed (subst first_changed_row.simps, simp)

lemma last_changed_row_self: "last_changed_row changed h h = h"
  by (cases h) simp_all

lemma diff_rows_same: "diff_rows lib damaged g g w h = []"
proof -
  have "find_scroll lib examined g g w h = None" for examined
    by (simp add: find_scroll_def Let_def first_changed_row_none last_changed_row_self)
  then show ?thesis by (auto simp: diff_rows_def emit_unchanged_row)
qed

end
