(* ===== verification/Samples.thy ===== *)
theory Samples
  imports Wire_Stream Diff_Correct
begin

text \<open>
  A concrete cell library and small concrete values, at which the hypotheses of the properties
  are shown to hold.
\<close>

definition plain_style :: style where
  "plain_style = \<lparr>fg = Default_Color, bg = Default_Color, attrs = 0, underline = 0, underline_color = Default_Color\<rparr>"

definition sample_library :: ckvision where
  "sample_library = \<lparr>from_grapheme = (\<lambda>cs st. \<lparr>grapheme = cs, cell_width = 1, cell_style = st\<rparr>),
     continuation = (\<lambda>st. \<lparr>grapheme = [], cell_width = 0, cell_style = st\<rparr>),
     default_cell = \<lparr>grapheme = [], cell_width = 1, cell_style = plain_style\<rparr>,
     default_style = plain_style\<rparr>"

definition letter :: "u8 \<Rightarrow> cell" where
  "letter c = \<lparr>grapheme = [c], cell_width = 1, cell_style = plain_style\<rparr>"

lemma wf_letter [simp]: "wf_cell sample_library (letter c)"
  by (simp add: wf_cell_def letter_def sample_library_def wire_style_def plain_style_def max_cell_text_bytes_def)

lemma letter_simps [simp]:
  "grapheme (letter c) = [c]" "cell_width (letter c) = 1" "cell_style (letter c) = plain_style"
  "letter c = letter d \<longleftrightarrow> c = d"
  by (simp_all add: letter_def)

text \<open>A title for terminal 7 and two runs of cells in its first row.\<close>

definition sample_ops :: "grid_op list" where
  "sample_ops = [CellsOp 0 0 [\<lparr>run_length = 3, run_cell = letter 65\<rparr>, \<lparr>run_length = 1, run_cell = letter 66\<rparr>],
     TitleOp [104, 105]]"

text \<open>A mirror two columns by two rows, with one line of history, and what its terminal shows now.\<close>

definition sample_state :: grid_state where
  "sample_state = \<lparr>gs_cells = \<lparr>width = 2, height = 2\<rparr>, gs_grid = [letter 65, letter 66, letter 67, letter 68],
     gs_scrollback = [letter 88, letter 89], gs_start = 0, gs_max_lines = 2, gs_cursor = default_cursor,
     gs_modes = 5, gs_title = [116]\<rparr>"

definition sample_view :: grid_view where
  "sample_view = \<lparr>gv_cells = \<lparr>width = 2, height = 2\<rparr>, gv_grid = [letter 67, letter 68, letter 69, letter 70],
     gv_cursor = \<lparr>gc_column = 2, gc_row = 1, gc_style = 0, gc_visible = 1, gc_blink = 0\<rparr>,
     gv_modes = 6, gv_title = [117]\<rparr>"

text \<open>The same terminal one column wider.\<close>

definition sample_wide :: grid_view where
  "sample_wide = \<lparr>gv_cells = \<lparr>width = 3, height = 1\<rparr>, gv_grid = [letter 67, letter 68, letter 69],
     gv_cursor = default_cursor, gv_modes = 6, gv_title = [117]\<rparr>"

lemma wf_sample_state: "wf_state sample_state"
  by (simp add: wf_state_def wf_history_def sample_state_def area_eq scrollback_width_def scrollback_lines_eq)

lemma wf_sample_view: "wf_view sample_view" "wf_view sample_wide"
  by (simp_all add: wf_view_def sample_view_def sample_wide_def area_eq default_cursor_def)

end
