(* ===== verification/Properties_Wire.thy ===== *)
theory Properties_Wire
  imports Samples
begin

text \<open>
  What the wire protocol and its readers promise, each with a concrete instance of its
  hypotheses.
\<close>

section \<open>Frames\<close>

text \<open>C10. Every message the protocol can say, within the payload cap of its type, is encoded, and
  decoding the frame gives the message back, exactly its bytes consumed, whatever follows it.\<close>

theorem frame_round_trip:
  assumes "wf_message lib m" and "length (payload_of m) \<le> unat (payload_cap (type_of m))"
  shows "\<exists>frame. encode m = (frame, False) \<and>
     (\<forall>rest m0. decode lib (frame @ rest) m0 = (\<lparr>dr_error = No_Error, dr_consumed = length frame\<rparr>, m))"
proof -
  have "encode m = (fst (encode m), False)" using assms by (simp add: encode_alt fine_write_message)
  with decode_encode_rest [OF assms(1) this] show ?thesis by blast
qed

lemma frame_round_trip_witness:
  "\<exists>frame. encode (GridDelta \<lparr>gd_term = 7, gd_seq = 1, gd_ops = sample_ops\<rparr>) = (frame, False) \<and>
     (\<forall>rest m0. decode sample_library (frame @ rest) m0
        = (\<lparr>dr_error = No_Error, dr_consumed = length frame\<rparr>,
           GridDelta \<lparr>gd_term = 7, gd_seq = 1, gd_ops = sample_ops\<rparr>))"
  by (rule frame_round_trip)
    (simp_all add: sample_ops_def wf_grid_delta_def wf_runs_def wf_run_def payload_of_def max_payload_bytes_def w_grid_delta_def emits
      length_w_runs [of sample_library] length_w_cells_op [of sample_library] cells_op_size_def runs_size_def run_size_def
      payload_cap_def)

text \<open>C11. A stream of frames, cut into reads anywhere, comes out of a connection as the messages that
  went in, in order, and nothing is left in the reader, provided a frame and a read together fit
  what a reader may buffer.\<close>

theorem stream_reassembled:
  assumes "list_all (sendable lib) ms" and "concat reads = concat (map frame_of ms)"
    and "\<forall>m \<in> set ms. \<forall>c \<in> set reads. length (frame_of m) + length c \<le> max_buffered"
  shows "\<exists>fr. serve_reads lib reads fr_new = (ms, None, fr) \<and> fr_pending fr = []"
  using serve_reads_stream [OF assms(1) fr_new_wf, of reads] assms
  by (simp add: fr_new_pending partial_def)

lemma stream_reassembled_witness:
  "\<exists>fr. serve_reads sample_library
       [take 3 (frame_of (Ping 5)), drop 3 (frame_of (Ping 5)) @ take 9 (frame_of KillServer), drop 9 (frame_of KillServer)]
       fr_new = ([Ping 5, KillServer], None, fr) \<and> fr_pending fr = []"
  by (rule stream_reassembled)
    (simp_all add: sendable_def frame_of_def encode_alt payload_of_def payload_cap_def max_payload_bytes_def emits
      max_buffered_def header_bytes_def min_def)

text \<open>C30. Whatever bytes arrive, \<open>decode\<close> claims no more of them than there are and than one frame may
  have; it gives a message and takes at least a header, or it leaves the caller's message as it was.\<close>

theorem decode_safe:
  "dr_consumed (fst (decode lib bs m0)) \<le> min (length bs) max_buffered \<and>
   ((dr_error (fst (decode lib bs m0)) = No_Error \<and> header_bytes \<le> dr_consumed (fst (decode lib bs m0)))
    \<or> snd (decode lib bs m0) = m0)"
  using decode_consumed_le [of lib bs m0] decode_consumed_cap [of lib bs m0] decode_consumed_pos [of lib bs m0]
    decode_error_untouched [of lib bs m0] by auto

text \<open>An answer other than \<open>Incomplete\<close> is final: bytes that arrive later cannot change it.\<close>

theorem decode_answer_final:
  assumes "dr_error (fst (decode lib bs m0)) \<noteq> Incomplete"
  shows "decode lib (bs @ extra) m0 = decode lib bs m0"
  using assms by (rule decode_stable)

lemma decode_answer_final_witness:
  "decode sample_library (frame_header 0 0xFFFF 0 @ [1, 2]) KillServer = decode sample_library (frame_header 0 0xFFFF 0) KillServer"
proof (rule decode_answer_final)
  have "\<not> is_known_type sample_library 0xFFFF" by (simp add: is_known_type_def alternatives_def)
  then show "dr_error (fst (decode sample_library (frame_header 0 0xFFFF 0) KillServer)) \<noteq> Incomplete"
    using decode_header [of sample_library 0 "0xFFFF" 0 "[]" KillServer] by simp
qed

text \<open>A length past the cap of its type is refused as soon as the header has arrived, however many
  of the bytes it announces have: nothing is buffered for it.\<close>

theorem oversize_refused_at_once:
  assumes "is_known_type lib ty" and "payload_cap ty < len"
  shows "decode lib (frame_header len ty flags @ bs) m0 = (\<lparr>dr_error = Payload_Too_Large, dr_consumed = 0\<rparr>, m0)"
  using assms by (rule decode_oversize_at_once)

lemma oversize_refused_at_once_witness:
  "decode sample_library (frame_header 0xFFFFFFFF 0x020B 0 @ []) KillServer
     = (\<lparr>dr_error = Payload_Too_Large, dr_consumed = 0\<rparr>, KillServer)"
  by (rule oversize_refused_at_once)
    (simp_all add: is_known_type_def alternatives_def payload_cap_def max_payload_bytes_def)

lemma fr_drain_wf: "fr_wf fr \<Longrightarrow> fr_wf (snd (snd (fr_drain lib fr)))"
proof (induction lib fr rule: fr_drain.induct)
  case (1 lib fr)
  obtain e fr' m where n: "fr_next lib fr default_message = (e, fr', m)" by (metis prod_cases3)
  with 1 fr_next_pending [OF n] show ?case
    by (subst fr_drain.simps) (auto split: prod.split)
qed

lemma serve_read_wf: "fr_wf fr \<Longrightarrow> fr_wf (snd (snd (serve_read lib c fr)))"
  using fr_append_wf [of fr c] fr_drain_wf [of _ lib]
  by (fastforce simp: serve_read_def split: prod.splits bool.splits if_splits)

lemma serve_reads_wf: "fr_wf fr \<Longrightarrow> fr_wf (snd (snd (serve_reads lib reads fr)))"
proof (induction reads arbitrary: fr)
  case (Cons c reads)
  obtain ms why fr' where r: "serve_read lib c fr = (ms, why, fr')" by (metis prod_cases3)
  with serve_read_wf [OF Cons.prems, of lib c] have "fr_wf fr'" by simp
  with Cons.IH [of fr'] r show ?case by (auto split: option.split prod.split)
qed simp

text \<open>A peer that sends anything at all cannot make a reader hold more than one frame's worth.\<close>

theorem reader_bounded:
  "length (fr_buffer (snd (snd (serve_reads lib reads fr_new)))) \<le> max_buffered"
  using serve_reads_wf [OF fr_new_wf] by (simp add: fr_wf_def)

text \<open>No payload makes a container larger than it pays for: entries times their least size never
  exceed what was left to read.\<close>

theorem container_paid_for:
  "length (fst (run_state (r_counted least entry) r)) * least \<le> r_remaining r \<and>
   length (fst (run_state (r_counted_each least entry) r)) * least \<le> r_remaining r"
  by (simp add: r_counted_bound r_counted_each_bound)

text \<open>The reader of every message type stays inside the payload it was given.\<close>

theorem readers_stay_inside:
  assumes "map_of (alternatives lib) ty = Some rd"
  shows "r_pos (snd (run_state rd (r_new payload))) \<le> length payload \<and>
         r_bytes (snd (run_state rd (r_new payload))) = payload"
  using carefulD [OF careful_alternatives [OF map_of_SomeD [OF assms]], of "r_new payload"]
  by (simp add: careful_step_def r_new_def)

lemma readers_stay_inside_witness:
  "r_pos (snd (run_state (State_Monad.bind r_u64 (\<lambda>m. State_Monad.return (Ping m))) (r_new [1, 2, 3]))) \<le> length [1, 2, 3 :: u8] \<and>
   r_bytes (snd (run_state (State_Monad.bind r_u64 (\<lambda>m. State_Monad.return (Ping m))) (r_new [1, 2, 3]))) = [1, 2, 3]"
  by (rule readers_stay_inside [of sample_library 4]) (simp add: alternatives_def)

text \<open>The bytes a snapshot will take are known exactly before it is written.\<close>

theorem snapshot_size_exact:
  assumes "wf_snapshot lib sn"
  shows "length (emit (w_snapshot sn)) = snapshot_size sn"
  using assms by (rule length_w_snapshot)

lemma snapshot_size_exact_witness:
  "length (emit (w_snapshot \<lparr>sn_desktop_columns = 80, sn_desktop_rows = 24, sn_focused_term = 0, sn_terminals = []\<rparr>))
     = snapshot_size \<lparr>sn_desktop_columns = 80, sn_desktop_rows = 24, sn_focused_term = 0, sn_terminals = []\<rparr>"
  by (rule snapshot_size_exact [of sample_library]) (simp add: wf_snapshot_def)

text \<open>Run-length encoding is exact and tight: the runs of a row expand to its cells, and no two
  neighbouring runs could have been one.\<close>

theorem runs_round_trip:
  assumes "length cs \<le> max_grid_cells"
  shows "from_runs (to_runs cs) = cs \<and> tight (to_runs cs)"
  using assms by (simp add: from_runs_to_runs tight_to_runs)

lemma runs_round_trip_witness:
  "from_runs (to_runs [letter 65, letter 65, letter 66]) = [letter 65, letter 65, letter 66] \<and>
   tight (to_runs [letter 65, letter 65, letter 66])"
  by (rule runs_round_trip) (simp add: max_grid_cells_value)

section \<open>What is said and not heard\<close>

text \<open>A payload its reader refuses.\<close>

lemma decode_refused_payload:
  assumes "is_known_type lib ty" and "length p \<le> unat (payload_cap ty)" and "fst (decode_alternative lib ty (r_new p)) = None"
  shows "decode lib (frame_header (of_nat (length p)) ty 0 @ p) m0
     = (\<lparr>dr_error = Malformed, dr_consumed = length (frame_header (of_nat (length p)) ty 0 @ p)\<rparr>, m0)"
proof -
  have un: "unat (of_nat (length p) :: u32) = length p"
    using assms(2) payload_cap_le [of ty] by (simp add: unat_of_nat_len)
  obtain r' where "decode_alternative lib ty (r_new p) = (None, r')" using assms(3) by (metis prod.collapse)
  with un assms(1,2) show ?thesis by (simp add: decode_header word_less_nat_alt)
qed

text \<open>A blob longer than the reader's cap makes the reader fail.\<close>

lemma r_blob_too_long:
  assumes "unat cap < length bs" and "length bs \<le> 0xFFFFFFFF"
  shows "\<not> r_ok (snd (run_state (r_blob cap) (rd_at pre (emit (w_blob bs) @ rest))))"
proof -
  have "unat (of_nat (length bs) :: u32) = length bs" using assms(2) by (simp add: unat_of_nat_len)
  with assms(1) have "of_nat (length bs) > cap" by (simp add: word_less_nat_alt)
  moreover have "emit (w_blob bs) @ rest = emit (w_u32 (of_nat (length bs))) @ bs @ rest"
    by (simp add: emit_w_blob assms(2))
  ultimately show ?thesis by (simp add: r_blob_def r_u32_at r_fail_def)
qed

text \<open>A clipboard text longer than a protocol string but within a payload is encoded without complaint,
  and no client decodes the frame: its connection sees a malformed message.\<close>

theorem long_clipboard_undecodable:
  assumes "unat max_string_bytes < length (cs_text c)" and "length (cs_text c) + 12 \<le> unat max_payload_bytes"
  shows "\<exists>frame. encode (ClipboardSet c) = (frame, False) \<and>
     (\<forall>m0. decode lib frame m0 = (\<lparr>dr_error = Malformed, dr_consumed = length frame\<rparr>, m0))"
proof -
  let ?p = "emit (w_u64 (cs_term c)) @ emit (w_blob (cs_text c))"
  have short: "length (cs_text c) \<le> 0xFFFFFFFF" using assms(2) by (simp add: max_payload_bytes_def)
  have p: "payload_of (ClipboardSet c) = ?p"
    by (simp add: payload_of_def w_clipboard_set_def emits)
  have len: "length ?p = length (cs_text c) + 12" using short by (simp add: emits)
  have cap: "payload_cap 0x030B = max_payload_bytes" by (simp add: payload_cap_def)
  have fine: "fine (write_message (ClipboardSet c))" using short by (simp add: w_clipboard_set_def emits)
  let ?frame = "frame_header (of_nat (length ?p)) 0x030B 0 @ ?p"
  have enc: "encode (ClipboardSet c) = (?frame, False)"
    using fine len assms(2) by (simp add: encode_alt p cap del: length_append)
  have known: "map_of (alternatives lib) 0x030B = Some (do { m \<leftarrow> r_clipboard_set; State_Monad.return (ClipboardSet m) })"
    by (simp add: alternatives_def)
  have "\<not> r_ok (snd (run_state (r_blob max_string_bytes) (rd_at (emit (w_u64 (cs_term c))) (emit (w_blob (cs_text c))))))"
    using r_blob_too_long [OF assms(1) short, of "emit (w_u64 (cs_term c))" "[]"] by simp
  then have "fst (decode_alternative lib 0x030B (r_new ?p)) = None"
    using r_u64_at [of "[]" "cs_term c" "emit (w_blob (cs_text c))"]
    by (simp add: decode_alternative_def known r_new_at r_clipboard_set_def split_beta)
  then have "decode lib ?frame m0 = (\<lparr>dr_error = Malformed, dr_consumed = length ?frame\<rparr>, m0)" for m0
    using known_type_lookup [OF known] assms(2) len
    by (intro decode_refused_payload) (simp_all only: cap)
  with enc show ?thesis by blast
qed

lemma long_clipboard_undecodable_witness:
  "\<exists>frame. encode (ClipboardSet \<lparr>cs_term = 7, cs_text = replicate 70000 65\<rparr>) = (frame, False) \<and>
     (\<forall>m0. decode sample_library frame m0 = (\<lparr>dr_error = Malformed, dr_consumed = length frame\<rparr>, m0))"
  by (rule long_clipboard_undecodable) (simp_all add: max_string_bytes_def max_payload_bytes_def)

end
