(* ===== verification/Properties_Grid.thy ===== *)
theory Properties_Grid
  imports Samples
begin

text \<open>
  What the mirror of a terminal and the deltas between two of its states promise.
\<close>

section \<open>Deltas\<close>

text \<open>C1. Applying the diff of what a mirror holds and what the terminal shows leaves the mirror
  showing exactly that: every cell, the size, the cursor, the modes and the title. Its history is
  the old one and the pushed lines, as rows of the new width, cut to what the reader keeps. Only
  the damage report has to be honest; no hash is trusted.\<close>

theorem diff_apply:
  assumes "wf_view v" and "wf_state mirror" and "pushable (gv_cells v) pushed"
    and "holds mirror previous" and "honest_damage previous v damaged"
  shows "\<exists>mirror'. apply_delta lib (diff lib previous v pushed damaged) mirror = (True, mirror') \<and>
     view_of mirror' = v \<and>
     history mirror' = take_last (gs_max_lines mirror)
       (map (fit_line lib (extent_columns (gv_cells v))) (history mirror @ pushed))"
proof -
  obtain t where "takes lib (diff lib previous v pushed damaged) mirror t" "shows_view lib mirror v pushed t"
    using diff_takes [OF assms] by blast
  then show ?thesis using takes_apply assms(2) by (auto simp: wf_state_def shows_view_def)
qed

lemma diff_apply_witness:
  "\<exists>mirror'. apply_delta sample_library
       (diff sample_library sample_state sample_view [[letter 65, letter 66]]
          [\<lparr>dmg_first = 0, dmg_last = 2\<rparr>, \<lparr>dmg_first = 1, dmg_last = 2\<rparr>]) sample_state = (True, mirror') \<and>
     view_of mirror' = sample_view \<and>
     history mirror' = take_last (gs_max_lines sample_state)
       (map (fit_line sample_library (extent_columns (gv_cells sample_view))) (history sample_state @ [[letter 65, letter 66]]))"
proof (rule diff_apply)
  show "pushable (gv_cells sample_view) [[letter 65, letter 66]]" by (simp add: pushable_def sample_view_def)
  show "holds sample_state sample_state" by (simp add: holds_def)
  show "honest_damage sample_state sample_view [\<lparr>dmg_first = 0, dmg_last = 2\<rparr>, \<lparr>dmg_first = 1, dmg_last = 2\<rparr>]"
    by (simp add: honest_damage_def sample_view_def sample_state_def named_by_def damage_empty_def numeral_2_eq_2 less_Suc_eq)
qed (simp_all add: wf_sample_state wf_sample_view)

text \<open>A full repaint assumes nothing of the mirror, its size included, and leaves it showing the
  terminal exactly, with the history kept and the pushed lines behind it.\<close>

theorem full_repaint_apply:
  assumes "wf_view v" and "wf_state mirror" and "pushable (gv_cells v) pushed"
  shows "\<exists>mirror'. apply_delta lib (full_repaint v pushed) mirror = (True, mirror') \<and>
     view_of mirror' = v \<and>
     history mirror' = take_last (gs_max_lines mirror)
       (map (fit_line lib (extent_columns (gv_cells v))) (history mirror @ pushed))"
proof -
  obtain t where "takes lib (full_repaint v pushed) mirror t" "shows_view lib mirror v pushed t"
    using full_repaint_takes [OF assms] by blast
  then show ?thesis using takes_apply assms(2) by (auto simp: wf_state_def shows_view_def)
qed

lemma full_repaint_apply_witness:
  "\<exists>mirror'. apply_delta sample_library (full_repaint sample_wide []) sample_state = (True, mirror') \<and>
     view_of mirror' = sample_wide \<and>
     history mirror' = take_last (gs_max_lines sample_state)
       (map (fit_line sample_library (extent_columns (gv_cells sample_wide))) (history sample_state @ []))"
  by (rule full_repaint_apply) (simp_all add: wf_sample_state wf_sample_view pushable_def)

text \<open>C28. Any operations at all, from any peer, leave a mirror well formed: they are performed as a
  whole or the mirror is returned untouched.\<close>

theorem apply_delta_all_or_nothing:
  assumes "wf_state mirror" and "apply_delta lib ops mirror = (ok, mirror')"
  shows "wf_state mirror' \<and>
     (if check_ops ops (gs_cells mirror) then ok \<and> mirror' = fold (perform_op lib) ops mirror
      else \<not> ok \<and> mirror' = mirror)"
  using assms perform_ops_wf [OF assms(1), of ops lib]
  by (auto simp: apply_delta_def wf_state_def split: if_splits)

lemma apply_delta_all_or_nothing_witness:
  "wf_state sample_state \<and>
     (if check_ops [TitleOp [120], CellsOp 2 0 []] (gs_cells sample_state)
      then False \<and> sample_state = fold (perform_op sample_library) [TitleOp [120], CellsOp 2 0 []] sample_state
      else \<not> False \<and> sample_state = sample_state)"
  by (rule apply_delta_all_or_nothing [OF wf_sample_state])
    (simp add: apply_delta_def sample_state_def area_eq)

text \<open>After any sequence of deltas, accepted or not, a mirror keeps no more lines than its reader
  asked for, and the memory behind them is at most twice that.\<close>

theorem history_bounded:
  "length (history (fold (\<lambda>ops s. snd (apply_delta lib ops s)) deltas (blank_state lib e n))) \<le> n \<and>
   length (gs_scrollback (fold (\<lambda>ops s. snd (apply_delta lib ops s)) deltas (blank_state lib e n)))
     \<le> 2 * n * scrollback_width (fold (\<lambda>ops s. snd (apply_delta lib ops s)) deltas (blank_state lib e n))"
proof -
  have step: "wf_state (snd (apply_delta lib ops s)) \<and> gs_max_lines (snd (apply_delta lib ops s)) = gs_max_lines s"
    if "wf_state s" for ops s
  proof -
    have "gs_max_lines (perform_op lib op s) = gs_max_lines s" for op s
    proof (cases op)
      case (ScrollbackPushOp lns)
      have "fold (\<lambda>line. push_scrollback_line lib (from_runs line)) lns s
          = fold (push_scrollback_line lib) (map from_runs lns) s"
        by (simp add: fold_map comp_def)
      then show ?thesis by (simp add: ScrollbackPushOp)
    qed simp_all
    then have "gs_max_lines (fold (perform_op lib) ops s) = gs_max_lines s"
      by (induction ops arbitrary: s) simp_all
    with that perform_ops_wf [of s ops lib] show ?thesis by (simp add: apply_delta_def)
  qed
  have "wf_state s \<Longrightarrow> wf_state (fold (\<lambda>ops s. snd (apply_delta lib ops s)) deltas s) \<and>
      gs_max_lines (fold (\<lambda>ops s. snd (apply_delta lib ops s)) deltas s) = gs_max_lines s" for s
    by (induction deltas arbitrary: s) (simp_all add: step)
  moreover have "wf_state (blank_state lib e n)"
    by (simp add: blank_state_def wf_state_def wf_history_def scrollback_lines_eq)
  ultimately have "wf_state (fold (\<lambda>ops s. snd (apply_delta lib ops s)) deltas (blank_state lib e n))"
    "gs_max_lines (fold (\<lambda>ops s. snd (apply_delta lib ops s)) deltas (blank_state lib e n)) = n"
    by (simp_all add: blank_state_def)
  with wf_history_bound wf_history_storage show ?thesis by (metis wf_state_def)
qed

section \<open>History\<close>

text \<open>C29. The flat buffer with its moving offset is a list of lines: a push puts one line, cut or
  padded to the width, behind the others and lets go of the oldest past the capacity.\<close>

theorem push_is_append:
  assumes "wf_history s"
  shows "wf_history (push_scrollback_line lib line s) \<and>
     history (push_scrollback_line lib line s)
       = take_last (gs_max_lines s) (history s @ [fit_line lib (scrollback_width s) line])"
  using push_history [OF assms] by simp

lemma push_is_append_witness:
  "wf_history (push_scrollback_line sample_library [letter 90] sample_state) \<and>
     history (push_scrollback_line sample_library [letter 90] sample_state)
       = take_last (gs_max_lines sample_state) (history sample_state @ [fit_line sample_library (scrollback_width sample_state) [letter 90]])"
  by (rule push_is_append) (use wf_sample_state in \<open>simp add: wf_state_def\<close>)

text \<open>A resize keeps the whole history, every line cut or padded to the new width, makes the grid
  the new size and brings the cursor inside it.\<close>

theorem resize_keeps_history:
  assumes "wf_state s" and "0 \<le> width e" and "width e < 65536" and "1 \<le> height e" and "height e < 65536"
  shows "wf_state (resize_state lib e s) \<and> gs_cells (resize_state lib e s) = e \<and>
     history (resize_state lib e s) = map (fit_line lib (extent_columns e)) (history s) \<and>
     (gs_cells s = e \<or> uint (gc_column (gs_cursor (resize_state lib e s))) \<le> width e
        \<and> uint (gc_row (gs_cursor (resize_state lib e s))) < height e)"
proof -
  have "length (gs_grid (resize_state lib e s)) = area e" using assms(1) by (auto simp: resize_grid wf_state_def)
  moreover have "uint (gc_column (clamp_cursor e c)) \<le> width e \<and> uint (gc_row (clamp_cursor e c)) < height e" for c
    using assms(2-) by (auto simp: clamp_cursor_def Let_def uint_word_of_int simp del: of_int_diff)
  ultimately show ?thesis
    using assms(1) resize_history [of s lib e] by (simp add: wf_state_def resize_cursor)
qed

lemma resize_keeps_history_witness:
  "wf_state (resize_state sample_library \<lparr>width = 3, height = 1\<rparr> sample_state) \<and>
     gs_cells (resize_state sample_library \<lparr>width = 3, height = 1\<rparr> sample_state) = \<lparr>width = 3, height = 1\<rparr> \<and>
     history (resize_state sample_library \<lparr>width = 3, height = 1\<rparr> sample_state)
       = map (fit_line sample_library (extent_columns \<lparr>width = 3, height = 1\<rparr>)) (history sample_state) \<and>
     (gs_cells sample_state = \<lparr>width = 3, height = 1\<rparr> \<or>
      uint (gc_column (gs_cursor (resize_state sample_library \<lparr>width = 3, height = 1\<rparr> sample_state))) \<le> width \<lparr>width = 3, height = 1\<rparr>
        \<and> uint (gc_row (gs_cursor (resize_state sample_library \<lparr>width = 3, height = 1\<rparr> sample_state))) < height \<lparr>width = 3, height = 1\<rparr>)"
  by (rule resize_keeps_history) (simp_all add: wf_sample_state)

section \<open>Quiet terminals\<close>

text \<open>A terminal nothing happened to costs nothing: the diff of a state with itself is empty,
  whatever the damage report says.\<close>

theorem quiet_diff_empty:
  assumes "length (gs_grid s) = area (gs_cells s)"
  shows "diff lib s (view_of s) [] damaged = []"
proof -
  show ?thesis using assms by (simp add: diff_def view_of_def push_ops_def Let_def diff_rows_same)
qed

lemma quiet_diff_empty_witness: "diff sample_library sample_state (view_of sample_state) [] [] = []"
  by (rule quiet_diff_empty) (simp add: sample_state_def area_eq)

text \<open>The grid of a snapshot comes back as it was, and only for the size it was encoded at.\<close>

theorem grid_round_trip:
  assumes "wf_state s" and "0 \<le> width (gs_cells s)" "width (gs_cells s) \<le> 1000"
    and "0 \<le> height (gs_cells s)" "height (gs_cells s) \<le> 1000"
  shows "decode_grid (encode_grid s) (gs_cells s) t = (True, t\<lparr>gs_cells := gs_cells s, gs_grid := gs_grid s\<rparr>) \<and>
     (area e = area (gs_cells s) \<or> decode_grid (encode_grid s) e t = (False, t))"
proof -
  have len: "length (gs_grid s) = area (gs_cells s)" using assms(1) by (simp add: wf_state_def)
  have "nat (width (gs_cells s)) * nat (height (gs_cells s)) \<le> 1000 * 1000"
    using assms(2-) by (intro mult_le_mono) auto
  then have "length (gs_grid s) \<le> max_grid_cells" by (simp add: len area_eq max_grid_cells_value)
  with assms len show ?thesis
    by (simp add: decode_grid_def encode_grid_def from_runs_to_runs max_grid_columns_def max_grid_rows_def)
qed

lemma grid_round_trip_witness:
  "decode_grid (encode_grid sample_state) (gs_cells sample_state) (blank_state sample_library \<lparr>width = 1, height = 1\<rparr> 5)
     = (True, (blank_state sample_library \<lparr>width = 1, height = 1\<rparr> 5)
         \<lparr>gs_cells := gs_cells sample_state, gs_grid := gs_grid sample_state\<rparr>) \<and>
     (area \<lparr>width = 3, height = 1\<rparr> = area (gs_cells sample_state) \<or>
      decode_grid (encode_grid sample_state) \<lparr>width = 3, height = 1\<rparr> (blank_state sample_library \<lparr>width = 1, height = 1\<rparr> 5)
        = (False, blank_state sample_library \<lparr>width = 1, height = 1\<rparr> 5))"
  by (rule grid_round_trip [OF wf_sample_state]) (simp_all add: sample_state_def)

end
