(* ===== verification/Differ.thy ===== *)
theory Differ
  imports Diff_Correct
begin

text \<open>
  The server's side of mirroring: \<open>TerminalDiffer\<close> and \<open>DiffEngine\<close> of
  \<^verbatim>\<open>src/src/server/diff_engine.cpp\<close>. A differ holds what its clients are believed to hold and the
  number of the last delta; each tick it reads the emulator and says at most one delta.

  The emulator is ckVision's, so what its accessors return at one moment is a record that the
  operations take as an argument.
\<close>

section \<open>What the emulator answers\<close>

text \<open>\<open>TerminalDamage\<close>; what its \<open>any()\<close> answers is a field of the source below.\<close>

record damage =
  dm_rows :: "row_damage list"
  dm_full :: bool
  dm_cursor :: bool
  dm_modes :: bool
  dm_title :: bool
  dm_rasters :: bool
  dm_pushed :: nat

record terminal_status =
  st_cells :: extent
  st_cursor_x :: int
  st_cursor_y :: int
  st_cursor_shape :: u8
  st_cursor_visible :: bool
  st_cursor_blink :: bool
  st_mouse_reporting :: bool
  st_mouse_sgr :: bool
  st_bracketed_paste :: bool
  st_application_cursor_keys :: bool
  st_focus_reporting :: bool
  st_alternate_buffer :: bool
  st_alternate_scroll :: bool
  st_mouse_tracking :: u32
  st_keyboard_flags :: u32
  st_printer_controller :: bool
  st_printer_pending :: nat
  st_clipboard_serial :: u64
  st_title :: bytes

datatype complaint_kind = Over_Limit | Unsupported | Malformed_Input | Child_Gone

text \<open>A picture: the identity of the object that holds it, and its pixels.\<close>

record image =
  img_object :: nat
  img_width :: int
  img_height :: int
  img_stride :: int
  img_data :: bytes

record raster =
  rs_image :: "image option"
  rs_anchor :: "int \<times> int"
  rs_extent :: extent

record source =
  src_damaged :: bool
  src_damage :: damage
  src_status :: terminal_status
  src_cells :: "cell list"
  src_scrollback :: "cell list"
  src_diagnostics :: "(complaint_kind \<times> bytes) list"
  src_rasters :: "raster list"
  src_synchronized :: bool

section \<open>Reading a terminal\<close>

definition max_title_bytes :: nat where
  "max_title_bytes = 4096"

text \<open>The loop that backs off to a leading byte.\<close>

fun utf8_cut :: "bytes \<Rightarrow> nat \<Rightarrow> nat" where
  "utf8_cut cs 0 = 0"
| "utf8_cut cs (Suc n) = (if cs ! Suc n AND 0xC0 = 0x80 then utf8_cut cs n else Suc n)"

definition clamp_utf8 :: "bytes \<Rightarrow> nat \<Rightarrow> bytes" where
  "clamp_utf8 cs limit = (if length cs \<le> limit then cs else take (utf8_cut cs limit) cs)"

primrec wire_kind :: "complaint_kind \<Rightarrow> diagnostic_kind" where
  "wire_kind Over_Limit = Limit_Exceeded"
| "wire_kind Unsupported = Unsupported_Sequence"
| "wire_kind Malformed_Input = Malformed_Sequence"
| "wire_kind Child_Gone = Child_Exited"

definition mode_bit :: "nat \<Rightarrow> bool \<Rightarrow> u32" where
  "mode_bit n on = (if on then push_bit n 1 else 0)"

definition mouse_tracking_mask :: u32 where
  "mouse_tracking_mask = push_bit 7 3"

definition keyboard_flags_mask :: u32 where
  "keyboard_flags_mask = push_bit 9 31"

definition modes_of :: "terminal_status \<Rightarrow> u32" where
  "modes_of s =
     mode_bit 0 (st_mouse_reporting s) OR mode_bit 1 (st_mouse_sgr s) OR mode_bit 2 (st_bracketed_paste s)
     OR mode_bit 3 (st_application_cursor_keys s) OR mode_bit 4 (st_focus_reporting s)
     OR mode_bit 5 (st_alternate_buffer s) OR mode_bit 6 (st_alternate_scroll s)
     OR (push_bit 7 (st_mouse_tracking s) AND mouse_tracking_mask)
     OR (push_bit 9 (st_keyboard_flags s) AND keyboard_flags_mask)"

definition cursor_of :: "terminal_status \<Rightarrow> grid_cursor" where
  "cursor_of s = \<lparr>gc_column = word_of_int (max 0 (st_cursor_x s)), gc_row = word_of_int (max 0 (st_cursor_y s)),
     gc_style = st_cursor_shape s, gc_visible = (if st_cursor_visible s then 1 else 0),
     gc_blink = (if st_cursor_blink s then 1 else 0)\<rparr>"

definition source_view :: "source \<Rightarrow> grid_view" where
  "source_view src = \<lparr>gv_cells = st_cells (src_status src), gv_grid = src_cells src,
     gv_cursor = cursor_of (src_status src), gv_modes = modes_of (src_status src),
     gv_title = clamp_utf8 (st_title (src_status src)) max_title_bytes\<rparr>"

definition row_hints :: "damage \<Rightarrow> int \<Rightarrow> row_damage list" where
  "row_hints d h = take (nat (max 0 h)) (dm_rows d)"

definition state_of :: "grid_view \<Rightarrow> grid_state" where
  "state_of v = \<lparr>gs_cells = gv_cells v, gs_grid = gv_grid v, gs_scrollback = [], gs_start = 0, gs_max_lines = 0,
     gs_cursor = gv_cursor v, gs_modes = gv_modes v, gs_title = gv_title v\<rparr>"

definition newest_history_lines :: "source \<Rightarrow> int \<Rightarrow> nat \<Rightarrow> cell list list" where
  "newest_history_lines src columns count =
     (if count = 0 then []
      else
        let past = src_scrollback src;
            w = nat (max 1 columns);
            available = length past div w;
            taken = min count available
        in map (\<lambda>line. take w (drop (line * w) past)) [available - taken..<available])"

section \<open>One terminal\<close>

record believed_raster =
  br_image :: image
  br_wire_id :: u64
  br_anchor :: "int \<times> int"
  br_extent :: extent

record differ =
  df_believed :: grid_state
  df_rasters :: "believed_raster list"
  df_bytes_built :: nat
  df_sequence :: u32
  df_needs_snapshot :: bool
  df_diverged :: bool

definition no_state :: grid_state where
  "no_state = \<lparr>gs_cells = \<lparr>width = 0, height = 0\<rparr>, gs_grid = [], gs_scrollback = [], gs_start = 0,
     gs_max_lines = 0, gs_cursor = default_cursor, gs_modes = 0, gs_title = []\<rparr>"

definition differ_new :: differ where
  "differ_new = \<lparr>df_believed = no_state, df_rasters = [], df_bytes_built = 0, df_sequence = 0,
     df_needs_snapshot = False, df_diverged = False\<rparr>"

definition max_history_lines_per_delta :: nat where
  "max_history_lines_per_delta = 256"

definition differ_flush :: "ckvision \<Rightarrow> u64 \<Rightarrow> source \<Rightarrow> differ \<Rightarrow> grid_delta option \<times> differ" where
  "differ_flush lib ident src df =
     (if \<not> src_damaged src then (None, df)
      else
        let d = src_damage src;
            status = src_status src;
            view = source_view src;
            flooded = dm_pushed d > max_history_lines_per_delta;
            df = (if flooded then df\<lparr>df_diverged := True\<rparr> else df)
        in if \<not> flooded \<and> df_diverged df then (None, df\<lparr>df_needs_snapshot := True\<rparr>)
           else
             let pushed = (if flooded then [] else newest_history_lines src (width (st_cells status)) (dm_pushed d));
                 (ops, believed) =
                   (if gs_cells (df_believed df) \<noteq> st_cells status then (full_repaint view pushed, state_of view)
                    else
                      let hints = (if dm_full d then [] else row_hints d (height (st_cells status)));
                          ops = diff lib (df_believed df) view pushed hints
                      in case apply_delta lib ops (df_believed df) of
                           (True, believed) \<Rightarrow> (ops, believed)
                         | (False, _) \<Rightarrow> (full_repaint view pushed, state_of view));
                 df = df\<lparr>df_believed := believed\<rparr>
             in if ops = [] then (None, df)
                else (Some \<lparr>gd_term = ident, gd_seq = df_sequence df + 1, gd_ops = ops\<rparr>,
                      df\<lparr>df_sequence := df_sequence df + 1\<rparr>))"

text \<open>The members of \<open>TerminalState\<close> as their initialisers leave them.\<close>

definition default_terminal_state :: terminal_state where
  "default_terminal_state = \<lparr>ts_term = 0, ts_index = 0, ts_title = [], ts_custom_title = [], ts_flags = 0,
     ts_columns = 0, ts_rows = 0, ts_rect = \<lparr>rect_x = 0, rect_y = 0, rect_width = 0, rect_height = 0\<rparr>,
     ts_z_order = 0, ts_zoomed = 0, ts_tile = \<lparr>tile_x = 0, tile_y = 0, tile_width = 0, tile_height = 0\<rparr>,
     ts_cursor = \<lparr>cursor_column = 0, cursor_row = 0, cursor_style = 0, cursor_visible = 1, cursor_blink = 0\<rparr>,
     ts_modes = 0, ts_grid = [], ts_scrollback = [], ts_images = [], ts_printer_mode = Mode_Ask,
     ts_printer_scope = Scope_Global, ts_printer_state = Printer_Idle, ts_printer_bytes = 0, ts_print_jobs = [],
     ts_clipboard_serial = 0, ts_exited = 0, ts_exit_status = 0, ts_hold = 0,
     ts_diagnostic_kind = Malformed_Sequence, ts_diagnostic = [], ts_bell_serial = 0, ts_activity_serial = 0\<rparr>"

definition differ_snapshot :: "u64 \<Rightarrow> source \<Rightarrow> differ \<Rightarrow> terminal_state \<times> differ" where
  "differ_snapshot ident src df =
     (let status = src_status src;
          view = source_view src;
          state = default_terminal_state
            \<lparr>ts_term := ident,
             ts_title := gv_title view,
             ts_columns := word_of_int (max 0 (width (st_cells status))),
             ts_rows := word_of_int (max 0 (height (st_cells status))),
             ts_cursor := \<lparr>cursor_column = gc_column (gv_cursor view), cursor_row = gc_row (gv_cursor view),
               cursor_style = gc_style (gv_cursor view), cursor_visible = gc_visible (gv_cursor view),
               cursor_blink = gc_blink (gv_cursor view)\<rparr>,
             ts_modes := gv_modes view,
             ts_grid := to_runs (gv_grid view),
             ts_printer_state := (if st_printer_controller status then Printer_Capturing else Printer_Idle),
             ts_printer_bytes := of_nat (min (st_printer_pending status) 0xFFFFFFFF),
             ts_clipboard_serial := st_clipboard_serial status\<rparr>;
          state = (if src_diagnostics src = [] then state
                   else state\<lparr>ts_diagnostic_kind := wire_kind (fst (last (src_diagnostics src))),
                              ts_diagnostic := clamp_utf8 (snd (last (src_diagnostics src))) max_title_bytes\<rparr>);
          state = state\<lparr>ts_images := map br_wire_id (df_rasters df)\<rparr>
      in (state, df\<lparr>df_believed := state_of view, df_sequence := 0, df_needs_snapshot := False, df_diverged := False\<rparr>))"

text \<open>The newest lines that fit, walked from the newest and kept contiguous.\<close>

fun fill_lines :: "nat \<Rightarrow> nat \<Rightarrow> cell list \<Rightarrow> nat \<Rightarrow> nat \<Rightarrow> cell_run list list \<Rightarrow> nat \<times> cell_run list list" where
  "fill_lines budget w past 0 spent newest_first = (spent, newest_first)"
| "fill_lines budget w past (Suc index) spent newest_first =
     (let runs = to_runs (take w (drop (index * w) past));
          cost = runs_size runs
      in if spent + cost > budget then (spent, newest_first)
         else fill_lines budget w past index (spent + cost) (newest_first @ [runs]))"

definition fill_history :: "terminal_state \<Rightarrow> source \<Rightarrow> nat \<Rightarrow> nat \<times> terminal_state" where
  "fill_history state src budget =
     (let past = src_scrollback src;
          w = nat (max 1 (uint (ts_columns state)));
          (spent, newest_first) = fill_lines budget w past (length past div w) 0 []
      in (spent, state\<lparr>ts_scrollback := rev newest_first\<rparr>))"

section \<open>Pictures\<close>

definition payload_bytes_of :: "image \<Rightarrow> nat" where
  "payload_bytes_of img = nat (img_stride img) * nat (img_height img)"

text \<open>The chunks of a picture from byte \<open>offset\<close> on.\<close>

function image_chunks :: "u64 \<Rightarrow> bytes \<Rightarrow> nat \<Rightarrow> nat \<Rightarrow> u32 \<Rightarrow> message list" where
  "image_chunks wire_id data size_all offset seq =
     (if offset < size_all
      then ImageChunk \<lparr>ic_id = wire_id, ic_seq = seq,
             ic_bytes = take (min (unat max_chunk_payload_bytes) (size_all - offset)) (drop offset data)\<rparr>
           # image_chunks wire_id data size_all (offset + unat max_chunk_payload_bytes) (seq + 1)
      else [])"
  by pat_completeness auto

termination image_chunks
  by (relation "measure (\<lambda>(_, _, size_all, offset, _). size_all - offset)")
    (auto simp: max_chunk_payload_bytes_def)

declare image_chunks.simps [simp del]

definition image_payload :: "u64 \<Rightarrow> image \<Rightarrow> message list" where
  "image_payload wire_id img =
     ImageAddBegin \<lparr>iab_id = wire_id, iab_width = word_of_int (max 0 (img_width img)),
       iab_height = word_of_int (max 0 (img_height img))\<rparr>
     # image_chunks wire_id (img_data img) (payload_bytes_of img) 0 0 @ [ImageEnd wire_id]"

definition place_of :: "u64 \<Rightarrow> u64 \<Rightarrow> int \<times> int \<Rightarrow> extent \<Rightarrow> message" where
  "place_of ident wire_id anchor e =
     ImagePlace \<lparr>ip_term = ident, ip_id = wire_id,
       ip_cells = \<lparr>rect_x = word_of_int (fst anchor), rect_y = word_of_int (snd anchor),
         rect_width = word_of_int (max 0 (width e)), rect_height = word_of_int (max 0 (height e))\<rparr>,
       ip_pixel_offset_x = 0, ip_pixel_offset_y = 0\<rparr>"

text \<open>The first believed picture not kept yet that satisfies \<open>P\<close>.\<close>

definition find_believed :: "(believed_raster \<Rightarrow> bool) \<Rightarrow> bool list \<Rightarrow> believed_raster list \<Rightarrow> nat option" where
  "find_believed P kept believed =
     (case filter (\<lambda>j. \<not> kept ! j \<and> P (believed ! j)) [0..<length believed] of [] \<Rightarrow> None | j # _ \<Rightarrow> Some j)"

record matching =
  mt_kept :: "bool list"
  mt_matched :: "nat option list"
  mt_replaced :: "bool list"

text \<open>One picture of the first pass, by the identity of its pixels.\<close>

definition match_object :: "believed_raster list \<Rightarrow> raster list \<Rightarrow> nat \<Rightarrow> matching \<Rightarrow> matching" where
  "match_object believed current index m =
     (case rs_image (current ! index) of
       None \<Rightarrow> m
     | Some img \<Rightarrow>
         (case find_believed (\<lambda>b. img_object (br_image b) = img_object img) (mt_kept m) believed of
           None \<Rightarrow> m
         | Some j \<Rightarrow> m\<lparr>mt_kept := (mt_kept m)[j := True], mt_matched := (mt_matched m)[index := Some j]\<rparr>))"

text \<open>One picture of the second pass, by where it stands.\<close>

definition match_place :: "believed_raster list \<Rightarrow> raster list \<Rightarrow> nat \<Rightarrow> matching \<Rightarrow> matching" where
  "match_place believed current index m =
     (if mt_matched m ! index \<noteq> None \<or> rs_image (current ! index) = None then m
      else
        case find_believed (\<lambda>b. br_anchor b = rs_anchor (current ! index) \<and> br_extent b = rs_extent (current ! index))
               (mt_kept m) believed of
          None \<Rightarrow> m
        | Some j \<Rightarrow> m\<lparr>mt_kept := (mt_kept m)[j := True], mt_matched := (mt_matched m)[index := Some j],
                       mt_replaced := (mt_replaced m)[index := True]\<rparr>)"

definition match_rasters :: "believed_raster list \<Rightarrow> raster list \<Rightarrow> matching" where
  "match_rasters believed current =
     fold (match_place believed current) [0..<length current]
       (fold (match_object believed current) [0..<length current]
         \<lparr>mt_kept = replicate (length believed) False, mt_matched = replicate (length current) None,
          mt_replaced = replicate (length current) False\<rparr>)"

record picture_tick =
  pt_ops :: "message list"
  pt_next :: "believed_raster list"
  pt_image_id :: u64
  pt_built :: nat

definition send_picture :: "u64 \<Rightarrow> believed_raster \<Rightarrow> picture_tick \<Rightarrow> picture_tick" where
  "send_picture ident entry t =
     t\<lparr>pt_ops := pt_ops t @ image_payload (br_wire_id entry) (br_image entry)
                @ [place_of ident (br_wire_id entry) (br_anchor entry) (br_extent entry)],
       pt_built := pt_built t + payload_bytes_of (br_image entry),
       pt_next := pt_next t @ [entry]\<rparr>"

definition keep_picture :: "believed_raster \<Rightarrow> picture_tick \<Rightarrow> picture_tick" where
  "keep_picture entry t = t\<lparr>pt_next := pt_next t @ [entry]\<rparr>"

text \<open>\<open>memcmp\<close> over the pixels of two pictures of one size.\<close>

definition same_pixels :: "image \<Rightarrow> image \<Rightarrow> bool" where
  "same_pixels a b \<longleftrightarrow>
     img_width a = img_width b \<and> img_height a = img_height b \<and>
     (let n = nat (img_width b) * nat (img_height b) * 4 in take n (img_data a) = take n (img_data b))"

definition picture_step :: "(u64 \<Rightarrow> u64 \<Rightarrow> bool) option \<Rightarrow> u64 \<Rightarrow> believed_raster list \<Rightarrow> raster list \<Rightarrow> matching
    \<Rightarrow> nat \<Rightarrow> picture_tick \<Rightarrow> picture_tick" where
  "picture_step ready ident believed current m index t =
     (let r = current ! index
      in case rs_image r of
           None \<Rightarrow> t
         | Some img \<Rightarrow>
             (case mt_matched m ! index of
               Some j \<Rightarrow>
                 let entry = believed ! j
                 in if mt_replaced m ! index then
                      (if (case ready of None \<Rightarrow> False | Some f \<Rightarrow> \<not> f ident (br_wire_id entry)) then keep_picture entry t
                       else if same_pixels (br_image entry) img then keep_picture (entry\<lparr>br_image := img\<rparr>) t
                       else send_picture ident (entry\<lparr>br_image := img\<rparr>) t)
                    else if br_anchor entry \<noteq> rs_anchor r \<or> br_extent entry \<noteq> rs_extent r then
                      let entry = entry\<lparr>br_anchor := rs_anchor r, br_extent := rs_extent r\<rparr>
                      in keep_picture entry
                           (t\<lparr>pt_ops := pt_ops t @ [place_of ident (br_wire_id entry) (br_anchor entry) (br_extent entry)]\<rparr>)
                    else keep_picture entry t
             | None \<Rightarrow>
                 send_picture ident
                   \<lparr>br_image = img, br_wire_id = pt_image_id t, br_anchor = rs_anchor r, br_extent = rs_extent r\<rparr>
                   (t\<lparr>pt_image_id := pt_image_id t + 1\<rparr>)))"

definition removes_of :: "u64 \<Rightarrow> believed_raster list \<Rightarrow> bool list \<Rightarrow> message list" where
  "removes_of ident believed kept =
     map (\<lambda>j. ImageRemove \<lparr>ir_term = ident, ir_id = br_wire_id (believed ! j)\<rparr>)
       (filter (\<lambda>j. \<not> kept ! j) [0..<length believed])"

definition differ_flush_images :: "(u64 \<Rightarrow> u64 \<Rightarrow> bool) option \<Rightarrow> u64 \<Rightarrow> source \<Rightarrow> u64 \<Rightarrow> differ
    \<Rightarrow> message list \<times> u64 \<times> differ" where
  "differ_flush_images ready ident src next_image_id df =
     (let current = src_rasters src;
          believed = df_rasters df
      in if current = [] \<and> believed = [] then ([], next_image_id, df)
         else
           let m = match_rasters believed current;
               t = fold (picture_step ready ident believed current m) [0..<length current]
                     \<lparr>pt_ops = removes_of ident believed (mt_kept m), pt_next = [], pt_image_id = next_image_id,
                      pt_built = df_bytes_built df\<rparr>
           in (pt_ops t, pt_image_id t, df\<lparr>df_rasters := pt_next t, df_bytes_built := pt_built t\<rparr>))"

definition differ_attach_images :: "u64 \<Rightarrow> differ \<Rightarrow> message list" where
  "differ_attach_images ident df =
     concat (map (\<lambda>entry. image_payload (br_wire_id entry) (br_image entry)
       @ [place_of ident (br_wire_id entry) (br_anchor entry) (br_extent entry)]) (df_rasters df))"

section \<open>Every terminal\<close>

record diff_engine =
  de_differs :: "u64 \<rightharpoonup> differ"
  de_next_image_id :: u64

definition engine_new :: diff_engine where
  "engine_new = \<lparr>de_differs = Map.empty, de_next_image_id = 1\<rparr>"

text \<open>\<open>differs_[id]\<close>, which makes one where there is none.\<close>

definition differ_at :: "diff_engine \<Rightarrow> u64 \<Rightarrow> differ" where
  "differ_at de ident = (case de_differs de ident of None \<Rightarrow> differ_new | Some df \<Rightarrow> df)"

text \<open>One terminal's tick: the delta, the picture messages, and whether its damage was cleared.\<close>

definition engine_flush_one :: "ckvision \<Rightarrow> (u64 \<Rightarrow> u64 \<Rightarrow> bool) option \<Rightarrow> u64 \<Rightarrow> source \<Rightarrow> diff_engine
    \<Rightarrow> (grid_delta option \<times> message list \<times> bool) \<times> diff_engine" where
  "engine_flush_one lib ready ident src de =
     (if src_synchronized src then ((None, [], False), de)
      else
        let (delta, df) = differ_flush lib ident src (differ_at de ident);
            (images, next_id, df) = differ_flush_images ready ident src (de_next_image_id de) df
        in ((delta, images, True), de\<lparr>de_differs := (de_differs de)(ident \<mapsto> df), de_next_image_id := next_id\<rparr>))"

text \<open>One tick over the terminals, in the order their ids are listed.\<close>

definition engine_flush :: "ckvision \<Rightarrow> (u64 \<Rightarrow> u64 \<Rightarrow> bool) option \<Rightarrow> (u64 \<times> source) list \<Rightarrow> diff_engine
    \<Rightarrow> (grid_delta list \<times> (u64 \<times> message) list) \<times> diff_engine" where
  "engine_flush lib ready terminals de =
     fold (\<lambda>(ident, src) ((deltas, images), de).
       case engine_flush_one lib ready ident src de of
         ((delta, ms, _), de') \<Rightarrow>
           ((deltas @ (case delta of None \<Rightarrow> [] | Some d \<Rightarrow> [d]), images @ map (Pair ident) ms), de'))
       terminals (([], []), de)"

definition engine_snapshot :: "u64 \<Rightarrow> source \<Rightarrow> diff_engine \<Rightarrow> terminal_state \<times> diff_engine" where
  "engine_snapshot ident src de =
     (case differ_snapshot ident src (differ_at de ident) of
       (state, df) \<Rightarrow> (state, de\<lparr>de_differs := (de_differs de)(ident \<mapsto> df)\<rparr>))"

definition engine_fill_history :: "u64 \<Rightarrow> terminal_state \<Rightarrow> source \<Rightarrow> nat \<Rightarrow> diff_engine \<Rightarrow> nat \<times> terminal_state" where
  "engine_fill_history ident state src budget de =
     (case de_differs de ident of None \<Rightarrow> (0, state) | Some _ \<Rightarrow> fill_history state src budget)"

definition engine_attach_images :: "u64 \<Rightarrow> diff_engine \<Rightarrow> message list" where
  "engine_attach_images ident de =
     (case de_differs de ident of None \<Rightarrow> [] | Some df \<Rightarrow> differ_attach_images ident df)"

definition engine_forget :: "u64 \<Rightarrow> diff_engine \<Rightarrow> diff_engine" where
  "engine_forget ident de = de\<lparr>de_differs := (de_differs de)(ident := None)\<rparr>"

definition engine_sequence_for :: "u64 \<Rightarrow> diff_engine \<Rightarrow> u32" where
  "engine_sequence_for ident de = (case de_differs de ident of None \<Rightarrow> 0 | Some df \<Rightarrow> df_sequence df)"

end
