(* ===== verification/Mirror.thy ===== *)
theory Mirror
  imports Differ
begin

text \<open>
  The client's side of mirroring: \<open>TerminalMirror\<close> of \<^verbatim>\<open>src/src/client/mirror.cpp\<close>. A mirror is
  filled by a snapshot, kept current by deltas that have to follow one another, and knows when it
  is out of date.

  Scene identifiers for pictures are minted by ckVision (\<open>allocate_local_raster_slot\<close>), so that
  function is an argument of \<open>place_image\<close>.
\<close>

section \<open>The state of a mirror\<close>

record mirror_raster =
  mr_wire_id :: u64
  mr_id :: int
  mr_image :: image
  mr_anchor :: "int \<times> int"
  mr_extent :: extent

record mirror =
  mi_state :: grid_state
  mi_rasters :: "mirror_raster list"
  mi_raster_identity :: int
  mi_diagnostics :: "(complaint_kind \<times> bytes) list"
  mi_damage :: damage
  mi_sequence :: u32
  mi_gaps :: u64
  mi_clipboard_serial :: u64
  mi_clipboard_text :: bytes
  mi_printer_bytes :: nat
  mi_printer_jobs :: nat
  mi_printer_active :: bool
  mi_printer_state :: printer_state
  mi_printer_mode :: printer_mode
  mi_printer_scope :: printer_scope
  mi_print_jobs :: "print_job_info list"
  mi_fetching :: "u64 \<rightharpoonup> bytes"
  mi_fetched :: "u64 \<rightharpoonup> bytes"
  mi_needs_snapshot :: bool
  mi_exited :: bool
  mi_hold :: bool
  mi_custom_title :: bytes
  mi_bell_marked :: bool
  mi_activity_marked :: bool
  mi_bell_serial :: u32
  mi_activity_serial :: u32
  mi_exit_status :: "int option"

definition no_damage :: damage where
  "no_damage = \<lparr>dm_rows = [], dm_full = False, dm_cursor = False, dm_modes = False, dm_title = False,
     dm_rasters = False, dm_pushed = 0\<rparr>"

definition mirror_new :: mirror where
  "mirror_new = \<lparr>mi_state = no_state, mi_rasters = [], mi_raster_identity = 0, mi_diagnostics = [],
     mi_damage = no_damage, mi_sequence = 0, mi_gaps = 0, mi_clipboard_serial = 0, mi_clipboard_text = [],
     mi_printer_bytes = 0, mi_printer_jobs = 0, mi_printer_active = False, mi_printer_state = Printer_Idle,
     mi_printer_mode = Mode_Ask, mi_printer_scope = Scope_Global, mi_print_jobs = [], mi_fetching = Map.empty,
     mi_fetched = Map.empty, mi_needs_snapshot = False, mi_exited = False, mi_hold = False, mi_custom_title = [],
     mi_bell_marked = False, mi_activity_marked = False, mi_bell_serial = 0, mi_activity_serial = 0,
     mi_exit_status = None\<rparr>"

section \<open>Damage\<close>

definition everything :: "extent \<Rightarrow> damage" where
  "everything e = \<lparr>dm_rows = replicate (nat (max 0 (height e))) \<lparr>dmg_first = 0, dmg_last = max 0 (width e)\<rparr>,
     dm_full = True, dm_cursor = True, dm_modes = True, dm_title = True, dm_rasters = True, dm_pushed = 0\<rparr>"

text \<open>\<open>std::vector::resize\<close>, which adds empty spans or drops rows.\<close>

definition fit_rows :: "nat \<Rightarrow> row_damage list \<Rightarrow> row_damage list" where
  "fit_rows n rows = (if length rows \<noteq> n then take n rows @ replicate (n - length rows) \<lparr>dmg_first = 0, dmg_last = 0\<rparr>
     else rows)"

definition note_row :: "int \<Rightarrow> int \<Rightarrow> int \<Rightarrow> mirror \<Rightarrow> mirror" where
  "note_row row first_column last_column m =
     (let e = gs_cells (mi_state m)
      in if row < 0 \<or> row \<ge> height e then m
         else
           let rows = fit_rows (nat (max 0 (height e))) (dm_rows (mi_damage m));
               span = rows ! nat row;
               f = max 0 (min first_column (width e));
               l = max 0 (min last_column (width e));
               span' = (if damage_empty span then \<lparr>dmg_first = f, dmg_last = l\<rparr>
                        else \<lparr>dmg_first = min (dmg_first span) f, dmg_last = max (dmg_last span) l\<rparr>)
           in m\<lparr>mi_damage := (mi_damage m)\<lparr>dm_rows := rows[nat row := span']\<rparr>\<rparr>)"

definition note_every_row :: "mirror \<Rightarrow> mirror" where
  "note_every_row m =
     fold (\<lambda>row. note_row (int row) 0 (width (gs_cells (mi_state m)))) [0..<nat (height (gs_cells (mi_state m)))] m"

definition mirror_clear_damage :: "mirror \<Rightarrow> mirror" where
  "mirror_clear_damage m =
     m\<lparr>mi_damage := no_damage\<lparr>dm_rows :=
        replicate (nat (max 0 (height (gs_cells (mi_state m))))) \<lparr>dmg_first = 0, dmg_last = 0\<rparr>\<rparr>\<rparr>"

section \<open>Snapshots\<close>

primrec kind_of :: "diagnostic_kind \<Rightarrow> complaint_kind" where
  "kind_of Limit_Exceeded = Over_Limit"
| "kind_of Unsupported_Sequence = Unsupported"
| "kind_of Malformed_Sequence = Malformed_Input"
| "kind_of Child_Exited = Child_Gone"

definition meta_bell :: u8 where
  "meta_bell = 1"

definition meta_activity :: u8 where
  "meta_activity = 2"

definition adopt_line :: "ckvision \<Rightarrow> cell_run list \<Rightarrow> grid_state \<Rightarrow> grid_state" where
  "adopt_line lib line s =
     (if total_length line = 0 \<or> total_length line > nat (max 0 (width (gs_cells s))) then s
      else push_scrollback_line lib (from_runs line) s)"

definition adopt :: "ckvision \<Rightarrow> terminal_state \<Rightarrow> mirror \<Rightarrow> bool \<times> mirror" where
  "adopt lib state m =
     (if ts_columns state > max_grid_columns \<or> ts_rows state > max_grid_rows
      then (False, m\<lparr>mi_needs_snapshot := True\<rparr>)
      else
        let limit = gs_max_lines (mi_state m);
            e = \<lparr>width = uint (ts_columns state), height = uint (ts_rows state)\<rparr>;
            s = blank_state lib e limit;
            s = snd (decode_grid (ts_grid state) e s);
            s = fold (adopt_line lib) (ts_scrollback state) s;
            s = s\<lparr>gs_cursor := \<lparr>gc_column = cursor_column (ts_cursor state), gc_row = cursor_row (ts_cursor state),
                    gc_style = cursor_style (ts_cursor state), gc_visible = cursor_visible (ts_cursor state),
                    gc_blink = cursor_blink (ts_cursor state)\<rparr>,
                  gs_modes := ts_modes state, gs_title := ts_title state\<rparr>;
            m = m\<lparr>mi_state := s,
                  mi_custom_title := ts_custom_title state,
                  mi_bell_marked := (ts_flags state AND meta_bell \<noteq> 0),
                  mi_activity_marked := (ts_flags state AND meta_activity \<noteq> 0),
                  mi_bell_serial := ts_bell_serial state,
                  mi_activity_serial := ts_activity_serial state,
                  mi_printer_active := (ts_printer_state state = Printer_Capturing),
                  mi_printer_state := ts_printer_state state,
                  mi_printer_mode := ts_printer_mode state,
                  mi_printer_scope := ts_printer_scope state,
                  mi_printer_bytes := unat (ts_printer_bytes state),
                  mi_printer_jobs := length (ts_print_jobs state),
                  mi_print_jobs := ts_print_jobs state,
                  mi_fetching := Map.empty,
                  mi_fetched := Map.empty,
                  mi_clipboard_serial := max (mi_clipboard_serial m) (ts_clipboard_serial state),
                  mi_clipboard_text := [],
                  mi_diagnostics := (if ts_diagnostic state = [] then []
                    else [(kind_of (ts_diagnostic_kind state), ts_diagnostic state)])\<rparr>;
            m = (if ts_exited state \<noteq> 0
                 then m\<lparr>mi_exited := True, mi_hold := (ts_hold state \<noteq> 0), mi_exit_status := Some (sint (ts_exit_status state))\<rparr>
                 else m)
        in (True, m\<lparr>mi_damage := (everything e)\<lparr>dm_rasters := True\<rparr>,
                    mi_rasters := filter (\<lambda>r. mr_wire_id r \<in> set (ts_images state)) (mi_rasters m),
                    mi_sequence := 0, mi_needs_snapshot := False\<rparr>))"

section \<open>Deltas\<close>

text \<open>What a view has to repaint, read off one operation of an applied delta.\<close>

fun note_op :: "grid_op \<Rightarrow> mirror \<Rightarrow> mirror" where
  "note_op (ResizeOp columns rows) m =
     m\<lparr>mi_damage := (mi_damage m)\<lparr>dm_full := True, dm_cursor := True, dm_modes := True, dm_title := True,
         dm_rasters := True,
         dm_rows := replicate (nat (max 0 (height (gs_cells (mi_state m)))))
           \<lparr>dmg_first = 0, dmg_last = max 0 (width (gs_cells (mi_state m)))\<rparr>\<rparr>\<rparr>"
| "note_op (CellsOp row column runs) m =
     note_row (uint row) (uint column) (uint column + int (total_length runs)) m"
| "note_op (ScrollOp upper lower lns) m =
     fold (\<lambda>row. note_row (int row) 0 (width (gs_cells (mi_state m)))) [unat upper..<unat lower] m"
| "note_op (ScrollbackPushOp lns) m =
     m\<lparr>mi_damage := (mi_damage m)\<lparr>dm_pushed := dm_pushed (mi_damage m) + length lns\<rparr>\<rparr>"
| "note_op (CursorOp c) m = m\<lparr>mi_damage := (mi_damage m)\<lparr>dm_cursor := True\<rparr>\<rparr>"
| "note_op (ModesOp changed_mask values) m = m\<lparr>mi_damage := (mi_damage m)\<lparr>dm_modes := True\<rparr>\<rparr>"
| "note_op (TitleOp title) m = m\<lparr>mi_damage := (mi_damage m)\<lparr>dm_title := True\<rparr>\<rparr>"

definition mirror_apply :: "ckvision \<Rightarrow> grid_delta \<Rightarrow> mirror \<Rightarrow> bool \<times> mirror" where
  "mirror_apply lib delta m =
     (if gd_seq delta \<noteq> mi_sequence m + 1
      then (False, m\<lparr>mi_gaps := mi_gaps m + 1, mi_needs_snapshot := True\<rparr>)
      else case apply_delta lib (gd_ops delta) (mi_state m) of
             (False, s) \<Rightarrow> (False, m\<lparr>mi_state := s, mi_needs_snapshot := True\<rparr>)
           | (True, s) \<Rightarrow> (True, fold note_op (gd_ops delta) (m\<lparr>mi_state := s, mi_sequence := gd_seq delta\<rparr>)))"

definition mirror_open :: "ckvision \<Rightarrow> extent \<Rightarrow> mirror \<Rightarrow> mirror" where
  "mirror_open lib e m =
     m\<lparr>mi_state := blank_state lib e (gs_max_lines (mi_state m)), mi_damage := everything e, mi_sequence := 0,
       mi_needs_snapshot := False, mi_exited := False, mi_hold := False, mi_exit_status := None,
       mi_bell_marked := False, mi_activity_marked := False, mi_printer_active := False, mi_printer_bytes := 0,
       mi_printer_jobs := 0, mi_diagnostics := []\<rparr>"

section \<open>The other messages\<close>

definition apply_term_meta :: "term_meta \<Rightarrow> mirror \<Rightarrow> mirror" where
  "apply_term_meta meta m =
     (let m = (if tm_title meta \<noteq> gs_title (mi_state m)
               then m\<lparr>mi_state := (mi_state m)\<lparr>gs_title := tm_title meta\<rparr>,
                      mi_damage := (mi_damage m)\<lparr>dm_title := True\<rparr>\<rparr>
               else m)
      in m\<lparr>mi_custom_title := tm_custom_title meta,
           mi_bell_marked := (tm_flags meta AND meta_bell \<noteq> 0),
           mi_activity_marked := (tm_flags meta AND meta_activity \<noteq> 0),
           mi_bell_serial := tm_bell_serial meta,
           mi_activity_serial := tm_activity_serial meta\<rparr>)"

text \<open>The first held job of that number is restated where it stands.\<close>

fun restate_job :: "print_job_info \<Rightarrow> print_job_info list \<Rightarrow> print_job_info list option" where
  "restate_job j [] = None"
| "restate_job j (held # jobs) =
     (if job_id held \<noteq> job_id j then map_option (Cons held) (restate_job j jobs) else Some (j # jobs))"

definition apply_print_job_added :: "print_job_added \<Rightarrow> mirror \<Rightarrow> mirror" where
  "apply_print_job_added added m =
     (let jobs = (case restate_job (pja_job added) (mi_print_jobs m) of
                    Some jobs \<Rightarrow> jobs | None \<Rightarrow> mi_print_jobs m @ [pja_job added])
      in m\<lparr>mi_print_jobs := jobs, mi_printer_jobs := length jobs\<rparr>)"

definition apply_print_job_data :: "print_job_data \<Rightarrow> mirror \<Rightarrow> bool \<times> mirror" where
  "apply_print_job_data chunk m =
     (let assembling = (case mi_fetching m (pjd_job chunk) of None \<Rightarrow> [] | Some bs \<Rightarrow> bs) @ pjd_bytes chunk
      in if pjd_final_chunk chunk = 0
         then (False, m\<lparr>mi_fetching := (mi_fetching m)(pjd_job chunk \<mapsto> assembling)\<rparr>)
         else (True, m\<lparr>mi_fetched := (mi_fetched m)(pjd_job chunk \<mapsto> assembling),
                       mi_fetching := (mi_fetching m)(pjd_job chunk := None)\<rparr>))"

definition print_job_text :: "u64 \<Rightarrow> mirror \<Rightarrow> bytes option" where
  "print_job_text job m = mi_fetched m job"

definition forget_print_jobs :: "u64 \<Rightarrow> mirror \<Rightarrow> mirror" where
  "forget_print_jobs job m =
     (let m = (if job = 0 then m\<lparr>mi_print_jobs := [], mi_fetching := Map.empty, mi_fetched := Map.empty\<rparr>
               else m\<lparr>mi_print_jobs := filter (\<lambda>held. job_id held \<noteq> job) (mi_print_jobs m),
                      mi_fetching := (mi_fetching m)(job := None), mi_fetched := (mi_fetched m)(job := None)\<rparr>)
      in m\<lparr>mi_printer_jobs := length (mi_print_jobs m)\<rparr>)"

definition apply_clipboard_set :: "clipboard_set \<Rightarrow> mirror \<Rightarrow> mirror" where
  "apply_clipboard_set clipboard m =
     m\<lparr>mi_clipboard_text := cs_text clipboard, mi_clipboard_serial := mi_clipboard_serial m + 1\<rparr>"

definition apply_print_state :: "print_state_msg \<Rightarrow> mirror \<Rightarrow> mirror" where
  "apply_print_state printing m =
     m\<lparr>mi_printer_active := (ps_state printing = Printer_Capturing), mi_printer_state := ps_state printing,
       mi_printer_mode := ps_mode printing, mi_printer_bytes := unat (ps_bytes printing),
       mi_printer_jobs := unat (ps_jobs printing)\<rparr>"

definition apply_term_diagnostic :: "term_diagnostic \<Rightarrow> mirror \<Rightarrow> mirror" where
  "apply_term_diagnostic said m = m\<lparr>mi_diagnostics := [(kind_of (td_kind said), td_text said)]\<rparr>"

definition apply_term_closed :: "term_closed \<Rightarrow> mirror \<Rightarrow> mirror" where
  "apply_term_closed closed m =
     note_every_row
       (m\<lparr>mi_exited := (tc_exited closed \<noteq> 0), mi_hold := (tc_hold closed \<noteq> 0),
          mi_exit_status := (if tc_exited closed \<noteq> 0 then Some (sint (tc_exit_status closed)) else None)\<rparr>)"

definition set_history_limit :: "nat \<Rightarrow> mirror \<Rightarrow> mirror" where
  "set_history_limit n m = m\<lparr>mi_state := enforce_scrollback_capacity ((mi_state m)\<lparr>gs_max_lines := n\<rparr>)\<rparr>"

definition mirror_history :: "mirror \<Rightarrow> cell list" where
  "mirror_history m = scrollback_cells (mi_state m)"

section \<open>Pictures\<close>

text \<open>The first entry under a wire id, if there is one.\<close>

fun update_raster :: "u64 \<Rightarrow> (mirror_raster \<Rightarrow> mirror_raster) \<Rightarrow> mirror_raster list \<Rightarrow> mirror_raster list option" where
  "update_raster wire_id f [] = None"
| "update_raster wire_id f (r # rs) =
     (if mr_wire_id r \<noteq> wire_id then map_option (Cons r) (update_raster wire_id f rs) else Some (f r # rs))"

fun drop_raster :: "u64 \<Rightarrow> mirror_raster list \<Rightarrow> mirror_raster list option" where
  "drop_raster wire_id [] = None"
| "drop_raster wire_id (r # rs) =
     (if mr_wire_id r \<noteq> wire_id then map_option (Cons r) (drop_raster wire_id rs) else Some rs)"

definition place_image :: "(mirror_raster list \<Rightarrow> int \<Rightarrow> int) \<Rightarrow> u64 \<Rightarrow> image option \<Rightarrow> int \<times> int \<Rightarrow> extent \<Rightarrow> mirror \<Rightarrow> mirror" where
  "place_image slot wire_id img anchor e m =
     (case update_raster wire_id (\<lambda>r. r\<lparr>mr_anchor := anchor, mr_extent := e,
             mr_image := (case img of None \<Rightarrow> mr_image r | Some i \<Rightarrow> i)\<rparr>) (mi_rasters m) of
       Some rs \<Rightarrow> m\<lparr>mi_rasters := rs, mi_damage := (mi_damage m)\<lparr>dm_rasters := True\<rparr>\<rparr>
     | None \<Rightarrow>
         (case img of
           None \<Rightarrow> m
         | Some i \<Rightarrow>
             let scene = (if mi_raster_identity m = 0 then 0
                          else mi_raster_identity m + slot (mi_rasters m) (mi_raster_identity m))
             in m\<lparr>mi_rasters := mi_rasters m @ [\<lparr>mr_wire_id = wire_id, mr_id = scene, mr_image = i, mr_anchor = anchor, mr_extent = e\<rparr>],
                  mi_damage := (mi_damage m)\<lparr>dm_rasters := True\<rparr>\<rparr>))"

definition remove_image :: "u64 \<Rightarrow> mirror \<Rightarrow> mirror" where
  "remove_image wire_id m =
     (case drop_raster wire_id (mi_rasters m) of
       None \<Rightarrow> m
     | Some rs \<Rightarrow> m\<lparr>mi_rasters := rs, mi_damage := (mi_damage m)\<lparr>dm_rasters := True\<rparr>\<rparr>)"

definition set_raster_identity :: "int \<Rightarrow> mirror \<Rightarrow> mirror" where
  "set_raster_identity identity m =
     (let old = mi_raster_identity m
      in m\<lparr>mi_raster_identity := identity,
           mi_rasters := map (\<lambda>r.
             let slot = (if old = 0 then 0 else mr_id r - old)
             in r\<lparr>mr_id := (if identity = 0 then 0 else identity + slot)\<rparr>) (mi_rasters m)\<rparr>)"

end
