(* ===== verification/Sync.thy ===== *)
theory Sync
  imports Mirror
begin

text \<open>
  The differ of \<^verbatim>\<open>diff_engine.cpp\<close> and the mirror of \<^verbatim>\<open>mirror.cpp\<close> against each other: one
  terminal, one client, deltas that may be lost on the way and snapshots that heal.
\<close>

section \<open>What a mirror shows depends on what it showed\<close>

lemma push_lines_keep [simp]:
  "gs_cells (fold (\<lambda>line. push_scrollback_line lib (f line)) lns s) = gs_cells s"
  "gs_grid (fold (\<lambda>line. push_scrollback_line lib (f line)) lns s) = gs_grid s"
  "gs_cursor (fold (\<lambda>line. push_scrollback_line lib (f line)) lns s) = gs_cursor s"
  "gs_modes (fold (\<lambda>line. push_scrollback_line lib (f line)) lns s) = gs_modes s"
  "gs_title (fold (\<lambda>line. push_scrollback_line lib (f line)) lns s) = gs_title s"
  "gs_max_lines (fold (\<lambda>line. push_scrollback_line lib (f line)) lns s) = gs_max_lines s"
  by (induction lns arbitrary: s) simp_all

lemma view_of_cong:
  "view_of s = view_of t \<longleftrightarrow> gs_cells s = gs_cells t \<and> gs_grid s = gs_grid t \<and> gs_cursor s = gs_cursor t \<and>
     gs_modes s = gs_modes t \<and> gs_title s = gs_title t"
  by (auto simp: view_of_def)

lemma perform_view_cong:
  assumes "view_of s = view_of t"
  shows "view_of (perform_op lib op s) = view_of (perform_op lib op t)"
proof -
  have eq: "gs_cells s = gs_cells t" "gs_grid s = gs_grid t" "gs_cursor s = gs_cursor t"
    "gs_modes s = gs_modes t" "gs_title s = gs_title t"
    using assms by (auto simp: view_of_cong)
  show ?thesis
  proof (cases op)
    case (ScrollbackPushOp lns)
    then show ?thesis unfolding view_of_cong by (simp add: eq)
  qed (simp_all add: view_of_cong eq resize_grid resize_cursor)
qed

lemma perform_ops_view_cong:
  "view_of s = view_of t \<Longrightarrow> view_of (fold (perform_op lib) ops s) = view_of (fold (perform_op lib) ops t)"
proof (induction ops arbitrary: s t)
  case (Cons op ops)
  show ?case using Cons.IH [OF perform_view_cong [OF Cons.prems]] by simp
qed simp

lemma takes_view_cong:
  assumes "takes lib ops s s'" and "view_of s = view_of t"
  shows "\<exists>t'. takes lib ops t t' \<and> view_of t' = view_of s'"
proof -
  have "gs_cells s = gs_cells t" using assms(2) by (simp add: view_of_cong)
  with assms(1) perform_ops_view_cong [OF assms(2), of lib ops] show ?thesis
    unfolding takes_def by (intro exI [of _ "fold (perform_op lib) ops t"]) simp
qed

lemma takes_wf: "takes lib ops s t \<Longrightarrow> wf_state s \<Longrightarrow> wf_state t"
  using perform_ops_wf by (auto simp: takes_def)

lemma takes_unique: "takes lib ops s t \<Longrightarrow> takes lib ops s u \<Longrightarrow> t = u"
  by (simp add: takes_def)

lemma apply_takes: "apply_delta lib ops s = (True, t) \<longleftrightarrow> takes lib ops s t \<and> length (gs_grid s) = area (gs_cells s)"
  by (auto simp: apply_delta_def takes_def)

section \<open>The sender's side of a tick\<close>

lemma view_of_state_of [simp]: "view_of (state_of v) = v"
  by (simp add: view_of_def state_of_def)

lemma wf_state_of: "wf_view v \<Longrightarrow> wf_state (state_of v)"
  by (simp add: wf_view_def wf_state_def wf_history_def state_of_def scrollback_lines_eq)

lemma flat_row_length: "i < length past div w \<Longrightarrow> length (take w (drop (i * w) past)) = w"
proof -
  assume "i < length past div w"
  then have "Suc i * w \<le> length past" by (metis Suc_leI div_times_less_eq_dividend le_trans mult_le_mono1)
  then show ?thesis by simp
qed

lemma newest_history_lines_length:
  "1 \<le> w \<Longrightarrow> line \<in> set (newest_history_lines src w n) \<Longrightarrow> length line = nat w"
  using flat_row_length [of _ "src_scrollback src" "nat w"]
  by (auto simp: newest_history_lines_def Let_def max_def split: if_splits)

lemma newest_history_pushable: "1 \<le> width e \<Longrightarrow> pushable e (newest_history_lines src (width e) n)"
  using newest_history_lines_length [of "width e" _ src n] by (force simp: pushable_def list_all_iff)

text \<open>The lines a tick says, and the two ways it says the screen.\<close>

definition flooded :: "source \<Rightarrow> bool" where
  "flooded src \<longleftrightarrow> dm_pushed (src_damage src) > max_history_lines_per_delta"

definition tick_lines :: "source \<Rightarrow> cell list list" where
  "tick_lines src = (if flooded src then []
     else newest_history_lines src (width (st_cells (src_status src))) (dm_pushed (src_damage src)))"

definition tick_hints :: "source \<Rightarrow> row_damage list" where
  "tick_hints src = (if dm_full (src_damage src) then []
     else row_hints (src_damage src) (height (st_cells (src_status src))))"

definition tick_ops :: "ckvision \<Rightarrow> source \<Rightarrow> grid_state \<Rightarrow> grid_op list \<times> grid_state" where
  "tick_ops lib src believed =
     (let view = source_view src; repaint = (full_repaint view (tick_lines src), state_of view)
      in if gs_cells believed \<noteq> gv_cells view then repaint
         else case apply_delta lib (diff lib believed view (tick_lines src) (tick_hints src)) believed of
                (True, believed') \<Rightarrow> (diff lib believed view (tick_lines src) (tick_hints src), believed')
              | (False, _) \<Rightarrow> repaint)"

lemma source_view_simps [simp]:
  "gv_cells (source_view src) = st_cells (src_status src)" "gv_grid (source_view src) = src_cells src"
  by (simp_all add: source_view_def)

lemma differ_flush_eq:
  "differ_flush lib ident src df =
     (if \<not> src_damaged src then (None, df)
      else if \<not> flooded src \<and> df_diverged df then (None, df\<lparr>df_needs_snapshot := True\<rparr>)
      else
        let (ops, believed) = tick_ops lib src (df_believed df);
            df = df\<lparr>df_diverged := df_diverged df \<or> flooded src, df_believed := believed\<rparr>
        in if ops = [] then (None, df)
           else (Some \<lparr>gd_term = ident, gd_seq = df_sequence df + 1, gd_ops = ops\<rparr>,
                 df\<lparr>df_sequence := df_sequence df + 1\<rparr>))"
proof (cases "src_damaged src")
  case True
  then show ?thesis
    by (cases "flooded src"; cases "df_diverged df";
        cases "gs_cells (df_believed df) = st_cells (src_status src)")
      (simp_all add: differ_flush_def Let_def flooded_def tick_lines_def tick_hints_def tick_ops_def split: prod.split bool.split)
qed (simp add: differ_flush_def)

lemma tick_pushable: "1 \<le> width (st_cells (src_status src)) \<Longrightarrow> pushable (st_cells (src_status src)) (tick_lines src)"
  by (simp add: tick_lines_def newest_history_pushable) (simp add: pushable_def)

text \<open>Whatever is said, a mirror that shows what the sender believed shows what it believes next.\<close>

lemma tick_ops_advance:
  assumes "tick_ops lib src believed = (ops, believed')" and v: "wf_view (source_view src)" and wf: "wf_state believed"
  shows "wf_state believed'"
    and "wf_state m \<Longrightarrow> gs_cells believed \<noteq> st_cells (src_status src) \<or> view_of m = view_of believed \<Longrightarrow>
      \<exists>m'. takes lib ops m m' \<and> view_of m' = view_of believed'"
    and "ops = [] \<Longrightarrow> believed' = believed"
proof -
  let ?v = "source_view src" and ?push = "tick_lines src"
  let ?d = "diff lib believed ?v ?push (tick_hints src)"
  have push: "pushable (gv_cells ?v) ?push" using v by (simp add: tick_pushable wf_view_def)
  consider (diff) b where "gs_cells believed = gv_cells ?v" "apply_delta lib ?d believed = (True, b)" "ops = ?d" "believed' = b"
    | (repaint) "ops = full_repaint ?v ?push" "believed' = state_of ?v"
    using assms(1) by (auto simp: tick_ops_def Let_def split: if_splits prod.splits bool.splits)
  then have "wf_state believed' \<and> (ops = [] \<longrightarrow> believed' = believed) \<and>
    (wf_state m \<longrightarrow> gs_cells believed \<noteq> gv_cells ?v \<or> view_of m = view_of believed \<longrightarrow>
      (\<exists>m'. takes lib ops m m' \<and> view_of m' = view_of believed'))" for m
  proof cases
    case diff
    then have t: "takes lib ops believed believed'" by (simp add: apply_takes)
    then have "wf_state believed'" using takes_wf wf by blast
    moreover have "ops = [] \<longrightarrow> believed' = believed" using t by (auto simp: takes_def)
    ultimately show ?thesis using diff(1) takes_view_cong [OF t, of m] by metis
  next
    case repaint
    have "wf_state m \<Longrightarrow> \<exists>m'. takes lib ops m m' \<and> view_of m' = view_of believed'"
      using full_repaint_takes [OF v _ push, of m lib] repaint by (auto simp: shows_view_def)
    moreover have "ops \<noteq> []" using repaint by (simp add: full_repaint_def)
    ultimately show ?thesis using repaint wf_state_of [OF v] by simp
  qed
  then show "wf_state believed'" "ops = [] \<Longrightarrow> believed' = believed"
    and "wf_state m \<Longrightarrow> gs_cells believed \<noteq> st_cells (src_status src) \<or> view_of m = view_of believed \<Longrightarrow>
      \<exists>m'. takes lib ops m m' \<and> view_of m' = view_of believed'" by auto
qed

text \<open>With an honest damage report what is believed afterwards is what the terminal shows.\<close>

lemma tick_ops_exact:
  assumes "tick_ops lib src believed = (ops, believed')" and v: "wf_view (source_view src)" and wf: "wf_state believed"
    and honest: "honest_damage believed (source_view src) (tick_hints src)"
    and m: "wf_state m" "gs_cells believed \<noteq> st_cells (src_status src) \<or> view_of m = view_of believed"
  shows "view_of believed' = source_view src \<and>
    (\<exists>m'. takes lib ops m m' \<and> shows_view lib m (source_view src) (tick_lines src) m')"
proof -
  let ?v = "source_view src" and ?push = "tick_lines src"
  let ?d = "diff lib believed ?v ?push (tick_hints src)"
  have push: "pushable (gv_cells ?v) ?push" using v by (simp add: tick_pushable wf_view_def)
  show ?thesis
  proof (cases "gs_cells believed = gv_cells ?v")
    case True
    then have hold: "holds m believed" using m by (simp add: holds_def)
    obtain b where b: "takes lib ?d believed b" "shows_view lib believed ?v ?push b"
      using diff_takes [OF v wf push _ honest, of lib] by (auto simp: holds_def)
    then have "apply_delta lib ?d believed = (True, b)" using wf by (simp add: apply_takes wf_state_def)
    then have "ops = ?d" "believed' = b"
      using assms(1) True by (auto simp: tick_ops_def Let_def)
    with b diff_takes [OF v m(1) push hold honest, of lib] show ?thesis by (simp add: shows_view_def)
  next
    case False
    then have "ops = full_repaint ?v ?push" "believed' = state_of ?v"
      using assms(1) by (auto simp: tick_ops_def Let_def)
    with full_repaint_takes [OF v m(1) push, of lib] show ?thesis by simp
  qed
qed

section \<open>The differ and the mirror\<close>

text \<open>A differ that has said nothing yet believes in a screen of no size.\<close>

definition blank_belief :: "differ \<Rightarrow> bool" where
  "blank_belief df \<longleftrightarrow> width (gs_cells (df_believed df)) = 0"

text \<open>The mirror shows what the differ believes it shows.\<close>

definition agree :: "differ \<Rightarrow> mirror \<Rightarrow> bool" where
  "agree df m \<longleftrightarrow> blank_belief df \<or> view_of (mi_state m) = view_of (df_believed df)"

lemma flush_None:
  assumes "differ_flush lib ident src df = (None, df')" and "wf_view (source_view src)" and "wf_state (df_believed df)"
  shows "df_believed df' = df_believed df" and "df_sequence df' = df_sequence df"
    and "df_needs_snapshot df \<Longrightarrow> df_needs_snapshot df'"
    and "\<not> df_needs_snapshot df' \<Longrightarrow> src_damaged src \<Longrightarrow> fst (tick_ops lib src (df_believed df)) = []"
  using assms tick_ops_advance(3) [OF _ assms(2,3), of lib "[]"]
  by (auto simp: differ_flush_eq Let_def split: if_splits prod.splits)

lemma flush_Some:
  assumes "differ_flush lib ident src df = (Some d, df')"
  obtains ops believed' where "tick_ops lib src (df_believed df) = (ops, believed')" "ops \<noteq> []" "src_damaged src"
    "d = \<lparr>gd_term = ident, gd_seq = df_sequence df + 1, gd_ops = ops\<rparr>"
    "df_believed df' = believed'" "df_sequence df' = df_sequence df + 1" "df_needs_snapshot df' = df_needs_snapshot df"
  using assms by (auto simp: differ_flush_eq Let_def split: if_splits prod.splits)

lemma note_row_state [simp]:
  "mi_state (note_row r a b m) = mi_state m" "mi_sequence (note_row r a b m) = mi_sequence m"
  "mi_needs_snapshot (note_row r a b m) = mi_needs_snapshot m"
  by (simp_all add: note_row_def Let_def)

lemma fold_note_row_state [simp]:
  "mi_state (fold (\<lambda>r. note_row (f r) a b) rs m) = mi_state m"
  "mi_sequence (fold (\<lambda>r. note_row (f r) a b) rs m) = mi_sequence m"
  "mi_needs_snapshot (fold (\<lambda>r. note_row (f r) a b) rs m) = mi_needs_snapshot m"
  by (induction rs arbitrary: m) simp_all

lemma note_op_state [simp]:
  "mi_state (note_op op m) = mi_state m" "mi_sequence (note_op op m) = mi_sequence m"
  "mi_needs_snapshot (note_op op m) = mi_needs_snapshot m"
  by (cases op; simp)+

lemma fold_note_op_state [simp]:
  "mi_state (fold note_op ops m) = mi_state m" "mi_sequence (fold note_op ops m) = mi_sequence m"
  "mi_needs_snapshot (fold note_op ops m) = mi_needs_snapshot m"
  by (induction ops arbitrary: m) simp_all

lemma mirror_apply_gap:
  "gd_seq d \<noteq> mi_sequence m + 1 \<Longrightarrow>
     mirror_apply lib d m = (False, m\<lparr>mi_gaps := mi_gaps m + 1, mi_needs_snapshot := True\<rparr>)"
  by (simp add: mirror_apply_def)

lemma mirror_apply_takes:
  assumes "gd_seq d = mi_sequence m + 1" and "takes lib (gd_ops d) (mi_state m) s" and "wf_state (mi_state m)"
  shows "mirror_apply lib d m
     = (True, fold note_op (gd_ops d) (m\<lparr>mi_state := s, mi_sequence := mi_sequence m + 1\<rparr>))"
  using takes_apply [OF assms(2)] assms by (simp add: mirror_apply_def wf_state_def)

text \<open>A delta that follows on is accepted, and keeps the mirror and the belief together.\<close>

lemma flush_followed:
  assumes flush: "differ_flush lib ident src df = (Some d, df')" and v: "wf_view (source_view src)"
    and wf: "wf_state (df_believed df)" "wf_state (mi_state m)" and agree: "agree df m" and seq: "mi_sequence m = df_sequence df"
  shows "\<exists>m'. mirror_apply lib d m = (True, m') \<and> wf_state (mi_state m') \<and> agree df' m' \<and>
     mi_sequence m' = df_sequence df' \<and> mi_needs_snapshot m' = mi_needs_snapshot m"
proof -
  from flush obtain ops believed' where t: "tick_ops lib src (df_believed df) = (ops, believed')"
    and d: "d = \<lparr>gd_term = ident, gd_seq = df_sequence df + 1, gd_ops = ops\<rparr>"
    and df': "df_believed df' = believed'" "df_sequence df' = df_sequence df + 1"
    by (rule flush_Some) blast
  have "gs_cells (df_believed df) \<noteq> st_cells (src_status src) \<or> view_of (mi_state m) = view_of (df_believed df)"
    using agree v by (auto simp: agree_def blank_belief_def wf_view_def)
  from tick_ops_advance(2) [OF t v wf(1) wf(2) this]
  obtain s where s: "takes lib ops (mi_state m) s" "view_of s = view_of believed'" by blast
  with mirror_apply_takes [of d m lib s] takes_wf [OF s(1) wf(2)] wf(2) d df' seq show ?thesis by (simp add: agree_def)
qed

section \<open>The history of a snapshot\<close>

lemma fill_lines_suffix:
  assumes "fill_lines budget w past index spent acc = (spent', acc')"
  shows "\<exists>k \<le> index. acc' = acc @ map (\<lambda>i. to_runs (take w (drop (i * w) past))) (rev [k..<index]) \<and>
     spent' = spent + (\<Sum>i\<leftarrow>[k..<index]. runs_size (to_runs (take w (drop (i * w) past)))) \<and>
     (spent \<le> budget \<longrightarrow> spent' \<le> budget)"
  using assms
proof (induction index arbitrary: spent acc)
  case (Suc index)
  let ?runs = "to_runs (take w (drop (index * w) past))"
  show ?case
  proof (cases "spent + runs_size ?runs > budget")
    case True
    with Suc.prems show ?thesis by (intro exI [of _ "Suc index"]) (simp add: Let_def)
  next
    case False
    with Suc.prems have "fill_lines budget w past index (spent + runs_size ?runs) (acc @ [?runs]) = (spent', acc')"
      by (simp add: Let_def)
    from Suc.IH [OF this] False obtain k where "k \<le> index"
      "acc' = acc @ [?runs] @ map (\<lambda>i. to_runs (take w (drop (i * w) past))) (rev [k..<index])"
      "spent' = spent + runs_size ?runs + (\<Sum>i\<leftarrow>[k..<index]. runs_size (to_runs (take w (drop (i * w) past))))"
      "spent' \<le> budget" by auto
    then show ?thesis by (intro exI [of _ k]) simp
  qed
qed simp

lemma drop_rows_of: "drop k (rows_of w past) = map (\<lambda>i. take w (drop (i * w) past)) [k..<length past div w]"
  by (simp add: rows_of_def drop_map)

lemma fill_history_newest:
  assumes "fill_history state src budget = (spent, state')"
  defines "w \<equiv> nat (max 1 (uint (ts_columns state)))"
  shows "\<exists>n \<le> length (rows_of w (src_scrollback src)).
     state' = state\<lparr>ts_scrollback := map to_runs (take_last n (rows_of w (src_scrollback src)))\<rparr> \<and>
     spent = sum_list (map runs_size (ts_scrollback state')) \<and> spent \<le> budget"
proof -
  let ?past = "src_scrollback src" and ?lines = "length (src_scrollback src) div w"
  obtain acc where acc: "fill_lines budget w ?past ?lines 0 [] = (spent, acc)" "state' = state\<lparr>ts_scrollback := rev acc\<rparr>"
    using assms(1) by (auto simp: fill_history_def Let_def w_def split: prod.splits)
  from fill_lines_suffix [OF acc(1)] obtain k where k: "k \<le> ?lines"
    "acc = map (\<lambda>i. to_runs (take w (drop (i * w) ?past))) (rev [k..<?lines])"
    "spent = (\<Sum>i\<leftarrow>[k..<?lines]. runs_size (to_runs (take w (drop (i * w) ?past))))" "spent \<le> budget"
    by auto
  have "rev acc = map to_runs (drop k (rows_of w ?past))"
    by (simp add: k(2) drop_rows_of rev_map comp_def)
  moreover have "sum_list (map runs_size (map to_runs (drop k (rows_of w ?past)))) = spent"
    by (simp add: k(3) drop_rows_of comp_def)
  moreover have "drop k (rows_of w ?past) = take_last (?lines - k) (rows_of w ?past)"
    using k(1) by (simp add: take_last_def)
  ultimately show ?thesis using k(4) acc(2) by (intro exI [of _ "?lines - k"]) simp
qed

section \<open>Adopting a snapshot\<close>

text \<open>The screen of a snapshot is the view, its history these lines.\<close>

definition carries :: "terminal_state \<Rightarrow> grid_view \<Rightarrow> cell list list \<Rightarrow> bool" where
  "carries state v lns \<longleftrightarrow>
     uint (ts_columns state) = width (gv_cells v) \<and> uint (ts_rows state) = height (gv_cells v) \<and>
     ts_grid state = to_runs (gv_grid v) \<and> ts_scrollback state = map to_runs lns \<and>
     \<lparr>gc_column = cursor_column (ts_cursor state), gc_row = cursor_row (ts_cursor state),
      gc_style = cursor_style (ts_cursor state), gc_visible = cursor_visible (ts_cursor state),
      gc_blink = cursor_blink (ts_cursor state)\<rparr> = gv_cursor v \<and>
     ts_modes state = gv_modes v \<and> ts_title state = gv_title v"

lemma adopt_lines:
  "\<forall>line \<in> set lns. length line = nat (width (gs_cells s)) \<Longrightarrow> 1 \<le> width (gs_cells s) \<Longrightarrow> width (gs_cells s) \<le> 1000 \<Longrightarrow>
     fold (adopt_line lib) (map to_runs lns) s = fold (push_scrollback_line lib) lns s"
proof (induction lns arbitrary: s)
  case (Cons line lns)
  then have "length line \<le> max_grid_cells" "0 < length line" by (auto simp: max_grid_cells_value)
  then have "adopt_line lib (to_runs line) s = push_scrollback_line lib line s"
    using Cons.prems by (simp add: adopt_line_def from_runs_to_runs)
  with Cons show ?case by simp
qed simp

lemma adopt_fields:
  assumes "\<not> (ts_columns state > max_grid_columns \<or> ts_rows state > max_grid_rows)"
    and "e = \<lparr>width = uint (ts_columns state), height = uint (ts_rows state)\<rparr>"
  shows "fst (adopt lib state m)" and "mi_sequence (snd (adopt lib state m)) = 0"
    and "\<not> mi_needs_snapshot (snd (adopt lib state m))"
    and "mi_state (snd (adopt lib state m)) =
      (fold (adopt_line lib) (ts_scrollback state)
         (snd (decode_grid (ts_grid state) e (blank_state lib e (gs_max_lines (mi_state m))))))
      \<lparr>gs_cursor := \<lparr>gc_column = cursor_column (ts_cursor state), gc_row = cursor_row (ts_cursor state),
         gc_style = cursor_style (ts_cursor state), gc_visible = cursor_visible (ts_cursor state),
         gc_blink = cursor_blink (ts_cursor state)\<rparr>, gs_modes := ts_modes state, gs_title := ts_title state\<rparr>"
  unfolding adopt_def if_not_P [OF assms(1)] Let_def assms(2) by simp_all

lemma adopt_carries:
  assumes carries: "carries state v lns" and v: "wf_view v"
    and lns: "\<forall>line \<in> set lns. length line = nat (width (gv_cells v))"
  shows "\<exists>m'. adopt lib state m = (True, m') \<and> wf_state (mi_state m') \<and> view_of (mi_state m') = v \<and>
     history (mi_state m') = take_last (gs_max_lines (mi_state m)) lns \<and>
     gs_max_lines (mi_state m') = gs_max_lines (mi_state m) \<and>
     mi_sequence m' = 0 \<and> \<not> mi_needs_snapshot m'"
proof -
  let ?e = "gv_cells v" and ?n = "gs_max_lines (mi_state m)"
  have e: "\<lparr>width = uint (ts_columns state), height = uint (ts_rows state)\<rparr> = ?e"
    using carries by (simp add: carries_def)
  have bounds: "1 \<le> width ?e" "width ?e \<le> 1000" "1 \<le> height ?e" "height ?e \<le> 1000"
    and len: "length (gv_grid v) = area ?e" using v by (auto simp: wf_view_def)
  have cols: "\<not> (ts_columns state > max_grid_columns \<or> ts_rows state > max_grid_rows)"
    using carries bounds by (simp add: carries_def word_less_def max_grid_columns_def max_grid_rows_def)
  have "nat (width ?e) * nat (height ?e) \<le> 1000 * 1000" using bounds by (intro mult_le_mono) auto
  then have small: "length (gv_grid v) \<le> max_grid_cells" by (simp add: len area_eq max_grid_cells_value)
  let ?b = "blank_state lib ?e ?n"
  let ?s = "?b\<lparr>gs_cells := ?e, gs_grid := gv_grid v\<rparr>"
  have dec: "decode_grid (ts_grid state) ?e ?b = (True, ?s)"
    using carries bounds len small
    by (simp add: carries_def decode_grid_def from_runs_to_runs max_grid_columns_def max_grid_rows_def)
  let ?t = "fold (push_scrollback_line lib) lns ?s"
  have t: "fold (adopt_line lib) (ts_scrollback state) ?s = ?t"
    using carries lns bounds adopt_lines [of lns ?s lib] by (simp add: carries_def)
  have w: "scrollback_width ?s = nat (width ?e)" using bounds by (simp add: scrollback_width_def)
  have wfh: "wf_history ?s" by (simp add: wf_history_def scrollback_lines_eq blank_state_def)
  have "history ?s = []" by (simp add: history_def scrollback_cells_def scrollback_lines_eq blank_state_def)
  moreover have "map (fit_line lib (nat (width ?e))) lns = lns" using lns by (intro map_idI) (simp add: fit_line_exact)
  ultimately have hist: "wf_history ?t \<and> history ?t = take_last ?n lns"
    using fold_push_history [OF wfh, of lib lns] w by (simp add: blank_state_def)
  let ?u = "?t\<lparr>gs_cursor := gv_cursor v, gs_modes := gv_modes v, gs_title := gv_title v\<rparr>"
  have u: "wf_history ?u" "history ?u = take_last ?n lns"
    using hist wf_history_cong [of ?u ?t] history_cong [of ?u ?t] by (simp_all add: scrollback_width_def)
  have eq: "gv_cursor v = \<lparr>gc_column = cursor_column (ts_cursor state), gc_row = cursor_row (ts_cursor state),
     gc_style = cursor_style (ts_cursor state), gc_visible = cursor_visible (ts_cursor state),
     gc_blink = cursor_blink (ts_cursor state)\<rparr>" "gv_modes v = ts_modes state" "gv_title v = ts_title state"
    using carries by (simp_all add: carries_def)
  note fields = adopt_fields [OF cols e [symmetric], of lib m, unfolded dec snd_conv t, folded eq]
  obtain m' where "adopt lib state m = (True, m')" using fields(1) by (metis prod.collapse)
  then have m': "adopt lib state m = (True, m')" "mi_state m' = ?u" "mi_sequence m' = 0" "\<not> mi_needs_snapshot m'"
    using fields(2-4) by simp_all
  show ?thesis
    by (rule exI [of _ m']) (use u m' len in \<open>simp add: wf_state_def view_of_eq blank_state_def\<close>)
qed

lemma snapshot_carries:
  assumes snap: "differ_snapshot ident src df = (state, df')" and fill: "fill_history state src budget = (spent, state')"
    and v: "wf_view (source_view src)"
  defines "past \<equiv> rows_of (nat (width (st_cells (src_status src)))) (src_scrollback src)"
  shows "\<exists>n \<le> length past. carries state' (source_view src) (take_last n past)"
    and "view_of (df_believed df') = source_view src" and "wf_state (df_believed df')"
    and "df_sequence df' = 0" and "\<not> df_needs_snapshot df'" and "\<not> df_diverged df'"
proof -
  have bounds: "1 \<le> width (st_cells (src_status src))" "width (st_cells (src_status src)) \<le> 1000"
    "1 \<le> height (st_cells (src_status src))" "height (st_cells (src_status src)) \<le> 1000"
    using v by (auto simp: wf_view_def)
  have state: "uint (ts_columns state) = width (st_cells (src_status src)) \<and>
     uint (ts_rows state) = height (st_cells (src_status src)) \<and>
     ts_grid state = to_runs (src_cells src) \<and> ts_modes state = gv_modes (source_view src) \<and>
     ts_title state = gv_title (source_view src) \<and>
     \<lparr>gc_column = cursor_column (ts_cursor state), gc_row = cursor_row (ts_cursor state),
      gc_style = cursor_style (ts_cursor state), gc_visible = cursor_visible (ts_cursor state),
      gc_blink = cursor_blink (ts_cursor state)\<rparr> = gv_cursor (source_view src)"
    using snap bounds by (auto simp: differ_snapshot_def Let_def uint_word_of_int default_terminal_state_def)
  obtain n where n: "n \<le> length past" "state' = state\<lparr>ts_scrollback := map to_runs (take_last n past)\<rparr>"
    using fill_history_newest [OF fill] state bounds by (auto simp: past_def max_def)
  then show "\<exists>n \<le> length past. carries state' (source_view src) (take_last n past)"
    using state by (intro exI [of _ n]) (simp add: carries_def)
  show "view_of (df_believed df') = source_view src" "wf_state (df_believed df')"
    "df_sequence df' = 0" "\<not> df_needs_snapshot df'" "\<not> df_diverged df'"
    using snap wf_state_of [OF v] by (auto simp: differ_snapshot_def Let_def)
qed

lemma take_last_rows_length: "line \<in> set (take_last n (rows_of w past)) \<Longrightarrow> length line = w"
  by (auto simp: take_last_def dest: in_set_dropD rows_of_length)

section \<open>Replication\<close>

text \<open>
  A sender that numbers what it says and a receiver that takes only what follows on. The laws are
  what the differ and the mirror promise each other; the facts below them hold of any such pair.
\<close>

locale replication =
  fixes say :: "'src \<Rightarrow> 's \<Rightarrow> 'd option \<times> 's"
    and restate :: "'src \<Rightarrow> 's \<Rightarrow> 'snap \<times> 's"
    and hear :: "'d \<Rightarrow> 'r \<Rightarrow> bool \<times> 'r"
    and accept :: "'snap \<Rightarrow> 'r \<Rightarrow> 'r"
    and said :: "'s \<Rightarrow> nat"
    and heard :: "'r \<Rightarrow> nat"
    and good :: "'src \<Rightarrow> bool"
    and sound :: "'s \<Rightarrow> bool"
    and whole :: "'r \<Rightarrow> bool"
    and together :: "'s \<Rightarrow> 'r \<Rightarrow> bool"
    and ceiling :: nat
  assumes quiet: "good src \<Longrightarrow> sound s \<Longrightarrow> say src s = (None, s') \<Longrightarrow>
      sound s' \<and> said s' = said s \<and> (together s r \<longrightarrow> together s' r)"
    and spoken: "good src \<Longrightarrow> sound s \<Longrightarrow> said s < ceiling \<Longrightarrow> say src s = (Some d, s') \<Longrightarrow> sound s' \<and> said s' = Suc (said s)"
    and followed: "good src \<Longrightarrow> sound s \<Longrightarrow> said s < ceiling \<Longrightarrow> say src s = (Some d, s') \<Longrightarrow>
      whole r \<Longrightarrow> together s r \<Longrightarrow> heard r = said s \<Longrightarrow>
      \<exists>r'. hear d r = (True, r') \<and> whole r' \<and> together s' r' \<and> heard r' = said s'"
    and gap: "said s < ceiling \<Longrightarrow> say src s = (Some d, s') \<Longrightarrow> whole r \<Longrightarrow> heard r < said s \<Longrightarrow>
      \<exists>r'. hear d r = (False, r') \<and> whole r' \<and> heard r' = heard r"
    and restated: "good src \<Longrightarrow> sound s \<Longrightarrow> whole r \<Longrightarrow> restate src s = (snap, s') \<Longrightarrow>
      sound s' \<and> whole (accept snap r) \<and> said s' = heard (accept snap r) \<and> together s' (accept snap r)"
begin

definition in_step :: "'s \<Rightarrow> 'r \<Rightarrow> bool" where
  "in_step s r \<longleftrightarrow> sound s \<and> whole r \<and> heard r \<le> said s \<and> (heard r = said s \<longrightarrow> together s r)"

lemma in_step_quiet: "in_step s r \<Longrightarrow> good src \<Longrightarrow> say src s = (None, s') \<Longrightarrow> in_step s' r"
  using quiet by (auto simp: in_step_def)

lemma in_step_lost: "in_step s r \<Longrightarrow> good src \<Longrightarrow> said s < ceiling \<Longrightarrow> say src s = (Some d, s') \<Longrightarrow> in_step s' r"
  using spoken [of src s d s'] by (simp add: in_step_def)

lemma in_step_delivered:
  assumes "in_step s r" and "good src" and "said s < ceiling" and "say src s = (Some d, s')"
  shows "\<exists>r'. hear d r = (heard r = said s, r') \<and> in_step s' r'"
proof (cases "heard r = said s")
  case True
  with followed [OF assms(2) _ assms(3,4)] spoken [OF assms(2) _ assms(3,4)] assms(1) show ?thesis
    by (fastforce simp: in_step_def)
next
  case False
  with assms(1) have "heard r < said s" by (simp add: in_step_def)
  with gap [OF assms(3,4), of r] assms(1) obtain r' where "hear d r = (False, r')" "whole r'" "heard r' = heard r"
    by (auto simp: in_step_def)
  with False spoken [OF assms(2) _ assms(3,4)] assms(1) show ?thesis by (simp add: in_step_def)
qed

lemma in_step_restated: "in_step s r \<Longrightarrow> good src \<Longrightarrow> restate src s = (snap, s') \<Longrightarrow> in_step s' (accept snap r)"
  using restated by (fastforce simp: in_step_def)

text \<open>A receiver that missed one refuses every later one, until it is restated.\<close>

lemma behind_refuses:
  "in_step s r \<Longrightarrow> good src \<Longrightarrow> said s < ceiling \<Longrightarrow> say src s = (Some d, s') \<Longrightarrow> heard r \<noteq> said s \<Longrightarrow> \<not> fst (hear d r)"
proof
  assume a: "in_step s r" "good src" "said s < ceiling" "say src s = (Some d, s')" "heard r \<noteq> said s" "fst (hear d r)"
  from in_step_delivered [OF a(1-4)] a(5,6) show False by auto
qed

end

text \<open>A snapshot as the server sends it: the screen, and the history there is room for.\<close>

definition whole_snapshot :: "u64 \<Rightarrow> nat \<Rightarrow> source \<Rightarrow> differ \<Rightarrow> terminal_state \<times> differ" where
  "whole_snapshot ident budget src df =
     (case differ_snapshot ident src df of (state, df') \<Rightarrow> (snd (fill_history state src budget), df'))"

lemma whole_snapshot_adopted:
  assumes "whole_snapshot ident budget src df = (state, df')" and v: "wf_view (source_view src)"
  shows "\<exists>m' n. adopt lib state m = (True, m') \<and> wf_state (mi_state m') \<and> view_of (mi_state m') = source_view src \<and>
     history (mi_state m') = take_last (gs_max_lines (mi_state m))
       (take_last n (rows_of (nat (width (st_cells (src_status src)))) (src_scrollback src))) \<and>
     gs_max_lines (mi_state m') = gs_max_lines (mi_state m) \<and> mi_sequence m' = 0 \<and> \<not> mi_needs_snapshot m'"
    and "view_of (df_believed df') = source_view src" and "wf_state (df_believed df')"
    and "df_sequence df' = 0" and "\<not> df_needs_snapshot df'" and "\<not> df_diverged df'"
proof -
  obtain st spent where st: "differ_snapshot ident src df = (st, df')" "fill_history st src budget = (spent, state)"
    using assms(1) by (auto simp: whole_snapshot_def split: prod.splits) (metis prod.collapse)
  note facts = snapshot_carries [OF st v]
  show "view_of (df_believed df') = source_view src" "wf_state (df_believed df')"
    "df_sequence df' = 0" "\<not> df_needs_snapshot df'" "\<not> df_diverged df'"
    by (fact facts)+
  from facts(1) show "\<exists>m' n. adopt lib state m = (True, m') \<and> wf_state (mi_state m') \<and> view_of (mi_state m') = source_view src \<and>
     history (mi_state m') = take_last (gs_max_lines (mi_state m))
       (take_last n (rows_of (nat (width (st_cells (src_status src)))) (src_scrollback src))) \<and>
     gs_max_lines (mi_state m') = gs_max_lines (mi_state m) \<and> mi_sequence m' = 0 \<and> \<not> mi_needs_snapshot m'"
    using adopt_carries [OF _ v, of state _ lib m] take_last_rows_length by (metis source_view_simps(1))
qed

lemma unat_next_u32: "unat (n :: u32) < 0xFFFFFFFF \<Longrightarrow> unat (n + 1) = Suc (unat n)"
  by (simp add: unat_word_ariths take_bit_nat_eq_self_iff)

interpretation mirroring: replication "differ_flush lib ident" "whole_snapshot ident budget" "mirror_apply lib"
  "\<lambda>state m. snd (adopt lib state m)" "\<lambda>df. unat (df_sequence df)" "\<lambda>m. unat (mi_sequence m)"
  "\<lambda>src. wf_view (source_view src)" "\<lambda>df. wf_state (df_believed df)" "\<lambda>m. wf_state (mi_state m)" agree "0xFFFFFFFF"
  for lib ident budget
proof (unfold_locales, goal_cases)
  case (1 src s s' r)
  then show ?case using flush_None [OF 1(3,1,2)] by (simp add: agree_def blank_belief_def)
next
  case (2 src s d s')
  from 2(4) obtain ops believed' where
    t: "tick_ops lib src (df_believed s) = (ops, believed')" "df_believed s' = believed'" "df_sequence s' = df_sequence s + 1"
    by (rule flush_Some) blast
  with tick_ops_advance(1) [OF t(1) 2(1,2)] unat_next_u32 [OF 2(3)] show ?case by (simp only: simp_thms)
next
  case (3 src s d s' r)
  then have "mi_sequence r = df_sequence s" by (simp add: word_unat_eq_iff)
  from flush_followed [OF 3(4,1,2,5,6) this] show ?case by auto
next
  case (4 s src d s' r)
  from flush_Some [OF 4(2)] have "gd_seq d = df_sequence s + 1" by (metis grid_delta.select_convs(2))
  with 4(4) have "gd_seq d \<noteq> mi_sequence r + 1" by auto
  with mirror_apply_gap 4(3) show ?case by simp
next
  case (5 src s r snap s')
  note facts = whole_snapshot_adopted [OF 5(4,1)]
  from facts(1) [of lib r] facts(2-4) show ?case by (auto simp: agree_def)
qed

section \<open>A terminal, its differ and one mirror over time\<close>

text \<open>
  \<open>lk_shown\<close> is what the terminal has been read as since its damage was last cleared: a damage
  report has to name every row that changed from any of them.
\<close>

record link =
  lk_shown :: "grid_view list"
  lk_differ :: differ
  lk_mirror :: mirror

text \<open>A tick whose delta arrives or is lost, and a snapshot with a budget for its history.\<close>

datatype link_event = Tick source bool | Attach source nat

fun link_step :: "ckvision \<Rightarrow> u64 \<Rightarrow> link_event \<Rightarrow> link \<Rightarrow> link" where
  "link_step lib ident (Tick src delivered) l =
     (case differ_flush lib ident src (lk_differ l) of
       (None, df) \<Rightarrow> l\<lparr>lk_shown := [source_view src], lk_differ := df\<rparr>
     | (Some d, df) \<Rightarrow> l\<lparr>lk_shown := [source_view src], lk_differ := df,
         lk_mirror := (if delivered then snd (mirror_apply lib d (lk_mirror l)) else lk_mirror l)\<rparr>)"
| "link_step lib ident (Attach src budget) l =
     (case whole_snapshot ident budget src (lk_differ l) of
       (state, df) \<Rightarrow> l\<lparr>lk_shown := source_view src # lk_shown l, lk_differ := df,
         lk_mirror := snd (adopt lib state (lk_mirror l))\<rparr>)"

text \<open>What is asked of the emulator, and the ceiling of the sequence number.\<close>

fun event_ok :: "link_event \<Rightarrow> link \<Rightarrow> bool" where
  "event_ok (Tick src delivered) l \<longleftrightarrow>
     wf_view (source_view src) \<and> df_sequence (lk_differ l) \<noteq> 0xFFFFFFFF \<and>
     (if src_damaged src
      then list_all (\<lambda>v. honest_damage (state_of v) (source_view src) (tick_hints src)) (lk_shown l)
      else list_all (\<lambda>v. v = source_view src) (lk_shown l))"
| "event_ok (Attach src budget) l \<longleftrightarrow> wf_view (source_view src)"

text \<open>A terminal that has just been opened: a client opens a mirror for it, the differ is new.\<close>

definition link_start :: "ckvision \<Rightarrow> extent \<Rightarrow> nat \<Rightarrow> grid_view list \<Rightarrow> link" where
  "link_start lib e limit shown =
     \<lparr>lk_shown = shown, lk_differ = differ_new, lk_mirror = mirror_open lib e (set_history_limit limit mirror_new)\<rparr>"

inductive reachable :: "ckvision \<Rightarrow> u64 \<Rightarrow> link \<Rightarrow> bool" for lib ident where
  Opened: "reachable lib ident (link_start lib e limit shown)"
| Event: "reachable lib ident l \<Longrightarrow> event_ok ev l \<Longrightarrow> reachable lib ident (link_step lib ident ev l)"

text \<open>The belief is right unless the differ has asked for a snapshot.\<close>

definition belief_right :: "link \<Rightarrow> bool" where
  "belief_right l \<longleftrightarrow> df_needs_snapshot (lk_differ l) \<or> blank_belief (lk_differ l) \<or>
     view_of (df_believed (lk_differ l)) \<in> set (lk_shown l)"

definition link_inv :: "link \<Rightarrow> bool" where
  "link_inv l \<longleftrightarrow> mirroring.in_step (lk_differ l) (lk_mirror l) \<and> belief_right l"

lemma in_step_eq:
  "mirroring.in_step df m \<longleftrightarrow> wf_state (df_believed df) \<and> wf_state (mi_state m) \<and> mi_sequence m \<le> df_sequence df \<and>
     (mi_sequence m = df_sequence df \<longrightarrow> agree df m)"
  by (simp add: mirroring.in_step_def word_le_nat_alt word_unat_eq_iff)

lemma honest_from_shown:
  assumes "belief_right l" and "\<not> df_needs_snapshot (lk_differ l)" and "event_ok (Tick src delivered) l" and "src_damaged src"
  shows "honest_damage (df_believed (lk_differ l)) (source_view src) (tick_hints src)"
proof (cases "blank_belief (lk_differ l)")
  case True
  with assms(3) show ?thesis by (auto simp: honest_damage_def blank_belief_def wf_view_def)
next
  case False
  with assms(1,2) have "view_of (df_believed (lk_differ l)) \<in> set (lk_shown l)" by (simp add: belief_right_def)
  with assms(3,4) have "honest_damage (state_of (view_of (df_believed (lk_differ l)))) (source_view src) (tick_hints src)"
    by (auto simp: list_all_iff)
  then show ?thesis by (simp add: honest_damage_def state_of_def view_of_def)
qed

lemma ceiling_u32: "n \<noteq> (0xFFFFFFFF :: u32) \<Longrightarrow> unat n < 0xFFFFFFFF"
proof -
  assume "n \<noteq> 0xFFFFFFFF"
  then have "unat n \<noteq> 0xFFFFFFFF" by (auto simp: word_unat_eq_iff)
  with unat_lt2p_u32 [of n] show ?thesis by simp
qed

text \<open>One tick with a right belief: the terminal is believed as it is.\<close>

lemma tick_belief:
  assumes inv: "link_inv l" and ok: "event_ok (Tick src delivered) l"
    and flush: "differ_flush lib ident src (lk_differ l) = (out, df')"
  shows "df_needs_snapshot df' \<or> blank_belief df' \<or> view_of (df_believed df') = source_view src"
    and "src_damaged src \<Longrightarrow> \<not> df_needs_snapshot df' \<Longrightarrow> view_of (df_believed df') = source_view src"
proof -
  let ?df = "lk_differ l"
  have v: "wf_view (source_view src)" and wf: "wf_state (df_believed ?df)" and right: "belief_right l"
    using ok inv by (auto simp: link_inv_def in_step_eq)
  have damaged: "view_of (df_believed df') = source_view src" if "src_damaged src" "\<not> df_needs_snapshot df'"
  proof -
    have "\<not> df_needs_snapshot ?df"
      using that(2) flush flush_None(3) [OF _ v wf, of lib ident df'] flush_Some [of lib ident src ?df _ df']
      by (cases out) auto
    note honest = honest_from_shown [OF right this ok that(1)]
    obtain ops b where t: "tick_ops lib src (df_believed ?df) = (ops, b)" by fastforce
    have exact: "view_of b = source_view src"
      using tick_ops_exact [OF t v wf honest wf] by simp
    show ?thesis
    proof (cases out)
      case None
      with flush have fl: "differ_flush lib ident src ?df = (None, df')" by simp
      have "ops = []" "df_believed df' = df_believed ?df"
        using flush_None(1) [OF fl v wf] flush_None(4) [OF fl v wf that(2,1)] t by simp_all
      with tick_ops_advance(3) [OF t v wf] exact show ?thesis by simp
    next
      case (Some d)
      with flush have "differ_flush lib ident src ?df = (Some d, df')" by simp
      then show ?thesis by (rule flush_Some) (use t exact in simp)
    qed
  qed
  then show "src_damaged src \<Longrightarrow> \<not> df_needs_snapshot df' \<Longrightarrow> view_of (df_believed df') = source_view src" .
  show "df_needs_snapshot df' \<or> blank_belief df' \<or> view_of (df_believed df') = source_view src"
  proof (cases "src_damaged src")
    case False
    then have "df' = ?df" using flush by (simp add: differ_flush_eq)
    moreover have "view_of (df_believed ?df) \<in> set (lk_shown l) \<Longrightarrow> view_of (df_believed ?df) = source_view src"
      using ok False by (auto simp: list_all_iff)
    ultimately show ?thesis using right by (auto simp: belief_right_def)
  qed (use damaged in blast)
qed

lemma link_inv_start: "link_inv (link_start lib e limit shown)"
  unfolding link_inv_def in_step_eq
  by (simp add: link_start_def belief_right_def mirror_open_def differ_new_def agree_def
      blank_belief_def no_state_def mirror_new_def set_history_limit_def blank_state_def wf_state_def wf_history_def
      scrollback_lines_eq area_eq)

lemma link_inv_event:
  assumes inv: "link_inv l" and ok: "event_ok ev l"
  shows "link_inv (link_step lib ident ev l)"
proof (cases ev)
  case (Tick src delivered)
  obtain out df' where flush: "differ_flush lib ident src (lk_differ l) = (out, df')" by fastforce
  have good: "wf_view (source_view src)" and below: "unat (df_sequence (lk_differ l)) < 0xFFFFFFFF"
    using ok Tick ceiling_u32 by auto
  have step: "mirroring.in_step (lk_differ l) (lk_mirror l)" using inv by (simp add: link_inv_def)
  note belief = tick_belief(1) [OF inv ok [unfolded Tick] flush]
  show ?thesis
  proof (cases out)
    case None
    with flush mirroring.in_step_quiet [OF step good, of lib ident df'] belief show ?thesis
      by (simp add: Tick link_inv_def belief_right_def)
  next
    case (Some d)
    with flush have flush: "differ_flush lib ident src (lk_differ l) = (Some d, df')" by simp
    have "mirroring.in_step df' (if delivered then snd (mirror_apply lib d (lk_mirror l)) else lk_mirror l)"
      using mirroring.in_step_lost [OF step good below flush] mirroring.in_step_delivered [OF step good below flush] by auto
    with flush belief show ?thesis by (simp add: Tick link_inv_def belief_right_def)
  qed
next
  case (Attach src budget)
  obtain state df' where snap: "whole_snapshot ident budget src (lk_differ l) = (state, df')" by fastforce
  have v: "wf_view (source_view src)" using ok Attach by simp
  from mirroring.in_step_restated [OF _ v snap, of "lk_mirror l" lib] inv
  have "mirroring.in_step df' (snd (adopt lib state (lk_mirror l)))" by (simp add: link_inv_def)
  with whole_snapshot_adopted(2) [OF snap v] snap show ?thesis by (simp add: Attach link_inv_def belief_right_def)
qed

lemma reachable_inv: "reachable lib ident l \<Longrightarrow> link_inv l"
  by (induction rule: reachable.induct) (simp_all add: link_inv_start link_inv_event)

inductive_cases reachable_cases: "reachable lib ident l"

section \<open>A second reader of the same terminal\<close>

text \<open>
  One differ serves every client that watches a terminal, and a snapshot taken for one of them
  restarts the count for all. A mirror that had heard a delta takes none of those that follow.
\<close>

lemma snapshot_strands_others:
  assumes "whole_snapshot ident budget src df = (state, df')" and "wf_view (source_view src)"
    and "differ_flush lib ident src' df' = (Some d, df'')" and "mi_sequence other \<noteq> 0"
  shows "gd_seq d = 1 \<and> mirror_apply lib d other = (False, other\<lparr>mi_gaps := mi_gaps other + 1, mi_needs_snapshot := True\<rparr>)"
proof -
  have "df_sequence df' = 0" using whole_snapshot_adopted(4) [OF assms(1,2)] .
  with assms(3) have "gd_seq d = 1" by (auto elim: flush_Some)
  moreover from this assms(4) have "gd_seq d \<noteq> mi_sequence other + 1" by auto
  ultimately show ?thesis using mirror_apply_gap by simp
qed

end
