(* ===== verification/Delta_Wire.thy ===== *)
theory Delta_Wire
  imports Sync Wire_Stream
begin

text \<open>
  What a differ says goes through the wire: every delta and every state of a terminal whose cells the wire can carry
  is one its protocol can say, so what comes out of the frame is what went in. Underline style and colour are not on
  the wire; \<open>carried\<close> says that the cells of a terminal have none.
\<close>

section \<open>Terminals the wire can carry\<close>

definition carried :: "ckvision \<Rightarrow> source \<Rightarrow> bool" where
  "carried lib src \<longleftrightarrow>
     list_all (wf_cell lib) (src_cells src) \<and> list_all (wf_cell lib) (src_scrollback src) \<and> length (src_scrollback src) < 2 ^ 32"

lemma list_all_part: "list_all P xs \<Longrightarrow> list_all P (take n (drop k xs))"
  by (auto simp: list_all_iff dest!: in_set_takeD in_set_dropD)

lemma wf_runs_part:
  "list_all (wf_cell lib) cs \<Longrightarrow> n < 2 ^ 32 \<Longrightarrow> wf_runs lib (to_runs (take n (drop k cs)))"
  by (rule to_runs_wf) (simp_all add: list_all_part)

section \<open>Rows\<close>

definition sayable :: "ckvision \<Rightarrow> nat \<Rightarrow> grid_op list \<Rightarrow> bool" where
  "sayable lib n ops \<longleftrightarrow> list_all (wf_grid_op lib) ops \<and> length ops \<le> n"

lemma sayable_simps [simp]:
  "sayable lib n []" "sayable lib (Suc n) (op # ops) \<longleftrightarrow> wf_grid_op lib op \<and> sayable lib n ops"
  by (auto simp: sayable_def)

lemma sayable_append: "sayable lib n xs \<Longrightarrow> sayable lib k ys \<Longrightarrow> sayable lib (n + k) (xs @ ys)"
  by (simp add: sayable_def)

lemma sayable_more: "sayable lib n xs \<Longrightarrow> n \<le> k \<Longrightarrow> sayable lib k xs"
  by (simp add: sayable_def)

lemma sayable_rows:
  "(\<And>row. row \<in> set rows \<Longrightarrow> sayable lib n (f row)) \<Longrightarrow> sayable lib (length rows * n) (concat (map f rows))"
proof (induction rows)
  case (Cons row rows)
  then have "sayable lib (n + length rows * n) (f row @ concat (map f rows))" by (intro sayable_append) simp_all
  then show ?case by simp
qed simp

lemma emit_span_sayable:
  assumes "list_all (wf_cell lib) wanted" and "length wanted < 2 ^ 32" and "sayable lib n (span_ops st)"
  shows "sayable lib (Suc n) (span_ops (emit_span row wanted st))"
proof -
  have "wf_runs lib (to_runs (take (span_last st - span_first st) (drop (span_first st) wanted)))"
    using assms(1,2) by (intro to_runs_wf list_all_part) simp_all
  then show ?thesis using assms(3) by (simp add: emit_span_def sayable_def)
qed

lemma span_step_sayable:
  assumes "list_all (wf_cell lib) wanted" and "length wanted < 2 ^ 32" and "sayable lib n (span_ops st)"
  shows "sayable lib (Suc n) (span_ops (span_step row mirror wanted a b st))"
  using assms emit_span_sayable [OF assms, of row] sayable_more [OF assms(3), of "Suc n"]
  by (simp add: span_step_def split: prod.split)

lemma span_loop_sayable:
  "list_all (wf_cell lib) wanted \<Longrightarrow> length wanted < 2 ^ 32 \<Longrightarrow> sayable lib n (span_ops st) \<Longrightarrow>
     sayable lib (n + (length wanted - run_first)) (span_ops (span_loop row mirror wanted run_first st))"
proof (induction row mirror wanted run_first st arbitrary: n rule: span_loop.induct)
  case (1 row mirror wanted run_first st)
  show ?case
  proof (cases "run_first < length wanted")
    case True
    have "run_first < run_end wanted run_first" using run_end_bounds [OF True] by simp
    moreover have "sayable lib (Suc n + (length wanted - run_end wanted run_first)) (span_ops (span_loop row mirror wanted run_first st))"
      using 1(1) [OF True 1(2,3) span_step_sayable [OF 1(2-4)]] True by (subst span_loop.simps) simp
    ultimately show ?thesis using True by (elim sayable_more) simp
  next
    case False
    then show ?thesis using 1(4) by (subst span_loop.simps) (simp add: sayable_more)
  qed
qed

lemma emit_changed_row_sayable:
  assumes "list_all (wf_cell lib) wanted" and "length wanted < 2 ^ 32"
  shows "sayable lib (Suc (length wanted)) (emit_changed_row row mirror wanted)"
proof -
  let ?st = "span_loop row mirror wanted 0
    \<lparr>have_span = False, span_first = 0, span_last = 0, gap_bytes = 0, span_ops = []\<rparr>"
  have "sayable lib (length wanted) (span_ops ?st)"
    using span_loop_sayable [OF assms, of 0 "\<lparr>have_span = False, span_first = 0, span_last = 0, gap_bytes = 0, span_ops = []\<rparr>" 0]
    by simp
  then show ?thesis
    using emit_span_sayable [OF assms, of "length wanted" ?st row] sayable_more [of lib "length wanted" "span_ops ?st" "Suc (length wanted)"]
    by (simp add: emit_changed_row_def Let_def)
qed

lemma emit_every_row_sayable:
  assumes "list_all (wf_cell lib) (gv_grid v)" and "nat (width (gv_cells v)) < 2 ^ 32"
  shows "sayable lib (nat (height (gv_cells v))) (emit_every_row v)"
  using wf_runs_part [OF assms] by (simp add: emit_every_row_def sayable_def list_all_iff row_of_def)

lemma diff_rows_sayable:
  assumes "list_all (wf_cell lib) current" and "nat w < 2 ^ 32"
  shows "sayable lib (1 + h * Suc (nat w)) (diff_rows lib damaged held current w h)"
proof -
  have row: "list_all (wf_cell lib) (row_of current w r)" "length (row_of current w r) \<le> nat w" for r
    using assms(1) by (simp_all add: row_of_def list_all_part)
  have one: "sayable lib (Suc (nat w)) (emit_changed_row i m (row_of current w r))" for i m r
    using emit_changed_row_sayable [OF row(1)] row(2) [of r] assms(2) by (intro sayable_more [OF emit_changed_row_sayable [OF row(1)]]) simp_all
  have "sayable lib (length [0..<h] * Suc (nat w))
      (concat (map (\<lambda>row. if \<not> examined row then [] else emit_changed_row (of_nat row) (row_of mirror w (int row)) (row_of current w (int row))) [0..<h]))"
    for examined mirror by (rule sayable_rows) (simp add: one)
  then have all: "sayable lib (h * Suc (nat w))
      (concat (map (\<lambda>row. if \<not> examined row then [] else emit_changed_row (of_nat row) (row_of mirror w (int row)) (row_of current w (int row))) [0..<h]))"
    for examined mirror by simp
  show ?thesis
  proof (cases "find_scroll lib (named_by damaged) held current w h")
    case None
    then show ?thesis unfolding diff_rows_def Let_def by (simp only: option.case prod.case append_Nil) (rule sayable_more [OF all], simp)
  next
    case (Some found)
    obtain upper lower lns where f: "found = (upper, lower, lns)" by (metis prod_cases3)
    have "sayable lib 1 [ScrollOp (of_nat upper) (of_nat lower) (word_of_int lns)]" by (simp add: sayable_def)
    from sayable_append [OF this all] show ?thesis unfolding diff_rows_def Let_def Some f by (simp only: option.case prod.case)
  qed
qed

section \<open>Deltas\<close>

lemma tick_lines_wf:
  assumes "list_all (wf_cell lib) (src_scrollback src)" and "width (st_cells (src_status src)) \<le> 1000"
  shows "wf_lines lib (map to_runs (tick_lines src))"
proof -
  have "line = take (nat (max 1 (width (st_cells (src_status src))))) (drop k (src_scrollback src)) \<Longrightarrow> wf_runs lib (to_runs line)" for line k
    using wf_runs_part [OF assms(1)] assms(2) by simp
  then have "list_all (wf_runs lib) (map to_runs (tick_lines src))"
    by (auto simp: tick_lines_def newest_history_lines_def Let_def list_all_iff)
  moreover have "length (tick_lines src) \<le> 256"
    by (auto simp: tick_lines_def newest_history_lines_def Let_def flooded_def max_history_lines_per_delta_def)
  ultimately show ?thesis by (simp add: wf_lines_def)
qed

lemma push_ops_sayable: "wf_lines lib (map to_runs lns) \<Longrightarrow> sayable lib 1 (push_ops lns)"
  by (simp add: push_ops_def sayable_def)

lemma clamped_length: "length (clamp_utf8 cs n) \<le> n"
proof -
  have "utf8_cut cs n \<le> n" by (induction cs n rule: utf8_cut.induct) (simp_all add: le_Suc_eq)
  then show ?thesis by (simp add: clamp_utf8_def)
qed

lemma title_sayable: "length (gv_title (source_view src)) \<le> 0xFFFF"
  using clamped_length [of "st_title (src_status src)" max_title_bytes] by (simp add: source_view_def max_title_bytes_def)

lemma diff_sayable:
  assumes v: "wf_view (source_view src)" and c: "carried lib src"
  shows "sayable lib 2000000 (diff lib previous (source_view src) (tick_lines src) hints)"
    and "sayable lib 2000000 (full_repaint (source_view src) (tick_lines src))"
proof -
  let ?v = "source_view src"
  let ?w = "width (gv_cells ?v)" and ?h = "height (gv_cells ?v)"
  have b: "nat ?w \<le> 1000" "nat ?h \<le> 1000" "nat ?w < 2 ^ 32" using v by (auto simp: wf_view_def)
  have cells: "list_all (wf_cell lib) (gv_grid ?v)" using c by (simp add: carried_def)
  have push: "sayable lib 1 (push_ops (tick_lines src))"
    using c v by (intro push_ops_sayable tick_lines_wf) (auto simp: carried_def wf_view_def)
  have every: "sayable lib 1000 (emit_every_row ?v)"
    by (rule sayable_more [OF emit_every_row_sayable [OF cells b(3)] b(2)])
  have "1 + nat ?h * Suc (nat ?w) \<le> 1 + 1000 * 1001" using b by (intro add_mono mult_le_mono) simp_all
  then have rows: "sayable lib 1500000 (diff_rows lib hints held (gv_grid ?v) ?w (nat ?h))" for held
    by (intro sayable_more [OF diff_rows_sayable [OF cells b(3)]]) simp
  note title = title_sayable [of src]
  have body: "sayable lib 1500000 (if \<not> same then emit_every_row ?v
      else if 0 < ?w \<and> 0 < ?h then diff_rows lib hints held (gv_grid ?v) ?w (nat ?h) else [])" for same held
    using rows sayable_more [OF every, of 1500000] by simp
  have "sayable lib (1 + (1 + (1500000 + (1 + (1 + 1))))) (diff lib previous ?v (tick_lines src) hints)"
    unfolding diff_def Let_def
    by (intro sayable_append push body) (use title in \<open>simp_all add: sayable_def resize_op_def cursor_op_of_def\<close>)
  then show "sayable lib 2000000 (diff lib previous ?v (tick_lines src) hints)" by (rule sayable_more) simp
  have "sayable lib (1 + (1 + (1000 + 3))) (full_repaint ?v (tick_lines src))"
    unfolding full_repaint_def
    by (intro sayable_append push every) (use title in \<open>simp_all add: sayable_def resize_op_def cursor_op_of_def\<close>)
  then show "sayable lib 2000000 (full_repaint ?v (tick_lines src))" by (rule sayable_more) simp
qed

lemma said_delta_wf:
  assumes "differ_flush lib ident src df = (Some d, df')" and "wf_view (source_view src)" and "carried lib src"
  shows "wf_grid_delta lib d"
proof -
  obtain ops b where t: "tick_ops lib src (df_believed df) = (ops, b)" "d = \<lparr>gd_term = ident, gd_seq = df_sequence df + 1, gd_ops = ops\<rparr>"
    using assms(1) by (rule flush_Some) blast
  then have "sayable lib 2000000 ops"
    using diff_sayable [OF assms(2,3)] by (auto simp: tick_ops_def Let_def split: if_splits prod.splits bool.splits)
  with t(2) show ?thesis by (simp add: wf_grid_delta_def sayable_def)
qed

section \<open>States\<close>

lemma said_state_wf:
  assumes "whole_snapshot ident budget src df = (state, df')" and v: "wf_view (source_view src)" and c: "carried lib src"
    and "df_rasters df = []"
  shows "wf_terminal_state lib state"
proof -
  obtain st spent where st: "differ_snapshot ident src df = (st, df')" "fill_history st src budget = (spent, state)"
    using assms(1) by (auto simp: whole_snapshot_def split: prod.splits) (metis prod.collapse)
  let ?w = "nat (max 1 (uint (ts_columns st)))"
  obtain n where state: "state = st\<lparr>ts_scrollback := map to_runs (take_last n (rows_of ?w (src_scrollback src)))\<rparr>"
    using fill_history_newest [OF st(2)] by blast
  have small: "?w < 2 ^ 32" using uint_lt2p [of "ts_columns st"] by simp
  have past: "list_all (wf_cell lib) (src_scrollback src)" using c by (simp add: carried_def)
  have "list_all (wf_runs lib) (map to_runs (take_last n (rows_of ?w (src_scrollback src))))"
    using wf_runs_part [OF past small] by (auto simp: list_all_iff take_last_def rows_of_def dest!: in_set_dropD)
  moreover have "length (take_last n (rows_of ?w (src_scrollback src))) < 2 ^ 32"
  proof -
    have "length (take_last n rows) \<le> length rows" for rows :: "cell list list" by (simp add: take_last_def)
    moreover have "length (rows_of ?w (src_scrollback src)) \<le> length (src_scrollback src)" by (simp add: rows_of_def)
    moreover have "length (src_scrollback src) < 2 ^ 32" using c by (simp add: carried_def)
    ultimately show ?thesis by (meson le_less_trans)
  qed
  ultimately have lines: "wf_lines lib (ts_scrollback state)" by (simp add: state wf_lines_def)
  have "nat (width (st_cells (src_status src))) * nat (height (st_cells (src_status src))) \<le> 1000 * 1000"
    using v by (intro mult_le_mono) (auto simp: wf_view_def)
  then have "area (st_cells (src_status src)) \<le> 1000 * 1000" by (simp add: area_eq)
  then have "wf_runs lib (to_runs (src_cells src))"
    using v c by (intro to_runs_wf) (simp_all add: wf_view_def carried_def)
  then show ?thesis
    using lines st(1) assms(4) title_sayable [of src] clamped_length [of "snd (last (src_diagnostics src))" max_title_bytes]
    by (auto simp: wf_terminal_state_def state differ_snapshot_def Let_def default_terminal_state_def max_title_bytes_def)
qed

section \<open>Through a frame\<close>

text \<open>What a reader hears of a message: nothing, where it is too large to be sent.\<close>

definition over_wire :: "ckvision \<Rightarrow> message \<Rightarrow> message option" where
  "over_wire lib m =
     (case encode m of
       (frame, oversize) \<Rightarrow>
         if oversize then None
         else case decode lib frame default_message of
           (result, heard) \<Rightarrow> if dr_error result = No_Error then Some heard else None)"

lemma over_wire_wf: "wf_message lib m \<Longrightarrow> over_wire lib m = (if snd (encode m) then None else Some m)"
  using decode_encode_rest [of lib m "fst (encode m)" "[]" default_message]
  by (cases "encode m") (auto simp: over_wire_def)

end
