(* ===== verification/Sharing.thy ===== *)
theory Sharing
  imports Delta_Wire
begin

text \<open>
  One terminal with all who read it: one differ in the server, a mirror in every reader's client, and the frames between
  them. A tick's delta goes to every reader, and is lost to those it does not reach; a snapshot is taken for one reader and
  moves what the differ believes and its count for all. \<open>sg_counted\<close> are the readers that count is for: all
  that had the terminal open before any snapshot, and from then on the one the last snapshot was taken for.
\<close>

section \<open>A terminal and its readers\<close>

record sharing =
  sg_shown :: "grid_view list"
  sg_differ :: differ
  sg_readers :: "u64 \<Rightarrow> mirror option"
  sg_counted :: "u64 set"

text \<open>A tick and whom its delta reaches; a snapshot for a reader, with a budget for history and the message it is part of;
  a reader that comes, with a limit for its history, and one that goes.\<close>

datatype sharing_event =
    Flushed source "u64 \<Rightarrow> bool"
  | Snapshot_For u64 source nat attached
  | Reader_Joins u64 nat
  | Reader_Leaves u64

definition delta_heard :: "ckvision \<Rightarrow> grid_delta \<Rightarrow> grid_delta option" where
  "delta_heard lib d = (case over_wire lib (GridDelta d) of Some (GridDelta heard) \<Rightarrow> Some heard | _ \<Rightarrow> None)"

definition take_delta :: "ckvision \<Rightarrow> grid_delta \<Rightarrow> bool \<Rightarrow> mirror \<Rightarrow> mirror" where
  "take_delta lib d reached m =
     (if \<not> reached then m
      else case delta_heard lib d of None \<Rightarrow> m | Some heard \<Rightarrow> snd (mirror_apply lib heard m))"

definition snapshot_message :: "attached \<Rightarrow> terminal_state \<Rightarrow> message" where
  "snapshot_message cover state =
     Attached (cover\<lparr>attached_snapshot := (attached_snapshot cover)\<lparr>sn_terminals := [state]\<rparr>\<rparr>)"

definition state_heard :: "ckvision \<Rightarrow> attached \<Rightarrow> terminal_state \<Rightarrow> terminal_state option" where
  "state_heard lib cover state =
     (case over_wire lib (snapshot_message cover state) of
       Some (Attached heard) \<Rightarrow> (case sn_terminals (attached_snapshot heard) of st # _ \<Rightarrow> Some st | [] \<Rightarrow> None)
     | _ \<Rightarrow> None)"

fun sharing_step :: "ckvision \<Rightarrow> u64 \<Rightarrow> sharing_event \<Rightarrow> sharing \<Rightarrow> sharing" where
  "sharing_step lib ident (Flushed src reaches) sg =
     (case differ_flush lib ident src (sg_differ sg) of
       (None, df) \<Rightarrow> sg\<lparr>sg_shown := [source_view src], sg_differ := df\<rparr>
     | (Some d, df) \<Rightarrow> sg\<lparr>sg_shown := [source_view src], sg_differ := df,
         sg_readers := (\<lambda>c. map_option (take_delta lib d (reaches c)) (sg_readers sg c))\<rparr>)"
| "sharing_step lib ident (Snapshot_For c src budget cover) sg =
     (case sg_readers sg c of
       None \<Rightarrow> sg
     | Some m \<Rightarrow>
         (case whole_snapshot ident budget src (sg_differ sg) of
           (state, df) \<Rightarrow>
             let sg = sg\<lparr>sg_shown := source_view src # sg_shown sg, sg_differ := df, sg_counted := {}\<rparr>
             in case state_heard lib cover state of
                  None \<Rightarrow> sg
                | Some heard \<Rightarrow> sg\<lparr>sg_readers := (sg_readers sg)(c \<mapsto> snd (adopt lib heard m)), sg_counted := {c}\<rparr>))"
| "sharing_step lib ident (Reader_Joins c limit) sg =
     sg\<lparr>sg_readers := (sg_readers sg)(c \<mapsto> set_history_limit limit mirror_new), sg_counted := sg_counted sg - {c}\<rparr>"
| "sharing_step lib ident (Reader_Leaves c) sg =
     sg\<lparr>sg_readers := (sg_readers sg)(c := None), sg_counted := sg_counted sg - {c}\<rparr>"

text \<open>A terminal that was just opened in a session some readers share: each opens a mirror for it.\<close>

definition sharing_start :: "ckvision \<Rightarrow> extent \<Rightarrow> (u64 \<Rightarrow> nat option) \<Rightarrow> grid_view list \<Rightarrow> sharing" where
  "sharing_start lib e limits shown =
     \<lparr>sg_shown = shown, sg_differ = differ_new,
      sg_readers = (\<lambda>c. map_option (\<lambda>limit. mirror_open lib e (set_history_limit limit mirror_new)) (limits c)),
      sg_counted = dom limits\<rparr>"

text \<open>One reader's side of it is a link; what is asked of the emulator is what was asked there, and cells the wire
  can carry.\<close>

definition side :: "sharing \<Rightarrow> mirror \<Rightarrow> link" where
  "side sg m = \<lparr>lk_shown = sg_shown sg, lk_differ = sg_differ sg, lk_mirror = m\<rparr>"

fun sharing_ok :: "ckvision \<Rightarrow> sharing_event \<Rightarrow> sharing \<Rightarrow> bool" where
  "sharing_ok lib (Flushed src reaches) sg \<longleftrightarrow> event_ok (Tick src True) (side sg mirror_new) \<and> carried lib src"
| "sharing_ok lib (Snapshot_For c src budget cover) sg \<longleftrightarrow> wf_view (source_view src) \<and> carried lib src"
| "sharing_ok lib (Reader_Joins c limit) sg \<longleftrightarrow> True"
| "sharing_ok lib (Reader_Leaves c) sg \<longleftrightarrow> True"

inductive sharing_reachable :: "ckvision \<Rightarrow> u64 \<Rightarrow> sharing \<Rightarrow> bool" for lib ident where
  Shared: "sharing_reachable lib ident (sharing_start lib e limits shown)"
| Happens: "sharing_reachable lib ident sg \<Longrightarrow> sharing_ok lib ev sg \<Longrightarrow> sharing_reachable lib ident (sharing_step lib ident ev sg)"

inductive_cases sharing_reachable_cases: "sharing_reachable lib ident sg"

section \<open>The wire takes nothing away\<close>

lemma delta_heard_wf: "wf_grid_delta lib d \<Longrightarrow> delta_heard lib d = None \<or> delta_heard lib d = Some d"
  using over_wire_wf [of lib "GridDelta d"] by (simp add: delta_heard_def)

lemma state_heard_wf: "wf_terminal_state lib state \<Longrightarrow> state_heard lib cover state = None \<or> state_heard lib cover state = Some state"
  using over_wire_wf [of lib "snapshot_message cover state"]
  by (simp add: state_heard_def snapshot_message_def wf_attached_def wf_snapshot_def)

section \<open>The invariant\<close>

lemma side_simps [simp]: "lk_shown (side sg m) = sg_shown sg" "lk_differ (side sg m) = sg_differ sg" "lk_mirror (side sg m) = m"
  by (simp_all add: side_def)

lemma event_ok_side: "event_ok (Tick src reached) (side sg m) = event_ok (Tick src True) (side sg m')"
  by simp

lemma belief_right_side: "belief_right (side sg m) = belief_right (side sg m')"
  by (simp add: belief_right_def)

definition sharing_inv :: "sharing \<Rightarrow> bool" where
  "sharing_inv sg \<longleftrightarrow>
     wf_state (df_believed (sg_differ sg)) \<and> df_rasters (sg_differ sg) = [] \<and> belief_right (side sg mirror_new) \<and>
     (\<forall>c m. sg_readers sg c = Some m \<longrightarrow> wf_state (mi_state m) \<and> (c \<in> sg_counted sg \<longrightarrow> link_inv (side sg m)))"

lemma flush_rasters: "differ_flush lib ident src df = (out, df') \<Longrightarrow> df_rasters df' = df_rasters df"
  by (auto simp: differ_flush_eq Let_def split: if_splits prod.splits)

lemma snapshot_rasters: "whole_snapshot ident budget src df = (state, df') \<Longrightarrow> df_rasters df' = df_rasters df"
  by (auto simp: whole_snapshot_def differ_snapshot_def Let_def)

lemma mirror_opened_wf: "wf_state (mi_state (set_history_limit limit mirror_new))"
  by (simp add: mirror_new_def set_history_limit_def no_state_def wf_state_def wf_history_def scrollback_lines_eq area_eq
      enforce_scrollback_capacity_def)

lemma mirror_apply_whole: "wf_state (mi_state m) \<Longrightarrow> wf_state (mi_state (snd (mirror_apply lib d m)))"
  using perform_ops_wf [of "mi_state m" "gd_ops d" lib] by (simp add: mirror_apply_def apply_delta_def)

lemma take_delta_whole: "wf_state (mi_state m) \<Longrightarrow> wf_state (mi_state (take_delta lib d reached m))"
  by (simp add: take_delta_def mirror_apply_whole split: option.split)

lemma adopt_whole:
  assumes "whole_snapshot ident budget src df = (state, df')" and "wf_view (source_view src)"
  shows "wf_state (mi_state (snd (adopt lib state m)))"
  using whole_snapshot_adopted(1) [OF assms, of lib m] by auto

text \<open>A mirror that says back what the differ believes is always a side of it.\<close>

definition echo :: "sharing \<Rightarrow> mirror" where
  "echo sg = mirror_new\<lparr>mi_state := df_believed (sg_differ sg), mi_sequence := df_sequence (sg_differ sg)\<rparr>"

lemma echo_inv: "sharing_inv sg \<Longrightarrow> link_inv (side sg (echo sg))"
  using belief_right_side [of sg mirror_new "echo sg"]
  by (simp add: sharing_inv_def link_inv_def in_step_eq agree_def echo_def)

lemma belief_of_side: "link_inv (side sg m) \<Longrightarrow> wf_state (df_believed (sg_differ sg)) \<and> belief_right (side sg mirror_new)"
  using belief_right_side [of sg mirror_new m] by (simp add: link_inv_def in_step_eq)

lemma sharing_inv_start: "sharing_inv (sharing_start lib e limits shown)"
proof -
  have "side (sharing_start lib e limits shown) (mirror_open lib e (set_history_limit limit mirror_new)) = link_start lib e limit shown"
    for limit by (simp add: side_def sharing_start_def link_start_def)
  then have inv: "link_inv (side (sharing_start lib e limits shown) (mirror_open lib e (set_history_limit limit mirror_new)))"
    for limit by (simp add: link_inv_start)
  then have "wf_state (mi_state (mirror_open lib e (set_history_limit limit mirror_new)))" for limit
    using inv [of limit] by (simp add: link_inv_def in_step_eq)
  then show ?thesis
    using inv belief_of_side [OF inv] by (auto simp: sharing_inv_def) (auto simp: sharing_start_def differ_new_def)
qed

text \<open>One reader's side of a tick is the tick of a link, whose delta arrives where it reaches the reader and a frame
  holds it.\<close>

lemma flushed_side:
  assumes "sharing_ok lib (Flushed src reaches) sg"
  shows "side (sharing_step lib ident (Flushed src reaches) sg)
       (case fst (differ_flush lib ident src (sg_differ sg)) of None \<Rightarrow> m | Some d \<Rightarrow> take_delta lib d reached m)
     = link_step lib ident (Tick src (reached \<and>
         (case fst (differ_flush lib ident src (sg_differ sg)) of None \<Rightarrow> True | Some d \<Rightarrow> delta_heard lib d \<noteq> None))) (side sg m)"
proof -
  obtain out df' where flush: "differ_flush lib ident src (sg_differ sg) = (out, df')" by fastforce
  show ?thesis
  proof (cases out)
    case (Some d)
    with flush said_delta_wf [of lib ident src "sg_differ sg" d df'] assms have "wf_grid_delta lib d" by simp
    then show ?thesis
      using delta_heard_wf [of lib d] flush Some by (auto simp: side_def take_delta_def)
  qed (simp add: flush side_def)
qed

lemma sharing_inv_flushed:
  assumes inv: "sharing_inv sg" and ok: "sharing_ok lib (Flushed src reaches) sg"
  shows "sharing_inv (sharing_step lib ident (Flushed src reaches) sg)"
proof -
  let ?sg = "sharing_step lib ident (Flushed src reaches) sg"
  let ?out = "fst (differ_flush lib ident src (sg_differ sg))"
  have next_inv: "link_inv (side ?sg (case ?out of None \<Rightarrow> m | Some d \<Rightarrow> take_delta lib d reached m))"
    if "link_inv (side sg m)" for m reached
    unfolding flushed_side [OF ok] by (rule link_inv_event [OF that]) (use ok in \<open>simp split: if_splits\<close>)
  obtain out df' where flush: "differ_flush lib ident src (sg_differ sg) = (out, df')" by fastforce
  have differ: "sg_differ ?sg = df'" "sg_counted ?sg = sg_counted sg" using flush by (simp_all split: option.split)
  have "df_rasters df' = []" using flush_rasters [OF flush] inv by (simp add: sharing_inv_def)
  moreover have "wf_state (mi_state m) \<and> (c \<in> sg_counted ?sg \<longrightarrow> link_inv (side ?sg m))" if m: "sg_readers ?sg c = Some m" for c m
  proof -
    obtain m0 where m0: "sg_readers sg c = Some m0" "m = (case out of None \<Rightarrow> m0 | Some d \<Rightarrow> take_delta lib d (reaches c) m0)"
      using m flush by (cases out) auto
    then have "wf_state (mi_state m0)" "c \<in> sg_counted sg \<longrightarrow> link_inv (side sg m0)" using inv by (auto simp: sharing_inv_def)
    then show ?thesis
      using m0(2) next_inv [of m0 "reaches c"] flush differ(2) take_delta_whole [of m0 lib _ "reaches c"] by (auto split: option.splits)
  qed
  ultimately show ?thesis
    using belief_of_side [OF next_inv [OF echo_inv [OF inv], of False]] differ(1) unfolding sharing_inv_def by blast
qed

lemma sharing_inv_snapshot:
  assumes inv: "sharing_inv sg" and ok: "sharing_ok lib (Snapshot_For c src budget cover) sg"
  shows "sharing_inv (sharing_step lib ident (Snapshot_For c src budget cover) sg)"
proof (cases "sg_readers sg c")
  case (Some m)
  let ?sg = "sharing_step lib ident (Snapshot_For c src budget cover) sg"
  have v: "wf_view (source_view src)" and c: "carried lib src" using ok by simp_all
  obtain state df' where snap: "whole_snapshot ident budget src (sg_differ sg) = (state, df')" by fastforce
  have wf: "wf_terminal_state lib state" using said_state_wf [OF snap v c] inv by (simp add: sharing_inv_def)
  note adopted = whole_snapshot_adopted [OF snap v]
  have belief: "wf_state (df_believed df')" "view_of (df_believed df') \<in> set (sg_shown ?sg)" "sg_differ ?sg = df'" "df_rasters df' = []"
    using adopted(2, 3) Some snap snapshot_rasters [OF snap] inv by (auto simp: Let_def sharing_inv_def split: option.split)
  then have right: "belief_right (side ?sg m)" for m by (simp add: belief_right_def)
  obtain m' where m': "adopt lib state m = (True, m')" "wf_state (mi_state m')" "view_of (mi_state m') = source_view src" "mi_sequence m' = 0"
    using adopted(1) [of lib m] by blast
  have new: "link_inv (side ?sg m')"
    using right m' adopted(2, 4) belief by (simp add: link_inv_def in_step_eq agree_def)
  have "state_heard lib cover state = None \<or> state_heard lib cover state = Some state" by (rule state_heard_wf [OF wf])
  then have readers: "wf_state (mi_state n) \<and> (i \<in> sg_counted ?sg \<longrightarrow> link_inv (side ?sg n))" if "sg_readers ?sg i = Some n" for i n
    using that Some snap m'(1, 2) new inv by (auto simp: Let_def sharing_inv_def split: if_splits)
  show ?thesis using belief right readers unfolding sharing_inv_def by blast
qed (use inv in simp)

lemma sharing_inv_readers:
  assumes "sharing_inv sg"
  shows "sharing_inv (sharing_step lib ident (Reader_Joins c limit) sg)" and "sharing_inv (sharing_step lib ident (Reader_Leaves c) sg)"
  using assms mirror_opened_wf by (auto simp: sharing_inv_def side_def)

lemma sharing_inv_step: "sharing_inv sg \<Longrightarrow> sharing_ok lib ev sg \<Longrightarrow> sharing_inv (sharing_step lib ident ev sg)"
  by (cases ev) (auto intro: sharing_inv_flushed sharing_inv_snapshot sharing_inv_readers simp del: sharing_step.simps sharing_ok.simps)

lemma sharing_reachable_inv: "sharing_reachable lib ident sg \<Longrightarrow> sharing_inv sg"
  by (induction rule: sharing_reachable.induct) (simp_all only: sharing_inv_start sharing_inv_step)

section \<open>What a tick shows\<close>

text \<open>A tick that arrives at a mirror that missed none: it shows the terminal, and has the lines that were pushed.\<close>

lemma tick_shows:
  assumes inv: "link_inv l" and ok: "event_ok (Tick src True) l" and damaged: "src_damaged src"
    and followed: "mi_sequence (lk_mirror l) = df_sequence (lk_differ l)"
    and l': "l' = link_step lib ident (Tick src True) l" and calm: "\<not> df_needs_snapshot (lk_differ l')"
  shows "view_of (mi_state (lk_mirror l')) = source_view src \<and>
     history (mi_state (lk_mirror l')) = take_last (gs_max_lines (mi_state (lk_mirror l)))
       (map (fit_line lib (extent_columns (st_cells (src_status src)))) (history (mi_state (lk_mirror l)) @ tick_lines src)) \<and>
     mi_sequence (lk_mirror l') = df_sequence (lk_differ l')"
proof -
  let ?m = "lk_mirror l" and ?df = "lk_differ l"
  have wf: "wf_state (df_believed ?df)" "wf_state (mi_state ?m)" and agree: "agree ?df ?m"
    using inv followed by (auto simp: link_inv_def in_step_eq)
  have v: "wf_view (source_view src)" using ok by simp
  obtain out df' where flush: "differ_flush lib ident src ?df = (out, df')" by fastforce
  with l' have df': "lk_differ l' = df'" by (simp split: option.split)
  have calm': "\<not> df_needs_snapshot ?df"
    using calm flush flush_None(3) [OF _ v wf(1), of lib ident df'] flush_Some [of lib ident src ?df _ df'] df'
    by (cases out) auto
  have honest: "honest_damage (df_believed ?df) (source_view src) (tick_hints src)"
    using honest_from_shown [OF _ calm' ok damaged] inv by (simp add: link_inv_def)
  obtain ops b where t: "tick_ops lib src (df_believed ?df) = (ops, b)" by fastforce
  have "gs_cells (df_believed ?df) \<noteq> st_cells (src_status src) \<or> view_of (mi_state ?m) = view_of (df_believed ?df)"
    using agree v by (auto simp: agree_def blank_belief_def wf_view_def)
  from tick_ops_exact [OF t v wf(1) honest wf(2) this] obtain s where
    s: "takes lib ops (mi_state ?m) s" "shows_view lib (mi_state ?m) (source_view src) (tick_lines src) s" by blast
  show ?thesis
  proof (cases out)
    case None
    with flush have fl: "differ_flush lib ident src ?df = (None, df')" by simp
    have "ops = []" "df_sequence df' = df_sequence ?df"
      using flush_None(2) [OF fl v wf(1)] flush_None(4) [OF fl v wf(1) _ damaged] calm t df' by auto
    moreover from this have "s = mi_state ?m" using s(1) by (simp add: takes_def)
    ultimately show ?thesis using s(2) fl l' followed by (simp add: shows_view_def)
  next
    case (Some d)
    with flush have "differ_flush lib ident src ?df = (Some d, df')" by simp
    then have d: "gd_seq d = df_sequence ?df + 1" "gd_ops d = ops" "df_sequence df' = df_sequence ?df + 1"
      using t by (auto elim: flush_Some)
    with mirror_apply_takes [of d ?m lib s] s followed wf(2) flush Some l' show ?thesis by (simp add: shows_view_def)
  qed
qed

section \<open>What a reader that is behind does\<close>

text \<open>A run in which no snapshot is taken and one reader neither comes nor goes, and the deltas that reach that reader.\<close>

definition sharing_run :: "ckvision \<Rightarrow> u64 \<Rightarrow> sharing_event list \<Rightarrow> sharing \<Rightarrow> sharing" where
  "sharing_run lib ident evs sg = fold (sharing_step lib ident) evs sg"

fun run_ok :: "ckvision \<Rightarrow> u64 \<Rightarrow> sharing_event list \<Rightarrow> sharing \<Rightarrow> bool" where
  "run_ok lib ident [] sg \<longleftrightarrow> True"
| "run_ok lib ident (ev # evs) sg \<longleftrightarrow> sharing_ok lib ev sg \<and> run_ok lib ident evs (sharing_step lib ident ev sg)"

fun leaves_alone :: "u64 \<Rightarrow> sharing_event \<Rightarrow> bool" where
  "leaves_alone c (Flushed src reaches) \<longleftrightarrow> True"
| "leaves_alone c (Snapshot_For i src budget cover) \<longleftrightarrow> False"
| "leaves_alone c (Reader_Joins i limit) \<longleftrightarrow> i \<noteq> c"
| "leaves_alone c (Reader_Leaves i) \<longleftrightarrow> i \<noteq> c"

fun reaching :: "ckvision \<Rightarrow> u64 \<Rightarrow> u64 \<Rightarrow> sharing_event list \<Rightarrow> sharing \<Rightarrow> nat" where
  "reaching lib ident c [] sg = 0"
| "reaching lib ident c (ev # evs) sg =
     (case ev of
       Flushed src reaches \<Rightarrow>
         (case fst (differ_flush lib ident src (sg_differ sg)) of
           None \<Rightarrow> 0
         | Some d \<Rightarrow> if reaches c \<and> delta_heard lib d \<noteq> None then 1 else 0)
     | _ \<Rightarrow> 0) + reaching lib ident c evs (sharing_step lib ident ev sg)"

definition refused :: "nat \<Rightarrow> mirror \<Rightarrow> mirror" where
  "refused n m = (if n = 0 then m else m\<lparr>mi_gaps := mi_gaps m + of_nat n, mi_needs_snapshot := True\<rparr>)"

lemma refused_simps [simp]:
  "refused 0 m = m" "refused a (refused b m) = refused (b + a) m" "mi_sequence (refused n m) = mi_sequence m"
  by (simp_all add: refused_def)

lemma behind_step:
  assumes inv: "sharing_inv sg" and ok: "sharing_ok lib ev sg" and alone: "leaves_alone c ev"
    and c: "c \<in> sg_counted sg" "sg_readers sg c = Some m" and behind: "mi_sequence m < df_sequence (sg_differ sg)"
  shows "c \<in> sg_counted (sharing_step lib ident ev sg) \<and>
     sg_readers (sharing_step lib ident ev sg) c = Some (refused (reaching lib ident c [ev] sg) m) \<and>
     mi_sequence m < df_sequence (sg_differ (sharing_step lib ident ev sg))"
proof (cases ev)
  case (Flushed src reaches)
  obtain out df' where flush: "differ_flush lib ident src (sg_differ sg) = (out, df')" by fastforce
  have v: "wf_view (source_view src)" and wf: "wf_state (df_believed (sg_differ sg))" and c': "carried lib src"
    and below: "unat (df_sequence (sg_differ sg)) < 0xFFFFFFFF"
    using ok inv Flushed ceiling_u32 by (auto simp: sharing_inv_def)
  show ?thesis
  proof (cases out)
    case None
    with flush flush_None(2) [OF _ v wf] c behind Flushed show ?thesis by simp
  next
    case (Some d)
    with flush have fl: "differ_flush lib ident src (sg_differ sg) = (Some d, df')" by simp
    then have d: "gd_seq d = df_sequence (sg_differ sg) + 1" "df_sequence df' = df_sequence (sg_differ sg) + 1" by (auto elim: flush_Some)
    have "gd_seq d \<noteq> mi_sequence m + 1" using behind by (simp add: d(1))
    moreover have "df_sequence (sg_differ sg) < df_sequence df'" using unat_next_u32 [OF below] d(2) by (simp add: word_less_nat_alt)
    ultimately show ?thesis
      using mirror_apply_gap [of d m lib] delta_heard_wf [OF said_delta_wf [OF fl v c']] fl c behind Flushed
      by (auto simp: take_delta_def refused_def)
  qed
qed (use alone c behind in \<open>auto simp: refused_def\<close>)

lemma behind_run:
  assumes "sharing_inv sg" and "run_ok lib ident evs sg" and "\<forall>ev \<in> set evs. leaves_alone c ev"
    and "c \<in> sg_counted sg" "sg_readers sg c = Some m" "mi_sequence m < df_sequence (sg_differ sg)"
  shows "c \<in> sg_counted (sharing_run lib ident evs sg) \<and>
     sg_readers (sharing_run lib ident evs sg) c = Some (refused (reaching lib ident c evs sg) m) \<and>
     mi_sequence m < df_sequence (sg_differ (sharing_run lib ident evs sg))"
  using assms
proof (induction evs arbitrary: sg m)
  case (Cons ev evs)
  let ?sg = "sharing_step lib ident ev sg"
  have ok: "sharing_ok lib ev sg" and alone: "leaves_alone c ev" using Cons.prems(2,3) by simp_all
  note step = behind_step [OF Cons.prems(1) ok alone Cons.prems(4-6), of ident]
  have "sharing_inv ?sg" by (rule sharing_inv_step [OF Cons.prems(1) ok])
  from Cons.IH [OF this, of "refused (reaching lib ident c [ev] sg) m"] Cons.prems(2,3) step
  show ?case by (simp add: sharing_run_def)
qed (simp add: sharing_run_def)

end
