(* ===== verification/Properties_Sync.thy ===== *)
theory Properties_Sync
  imports Samples Sync
begin

text \<open>
  What a client's mirror of a terminal promises while deltas come, get lost and are healed.
\<close>

section \<open>A terminal for the witnesses\<close>

definition sample_status :: terminal_status where
  "sample_status = \<lparr>st_cells = \<lparr>width = 2, height = 1\<rparr>, st_cursor_x = 0, st_cursor_y = 0, st_cursor_shape = 0,
     st_cursor_visible = True, st_cursor_blink = False, st_mouse_reporting = False, st_mouse_sgr = False,
     st_bracketed_paste = True, st_application_cursor_keys = False, st_focus_reporting = False,
     st_alternate_buffer = False, st_alternate_scroll = False, st_mouse_tracking = 0, st_keyboard_flags = 0,
     st_printer_controller = False, st_printer_pending = 0, st_clipboard_serial = 0, st_title = [116]\<rparr>"

text \<open>A screen of two cells, with one line of history, everything of it damaged.\<close>

definition sample_source :: "u8 \<Rightarrow> u8 \<Rightarrow> source" where
  "sample_source a b = \<lparr>src_damaged = True, src_damage = no_damage\<lparr>dm_full := True\<rparr>, src_status = sample_status,
     src_cells = [letter a, letter b], src_scrollback = [letter 120, letter 121], src_diagnostics = [],
     src_rasters = [], src_synchronized = False\<rparr>"

lemma sample_source_view:
  "source_view (sample_source a b) = \<lparr>gv_cells = \<lparr>width = 2, height = 1\<rparr>, gv_grid = [letter a, letter b],
     gv_cursor = default_cursor, gv_modes = 4, gv_title = [116]\<rparr>"
  by (simp add: source_view_def sample_source_def sample_status_def cursor_of_def default_cursor_def modes_of_def
      mode_bit_def mouse_tracking_mask_def keyboard_flags_mask_def clamp_utf8_def max_title_bytes_def)

lemma wf_sample_source [simp]: "wf_view (source_view (sample_source a b))"
  by (simp add: sample_source_view wf_view_def area_eq default_cursor_def)

lemma sample_source_simps [simp]:
  "src_damaged (sample_source a b)" "\<not> flooded (sample_source a b)" "tick_lines (sample_source a b) = []"
  "tick_hints (sample_source a b) = []" "st_cells (src_status (sample_source a b)) = \<lparr>width = 2, height = 1\<rparr>"
  by (simp_all add: sample_source_def no_damage_def flooded_def tick_lines_def tick_hints_def max_history_lines_per_delta_def
      newest_history_lines_def sample_status_def)


lemma sample_source_title: "gv_title (source_view (sample_source a b)) = [116]"
  by (simp add: sample_source_view)






section \<open>One client\<close>





text \<open>The history of a snapshot is the newest lines, none left out in between, and costs on the wire
  exactly what it is said to cost, which is never more than the budget.\<close>

theorem history_fits_budget:
  assumes "fill_history state src budget = (spent, state')"
  defines "past \<equiv> rows_of (nat (max 1 (uint (ts_columns state)))) (src_scrollback src)"
  shows "spent \<le> budget \<and> spent = sum_list (map runs_size (ts_scrollback state')) \<and>
     (\<exists>n \<le> length past. ts_scrollback state' = map to_runs (take_last n past)) \<and>
     state' = state\<lparr>ts_scrollback := ts_scrollback state'\<rparr>"
  using fill_history_newest [OF assms(1)] unfolding past_def by auto

lemma history_fits_budget_witness:
  "fst (fill_history default_terminal_state (sample_source 65 66) 100) \<le> 100 \<and>
   fst (fill_history default_terminal_state (sample_source 65 66) 100)
     = sum_list (map runs_size (ts_scrollback (snd (fill_history default_terminal_state (sample_source 65 66) 100)))) \<and>
   (\<exists>n \<le> length (rows_of (nat (max 1 (uint (ts_columns default_terminal_state)))) (src_scrollback (sample_source 65 66))).
      ts_scrollback (snd (fill_history default_terminal_state (sample_source 65 66) 100))
        = map to_runs (take_last n (rows_of (nat (max 1 (uint (ts_columns default_terminal_state)))) (src_scrollback (sample_source 65 66))))) \<and>
   snd (fill_history default_terminal_state (sample_source 65 66) 100)
     = default_terminal_state\<lparr>ts_scrollback := ts_scrollback (snd (fill_history default_terminal_state (sample_source 65 66) 100))\<rparr>"
  by (rule history_fits_budget [OF prod.collapse [symmetric]])

section \<open>Two clients\<close>

text \<open>Two clients watch one terminal and both are up to date. A snapshot taken for one of them
  restarts the count, so the next delta is good for that one only: the other refuses it and asks
  for a snapshot of its own, which does the same to the first.\<close>

theorem snapshot_for_one_strands_the_other:
  assumes wf: "wf_state (mi_state one)" "wf_state (df_believed df)"
    and snap: "whole_snapshot ident budget src df = (state, df')" and v: "wf_view (source_view src)" "wf_view (source_view src')"
    and flush: "differ_flush lib ident src' df' = (Some d, df'')"
    and heard: "mi_sequence other \<noteq> 0"
  shows "fst (mirror_apply lib d (snd (adopt lib state one))) \<and>
     mirror_apply lib d other = (False, other\<lparr>mi_gaps := mi_gaps other + 1, mi_needs_snapshot := True\<rparr>)"
proof -
  note healed = whole_snapshot_adopted [OF snap v(1)]
  from healed(1) [of lib one] obtain one' where one': "adopt lib state one = (True, one')" "wf_state (mi_state one')"
    "view_of (mi_state one') = source_view src" "mi_sequence one' = 0" by blast
  with healed(2,4) have "agree df' one'" "mi_sequence one' = df_sequence df'" by (simp_all add: agree_def)
  from flush_followed [OF flush v(2) healed(3) one'(2) this] one'(1)
    snapshot_strands_others [OF snap v(1) flush heard] show ?thesis by auto
qed

text \<open>Two clients attached to the sample terminal; the other one has heard a delta.\<close>

definition sample_joined :: "terminal_state \<times> differ" where
  "sample_joined = whole_snapshot 7 0 (sample_source 65 66) differ_new"

lemma sample_joined_differ:
  "snd sample_joined = differ_new\<lparr>df_believed := state_of (source_view (sample_source 65 66))\<rparr>"
  by (simp add: sample_joined_def whole_snapshot_def differ_snapshot_def Let_def differ_new_def)

lemma wf_new: "wf_state (df_believed differ_new)" "wf_state (mi_state mirror_new)"
  by (simp_all add: differ_new_def mirror_new_def no_state_def wf_state_def wf_history_def area_eq scrollback_lines_eq)

definition retitled :: "bytes \<Rightarrow> source \<Rightarrow> source" where
  "retitled title src = src\<lparr>src_status := (src_status src)\<lparr>st_title := title\<rparr>\<rparr>"

lemma retitled_view: "source_view (retitled title src) = (source_view src)\<lparr>gv_title := clamp_utf8 title max_title_bytes\<rparr>"
  by (simp add: source_view_def retitled_def cursor_of_def modes_of_def)

lemma retitled_simps [simp]:
  "src_damaged (retitled title src) = src_damaged src" "tick_lines (retitled title src) = tick_lines src"
  "flooded (retitled title src) = flooded src" "st_cells (src_status (retitled title src)) = st_cells (src_status src)"
  by (simp_all add: retitled_def tick_lines_def newest_history_lines_def flooded_def)

lemma wf_retitled [simp]: "wf_view (source_view (retitled title src)) = wf_view (source_view src)"
  by (simp add: retitled_view wf_view_def)

text \<open>The delta of a tick in which only the title changed since the last snapshot.\<close>

lemma retitled_flush:
  assumes "src_damaged src" and "tick_lines src = []" and "\<not> flooded src" and "wf_view (source_view src)"
    and "df_believed df = state_of (source_view src)" and "\<not> df_diverged df"
    and "clamp_utf8 title max_title_bytes \<noteq> gv_title (source_view src)"
  shows "differ_flush lib ident (retitled title src) df =
     (Some \<lparr>gd_term = ident, gd_seq = df_sequence df + 1, gd_ops = [TitleOp (clamp_utf8 title max_title_bytes)]\<rparr>,
      df\<lparr>df_believed := state_of (source_view (retitled title src)), df_sequence := df_sequence df + 1\<rparr>)"
proof -
  let ?t = "clamp_utf8 title max_title_bytes"
  have d: "diff lib (state_of (source_view src)) (source_view (retitled title src)) [] hints = [TitleOp ?t]" for hints
    using assms(4,7) by (simp add: diff_def state_of_def retitled_view push_ops_def Let_def diff_rows_same wf_view_def)
  have a: "apply_delta lib [TitleOp ?t] (state_of (source_view src)) = (True, state_of (source_view (retitled title src)))"
    using assms(4) by (simp add: apply_delta_def state_of_def retitled_view wf_view_def)
  have "tick_ops lib (retitled title src) (df_believed df) = ([TitleOp ?t], state_of (source_view (retitled title src)))"
    using assms(2,5) by (simp add: tick_ops_def Let_def d a) (simp add: state_of_def)
  with assms show ?thesis by (simp add: differ_flush_eq Let_def)
qed

lemma snapshot_for_one_strands_the_other_witness:
  "fst (mirror_apply sample_library \<lparr>gd_term = 7, gd_seq = 1, gd_ops = [TitleOp [117]]\<rparr>
      (snd (adopt sample_library (fst sample_joined) mirror_new))) \<and>
   mirror_apply sample_library \<lparr>gd_term = 7, gd_seq = 1, gd_ops = [TitleOp [117]]\<rparr> (mirror_new\<lparr>mi_sequence := 3\<rparr>)
     = (False, mirror_new\<lparr>mi_sequence := 3, mi_gaps := 1, mi_needs_snapshot := True\<rparr>)"
proof -
  have "differ_flush sample_library 7 (retitled [117] (sample_source 65 66)) (snd sample_joined) =
     (Some \<lparr>gd_term = 7, gd_seq = 1, gd_ops = [TitleOp [117]]\<rparr>,
      (snd sample_joined)\<lparr>df_believed := state_of (source_view (retitled [117] (sample_source 65 66))), df_sequence := 1\<rparr>)"
    by (subst retitled_flush) (simp_all add: sample_joined_differ sample_source_title clamp_utf8_def max_title_bytes_def differ_new_def)
  from snapshot_for_one_strands_the_other [where budget = 0 and src = "sample_source 65 66" and state = "fst sample_joined"
      and other = "mirror_new\<lparr>mi_sequence := 3\<rparr>", OF wf_new(2,1) _ _ _ this]
  show ?thesis by (simp add: sample_joined_def [symmetric] mirror_new_def)
qed

text \<open>When the other client has heard nothing since its own snapshot the count does not tell: it takes
  the next delta, which was made against what the new client was given, and keeps every cell that
  had changed before that.\<close>

theorem joining_reader_hides_changes:
  assumes snap: "whole_snapshot ident budget src df = (state, df')" and v: "wf_view (source_view src)"
    and quiet: "src_damaged src" "tick_lines src = []" "\<not> flooded src"
    and title: "clamp_utf8 title max_title_bytes \<noteq> gv_title (source_view src)"
    and other: "wf_state (mi_state other)" "mi_sequence other = 0" "gs_grid (mi_state other) \<noteq> src_cells src"
  shows "\<exists>d df'' other'. differ_flush lib ident (retitled title src) df' = (Some d, df'') \<and>
     mirror_apply lib d other = (True, other') \<and> gs_grid (mi_state other') \<noteq> src_cells (retitled title src)"
proof -
  note facts = whole_snapshot_adopted [OF snap v]
  have "df_believed df' = state_of (source_view src)"
    using snap by (auto simp: whole_snapshot_def differ_snapshot_def Let_def)
  from retitled_flush [OF quiet v this facts(6) title, of lib ident] facts(4)
  have flush: "differ_flush lib ident (retitled title src) df' =
     (Some \<lparr>gd_term = ident, gd_seq = 1, gd_ops = [TitleOp (clamp_utf8 title max_title_bytes)]\<rparr>,
      df'\<lparr>df_believed := state_of (source_view (retitled title src)), df_sequence := 1\<rparr>)" by simp
  then show ?thesis
    using other by (simp add: mirror_apply_def apply_delta_def wf_state_def retitled_def)
qed

text \<open>A reader attaches while the screen says AC, another once it says AB.\<close>

definition first_reader :: "terminal_state \<times> differ" where
  "first_reader = whole_snapshot 7 0 (sample_source 65 67) differ_new"

definition first_mirror :: mirror where
  "first_mirror = snd (adopt sample_library (fst first_reader) mirror_new)"

lemma first_mirror_simps:
  "view_of (mi_state first_mirror) = source_view (sample_source 65 67)" "mi_sequence first_mirror = 0"
  "wf_state (mi_state first_mirror)"
proof -
  have "whole_snapshot 7 0 (sample_source 65 67) differ_new = (fst first_reader, snd first_reader)"
    by (simp add: first_reader_def)
  from whole_snapshot_adopted(1) [OF this wf_sample_source, of sample_library mirror_new]
  show "view_of (mi_state first_mirror) = source_view (sample_source 65 67)" "mi_sequence first_mirror = 0"
    "wf_state (mi_state first_mirror)"
    by (auto simp: first_mirror_def)
qed

definition second_reader :: "terminal_state \<times> differ" where
  "second_reader = whole_snapshot 7 0 (sample_source 65 66) (snd first_reader)"

lemma joining_reader_hides_changes_witness:
  "\<exists>d df'' other'. differ_flush sample_library 7 (retitled [117] (sample_source 65 66)) (snd second_reader) = (Some d, df'') \<and>
     mirror_apply sample_library d first_mirror = (True, other') \<and>
     gs_grid (mi_state other') \<noteq> src_cells (retitled [117] (sample_source 65 66))"
proof (rule joining_reader_hides_changes)
  show "whole_snapshot 7 0 (sample_source 65 66) (snd first_reader) = (fst second_reader, snd second_reader)"
    by (simp add: second_reader_def)
  show "gs_grid (mi_state first_mirror) \<noteq> src_cells (sample_source 65 66)"
    using first_mirror_simps(1) by (simp add: view_of_eq) (simp add: sample_source_def)
qed (simp_all add: first_mirror_simps sample_source_title clamp_utf8_def max_title_bytes_def)

end
