(* ===== verification/Properties_Sharing.thy ===== *)
theory Properties_Sharing
  imports Sharing Properties_Sync
begin

text \<open>
  What the readers of one terminal can rely on when they share its differ and every message goes through a frame.
\<close>

section \<open>A shared terminal for the witnesses\<close>



lemma sample_carried [simp]: "carried sample_library (sample_source a b)"
  by (simp add: carried_def sample_source_def)



section \<open>Readers the count is for\<close>









end
