(* ===== verification/Shell.thy ===== *)
theory Shell
  imports Wire_Convert
begin

text \<open>
  What the reader configured (\<open>Settings\<close> of \<^verbatim>\<open>src/src/common/config.hpp\<close>, the values the server
  reads) and the policy that turns it into the program a terminal runs
  (\<^verbatim>\<open>src/src/common/shell.cpp\<close>). What the machine says about itself is a record, as the
  code's \<open>ShellHost\<close> is.
\<close>

section \<open>Text\<close>

text \<open>A literal of the source as the bytes it stands for.\<close>

definition str :: "string \<Rightarrow> bytes" where
  "str s = map (\<lambda>c. word_of_nat (of_char c)) s"

text \<open>\<open>std::to_string\<close> of a number that is not negative.\<close>

fun decimal :: "nat \<Rightarrow> bytes" where
  "decimal n = (if n < 10 then [word_of_nat (48 + n)] else decimal (n div 10) @ [word_of_nat (48 + n mod 10)])"

declare decimal.simps [simp del]

section \<open>Settings\<close>

datatype exit_policy = Exit_Close | Exit_Hold | Exit_Hold_On_Error

datatype sixel_mode = Sixel_Auto | Sixel_Off

datatype capture_mode = Ask | Capture | Off

datatype desktop_policy = Fixed | Fit_Smallest | Fit_Latest

record settings =
  set_shell :: bytes
  set_login_shell :: bool
  set_scrollback :: int
  set_max_terminals :: int
  set_on_exit :: exit_policy
  set_kill_empty_session :: bool
  set_desktop_size :: desktop_policy
  set_term :: bytes
  set_mouse :: bool
  set_alternate_scroll :: bool
  set_sixel :: sixel_mode
  set_sixel_max_megapixels :: int
  set_osc52 :: bool
  set_printer_mode :: capture_mode
  set_ask_cache_bytes :: nat
  set_spool_limit_bytes :: nat
  set_max_fps :: int

definition default_settings :: settings where
  "default_settings = \<lparr>set_shell = [], set_login_shell = True, set_scrollback = 10000, set_max_terminals = 64,
     set_on_exit = Exit_Hold_On_Error, set_kill_empty_session = True, set_desktop_size = Fixed,
     set_term = str ''auto'', set_mouse = True, set_alternate_scroll = True, set_sixel = Sixel_Auto,
     set_sixel_max_megapixels = 64, set_osc52 = True, set_printer_mode = Ask,
     set_ask_cache_bytes = 256 * 1024, set_spool_limit_bytes = 1024 * 1024, set_max_fps = 30\<rparr>"

section \<open>Which shell\<close>

datatype shell_platform = Posix | Windows

record shell_host =
  sh_platform :: shell_platform
  sh_environment :: bytes
  sh_account :: bytes
  sh_system :: bytes
  sh_usable :: "(bytes \<Rightarrow> bool) option"

text \<open>What follows the last separator, or all of it where nothing does.\<close>

definition is_separator :: "shell_platform \<Rightarrow> u8 \<Rightarrow> bool" where
  "is_separator p c \<longleftrightarrow> c = 47 \<or> p = Windows \<and> c = 92"

definition base_name :: "bytes \<Rightarrow> shell_platform \<Rightarrow> bytes" where
  "base_name path p =
     (let tail = rev (takeWhile (\<lambda>c. \<not> is_separator p c) (rev path)) in if tail = [] then path else tail)"

definition folded :: "u8 \<Rightarrow> u8" where
  "folded c = (if 65 \<le> c \<and> c \<le> 90 then c + 32 else c)"

definition ascii_equal :: "bytes \<Rightarrow> bytes \<Rightarrow> bool" where
  "ascii_equal left right \<longleftrightarrow> length left = length right \<and> map folded left = right"

definition usable :: "shell_host \<Rightarrow> bytes \<Rightarrow> bool" where
  "usable host candidate \<longleftrightarrow> candidate \<noteq> [] \<and> (case sh_usable host of None \<Rightarrow> False | Some f \<Rightarrow> f candidate)"

definition resolve_shell :: "shell_host \<Rightarrow> bytes \<Rightarrow> bytes" where
  "resolve_shell host configured =
     (if configured \<noteq> [] \<and> (sh_platform host = Posix \<or> usable host configured) then configured
      else if usable host (sh_environment host) then sh_environment host
      else if sh_platform host = Posix \<and> usable host (sh_account host) then sh_account host
      else if sh_platform host = Posix \<or> usable host (sh_system host) then sh_system host
      else [])"

section \<open>How it is started\<close>

text \<open>\<open>windows_command\<close> holds the command, if there is one, that \<open>cmd\<close> is to run.\<close>

record shell_invocation =
  sl_executable :: bytes
  sl_argv0 :: bytes
  sl_arguments :: "bytes list"
  sl_windows_command :: "bytes option option"

definition no_launch :: "bytes \<Rightarrow> shell_invocation" where
  "no_launch executable = \<lparr>sl_executable = executable, sl_argv0 = [], sl_arguments = [], sl_windows_command = None\<rparr>"

definition shell_launch :: "shell_host \<Rightarrow> bytes \<Rightarrow> bool \<Rightarrow> bytes \<Rightarrow> shell_invocation" where
  "shell_launch host shell login command =
     (let launch = no_launch (resolve_shell host shell)
      in if sl_executable launch = [] then launch
         else if sh_platform host = Windows then
           let name = base_name (sl_executable launch) Windows;
               cmd = ascii_equal name (str ''cmd.exe'') \<or> ascii_equal name (str ''cmd'');
               powershell = ascii_equal name (str ''powershell.exe'') \<or> ascii_equal name (str ''powershell'') \<or>
                            ascii_equal name (str ''pwsh.exe'') \<or> ascii_equal name (str ''pwsh'')
           in if cmd then launch\<lparr>sl_windows_command := Some (if command = [] then None else Some command)\<rparr>
              else if command \<noteq> [] then
                (if powershell
                 then launch\<lparr>sl_arguments := [str ''-NoLogo'', str ''-NoProfile'', str ''-Command'', command]\<rparr>
                 else launch\<lparr>sl_arguments := [str ''-c'', command]\<rparr>)
              else if powershell then launch\<lparr>sl_arguments := [str ''-NoLogo'']\<rparr>
              else launch
         else if command \<noteq> [] then launch\<lparr>sl_arguments := [str ''-c'', command]\<rparr>
         else if \<not> login then launch\<lparr>sl_arguments := [str ''-i'']\<rparr>
         else launch\<lparr>sl_argv0 := str ''-'' @ base_name (sl_executable launch) Posix\<rparr>)"

text \<open>\<open>ProcessLaunchSpec\<close>: a program with its arguments, or the command processor with its command.\<close>

datatype process_program = Program bytes "bytes list" | Command_Processor bytes "bytes option"

record process_spec =
  pl_program :: process_program
  pl_argv0 :: bytes

definition process_launch_spec :: "shell_invocation \<Rightarrow> process_spec" where
  "process_launch_spec launch =
     \<lparr>pl_program = (case sl_windows_command launch of
        Some command \<Rightarrow> Command_Processor (sl_executable launch) command
      | None \<Rightarrow> Program (sl_executable launch) (sl_arguments launch)),
      pl_argv0 = sl_argv0 launch\<rparr>"

section \<open>Which shell, in a sentence\<close>

text \<open>The first candidate that will do, in the order the policy ranks them.\<close>

definition candidates :: "shell_host \<Rightarrow> bytes \<Rightarrow> (bytes \<times> bool) list" where
  "candidates host configured =
     (if sh_platform host = Posix
      then [(configured, configured \<noteq> []), (sh_environment host, usable host (sh_environment host)),
            (sh_account host, usable host (sh_account host)), (sh_system host, True)]
      else [(configured, usable host configured), (sh_environment host, usable host (sh_environment host)),
            (sh_system host, usable host (sh_system host)), ([], True)])"

lemma resolve_shell_first:
  "resolve_shell host configured = fst (hd (filter snd (candidates host configured)))"
  by (cases "sh_platform host")
    (auto simp: resolve_shell_def candidates_def usable_def)

text \<open>A command reaches the shell as one argument, whatever it holds.\<close>

lemma shell_launch_command:
  assumes "command \<noteq> []" and "resolve_shell host shell \<noteq> []"
  shows "sl_windows_command (shell_launch host shell login command) = Some (Some command) \<or>
    sl_windows_command (shell_launch host shell login command) = None \<and>
    last (sl_arguments (shell_launch host shell login command)) = command"
  using assms by (auto simp: shell_launch_def no_launch_def Let_def)

end
