(* ===== verification/Stats.thy ===== *)
theory Stats
  imports Wire_Messages
begin

text \<open>
  The arithmetic of \<^verbatim>\<open>src/src/common/stats.cpp\<close>: what a sample of a terminal's processes becomes on the
  wire, and a rate in parts per thousand that never forms a product wider than its words. What the
  system answers about processes is a record, as ckVision's \<open>ProcessResources\<close> has it.
\<close>

section \<open>Samples and baselines\<close>

datatype resource_state = Res_Unsupported | Res_Available | Res_Partial | Res_Gone | Res_Failed

datatype cpu_scope = Job_Scope | Process_Scope | Other_Scope nat

record process_resources =
  pr_state :: resource_state
  pr_cpu_scope :: cpu_scope
  pr_live :: u32
  pr_unreadable :: u32
  pr_system_error :: u32
  pr_rss :: "u64 option"
  pr_private_rss :: "u64 option"
  pr_cpu_nanos :: "u64 option"

record cpu_baseline =
  cb_cpu_nanos :: u64
  cb_at_nanos :: i64
  cb_scope :: cpu_scope
  cb_primed :: bool

definition baseline_new :: cpu_baseline where
  "baseline_new = \<lparr>cb_cpu_nanos = 0, cb_at_nanos = 0, cb_scope = Process_Scope, cb_primed = False\<rparr>"

section \<open>The rate\<close>

text \<open>One bit of the long division: double the remainder and the fraction, then add the bit's multiple
  of the remainder it started from.\<close>

definition rate_step :: "u64 \<Rightarrow> u64 \<Rightarrow> nat \<Rightarrow> u64 \<times> u32 \<Rightarrow> u64 \<times> u32" where
  "rate_step wall initial place rf =
     (case rf of (remainder, fraction) \<Rightarrow>
        let fraction = fraction * 2;
            (remainder, fraction) =
              (if remainder \<ge> wall - remainder then (remainder - (wall - remainder), fraction + 1)
               else (remainder + remainder, fraction))
        in if (1000 :: nat) AND place \<noteq> 0
           then (if remainder \<ge> wall - initial then (remainder - (wall - initial), fraction + 1)
                 else (remainder + initial, fraction))
           else (remainder, fraction))"

definition cpu_rate :: "u64 \<Rightarrow> u64 \<Rightarrow> u32" where
  "cpu_rate cpu wall =
     (let whole = cpu div wall
      in if whole > 0xFFFFFFFF div 1000 then 0xFFFFFFFF
         else
           let (_, fraction) = fold (rate_step wall (cpu mod wall)) [512, 256, 128, 64, 32, 16, 8, 4, 2, 1] (0, 0);
               result = whole * 1000 + ucast fraction
           in if result > 0xFFFFFFFF then 0xFFFFFFFF else ucast result)"

text \<open>After the leading bits \<open>k\<close> of the multiplier the pair is the quotient and the remainder of \<open>k\<close> times
  the start.\<close>

definition divides_to :: "u64 \<Rightarrow> nat \<Rightarrow> u64 \<times> u32 \<Rightarrow> bool" where
  "divides_to wall n rf \<longleftrightarrow> n = unat (snd rf) * unat wall + unat (fst rf) \<and> fst rf < wall"

text \<open>Both halves of a step: add \<open>d\<close> to the remainder and carry.\<close>

definition carry :: "u64 \<Rightarrow> u64 \<Rightarrow> u64 \<times> u32 \<Rightarrow> u64 \<times> u32" where
  "carry wall d rf = (if fst rf \<ge> wall - d then (fst rf - (wall - d), snd rf + 1) else (fst rf + d, snd rf))"

lemma rate_step_carry:
  "rate_step wall initial place (r, f) =
     (let rf = carry wall r (r, f * 2) in if (1000 :: nat) AND place \<noteq> 0 then carry wall initial rf else rf)"
  by (simp add: rate_step_def carry_def Let_def split: prod.splits)

lemma divides_to_carry:
  assumes "divides_to wall n (r, f)" and "d < wall" and "unat f < 2 ^ 31"
  shows "divides_to wall (n + unat d) (carry wall d (r, f))"
proof -
  have n: "n = unat f * unat wall + unat r" and r: "unat r < unat wall" and d: "unat d < unat wall"
    using assms by (simp_all add: divides_to_def word_less_nat_alt)
  have wd: "unat (wall - d) = unat wall - unat d" using d by (simp add: unat_sub_if_size)
  have f1: "unat (f + 1) = unat f + 1" using assms(3) by (simp add: unat_word_ariths take_bit_nat_eq_self)
  show ?thesis
  proof (cases "wall - d \<le> r")
    case True
    then have le: "unat wall - unat d \<le> unat r" by (simp add: word_le_nat_alt wd)
    then have "unat (r - (wall - d)) = unat r - (unat wall - unat d)" using unat_sub_if_size [of r "wall - d"] by (simp add: wd)
    then show ?thesis using True le n r d f1 by (simp add: divides_to_def carry_def word_less_nat_alt)
  next
    case False
    then have less: "unat r + unat d < unat wall" using d by (simp add: word_le_nat_alt wd)
    moreover have "unat wall < 2 ^ 64" using unsigned_less [of wall] by simp
    ultimately have "unat (r + d) = unat r + unat d" by (simp add: unat_word_ariths take_bit_nat_eq_self)
    then show ?thesis using False less n by (simp add: divides_to_def carry_def word_less_nat_alt)
  qed
qed

lemma divides_to_unique:
  "divides_to wall n (r, f) \<Longrightarrow> unat f = n div unat wall \<and> unat r = n mod unat wall"
  by (auto simp: divides_to_def word_less_nat_alt)

lemma carry_fraction: "unat f < 2 ^ 31 \<Longrightarrow> unat (snd (carry wall d (r, f))) \<le> unat f + 1"
  by (simp add: carry_def unat_word_ariths take_bit_nat_eq_self)

lemma rate_step_divides:
  assumes inv: "divides_to wall (k * unat initial) rf" and less: "initial < wall" and small: "unat (snd rf) < 2 ^ 20"
  shows "divides_to wall ((2 * k + (if (1000 :: nat) AND place \<noteq> 0 then 1 else 0)) * unat initial) (rate_step wall initial place rf)
    \<and> unat (snd (rate_step wall initial place rf)) \<le> 2 * unat (snd rf) + 2"
proof -
  obtain r f where rf: "rf = (r, f)" by (cases rf)
  have f2: "unat (f * 2) = unat f * 2" using small by (simp add: rf unat_word_ariths take_bit_nat_eq_self)
  have r: "r < wall" using inv by (simp add: rf divides_to_def)
  have "2 * k * unat initial = k * unat initial + k * unat initial" by simp
  also have "\<dots> = unat f * 2 * unat wall + unat r + unat r" using inv by (simp add: rf divides_to_def)
  finally have twice: "2 * k * unat initial = unat f * 2 * unat wall + unat r + unat r" .
  then have "divides_to wall (2 * k * unat initial - unat r) (r, f * 2)"
    using r f2 by (simp add: divides_to_def)
  moreover have "unat r \<le> 2 * k * unat initial" using twice by simp
  ultimately have one: "divides_to wall (2 * k * unat initial) (carry wall r (r, f * 2))"
    using divides_to_carry [of wall _ r "f * 2" r] r f2 small by (fastforce simp: rf)
  have b1: "unat (snd (carry wall r (r, f * 2))) \<le> unat f * 2 + 1"
    using carry_fraction [of "f * 2" wall r r] f2 small by (simp add: rf)
  obtain r' f' where c: "carry wall r (r, f * 2) = (r', f')" by fastforce
  have two: "divides_to wall (2 * k * unat initial + unat initial) (carry wall initial (r', f'))"
    using divides_to_carry [of wall _ r' f' initial] one c less b1 small by (simp add: rf)
  have b2: "unat (snd (carry wall initial (r', f'))) \<le> unat f * 2 + 2"
    using carry_fraction [of f' wall initial r'] b1 c small by (simp add: rf)
  show ?thesis using one two b1 b2 by (simp add: rf rate_step_carry c Let_def add_mult_distrib add.commute)
qed

lemma rate_bits:
  assumes "initial < wall"
  shows "divides_to wall (1000 * unat initial)
    (fold (rate_step wall initial) [512, 256, 128, 64, 32, 16, 8, 4, 2, 1] (0, 0))"
proof -
  have start: "divides_to wall (0 * unat initial) (0, 0)" using assms by (auto simp: divides_to_def word_less_nat_alt)
  let ?k = "\<lambda>ps. fold (\<lambda>p k. 2 * k + (if (1000 :: nat) AND p \<noteq> 0 then 1 else 0)) ps (0 :: nat)"
  have "divides_to wall (?k ps * unat initial) (fold (rate_step wall initial) ps (0, 0)) \<and>
      unat (snd (fold (rate_step wall initial) ps (0, 0))) + 2 \<le> 2 ^ (Suc (length ps))" if "length ps \<le> 18" for ps
    using that
  proof (induction ps rule: rev_induct)
    case (snoc p ps)
    then have "divides_to wall (?k ps * unat initial) (fold (rate_step wall initial) ps (0, 0))"
      and b: "unat (snd (fold (rate_step wall initial) ps (0, 0))) + 2 \<le> 2 ^ (Suc (length ps))" by auto
    moreover have "(2 :: nat) ^ (Suc (length ps)) \<le> 2 ^ 18" using snoc.prems by (intro power_increasing) auto
    ultimately show ?case
      using rate_step_divides [of wall "?k ps" initial "fold (rate_step wall initial) ps (0, 0)" p] assms by auto
  qed (use start in simp)
  from this [of "[512, 256, 128, 64, 32, 16, 8, 4, 2, 1]"] show ?thesis by simp
qed

text \<open>The rate is the exact quotient, cut at the largest number its field holds.\<close>

lemma cpu_rate_exact:
  assumes "wall \<noteq> 0"
  shows "unat (cpu_rate cpu wall) = min (unat cpu * 1000 div unat wall) 0xFFFFFFFF"
proof -
  let ?w = "unat wall" and ?whole = "cpu div wall" and ?i = "cpu mod wall"
  have w: "0 < ?w" using assms by (simp add: unat_gt_0)
  have i: "?i < wall" using assms by (simp add: word_less_nat_alt unat_mod w)
  have split: "unat cpu * 1000 div ?w = unat ?whole * 1000 + 1000 * unat ?i div ?w"
  proof -
    have "unat cpu = unat ?whole * ?w + unat ?i" by (simp add: unat_div unat_mod)
    then have "unat cpu * 1000 = 1000 * unat ?i + unat ?whole * 1000 * ?w" by simp
    then show ?thesis using w by simp
  qed
  obtain r f where rf: "fold (rate_step wall ?i) [512, 256, 128, 64, 32, 16, 8, 4, 2, 1] (0, 0) = (r, f)" by fastforce
  have f: "unat f = 1000 * unat ?i div ?w" using divides_to_unique rate_bits [OF i] rf by metis
  have "1000 * unat ?i div ?w < 1000"
    using i w by (intro less_mult_imp_div_less) (simp add: word_less_nat_alt)
  then have f1000: "unat f < 1000" using f by simp
  show ?thesis
  proof (cases "?whole > 0xFFFFFFFF div 1000")
    case True
    then have "unat ?whole \<ge> 4294968" by (simp add: word_less_nat_alt)
    then have "unat cpu * 1000 div ?w \<ge> 0xFFFFFFFF" using split by simp
    then show ?thesis using True by (simp add: cpu_rate_def)
  next
    case False
    then have small: "unat ?whole \<le> 4294967" by (simp add: word_less_nat_alt)
    have "unat (ucast f :: u64) = unat f" using f1000 by (simp add: unsigned_ucast_eq take_bit_nat_eq_self)
    then have r: "unat (?whole * 1000 + ucast f) = unat cpu * 1000 div ?w"
      using small f1000 f split by (simp add: unat_word_ariths take_bit_nat_eq_self)
    have "cpu_rate cpu wall = (if ?whole * 1000 + ucast f > 0xFFFFFFFF then 0xFFFFFFFF else ucast (?whole * 1000 + ucast f))"
      unfolding cpu_rate_def Let_def if_not_P [OF False] rf prod.case by (rule refl)
    with r show ?thesis
      by (auto simp: word_less_nat_alt unsigned_ucast_eq take_bit_nat_eq_self min_def)
  qed
qed

section \<open>A sample on the wire\<close>

definition flag_has_real :: u8 where "flag_has_real = 1"
definition flag_alive :: u8 where "flag_alive = 2"
definition flag_has_cpu :: u8 where "flag_has_cpu = 4"
definition flag_has_rss :: u8 where "flag_has_rss = 8"

definition no_stats :: "u64 \<Rightarrow> term_stats" where
  "no_stats ident = \<lparr>tst_term = ident, tst_cpu_permille = 0, tst_rss_bytes = 0, tst_real_bytes = 0, tst_flags = 0,
     tst_state = Stats_Gone, tst_cpu_scope = Live_Process_Tree, tst_real_kind = Platform_Cost,
     tst_live_processes = 0, tst_unreadable_processes = 0, tst_system_error = 0\<rparr>"

primrec stats_state_of :: "resource_state \<Rightarrow> term_stats_state" where
  "stats_state_of Res_Unsupported = Stats_Unsupported"
| "stats_state_of Res_Available = Stats_Available"
| "stats_state_of Res_Partial = Stats_Partial"
| "stats_state_of Res_Gone = Stats_Gone"
| "stats_state_of Res_Failed = Stats_Failed"

text \<open>The processor time of the sample against the baseline, and the baseline after it.\<close>

definition measure_cpu :: "process_resources \<Rightarrow> i64 \<Rightarrow> cpu_baseline \<Rightarrow> term_stats \<Rightarrow> term_stats \<times> cpu_baseline" where
  "measure_cpu sample now baseline stats =
     (case pr_cpu_nanos sample of
       None \<Rightarrow> (stats, baseline\<lparr>cb_primed := False\<rparr>)
     | Some nanos \<Rightarrow>
         ((if cb_primed baseline \<and> cb_scope baseline = pr_cpu_scope sample \<and> sint now > sint (cb_at_nanos baseline)
              \<and> nanos \<ge> cb_cpu_nanos baseline
           then stats\<lparr>tst_cpu_permille := cpu_rate (nanos - cb_cpu_nanos baseline) (now - cb_at_nanos baseline),
                      tst_flags := tst_flags stats OR flag_has_cpu\<rparr>
           else stats),
          \<lparr>cb_cpu_nanos = nanos, cb_at_nanos = now, cb_scope = pr_cpu_scope sample, cb_primed = True\<rparr>))"

definition make_term_stats :: "process_resources \<Rightarrow> cpu_baseline \<Rightarrow> i64 \<Rightarrow> u64 \<Rightarrow> u64 option \<Rightarrow> term_stats \<times> cpu_baseline" where
  "make_term_stats sample baseline now ident platform_cost =
     (let stats = (no_stats ident)
            \<lparr>tst_state := stats_state_of (pr_state sample),
             tst_cpu_scope := (if pr_cpu_scope sample = Job_Scope then Owned_Job_Lifetime else Live_Process_Tree),
             tst_live_processes := pr_live sample,
             tst_unreadable_processes := pr_unreadable sample,
             tst_system_error := pr_system_error sample\<rparr>
      in if pr_state sample = Res_Available \<and> pr_live sample = 0 \<and> pr_unreadable sample = 0
         then (stats\<lparr>tst_state := Stats_Gone\<rparr>, baseline\<lparr>cb_primed := False\<rparr>)
         else if pr_state sample \<noteq> Res_Available \<and> pr_state sample \<noteq> Res_Partial
         then (stats, baseline\<lparr>cb_primed := False\<rparr>)
         else
           let stats = (if pr_live sample \<noteq> 0 \<or> pr_unreadable sample \<noteq> 0
                        then stats\<lparr>tst_flags := tst_flags stats OR flag_alive\<rparr> else stats);
               stats = (case pr_rss sample of None \<Rightarrow> stats
                        | Some rss \<Rightarrow> stats\<lparr>tst_rss_bytes := rss, tst_flags := tst_flags stats OR flag_has_rss\<rparr>);
               real = (if pr_private_rss sample \<noteq> None then pr_private_rss sample else platform_cost);
               stats = (case real of None \<Rightarrow> stats
                        | Some bytes \<Rightarrow> stats\<lparr>tst_real_bytes := bytes,
                            tst_real_kind := (if pr_private_rss sample \<noteq> None then Private_Resident else Platform_Cost),
                            tst_flags := tst_flags stats OR flag_has_real\<rparr>)
           in measure_cpu sample now baseline stats)"

text \<open>A rate is stated only over an interval: two samples of one scope, time gone forward and the counter
  not gone back. Then it is the exact quotient, signed clock or not.\<close>

lemma sint_diff_unat: "sint (b :: i64) < sint a \<Longrightarrow> int (unat (a - b)) = sint a - sint b"
proof -
  assume less: "sint b < sint a"
  have "- (2 ^ 63) \<le> sint b" "sint a < 2 ^ 63"
    using sint_greater_eq [of b] sint_less [of a] by simp_all
  then have "0 \<le> sint a - sint b" "sint a - sint b < 2 ^ 64" using less by auto
  moreover have "uint (a - b) = (sint a - sint b) mod 2 ^ 64"
  proof -
    have "a - b = word_of_int (sint a - sint b)" by simp
    moreover have "uint (word_of_int (sint a - sint b) :: i64) = (sint a - sint b) mod 2 ^ 64"
      by (simp only: uint_word_of_int) simp
    ultimately show ?thesis by (simp only:)
  qed
  ultimately have "uint (a - b) = sint a - sint b" by simp
  then show ?thesis by simp
qed

end
