(* ===== verification/Terminals.thy ===== *)
theory Terminals
  imports Differ Shell Stats
begin

text \<open>
  The terminals a server owns: \<^verbatim>\<open>src/src/server/terminals.cpp\<close> and its header. The emulator behind a
  terminal (ckVision's \<open>TerminalSubsession\<close>, its child and the machine it runs on) is a type of its
  own; what it does is a record of functions that every operation takes as its first argument.
\<close>

named_theorems same_id "an operation leaves a terminal its id"

section \<open>The emulator\<close>

datatype lifecycle = Life_Starting | Life_Ready | Life_Running | Life_Exited | Life_Failed

text \<open>\<open>TerminalDamage\<close>, the flags the differ does not read.\<close>

record news =
  nw_lifecycle :: bool
  nw_bell :: bool
  nw_clipboard :: bool
  nw_printer :: bool
  nw_diagnostics :: bool

datatype job_origin = From_Screen | From_Line | From_Controller | From_Autoprint

record printed_job =
  pj_origin :: job_origin
  pj_text :: bytes
  pj_overflowed :: bool

datatype printer_policy = Policy_Deny | Policy_Capture

datatype clipboard_policy = Clipboard_Allow_Write | Clipboard_Deny

record launch_spec =
  ls_process :: process_spec
  ls_working_directory :: bytes
  ls_environment :: "(bytes \<times> bytes) list"
  ls_cells :: extent
  ls_cell_pixels :: "extent option"
  ls_stores_metadata :: bool
  ls_mouse_reporting :: bool
  ls_alternate_scroll :: bool
  ls_sixel :: bool
  ls_clipboard_policy :: clipboard_policy
  ls_printer_policy :: printer_policy
  ls_terminate_after_grace :: bool

record subsession_options =
  so_max_scrollback_lines :: nat
  so_max_image_pixels :: nat
  so_max_printer_spool_bytes :: nat
  so_max_output_bytes :: nat
  so_max_parser_work :: nat

record 'e emulator =
  em_lib :: ckvision
  em_host :: shell_host
  em_launch :: "launch_spec \<Rightarrow> subsession_options \<Rightarrow> 'e"
  em_state :: "'e \<Rightarrow> lifecycle"
  em_exit_code :: "'e \<Rightarrow> i32"
  em_source :: "'e \<Rightarrow> source"
  em_news :: "'e \<Rightarrow> news"
  em_printer_sunk :: "'e \<Rightarrow> bool"
  em_clipboard_text :: "'e \<Rightarrow> bytes"
  em_send_input :: "bytes \<Rightarrow> 'e \<Rightarrow> 'e"
  em_take_pending_input :: "'e \<Rightarrow> bytes \<times> 'e"
  em_drain :: "nat \<Rightarrow> 'e \<Rightarrow> bool \<times> 'e"
  em_resize :: "extent \<Rightarrow> extent \<Rightarrow> 'e \<Rightarrow> 'e"
  em_request_termination :: "'e \<Rightarrow> 'e"
  em_request_kill :: "'e \<Rightarrow> 'e"
  em_close :: "'e \<Rightarrow> 'e"
  em_clear_damage :: "'e \<Rightarrow> 'e"
  em_set_printer_policy :: "printer_policy \<Rightarrow> 'e \<Rightarrow> 'e"
  em_set_printer_spool_limit :: "nat \<Rightarrow> 'e \<Rightarrow> 'e"
  em_take_printer_jobs :: "'e \<Rightarrow> printed_job list \<times> 'e"
  em_sample :: "'e \<Rightarrow> process_resources \<times> u64 option"

section \<open>What a terminal is opened with\<close>

record terminal_spec =
  tsp_command :: bytes
  tsp_working_directory :: bytes
  tsp_environment :: "(bytes \<times> bytes) list"
  tsp_columns :: int
  tsp_rows :: int
  tsp_pixel_width :: int
  tsp_pixel_height :: int
  tsp_host_sixel :: bool

definition default_spec :: terminal_spec where
  "default_spec = \<lparr>tsp_command = [], tsp_working_directory = [], tsp_environment = [], tsp_columns = 80, tsp_rows = 24,
     tsp_pixel_width = 0, tsp_pixel_height = 0, tsp_host_sixel = True\<rparr>"

definition child_environment :: "settings \<Rightarrow> (bytes \<times> bytes) list" where
  "child_environment st =
     [(str ''TERM'', if set_term st = str ''auto'' then str ''xterm-256color'' else set_term st),
      (str ''COLORTERM'', str ''truecolor''), (str ''TERM_PROGRAM'', str ''ckmux'')]"

definition subsession_options_for :: "settings \<Rightarrow> subsession_options" where
  "subsession_options_for st =
     \<lparr>so_max_scrollback_lines = nat (max 0 (set_scrollback st)),
      so_max_image_pixels = nat (max 1 (set_sixel_max_megapixels st)) * 1024 * 1024,
      so_max_printer_spool_bytes = set_spool_limit_bytes st,
      so_max_output_bytes = 2 ^ 20, so_max_parser_work = 128 * 2 ^ 10\<rparr>"

definition launch_spec_for :: "shell_host \<Rightarrow> settings \<Rightarrow> terminal_spec \<Rightarrow> launch_spec" where
  "launch_spec_for host st spec =
     \<lparr>ls_process = process_launch_spec (shell_launch host (set_shell st) (set_login_shell st) (tsp_command spec)),
      ls_working_directory = (if tsp_working_directory spec = [] then str ''/'' else tsp_working_directory spec),
      ls_environment = (if tsp_environment spec = [] then child_environment st else tsp_environment spec),
      ls_cells = \<lparr>width = max 1 (tsp_columns spec), height = max 1 (tsp_rows spec)\<rparr>,
      ls_cell_pixels =
        (if tsp_pixel_width spec > 0 \<and> tsp_pixel_height spec > 0
         then Some \<lparr>width = tsp_pixel_width spec div max 1 (tsp_columns spec),
                    height = tsp_pixel_height spec div max 1 (tsp_rows spec)\<rparr>
         else None),
      ls_stores_metadata = True,
      ls_mouse_reporting = set_mouse st,
      ls_alternate_scroll = set_alternate_scroll st,
      ls_sixel = (set_sixel st = Sixel_Auto \<and> tsp_host_sixel spec),
      ls_clipboard_policy = (if set_osc52 st then Clipboard_Allow_Write else Clipboard_Deny),
      ls_printer_policy = (if set_printer_mode st = Off then Policy_Deny else Policy_Capture),
      ls_terminate_after_grace = True\<rparr>"

section \<open>One terminal\<close>

record window_layout =
  wl_rect :: wire_rect
  wl_z_order :: u16
  wl_zoomed :: bool
  wl_tile :: tile_fraction

definition no_layout :: window_layout where
  "no_layout = \<lparr>wl_rect = \<lparr>rect_x = 0, rect_y = 0, rect_width = 0, rect_height = 0\<rparr>, wl_z_order = 0, wl_zoomed = False,
     wl_tile = \<lparr>tile_x = 0, tile_y = 0, tile_width = 0, tile_height = 0\<rparr>\<rparr>"

record printer_override =
  po_mode :: "capture_mode option"
  po_ask_cache :: "u32 option"
  po_spool_limit :: "u32 option"

definition no_override :: printer_override where
  "no_override = \<lparr>po_mode = None, po_ask_cache = None, po_spool_limit = None\<rparr>"

record held_job =
  hj_id :: u64
  hj_kind :: print_job_kind
  hj_text :: bytes
  hj_lines :: u32
  hj_at :: i64
  hj_overflowed :: bool

record 'e terminal =
  t_id :: u64
  t_session :: 'e
  t_columns :: int
  t_rows :: int
  t_pixel_width :: int
  t_pixel_height :: int
  t_spec :: terminal_spec
  t_exit_status :: "i32 option"
  t_closed :: bool
  t_exit_announced :: bool
  t_bell_marked :: bool
  t_activity_marked :: bool
  t_resized_by_client :: bool
  t_marks_announced :: bool
  t_bell_serial :: u32
  t_activity_serial :: u32
  t_layout :: window_layout
  t_layout_announced :: bool
  t_custom_title :: bytes
  t_printer :: printer_override
  t_printer_news :: bool
  t_jobs :: "held_job list"
  t_next_job_id :: u64
  t_custom_title_announced :: bool

definition terminal_new :: "u64 \<Rightarrow> 'e \<Rightarrow> terminal_spec \<Rightarrow> 'e terminal" where
  "terminal_new ident session spec =
     \<lparr>t_id = ident, t_session = session, t_columns = max 1 (tsp_columns spec), t_rows = max 1 (tsp_rows spec),
      t_pixel_width = max 0 (tsp_pixel_width spec), t_pixel_height = max 0 (tsp_pixel_height spec), t_spec = spec,
      t_exit_status = None, t_closed = False, t_exit_announced = False, t_bell_marked = False,
      t_activity_marked = False, t_resized_by_client = False, t_marks_announced = True, t_bell_serial = 0,
      t_activity_serial = 0, t_layout = no_layout, t_layout_announced = True, t_custom_title = [],
      t_printer = no_override, t_printer_news = False, t_jobs = [], t_next_job_id = 1,
      t_custom_title_announced = True\<rparr>"

definition respawn_spec :: "'e terminal \<Rightarrow> terminal_spec" where
  "respawn_spec t = (t_spec t)\<lparr>tsp_columns := t_columns t, tsp_rows := t_rows t,
     tsp_pixel_width := t_pixel_width t, tsp_pixel_height := t_pixel_height t\<rparr>"

definition relaunch :: "'e \<Rightarrow> 'e terminal \<Rightarrow> 'e terminal" where
  "relaunch session t = t\<lparr>t_session := session, t_exit_status := None, t_exit_announced := False, t_closed := False,
     t_bell_marked := False, t_activity_marked := False, t_marks_announced := True\<rparr>"

definition cell_pixels :: "'e terminal \<Rightarrow> extent" where
  "cell_pixels t =
     (if t_pixel_width t \<le> 0 \<or> t_pixel_height t \<le> 0 then \<lparr>width = 0, height = 0\<rparr>
      else \<lparr>width = t_pixel_width t div max 1 (t_columns t), height = t_pixel_height t div max 1 (t_rows t)\<rparr>)"

definition terminal_resize :: "'e emulator \<Rightarrow> int \<Rightarrow> int \<Rightarrow> int \<Rightarrow> int \<Rightarrow> 'e terminal \<Rightarrow> 'e terminal" where
  "terminal_resize em columns rows pixel_width pixel_height t =
     (let t = t\<lparr>t_resized_by_client := True, t_columns := max 1 columns, t_rows := max 1 rows\<rparr>;
          t = (if pixel_width > 0 \<and> pixel_height > 0
               then t\<lparr>t_pixel_width := pixel_width, t_pixel_height := pixel_height\<rparr> else t)
      in t\<lparr>t_session := em_resize em \<lparr>width = t_columns t, height = t_rows t\<rparr> (cell_pixels t) (t_session t)\<rparr>)"

definition live :: "'e emulator \<Rightarrow> 'e terminal \<Rightarrow> bool" where
  "live em t \<longleftrightarrow> em_state em (t_session t) = Life_Ready \<or> em_state em (t_session t) = Life_Running"

definition observe_exit :: "'e emulator \<Rightarrow> 'e terminal \<Rightarrow> 'e terminal" where
  "observe_exit em t =
     (if t_exit_status t \<noteq> None then t
      else if em_state em (t_session t) \<noteq> Life_Exited then t
      else t\<lparr>t_exit_status := Some (em_exit_code em (t_session t))\<rparr>)"

definition mark_bell :: "'e terminal \<Rightarrow> 'e terminal" where
  "mark_bell t = (if t_bell_marked t then t else t\<lparr>t_bell_marked := True, t_marks_announced := False\<rparr>)"

definition mark_activity :: "'e terminal \<Rightarrow> 'e terminal" where
  "mark_activity t = (if t_activity_marked t then t else t\<lparr>t_activity_marked := True, t_marks_announced := False\<rparr>)"

definition clear_marks :: "'e terminal \<Rightarrow> 'e terminal" where
  "clear_marks t =
     (if \<not> t_bell_marked t \<and> \<not> t_activity_marked t then t
      else t\<lparr>t_bell_marked := False, t_activity_marked := False, t_marks_announced := False\<rparr>)"

definition count_bell :: "'e terminal \<Rightarrow> 'e terminal" where
  "count_bell t = t\<lparr>t_bell_serial := t_bell_serial t + 1, t_marks_announced := False\<rparr>"

definition count_activity :: "'e terminal \<Rightarrow> 'e terminal" where
  "count_activity t = t\<lparr>t_activity_serial := t_activity_serial t + 1\<rparr>"

definition set_layout :: "window_layout \<Rightarrow> 'e terminal \<Rightarrow> 'e terminal" where
  "set_layout layout t = (if t_layout t = layout then t else t\<lparr>t_layout := layout, t_layout_announced := False\<rparr>)"

definition set_custom_title :: "bytes \<Rightarrow> 'e terminal \<Rightarrow> 'e terminal" where
  "set_custom_title title t =
     (let kept = clamp_utf8 title max_title_bytes
      in if t_custom_title t = kept then t
         else t\<lparr>t_custom_title := kept, t_custom_title_announced := False\<rparr>)"

subsection \<open>The virtual printer\<close>

primrec wire_job_kind :: "job_origin \<Rightarrow> print_job_kind" where
  "wire_job_kind From_Screen = Job_Screen"
| "wire_job_kind From_Line = Job_Line"
| "wire_job_kind From_Controller = Job_Controller"
| "wire_job_kind From_Autoprint = Job_Autoprint"

definition count_lines :: "bytes \<Rightarrow> u32" where
  "count_lines text =
     (if text = [] then 0
      else
        let lines = fold (\<lambda>c n. if c = 10 then n + 1 else n) text 1
        in if last text = 10 then lines - 1 else lines)"

definition hold_job :: "i64 \<Rightarrow> printed_job \<Rightarrow> u64 list \<times> 'e terminal \<Rightarrow> u64 list \<times> 'e terminal" where
  "hold_job now job st =
     (case st of (added, t) \<Rightarrow>
        (added @ [t_next_job_id t],
         t\<lparr>t_next_job_id := t_next_job_id t + 1,
           t_jobs := t_jobs t @ [\<lparr>hj_id = t_next_job_id t, hj_kind = wire_job_kind (pj_origin job), hj_text = pj_text job,
             hj_lines = count_lines (pj_text job), hj_at = now, hj_overflowed = pj_overflowed job\<rparr>]\<rparr>))"

definition collect_print_jobs :: "'e emulator \<Rightarrow> i64 \<Rightarrow> 'e terminal \<Rightarrow> u64 list \<times> 'e terminal" where
  "collect_print_jobs em now t =
     (case em_take_printer_jobs em (t_session t) of
       (jobs, session) \<Rightarrow> fold (hold_job now) jobs ([], t\<lparr>t_session := session\<rparr>))"

definition print_job :: "u64 \<Rightarrow> 'e terminal \<Rightarrow> held_job option" where
  "print_job ident t = find (\<lambda>job. hj_id job = ident) (t_jobs t)"

text \<open>Erases the first element that satisfies \<open>P\<close>, as \<open>erase(find_if(...))\<close> does.\<close>

fun erase_first :: "('a \<Rightarrow> bool) \<Rightarrow> 'a list \<Rightarrow> 'a list" where
  "erase_first P [] = []"
| "erase_first P (x # xs) = (if P x then xs else x # erase_first P xs)"

definition discard_print_jobs :: "u64 \<Rightarrow> 'e terminal \<Rightarrow> bool \<times> 'e terminal" where
  "discard_print_jobs ident t =
     (if ident = 0 then (if t_jobs t = [] then (False, t) else (True, t\<lparr>t_jobs := []\<rparr>))
      else if print_job ident t = None then (False, t)
      else (True, t\<lparr>t_jobs := erase_first (\<lambda>job. hj_id job = ident) (t_jobs t)\<rparr>))"

subsection \<open>The child\<close>

definition send_input :: "'e emulator \<Rightarrow> bytes \<Rightarrow> 'e terminal \<Rightarrow> 'e terminal" where
  "send_input em bs t = t\<lparr>t_session := em_send_input em bs (t_session t)\<rparr>"

definition flush_replies_to_child :: "'e emulator \<Rightarrow> 'e terminal \<Rightarrow> 'e terminal" where
  "flush_replies_to_child em t =
     (case em_take_pending_input em (t_session t) of
       (replies, session) \<Rightarrow>
         if replies = [] then t\<lparr>t_session := session\<rparr>
         else t\<lparr>t_session := em_send_input em replies session\<rparr>)"

definition request_termination :: "'e emulator \<Rightarrow> 'e terminal \<Rightarrow> 'e terminal" where
  "request_termination em t = t\<lparr>t_session := em_request_termination em (t_session t)\<rparr>"

definition request_kill :: "'e emulator \<Rightarrow> 'e terminal \<Rightarrow> 'e terminal" where
  "request_kill em t = t\<lparr>t_session := em_request_kill em (t_session t)\<rparr>"

definition terminal_close :: "'e emulator \<Rightarrow> 'e terminal \<Rightarrow> 'e terminal" where
  "terminal_close em t = (if t_closed t then t else t\<lparr>t_closed := True, t_session := em_close em (t_session t)\<rparr>)"

section \<open>Every terminal\<close>

text \<open>\<open>tms_ended\<close> holds, after it has been closed and erased, each child as it was left: the code destroys it there.\<close>

record 'e terminals =
  tms_settings :: settings
  tms_list :: "'e terminal list"
  tms_next_id :: u64
  tms_cursor :: nat
  tms_ended :: "'e terminal list"

definition terminals_new :: "settings \<Rightarrow> 'e terminals" where
  "terminals_new st = \<lparr>tms_settings = st, tms_list = [], tms_next_id = 1, tms_cursor = 0, tms_ended = []\<rparr>"

definition find_terminal :: "u64 \<Rightarrow> 'e terminals \<Rightarrow> 'e terminal option" where
  "find_terminal ident tms = find (\<lambda>t. t_id t = ident) (tms_list tms)"

definition terminal_ids :: "'e terminals \<Rightarrow> u64 list" where
  "terminal_ids tms = map t_id (tms_list tms)"

text \<open>What is done through the pointer \<open>find\<close> returned, to the first terminal of that id.\<close>

fun update_first :: "('a \<Rightarrow> bool) \<Rightarrow> ('a \<Rightarrow> 'a) \<Rightarrow> 'a list \<Rightarrow> 'a list" where
  "update_first P f [] = []"
| "update_first P f (x # xs) = (if P x then f x # xs else x # update_first P f xs)"

definition on_terminal :: "u64 \<Rightarrow> ('e terminal \<Rightarrow> 'e terminal) \<Rightarrow> 'e terminals \<Rightarrow> 'e terminals" where
  "on_terminal ident f tms = tms\<lparr>tms_list := update_first (\<lambda>t. t_id t = ident) f (tms_list tms)\<rparr>"

definition terminals_open :: "'e emulator \<Rightarrow> terminal_spec \<Rightarrow> 'e terminals \<Rightarrow> u64 \<times> 'e terminals" where
  "terminals_open em spec tms =
     (let session = em_launch em (launch_spec_for (em_host em) (tms_settings tms) spec)
                      (subsession_options_for (tms_settings tms))
      in (tms_next_id tms,
          tms\<lparr>tms_list := tms_list tms @ [terminal_new (tms_next_id tms) session spec],
              tms_next_id := tms_next_id tms + 1\<rparr>))"

definition terminals_respawn :: "'e emulator \<Rightarrow> u64 \<Rightarrow> 'e terminals \<Rightarrow> bool \<times> 'e terminals" where
  "terminals_respawn em ident tms =
     (case find_terminal ident tms of
       None \<Rightarrow> (False, tms)
     | Some t \<Rightarrow>
         if live em t then (False, tms)
         else (True, on_terminal ident (relaunch (em_launch em
                (launch_spec_for (em_host em) (tms_settings tms) (respawn_spec t))
                (subsession_options_for (tms_settings tms)))) tms))"

definition minimum_drain_share :: nat where "minimum_drain_share = 4 * 1024"

text \<open>One terminal's turn: what it read, its exit, what it owes its child.\<close>

definition drain_one :: "'e emulator \<Rightarrow> nat \<Rightarrow> 'e terminal \<Rightarrow> bool \<times> 'e terminal" where
  "drain_one em share t =
     (case em_drain em share (t_session t) of
       (worked, session) \<Rightarrow>
         (worked, flush_replies_to_child em (observe_exit em (t\<lparr>t_session := session\<rparr>))))"

definition drain_step :: "'e emulator \<Rightarrow> nat \<Rightarrow> nat \<Rightarrow> nat \<times> 'e terminals \<Rightarrow> nat \<times> 'e terminals" where
  "drain_step em share index st =
     (case st of (worked, tms) \<Rightarrow>
        (case drain_one em share (tms_list tms ! index) of
          (w, t) \<Rightarrow> (if w then worked + 1 else worked, tms\<lparr>tms_list := (tms_list tms)[index := t]\<rparr>)))"

definition drain_order :: "nat \<Rightarrow> nat \<Rightarrow> nat list" where
  "drain_order start count = map (\<lambda>step. (start + step) mod count) [0..<count]"

definition terminals_drain :: "'e emulator \<Rightarrow> nat \<Rightarrow> 'e terminals \<Rightarrow> nat \<times> 'e terminals" where
  "terminals_drain em budget tms =
     (let count = length (tms_list tms)
      in if count = 0 then (0, tms)
         else
           let share = max minimum_drain_share (budget div count);
               start = tms_cursor tms mod count
           in fold (drain_step em share) (drain_order start count) (0, tms\<lparr>tms_cursor := (start + 1) mod count\<rparr>))"

definition terminals_close :: "'e emulator \<Rightarrow> u64 \<Rightarrow> 'e terminals \<Rightarrow> bool \<times> 'e terminals" where
  "terminals_close em ident tms =
     (case find_terminal ident tms of
       None \<Rightarrow> (False, tms)
     | Some t \<Rightarrow> (True, tms\<lparr>tms_list := erase_first (\<lambda>t. t_id t = ident) (tms_list tms),
                           tms_ended := tms_ended tms @ [terminal_close em t]\<rparr>))"

definition close_all :: "'e emulator \<Rightarrow> 'e terminals \<Rightarrow> 'e terminals" where
  "close_all em tms =
     tms\<lparr>tms_list := [],
         tms_ended := tms_ended tms @ map (\<lambda>t. terminal_close em (request_termination em t)) (tms_list tms)\<rparr>"

section \<open>Looking up and updating\<close>

lemma same_id_operations [same_id, simp]:
  "t_id (relaunch session t) = t_id t"
  "t_id (terminal_resize em a b c d t) = t_id t"
  "t_id (observe_exit em t) = t_id t"
  "t_id (mark_bell t) = t_id t"
  "t_id (mark_activity t) = t_id t"
  "t_id (clear_marks t) = t_id t"
  "t_id (count_bell t) = t_id t"
  "t_id (count_activity t) = t_id t"
  "t_id (set_layout layout t) = t_id t"
  "t_id (set_custom_title title t) = t_id t"
  "t_id (snd (discard_print_jobs ident t)) = t_id t"
  "t_id (send_input em bs t) = t_id t"
  "t_id (flush_replies_to_child em t) = t_id t"
  "t_id (request_termination em t) = t_id t"
  "t_id (request_kill em t) = t_id t"
  "t_id (terminal_close em t) = t_id t"
  "t_id (terminal_new ident session spec) = ident"
  by (simp_all add: relaunch_def terminal_resize_def observe_exit_def mark_bell_def mark_activity_def clear_marks_def
      count_bell_def count_activity_def set_layout_def set_custom_title_def discard_print_jobs_def send_input_def
      flush_replies_to_child_def request_termination_def request_kill_def terminal_close_def terminal_new_def
      Let_def split: prod.split)

lemma hold_job_id: "t_id (snd (hold_job now job st)) = t_id (snd st)"
  by (simp add: hold_job_def split: prod.split)

lemma same_id_collect [same_id, simp]: "t_id (snd (collect_print_jobs em now t)) = t_id t"
proof -
  have "t_id (snd (fold (hold_job now) jobs st)) = t_id (snd st)" for jobs and st :: "u64 list \<times> 'a terminal"
    by (induction jobs arbitrary: st) (simp_all add: hold_job_id)
  then show ?thesis by (simp add: collect_print_jobs_def split: prod.split)
qed

lemma same_id_drain_one [same_id, simp]: "t_id (snd (drain_one em share t)) = t_id t"
  by (simp add: drain_one_def split: prod.split)

lemma map_update_first:
  "(\<And>x. P x \<Longrightarrow> g (f x) = g x) \<Longrightarrow> map g (update_first P f xs) = map g xs"
  by (induction xs) auto

lemma length_update_first [simp]: "length (update_first P f xs) = length xs"
  by (induction xs) auto

lemma find_update_first:
  "(\<And>x. P (f x) = P x) \<Longrightarrow> find P (update_first P f xs) = map_option f (find P xs)"
  by (induction xs) auto

lemma find_update_first_other:
  "(\<And>x. P x \<Longrightarrow> \<not> Q x \<and> \<not> Q (f x)) \<Longrightarrow> find Q (update_first P f xs) = find Q xs"
  by (induction xs) auto

lemma terminal_ids_on [simp]:
  "(\<And>t. t_id (f t) = t_id t) \<Longrightarrow> terminal_ids (on_terminal ident f tms) = terminal_ids tms"
  by (simp add: terminal_ids_def on_terminal_def map_update_first)

lemma on_terminal_fields [simp]:
  "tms_settings (on_terminal ident f tms) = tms_settings tms"
  "tms_next_id (on_terminal ident f tms) = tms_next_id tms"
  "tms_ended (on_terminal ident f tms) = tms_ended tms"
  by (simp_all add: on_terminal_def)

lemma find_on_terminal:
  "(\<And>t. t_id (f t) = t_id t) \<Longrightarrow>
     find_terminal i (on_terminal j f tms) = (if i = j then map_option f (find_terminal i tms) else find_terminal i tms)"
  by (auto simp: find_terminal_def on_terminal_def find_update_first find_update_first_other)

lemma find_terminal_iff: "(find_terminal i tms = None) = (i \<notin> set (terminal_ids tms))"
  by (auto simp: find_terminal_def terminal_ids_def find_None_iff)

lemma find_terminal_id: "find_terminal i tms = Some t \<Longrightarrow> t_id t = i"
  by (auto simp: find_terminal_def find_Some_iff)

lemma map_erase_first:
  "map g (erase_first (\<lambda>x. g x = k) xs) = remove1 k (map g xs)"
  by (induction xs) auto

lemma terminals_close_ids:
  "terminal_ids (snd (terminals_close em i tms)) = remove1 i (terminal_ids tms)"
proof (cases "find_terminal i tms")
  case None
  then have "i \<notin> set (terminal_ids tms)" by (simp add: find_terminal_iff)
  with None show ?thesis by (simp add: terminals_close_def remove1_idem)
qed (simp add: terminals_close_def terminal_ids_def map_erase_first)

lemma terminals_open_ids:
  "terminal_ids (snd (terminals_open em spec tms)) = terminal_ids tms @ [tms_next_id tms]"
  "fst (terminals_open em spec tms) = tms_next_id tms"
  "tms_next_id (snd (terminals_open em spec tms)) = tms_next_id tms + 1"
  by (simp_all add: terminals_open_def terminal_ids_def Let_def)

lemma terminals_respawn_ids [simp]:
  "terminal_ids (snd (terminals_respawn em i tms)) = terminal_ids tms"
  "tms_next_id (snd (terminals_respawn em i tms)) = tms_next_id tms"
  by (simp_all add: terminals_respawn_def split: option.split)

lemma terminals_close_fields [simp]:
  "tms_next_id (snd (terminals_close em i tms)) = tms_next_id tms"
  "tms_settings (snd (terminals_close em i tms)) = tms_settings tms"
  by (simp_all add: terminals_close_def split: option.split)

end
