(* ===== verification/Stream_Queue.thy ===== *)
theory Stream_Queue
  imports Prelude "HOL-Library.Sublist"
begin

text \<open>
  The outgoing queue and the reading side of one connection: \<open>Stream\<close> of
  \<^verbatim>\<open>src/src/platform/socket.cpp\<close>. What the kernel answers to each \<open>send\<close> and \<open>read\<close> is a list that the
  state holds and every call consumes; an exhausted list is a kernel that would block.
\<close>

section \<open>The state\<close>

datatype write_answer = Wrote nat | Write_Interrupted | Write_Blocks | Write_Error

datatype read_answer = Read_Bytes bytes | Read_Closed | Read_Interrupted | Read_Blocks | Read_Error

record stream =
  sk_open :: bool
  sk_pending :: bytes
  sk_sent :: nat
  sk_failed :: bool
  sk_answers :: "write_answer list"
  sk_incoming :: "read_answer list"
  sk_peer :: bytes

definition high_water_bytes :: nat where "high_water_bytes = 4 * 1024 * 1024"
definition delta_backlog_bytes :: nat where "delta_backlog_bytes = 256 * 1024"
definition hard_limit_bytes :: nat where "hard_limit_bytes = 32 * 1024 * 1024"

definition stream_new :: "write_answer list \<Rightarrow> read_answer list \<Rightarrow> stream" where
  "stream_new answers incoming = \<lparr>sk_open = True, sk_pending = [], sk_sent = 0, sk_failed = False,
     sk_answers = answers, sk_incoming = incoming, sk_peer = []\<rparr>"

definition queued :: "stream \<Rightarrow> nat" where
  "queued s = length (sk_pending s) - sk_sent s"

definition over_high_water :: "stream \<Rightarrow> bool" where
  "over_high_water s \<longleftrightarrow> queued s > high_water_bytes"

definition ready_for_screen :: "stream \<Rightarrow> bool" where
  "ready_for_screen s \<longleftrightarrow> \<not> queued s > delta_backlog_bytes"

definition wants_write :: "stream \<Rightarrow> bool" where
  "wants_write s \<longleftrightarrow> queued s > 0"

section \<open>Writing\<close>

text \<open>One write: the bytes it takes move from what is unsent to what the peer has.\<close>

definition wrote :: "nat \<Rightarrow> stream \<Rightarrow> stream" where
  "wrote k s = s\<lparr>sk_peer := sk_peer s @ take k (drop (sk_sent s) (sk_pending s)), sk_sent := sk_sent s + k\<rparr>"

text \<open>The write loop: whether it ended without an error. A kernel takes no more than it is offered, and
  taking nothing without saying why counts as an error.\<close>

fun write_loop :: "write_answer list \<Rightarrow> stream \<Rightarrow> bool \<times> stream" where
  "write_loop [] s = (True, s\<lparr>sk_answers := []\<rparr>)"
| "write_loop (a # as) s =
     (if \<not> sk_sent s < length (sk_pending s) then (True, s\<lparr>sk_answers := a # as\<rparr>)
      else case a of
        Wrote n \<Rightarrow>
          (let k = min n (length (sk_pending s) - sk_sent s)
           in if k > 0
              then write_loop as (wrote k s)
              else (False, s\<lparr>sk_answers := as, sk_failed := True, sk_pending := [], sk_sent := 0\<rparr>))
      | Write_Interrupted \<Rightarrow> write_loop as s
      | Write_Blocks \<Rightarrow> (True, s\<lparr>sk_answers := as\<rparr>)
      | Write_Error \<Rightarrow> (False, s\<lparr>sk_answers := as, sk_failed := True, sk_pending := [], sk_sent := 0\<rparr>))"

text \<open>The dead prefix is dropped once it is worth dropping.\<close>

definition reclaim :: "stream \<Rightarrow> stream" where
  "reclaim s =
     (if sk_sent s = length (sk_pending s) then s\<lparr>sk_pending := [], sk_sent := 0\<rparr>
      else if sk_sent s > 2 ^ 16 \<and> sk_sent s * 2 > length (sk_pending s)
      then s\<lparr>sk_pending := drop (sk_sent s) (sk_pending s), sk_sent := 0\<rparr>
      else s)"

definition stream_flush :: "stream \<Rightarrow> bool \<times> stream" where
  "stream_flush s =
     (if \<not> sk_open s \<or> sk_failed s then (False, s)
      else case write_loop (sk_answers s) s of
             (False, s) \<Rightarrow> (False, s)
           | (True, s) \<Rightarrow> (True, reclaim s))"

definition stream_send :: "bytes \<Rightarrow> stream \<Rightarrow> bool \<times> stream" where
  "stream_send bs s =
     (if \<not> sk_open s \<or> sk_failed s then (False, s)
      else case stream_flush (s\<lparr>sk_pending := sk_pending s @ bs\<rparr>) of
             (False, s) \<Rightarrow> (False, s)
           | (True, s) \<Rightarrow> (\<not> over_high_water s, s))"

definition stream_close :: "stream \<Rightarrow> stream" where
  "stream_close s = s\<lparr>sk_open := False, sk_pending := [], sk_sent := 0, sk_failed := False\<rparr>"

section \<open>Reading\<close>

text \<open>What is appended and whether the peer is still there; a connection that has been closed has none.\<close>

fun read_loop :: "nat \<Rightarrow> read_answer list \<Rightarrow> bytes \<Rightarrow> bytes \<times> bool \<times> read_answer list" where
  "read_loop budget [] into = (into, True, [])"
| "read_loop budget (a # as) into =
     (if budget = 0 then (into, True, a # as)
      else case a of
        Read_Bytes bs \<Rightarrow>
          (let count = min (length bs) (min budget (64 * 1024))
           in if count = 0 then (into, False, as)
              else read_loop (budget - count) (if count < length bs then Read_Bytes (drop count bs) # as else as)
                     (into @ take count bs))
      | Read_Closed \<Rightarrow> (into, False, as)
      | Read_Interrupted \<Rightarrow> read_loop budget as into
      | Read_Blocks \<Rightarrow> (into, True, as)
      | Read_Error \<Rightarrow> (into, False, as))"

definition stream_receive :: "stream \<Rightarrow> bytes \<times> bool \<times> stream" where
  "stream_receive s =
     (if \<not> sk_open s then ([], False, s)
      else case read_loop (1024 * 1024) (sk_incoming s) [] of (bs, alive, rest) \<Rightarrow> (bs, alive, s\<lparr>sk_incoming := rest\<rparr>))"

section \<open>What was said and what went out\<close>

definition unsent :: "stream \<Rightarrow> bytes" where
  "unsent s = drop (sk_sent s) (sk_pending s)"

definition stream_sound :: "stream \<Rightarrow> bool" where
  "stream_sound s \<longleftrightarrow> sk_sent s \<le> length (sk_pending s)"

text \<open>The dead prefix of a queue at rest is never more than 64 KiB or what is still to be sent.\<close>

definition stream_lean :: "stream \<Rightarrow> bool" where
  "stream_lean s \<longleftrightarrow> sk_sent s \<le> 2 ^ 16 \<or> sk_sent s * 2 \<le> length (sk_pending s)"

lemma length_unsent: "length (unsent s) = queued s"
  by (simp add: unsent_def queued_def)

lemma wrote_keeps:
  "sk_peer (wrote k s) @ unsent (wrote k s) = sk_peer s @ unsent s"
  "prefix (sk_peer s) (sk_peer (wrote k s))"
  "sk_open (wrote k s) = sk_open s" "sk_failed (wrote k s) = sk_failed s"
  "stream_sound s \<Longrightarrow> stream_sound (wrote (min n (length (sk_pending s) - sk_sent s)) s)"
proof -
  have "take k (unsent s) @ drop k (unsent s) = unsent s" by (rule append_take_drop_id)
  then show "sk_peer (wrote k s) @ unsent (wrote k s) = sk_peer s @ unsent s"
    by (simp add: wrote_def unsent_def add.commute [of "sk_sent s"])
qed (simp_all add: wrote_def stream_sound_def)

definition write_kept :: "stream \<Rightarrow> bool \<Rightarrow> stream \<Rightarrow> bool" where
  "write_kept s ok s' \<longleftrightarrow> stream_sound s' \<and> sk_open s' = sk_open s \<and> prefix (sk_peer s) (sk_peer s') \<and>
     (if ok then sk_peer s' @ unsent s' = sk_peer s @ unsent s \<and> sk_failed s' = sk_failed s
      else sk_failed s' \<and> prefix (sk_peer s') (sk_peer s @ unsent s))"

lemma write_kept_step: "write_kept (wrote k s) ok s' \<Longrightarrow> write_kept s ok s'"
  unfolding write_kept_def using wrote_keeps(1-4) [where k = k and s = s] by (auto intro: prefix_order.trans)

lemma write_loop_keeps:
  "stream_sound s \<Longrightarrow> write_loop as s = (ok, s') \<Longrightarrow> write_kept s ok s'"
proof (induction as arbitrary: s)
  case Nil
  then show ?case by (auto simp: write_kept_def stream_sound_def unsent_def)
next
  case (Cons a as)
  show ?case
  proof (cases "sk_sent s < length (sk_pending s)")
    case False
    with Cons.prems show ?thesis by (auto simp: write_kept_def stream_sound_def unsent_def)
  next
    case True
    show ?thesis
    proof (cases a)
      case (Wrote n)
      let ?k = "min n (length (sk_pending s) - sk_sent s)"
      show ?thesis
      proof (cases "0 < ?k")
        case k: True
        have "write_loop as (wrote ?k s) = (ok, s')"
          using Cons.prems(2) True k unfolding Wrote by (simp add: Let_def)
        from Cons.IH [OF wrote_keeps(5) [OF Cons.prems(1)] this] show ?thesis by (rule write_kept_step)
      next
        case False
        with Cons.prems True Wrote show ?thesis
          by (auto simp: Let_def write_kept_def stream_sound_def unsent_def)
      qed
    next
      case Write_Interrupted
      with Cons.prems True have "write_loop as s = (ok, s')" by simp
      with Cons.IH Cons.prems(1) show ?thesis by blast
    next
      case Write_Blocks
      with Cons.prems True show ?thesis by (auto simp: write_kept_def stream_sound_def unsent_def)
    next
      case Write_Error
      with Cons.prems True show ?thesis by (auto simp: write_kept_def stream_sound_def unsent_def)
    qed
  qed
qed

lemma reclaim_keeps:
  "stream_sound s \<Longrightarrow> stream_sound (reclaim s) \<and> stream_lean (reclaim s) \<and> unsent (reclaim s) = unsent s \<and>
     sk_peer (reclaim s) = sk_peer s \<and> sk_failed (reclaim s) = sk_failed s \<and> sk_open (reclaim s) = sk_open s"
  by (auto simp: reclaim_def stream_sound_def stream_lean_def unsent_def)

lemma stream_flush_keeps:
  assumes "stream_flush s = (ok, s')" and "stream_sound s"
  shows "stream_sound s' \<and> sk_open s' = sk_open s \<and>
     (if ok then sk_peer s' @ unsent s' = sk_peer s @ unsent s \<and> \<not> sk_failed s' \<and> stream_lean s'
      else (\<not> sk_open s \<or> sk_failed s') \<and> prefix (sk_peer s') (sk_peer s @ unsent s))"
proof (cases "sk_open s \<and> \<not> sk_failed s")
  case True
  obtain ok' s'' where w: "write_loop (sk_answers s) s = (ok', s'')" by fastforce
  show ?thesis
    using write_loop_keeps [OF assms(2) w, unfolded write_kept_def] assms(1) True reclaim_keeps [of s'']
    by (auto simp: stream_flush_def w split: bool.splits)
next
  case False
  with assms show ?thesis by (auto simp: stream_flush_def)
qed

lemma stream_send_keeps:
  assumes "stream_send bs s = (ok, s')" and "stream_sound s"
  shows "stream_sound s' \<and> sk_open s' = sk_open s \<and>
     (if sk_open s \<and> \<not> sk_failed s' then sk_peer s' @ unsent s' = sk_peer s @ unsent s @ bs \<and> stream_lean s' \<and> \<not> sk_failed s
      else prefix (sk_peer s') (sk_peer s @ unsent s @ bs))"
proof (cases "sk_open s \<and> \<not> sk_failed s")
  case True
  let ?s = "s\<lparr>sk_pending := sk_pending s @ bs\<rparr>"
  obtain ok' s'' where f: "stream_flush ?s = (ok', s'')" by fastforce
  have "stream_sound ?s" "unsent ?s = unsent s @ bs" using assms(2) by (simp_all add: stream_sound_def unsent_def)
  with stream_flush_keeps [OF f] assms(1) True f show ?thesis by (auto simp: stream_send_def split: bool.splits)
next
  case False
  with assms show ?thesis by (auto simp: stream_send_def)
qed

section \<open>A queue that its kernel may break\<close>

text \<open>What the users of a connection rely on: \<open>push\<close> says something more, \<open>pump\<close> lets the kernel take some
  of it, \<open>out\<close> is what has gone, \<open>left\<close> what waits; once broken, nothing more goes out.\<close>

locale outbox =
  fixes push :: "'b list \<Rightarrow> 's \<Rightarrow> 's" and pump :: "'s \<Rightarrow> 's" and out :: "'s \<Rightarrow> 'b list"
    and left :: "'s \<Rightarrow> 'b list" and broken :: "'s \<Rightarrow> bool" and good :: "'s \<Rightarrow> bool"
  assumes push_good: "good s \<Longrightarrow> good (push b s)"
    and pump_good: "good s \<Longrightarrow> good (pump s)"
    and push_whole: "good s \<Longrightarrow> \<not> broken (push b s) \<Longrightarrow> \<not> broken s \<and> out (push b s) @ left (push b s) = out s @ left s @ b"
    and pump_whole: "good s \<Longrightarrow> \<not> broken (pump s) \<Longrightarrow> \<not> broken s \<and> out (pump s) @ left (pump s) = out s @ left s"
    and push_some: "good s \<Longrightarrow> \<not> broken s \<Longrightarrow> prefix (out (push b s)) (out s @ left s @ b)"
    and pump_some: "good s \<Longrightarrow> \<not> broken s \<Longrightarrow> prefix (out (pump s)) (out s @ left s)"
    and push_dead: "broken s \<Longrightarrow> out (push b s) = out s \<and> broken (push b s)"
    and pump_dead: "broken s \<Longrightarrow> out (pump s) = out s \<and> broken (pump s)"
begin

text \<open>A run says some things and pumps between them.\<close>

fun act :: "'b list option \<Rightarrow> 's \<Rightarrow> 's" where
  "act (Some b) s = push b s"
| "act None s = pump s"

definition words :: "'b list option list \<Rightarrow> 'b list" where
  "words es = concat (map (\<lambda>e. case e of Some b \<Rightarrow> b | None \<Rightarrow> []) es)"

definition faithful :: "'b list \<Rightarrow> 's \<Rightarrow> bool" where
  "faithful said s \<longleftrightarrow> good s \<and> prefix (out s) said \<and> (broken s \<or> out s @ left s = said)"

lemma faithful_act: "faithful said s \<Longrightarrow> faithful (said @ words [e]) (act e s)"
  unfolding faithful_def words_def
  by (cases e; cases "broken s"; cases "broken (act e s)")
    (auto simp: push_good pump_good push_dead pump_dead
      dest: push_whole pump_whole push_some pump_some intro: prefix_prefix)

lemma faithful_run: "faithful said s \<Longrightarrow> faithful (said @ words es) (fold act es s)"
proof (induction es arbitrary: said s)
  case Nil
  then show ?case by (simp add: words_def)
next
  case (Cons e es)
  from Cons.IH [OF faithful_act [OF Cons.prems, of e]] show ?case by (simp add: words_def)
qed

end

definition stream_broken :: "stream \<Rightarrow> bool" where
  "stream_broken s \<longleftrightarrow> \<not> sk_open s \<or> sk_failed s"

lemma send_snd_keeps:
  assumes "stream_sound s"
  shows "stream_sound (snd (stream_send bs s))" "sk_open (snd (stream_send bs s)) = sk_open s"
    "\<not> stream_broken (snd (stream_send bs s)) \<Longrightarrow>
       \<not> stream_broken s \<and> sk_peer (snd (stream_send bs s)) @ unsent (snd (stream_send bs s)) = sk_peer s @ unsent s @ bs"
    "\<not> stream_broken (snd (stream_send bs s)) \<Longrightarrow> stream_lean (snd (stream_send bs s))"
    "\<not> stream_broken s \<Longrightarrow> prefix (sk_peer (snd (stream_send bs s))) (sk_peer s @ unsent s @ bs)"
proof -
  obtain ok s' where f: "stream_send bs s = (ok, s')" by fastforce
  note k = stream_send_keeps [OF f assms]
  show "stream_sound (snd (stream_send bs s))" "sk_open (snd (stream_send bs s)) = sk_open s"
    using k f by auto
  show "\<not> stream_broken (snd (stream_send bs s)) \<Longrightarrow>
       \<not> stream_broken s \<and> sk_peer (snd (stream_send bs s)) @ unsent (snd (stream_send bs s)) = sk_peer s @ unsent s @ bs"
    "\<not> stream_broken (snd (stream_send bs s)) \<Longrightarrow> stream_lean (snd (stream_send bs s))"
    using k f by (auto simp: stream_broken_def split: if_splits)
  show "\<not> stream_broken s \<Longrightarrow> prefix (sk_peer (snd (stream_send bs s))) (sk_peer s @ unsent s @ bs)"
    using k f by (auto split: if_splits) (metis append.assoc prefixI)
qed

lemma flush_snd_keeps:
  assumes "stream_sound s"
  shows "stream_sound (snd (stream_flush s))" "sk_open (snd (stream_flush s)) = sk_open s"
    "\<not> stream_broken (snd (stream_flush s)) \<Longrightarrow>
       \<not> stream_broken s \<and> sk_peer (snd (stream_flush s)) @ unsent (snd (stream_flush s)) = sk_peer s @ unsent s"
    "\<not> stream_broken (snd (stream_flush s)) \<Longrightarrow> stream_lean (snd (stream_flush s))"
    "\<not> stream_broken s \<Longrightarrow> prefix (sk_peer (snd (stream_flush s))) (sk_peer s @ unsent s)"
proof -
  obtain ok s' where f: "stream_flush s = (ok, s')" by fastforce
  note k = stream_flush_keeps [OF f assms]
  have dead: "stream_broken s \<Longrightarrow> \<not> ok \<and> s' = s" using f by (auto simp: stream_flush_def stream_broken_def)
  show "stream_sound (snd (stream_flush s))" "sk_open (snd (stream_flush s)) = sk_open s"
    using k f by auto
  show "\<not> stream_broken (snd (stream_flush s)) \<Longrightarrow>
       \<not> stream_broken s \<and> sk_peer (snd (stream_flush s)) @ unsent (snd (stream_flush s)) = sk_peer s @ unsent s"
    "\<not> stream_broken (snd (stream_flush s)) \<Longrightarrow> stream_lean (snd (stream_flush s))"
    using k f dead by (auto simp: stream_broken_def split: if_splits)
  have "prefix (sk_peer s') (sk_peer s @ unsent s)"
  proof (cases ok)
    case True
    then have "sk_peer s @ unsent s = sk_peer s' @ unsent s'" using k by simp
    then show ?thesis by (rule prefixI)
  qed (use k in simp)
  then show "\<not> stream_broken s \<Longrightarrow> prefix (sk_peer (snd (stream_flush s))) (sk_peer s @ unsent s)"
    using f by simp
qed

lemma broken_stays:
  "stream_broken s \<Longrightarrow> snd (stream_send bs s) = s" "stream_broken s \<Longrightarrow> snd (stream_flush s) = s"
  by (auto simp: stream_broken_def stream_send_def stream_flush_def)

interpretation wire: outbox "\<lambda>b s. snd (stream_send b s)" "\<lambda>s. snd (stream_flush s)" sk_peer unsent
  stream_broken stream_sound
  by unfold_locales
    (erule send_snd_keeps flush_snd_keeps | erule (1) send_snd_keeps flush_snd_keeps | simp add: broken_stays)+

section \<open>A kernel that goes on taking empties the queue\<close>

fun takes_some :: "write_answer \<Rightarrow> bool" where
  "takes_some (Wrote n) = (n > 0)"
| "takes_some _ = False"

definition patient :: "write_answer list \<Rightarrow> bool" where
  "patient as \<longleftrightarrow> list_all (\<lambda>a. a \<noteq> Write_Error \<and> a \<noteq> Wrote 0) as"

text \<open>How much of the future a state still holds: its bytes against the writes that will take some.\<close>

definition will_empty :: "stream \<Rightarrow> bool" where
  "will_empty s \<longleftrightarrow> sk_open s \<and> \<not> sk_failed s \<and> stream_sound s \<and> patient (sk_answers s) \<and>
     queued s \<le> length (filter takes_some (sk_answers s))"

definition stalls :: "stream \<Rightarrow> nat" where
  "stalls s = length (filter (\<lambda>a. a = Write_Blocks) (sk_answers s))"

lemma will_empty_wrote:
  assumes "will_empty (s\<lparr>sk_answers := Wrote n # as\<rparr>)" and "sk_sent s < length (sk_pending s)"
  shows "0 < min n (length (sk_pending s) - sk_sent s)"
    and "will_empty (wrote (min n (length (sk_pending s) - sk_sent s)) s\<lparr>sk_answers := as\<rparr>)"
  using assms by (auto simp: will_empty_def patient_def stream_sound_def queued_def wrote_def)

lemma write_loop_empties:
  "will_empty (s\<lparr>sk_answers := as\<rparr>) \<Longrightarrow> write_loop as s = (ok, s') \<Longrightarrow>
     ok \<and> will_empty s' \<and> (queued s' = 0 \<or> stalls s' < stalls (s\<lparr>sk_answers := as\<rparr>))"
proof (induction as arbitrary: s)
  case Nil
  then show ?case by (auto simp: will_empty_def queued_def stream_sound_def patient_def)
next
  case (Cons a as)
  show ?case
  proof (cases "sk_sent s < length (sk_pending s)")
    case False
    with Cons.prems show ?thesis by (auto simp: queued_def)
  next
    case True
    show ?thesis
    proof (cases a)
      case (Wrote n)
      note w = will_empty_wrote [OF Cons.prems(1) [unfolded Wrote] True]
      have "write_loop as (wrote (min n (length (sk_pending s) - sk_sent s)) s) = (ok, s')"
        using Cons.prems(2) True w(1) unfolding Wrote by (simp add: Let_def)
      from Cons.IH [OF w(2) this] show ?thesis by (simp add: stalls_def Wrote)
    next
      case Write_Interrupted
      with Cons.prems True have "write_loop as s = (ok, s')" "will_empty (s\<lparr>sk_answers := as\<rparr>)"
        by (simp_all add: will_empty_def queued_def stream_sound_def patient_def)
      from Cons.IH [OF this(2,1)] show ?thesis by (simp add: stalls_def Write_Interrupted)
    next
      case Write_Blocks
      with Cons.prems True show ?thesis
        by (auto simp: stalls_def will_empty_def queued_def stream_sound_def patient_def)
    next
      case Write_Error
      with Cons.prems True show ?thesis by (simp add: will_empty_def patient_def)
    qed
  qed
qed

lemma reclaim_empties:
  "will_empty s \<Longrightarrow> will_empty (reclaim s) \<and> queued (reclaim s) = queued s \<and> stalls (reclaim s) = stalls s"
  by (auto simp: reclaim_def will_empty_def queued_def stream_sound_def stalls_def)

lemma flush_empties:
  assumes "will_empty s"
  shows "will_empty (snd (stream_flush s)) \<and>
    (queued (snd (stream_flush s)) = 0 \<or> stalls (snd (stream_flush s)) < stalls s)"
proof -
  obtain ok s' where w: "write_loop (sk_answers s) s = (ok, s')" by fastforce
  have "will_empty (s\<lparr>sk_answers := sk_answers s\<rparr>)" using assms by simp
  from write_loop_empties [OF this w] reclaim_empties [of s'] assms show ?thesis
    by (auto simp: stream_flush_def w will_empty_def)
qed

lemma flush_stays_empty:
  assumes "will_empty s" and "queued s = 0"
  shows "queued (snd (stream_flush s)) = 0"
proof -
  have "\<not> sk_sent s < length (sk_pending s)" using assms(2) by (simp add: queued_def)
  moreover then have "queued (reclaim s) = 0" by (simp add: reclaim_def queued_def)
  ultimately show ?thesis using assms
    by (cases "sk_answers s") (auto simp: stream_flush_def will_empty_def reclaim_def queued_def)
qed

lemma flushes_empty:
  "will_empty s \<Longrightarrow> queued s = 0 \<or> stalls s < n \<Longrightarrow> queued (((\<lambda>s. snd (stream_flush s)) ^^ n) s) = 0"
proof (induction n arbitrary: s)
  case (Suc n)
  let ?s = "snd (stream_flush s)"
  have "queued ?s = 0 \<or> stalls ?s < n"
    using flush_empties [OF Suc.prems(1)] flush_stays_empty [OF Suc.prems(1)] Suc.prems(2) by auto
  with Suc.IH [of ?s] flush_empties [OF Suc.prems(1)] show ?case by (simp add: funpow_Suc_right del: funpow.simps)
qed simp

end
