(* ===== verification/Server_State.thy ===== *)
theory Server_State
  imports Terminals Stream_Queue Wire_Stream
begin

text \<open>
  What a server holds (\<^verbatim>\<open>src/src/server/server.hpp\<close>) and the small questions it asks of it
  (\<^verbatim>\<open>src/src/server/server.cpp\<close>). A \<open>Client&\<close>, \<open>Session&\<close> or \<open>Terminal&\<close> of the code is the id of what
  it refers to.
\<close>

section \<open>Sessions\<close>

record session =
  se_id :: u64
  se_name :: bytes
  se_terminals :: "u64 list"
  se_last_focused :: u64
  se_desktop :: extent
  se_printer :: printer_override

definition no_extent :: extent where
  "no_extent = \<lparr>width = 0, height = 0\<rparr>"

section \<open>Clients\<close>

text \<open>A byte of the wire read as a mode, where it is one.\<close>

definition mode_of_byte :: "u8 \<Rightarrow> attach_mode option" where
  "mode_of_byte b = (if b = 0 then Some Take_Over else if b = 1 then Some Join else if b = 2 then Some Watch else None)"

record owed_image =
  oi_message :: message
  oi_image :: u64
  oi_begins :: bool

text \<open>\<open>cl_said\<close> is what the client was sent, for the theorems only: the code keeps the bytes in the stream.\<close>

record client =
  cl_id :: u64
  cl_stream :: stream
  cl_reader :: frame_reader
  cl_greeted :: bool
  cl_kind :: client_kind
  cl_awaiting_removal :: u64
  cl_awaiting_kill :: bool
  cl_kill_deadline :: int
  cl_attached :: bool
  cl_session :: u64
  cl_mode :: attach_mode
  cl_desktop :: extent
  cl_cell_pixels :: extent
  cl_host_sixel :: bool
  cl_focused :: u64
  cl_dirty :: bool
  cl_owed :: "owed_image list"
  cl_owed_sent :: nat
  cl_draining_heal :: bool
  cl_closing :: bool
  cl_watch_stats :: bool
  cl_dead_announced :: "u64 set"
  cl_said :: "message list"

definition client_new :: "u64 \<Rightarrow> stream \<Rightarrow> client" where
  "client_new ident stream =
     \<lparr>cl_id = ident, cl_stream = stream, cl_reader = fr_new, cl_greeted = False, cl_kind = Ui, cl_awaiting_removal = 0,
      cl_awaiting_kill = False, cl_kill_deadline = 0, cl_attached = False, cl_session = 0, cl_mode = Take_Over,
      cl_desktop = no_extent, cl_cell_pixels = no_extent, cl_host_sixel = False, cl_focused = 0, cl_dirty = False,
      cl_owed = [], cl_owed_sent = 0, cl_draining_heal = False, cl_closing = False, cl_watch_stats = False,
      cl_dead_announced = {}, cl_said = []\<rparr>"

definition watching :: "client \<Rightarrow> bool" where
  "watching c \<longleftrightarrow> cl_mode c = Watch"

section \<open>What is on its way\<close>

record paste_slot =
  slot_owner :: u64
  slot_waiting :: "(u64 \<times> paste_chunk) list"

record pending_kill =
  pk_session :: u64
  pk_deadline :: int
  pk_force :: bool
  pk_kill_deadline :: int
  pk_killed :: bool

record pending_close =
  pc_terminal :: u64
  pc_deadline :: int
  pc_force :: bool
  pc_kill_deadline :: int
  pc_killed :: bool

section \<open>The server\<close>

text \<open>The paste slots, an unordered map of the code, are listed in the order they were made.\<close>

record 'e server =
  sv_settings :: settings
  sv_working_directory :: bytes
  sv_clients :: "client list"
  sv_next_client :: u64
  sv_paste_slots :: "(u64 \<times> paste_slot) list"
  sv_terminals :: "'e terminals"
  sv_diffs :: diff_engine
  sv_next_tick :: int
  sv_baselines :: "u64 \<rightharpoonup> cpu_baseline"
  sv_next_stats :: int
  sv_stats_were_running :: bool
  sv_stats_passes :: nat
  sv_sessions :: "session list"
  sv_kills :: "pending_kill list"
  sv_closes :: "pending_close list"
  sv_next_session :: u64
  sv_accept_paused_until :: int
  sv_poll_failures :: nat
  sv_session_existed :: bool
  sv_list_dirty :: bool
  sv_running :: bool

definition server_new :: "settings \<Rightarrow> bytes \<Rightarrow> int \<Rightarrow> 'e server" where
  "server_new st directory now =
     \<lparr>sv_settings = st, sv_working_directory = directory, sv_clients = [], sv_next_client = 1, sv_paste_slots = [],
      sv_terminals = terminals_new st, sv_diffs = engine_new, sv_next_tick = now, sv_baselines = Map.empty,
      sv_next_stats = 0, sv_stats_were_running = False, sv_stats_passes = 0, sv_sessions = [], sv_kills = [],
      sv_closes = [], sv_next_session = 1, sv_accept_paused_until = 0, sv_poll_failures = 0,
      sv_session_existed = False, sv_list_dirty = False, sv_running = True\<rparr>"

subsection \<open>References\<close>

definition find_client :: "u64 \<Rightarrow> 'e server \<Rightarrow> client option" where
  "find_client ident s = find (\<lambda>c. cl_id c = ident) (sv_clients s)"

text \<open>The client a reference stands for; the code has no reference to a client that is not there.\<close>

definition the_client :: "u64 \<Rightarrow> 'e server \<Rightarrow> client" where
  "the_client ident s = (case find_client ident s of Some c \<Rightarrow> c | None \<Rightarrow> client_new ident (stream_close (stream_new [] [])))"

definition on_client :: "u64 \<Rightarrow> (client \<Rightarrow> client) \<Rightarrow> 'e server \<Rightarrow> 'e server" where
  "on_client ident f s = s\<lparr>sv_clients := update_first (\<lambda>c. cl_id c = ident) f (sv_clients s)\<rparr>"

text \<open>\<open>client_with_id\<close>: one whose connection is still open.\<close>

definition client_with_id :: "u64 \<Rightarrow> 'e server \<Rightarrow> client option" where
  "client_with_id ident s = find (\<lambda>c. cl_id c = ident \<and> sk_open (cl_stream c)) (sv_clients s)"

definition session_for :: "u64 \<Rightarrow> 'e server \<Rightarrow> session option" where
  "session_for ident s = find (\<lambda>se. se_id se = ident) (sv_sessions s)"

definition on_session :: "u64 \<Rightarrow> (session \<Rightarrow> session) \<Rightarrow> 'e server \<Rightarrow> 'e server" where
  "on_session ident f s = s\<lparr>sv_sessions := update_first (\<lambda>se. se_id se = ident) f (sv_sessions s)\<rparr>"

definition session_of :: "client \<Rightarrow> 'e server \<Rightarrow> session option" where
  "session_of c s = (if cl_attached c then session_for (cl_session c) s else None)"

definition session_holding :: "u64 \<Rightarrow> 'e server \<Rightarrow> session option" where
  "session_holding ident s = find (\<lambda>se. ident \<in> set (se_terminals se)) (sv_sessions s)"

definition terminal_at :: "u64 \<Rightarrow> 'e server \<Rightarrow> 'e terminal option" where
  "terminal_at ident s = find_terminal ident (sv_terminals s)"

definition on_term :: "u64 \<Rightarrow> ('e terminal \<Rightarrow> 'e terminal) \<Rightarrow> 'e server \<Rightarrow> 'e server" where
  "on_term ident f s = s\<lparr>sv_terminals := on_terminal ident f (sv_terminals s)\<rparr>"

subsection \<open>Readers\<close>

definition reads :: "u64 \<Rightarrow> client \<Rightarrow> bool" where
  "reads ident c \<longleftrightarrow> cl_attached c \<and> \<not> cl_closing c \<and> cl_session c = ident"

text \<open>The clients \<open>for_each_attached\<close> visits. What the visits do to the others' flags is looked at again as each is reached.\<close>

definition for_each_attached :: "u64 \<Rightarrow> (u64 \<Rightarrow> 'e server \<Rightarrow> 'e server) \<Rightarrow> 'e server \<Rightarrow> 'e server" where
  "for_each_attached ident visit s =
     fold (\<lambda>c s. if reads ident (the_client c s) then visit c s else s) (map cl_id (sv_clients s)) s"

definition attached_count :: "u64 \<Rightarrow> 'e server \<Rightarrow> nat" where
  "attached_count ident s = length (filter (reads ident) (sv_clients s))"

definition client_attached_to :: "u64 \<Rightarrow> 'e server \<Rightarrow> client option" where
  "client_attached_to ident s = find (reads ident) (sv_clients s)"

subsection \<open>Names\<close>

definition session_named :: "bytes \<Rightarrow> u64 \<Rightarrow> 'e server \<Rightarrow> session option" where
  "session_named name except s =
     (if name = [] then None else find (\<lambda>se. se_id se \<noteq> except \<and> se_name se = name) (sv_sessions s))"

definition is_digit :: "u8 \<Rightarrow> bool" where
  "is_digit c \<longleftrightarrow> 48 \<le> c \<and> c \<le> 57"

text \<open>\<open>strtol\<close> of digits, which stops at the largest \<open>long\<close>.\<close>

definition read_digits :: "bytes \<Rightarrow> nat" where
  "read_digits ds = fold (\<lambda>c n. 10 * n + (unat c - 48)) ds 0"

definition long_max :: nat where "long_max = 2 ^ 63 - 1"

definition strtol :: "bytes \<Rightarrow> nat" where
  "strtol ds = min (read_digits ds) long_max"

definition session_number :: "bytes \<Rightarrow> nat option" where
  "session_number name =
     (if take 8 name \<noteq> str ''session-'' then None
      else
        let tail = drop 8 name
        in if tail = [] \<or> \<not> list_all is_digit tail then None else Some (strtol tail))"

definition highest_number :: "session list \<Rightarrow> nat" where
  "highest_number ss =
     fold (\<lambda>se n. case session_number (se_name se) of None \<Rightarrow> n | Some m \<Rightarrow> max n m) ss 0"

text \<open>\<open>highest + 1\<close> is an addition of \<open>long\<close>: past the largest, what two's complement makes of it.\<close>

definition next_session_name :: "'e server \<Rightarrow> bytes" where
  "next_session_name s =
     (let n = highest_number (sv_sessions s)
      in str ''session-'' @ (if n < long_max then decimal (n + 1) else str ''-'' @ decimal (2 ^ 63)))"

subsection \<open>The printer policy in force\<close>

record effective_policy =
  ep_mode :: capture_mode
  ep_ask_cache :: u32
  ep_spool_limit :: u32
  ep_mode_from :: printer_scope
  ep_ask_cache_from :: printer_scope
  ep_spool_limit_from :: printer_scope

definition clamp_u32 :: "nat \<Rightarrow> u32" where
  "clamp_u32 n = of_nat (min n 0xFFFFFFFF)"

definition apply_override :: "printer_override \<Rightarrow> printer_scope \<Rightarrow> effective_policy \<Rightarrow> effective_policy" where
  "apply_override said from_scope p =
     (let p = (case po_mode said of None \<Rightarrow> p | Some m \<Rightarrow> p\<lparr>ep_mode := m, ep_mode_from := from_scope\<rparr>);
          p = (case po_ask_cache said of None \<Rightarrow> p | Some v \<Rightarrow> p\<lparr>ep_ask_cache := v, ep_ask_cache_from := from_scope\<rparr>)
      in (case po_spool_limit said of None \<Rightarrow> p | Some v \<Rightarrow> p\<lparr>ep_spool_limit := v, ep_spool_limit_from := from_scope\<rparr>))"

definition effective_printer_policy :: "u64 \<Rightarrow> 'e server \<Rightarrow> effective_policy" where
  "effective_printer_policy ident s =
     (let p = \<lparr>ep_mode = set_printer_mode (sv_settings s), ep_ask_cache = clamp_u32 (set_ask_cache_bytes (sv_settings s)),
               ep_spool_limit = clamp_u32 (set_spool_limit_bytes (sv_settings s)), ep_mode_from = Scope_Global,
               ep_ask_cache_from = Scope_Global, ep_spool_limit_from = Scope_Global\<rparr>;
          p = (case session_holding ident s of None \<Rightarrow> p | Some se \<Rightarrow> apply_override (se_printer se) Scope_Session p)
      in (case terminal_at ident s of None \<Rightarrow> p | Some t \<Rightarrow> apply_override (t_printer t) Scope_Terminal p))"

primrec wire_printer_mode :: "capture_mode \<Rightarrow> printer_mode" where
  "wire_printer_mode Ask = Mode_Ask"
| "wire_printer_mode Capture = Mode_Capture"
| "wire_printer_mode Off = Mode_Off"

primrec wire_printer_mode_in :: "printer_mode \<Rightarrow> capture_mode" where
  "wire_printer_mode_in Mode_Ask = Ask"
| "wire_printer_mode_in Mode_Capture = Capture"
| "wire_printer_mode_in Mode_Off = Off"

subsection \<open>Sums over the clients\<close>

definition greeted_count :: "'e server \<Rightarrow> nat" where
  "greeted_count s = length (filter cl_greeted (sv_clients s))"

definition queued_bytes :: "'e server \<Rightarrow> nat" where
  "queued_bytes s = sum_list (map (\<lambda>c. queued (cl_stream c)) (sv_clients s))"

definition still_owed :: "client \<Rightarrow> owed_image list" where
  "still_owed c = drop (cl_owed_sent c) (cl_owed c)"

definition owed_image_bytes :: "'e server \<Rightarrow> nat" where
  "owed_image_bytes s = sum_list (map (\<lambda>c. sum_list (map (\<lambda>owed. case oi_message owed of
     ImageChunk chunk \<Rightarrow> length (ic_bytes chunk) | _ \<Rightarrow> 0) (still_owed c))) (sv_clients s))"

definition owed_image_ops :: "'e server \<Rightarrow> nat" where
  "owed_image_ops s = sum_list (map (\<lambda>c. length (cl_owed c) - cl_owed_sent c) (sv_clients s))"

definition waiting_to_heal :: "'e server \<Rightarrow> bool" where
  "waiting_to_heal s \<longleftrightarrow> list_ex cl_dirty (sv_clients s)"

section \<open>Which messages change a session\<close>

definition changes_the_session :: "message \<Rightarrow> bool" where
  "changes_the_session m =
     (case m of
        Input _ \<Rightarrow> True | PasteChunk _ \<Rightarrow> True | NewTerminal _ \<Rightarrow> True | CloseTerminal _ \<Rightarrow> True | KillTerminal _ \<Rightarrow> True
      | RespawnTerminal _ \<Rightarrow> True | MoveTerminal _ \<Rightarrow> True | RenameTerminal _ \<Rightarrow> True | RenameSession _ \<Rightarrow> True
      | KillSession _ \<Rightarrow> True | NewSession _ \<Rightarrow> True | SetLayout _ \<Rightarrow> True | ZoomTerm _ \<Rightarrow> True | Raise _ \<Rightarrow> True
      | MoveResize _ \<Rightarrow> True | SetDesktopSize _ \<Rightarrow> True | SetPrinterPolicy _ \<Rightarrow> True | PrintJobDiscard _ \<Rightarrow> True
      | KillServer \<Rightarrow> True | _ \<Rightarrow> False)"

text \<open>\<open>name_of\<close>, for the messages a client may send and a server may send.\<close>

primrec name_of :: "message \<Rightarrow> bytes" where
  "name_of (Hello _) = str ''Hello''" | "name_of (HelloAck _) = str ''HelloAck''" | "name_of (Refuse _) = str ''Refuse''"
| "name_of (Ping _) = str ''Ping''" | "name_of (Pong _) = str ''Pong''" | "name_of ListSessions = str ''ListSessions''"
| "name_of (NewSession _) = str ''NewSession''" | "name_of (Attach _) = str ''Attach''" | "name_of Detach = str ''Detach''"
| "name_of (ClientResize _) = str ''ClientResize''" | "name_of (RenameSession _) = str ''RenameSession''"
| "name_of (KillSession _) = str ''KillSession''" | "name_of KillServer = str ''KillServer''"
| "name_of (SessionList _) = str ''SessionList''" | "name_of SessionsChanged = str ''SessionsChanged''"
| "name_of (Attached _) = str ''Attached''" | "name_of (Detached _) = str ''Detached''"
| "name_of (NewTerminal _) = str ''NewTerminal''" | "name_of (CloseTerminal _) = str ''CloseTerminal''"
| "name_of (KillTerminal _) = str ''KillTerminal''" | "name_of (RespawnTerminal _) = str ''RespawnTerminal''"
| "name_of (SetDesktopSize _) = str ''SetDesktopSize''" | "name_of (SetReaderMode _) = str ''SetReaderMode''"
| "name_of (ReaderMode _) = str ''ReaderMode''" | "name_of (MoveTerminal _) = str ''MoveTerminal''"
| "name_of (MoveResize _) = str ''MoveResize''" | "name_of (Raise _) = str ''Raise''" | "name_of (FocusTerm _) = str ''FocusTerm''"
| "name_of (ZoomTerm _) = str ''ZoomTerm''" | "name_of (SetLayout _) = str ''SetLayout''"
| "name_of (RenameTerminal _) = str ''RenameTerminal''" | "name_of (Input _) = str ''Input''"
| "name_of (PasteChunk _) = str ''PasteChunk''" | "name_of (PasteAck _) = str ''PasteAck''"
| "name_of (LayoutDelta _) = str ''LayoutDelta''" | "name_of (TermOpened _) = str ''TermOpened''"
| "name_of (TermClosed _) = str ''TermClosed''" | "name_of (TermMeta _) = str ''TermMeta''"
| "name_of (GridDelta _) = str ''GridDelta''" | "name_of (ImageAddBegin _) = str ''ImageAddBegin''"
| "name_of (ImageChunk _) = str ''ImageChunk''" | "name_of (ImageEnd _) = str ''ImageEnd''"
| "name_of (ImagePlace _) = str ''ImagePlace''" | "name_of (ImageRemove _) = str ''ImageRemove''"
| "name_of (ClipboardSet _) = str ''ClipboardSet''" | "name_of (TermDiagnostic _) = str ''TermDiagnostic''"
| "name_of (Error _) = str ''Error''" | "name_of (SetPrinterPolicy _) = str ''SetPrinterPolicy''"
| "name_of (PrintState _) = str ''PrintState''" | "name_of (PrintJobAdded _) = str ''PrintJobAdded''"
| "name_of (PrintJobFetch _) = str ''PrintJobFetch''" | "name_of (PrintJobData _) = str ''PrintJobData''"
| "name_of (PrintJobDiscard _) = str ''PrintJobDiscard''" | "name_of (WatchStats _) = str ''WatchStats''"
| "name_of (TermStats _) = str ''TermStats''"

section \<open>Errors\<close>

datatype error_code = No_Such_Terminal | No_Such_Session | Name_Taken | Limit_Reached | Read_Only | Invalid_Request
  | Not_Implemented

primrec error_number :: "error_code \<Rightarrow> u16" where
  "error_number Not_Implemented = 1"
| "error_number No_Such_Terminal = 2"
| "error_number No_Such_Session = 3"
| "error_number Name_Taken = 4"
| "error_number Limit_Reached = 5"
| "error_number Read_Only = 6"
| "error_number Invalid_Request = 7"

definition error_said :: "error_code \<Rightarrow> bytes \<Rightarrow> bytes \<Rightarrow> message" where
  "error_said code context_text human = Error \<lparr>err_code = error_number code, err_context = context_text, err_human = human\<rparr>"

section \<open>Geometry\<close>

definition cell_metric :: "u16 \<Rightarrow> u16 \<Rightarrow> u16 \<Rightarrow> u16 \<Rightarrow> extent" where
  "cell_metric columns rows pixel_width pixel_height =
     (if columns = 0 \<or> rows = 0 then no_extent
      else \<lparr>width = uint (pixel_width div columns), height = uint (pixel_height div rows)\<rparr>)"

definition real_extent :: "extent \<Rightarrow> bool" where
  "real_extent e \<longleftrightarrow> width e > 0 \<and> height e > 0"

definition smaller_extent :: "extent \<Rightarrow> extent \<Rightarrow> extent" where
  "smaller_extent a b = \<lparr>width = min (width a) (width b), height = min (height a) (height b)\<rparr>"

text \<open>What \<open>[general] desktop-size\<close> makes of a desktop and one that arrives.\<close>

definition desktop_after :: "desktop_policy \<Rightarrow> extent \<Rightarrow> extent \<Rightarrow> extent" where
  "desktop_after policy held arriving =
     (case policy of Fixed \<Rightarrow> held | Fit_Smallest \<Rightarrow> smaller_extent held arriving | Fit_Latest \<Rightarrow> arriving)"

end
