(* ===== verification/Server_Send.thy ===== *)
theory Server_Send
  imports Server_State "HOL-Library.AList"
begin

text \<open>
  Sending, dropping, detaching and pasting: the operations of \<^verbatim>\<open>src/src/server/server.cpp\<close> that call one
  another in a circle. A send can drop a client that is too far behind, a drop frees the pastes it
  held, freeing one writes the next chunk that waits, and writing acknowledges it with a send. Every
  turn of the circle takes a waiting chunk, so the circle is a recursion on a bound for those; its
  operations take as their argument the \<open>drain\<close> that the rest of the circle is to use.
\<close>

section \<open>What a client is told\<close>

definition forget_dead :: "message \<Rightarrow> client \<Rightarrow> client" where
  "forget_dead m c =
     (case m of
        Attached _ \<Rightarrow> c\<lparr>cl_dead_announced := {}\<rparr>
      | Detached _ \<Rightarrow> c\<lparr>cl_dead_announced := {}\<rparr>
      | TermClosed closed \<Rightarrow>
          (if tc_hold closed = 0 then c\<lparr>cl_dead_announced := cl_dead_announced c - {tc_term closed}\<rparr> else c)
      | _ \<Rightarrow> c)"

definition is_attached :: "message \<Rightarrow> bool" where
  "is_attached m \<longleftrightarrow> (case m of Attached _ \<Rightarrow> True | _ \<Rightarrow> False)"

definition wants_snapshot :: "client \<Rightarrow> client" where
  "wants_snapshot c = c\<lparr>cl_dirty := True\<rparr>"

definition put_frame :: "message \<Rightarrow> bytes \<Rightarrow> client \<Rightarrow> client" where
  "put_frame m frame c =
     (case stream_send frame (cl_stream c) of
       (taken, stream) \<Rightarrow>
         c\<lparr>cl_stream := stream, cl_said := cl_said c @ [m],
           cl_dirty := (if \<not> taken \<and> \<not> is_attached m then True else cl_dirty c)\<rparr>)"

definition hang_up :: "client \<Rightarrow> client" where
  "hang_up c = c\<lparr>cl_attached := False, cl_stream := stream_close (snd (stream_flush (cl_stream c))), cl_closing := True\<rparr>"

definition leave :: "client \<Rightarrow> client" where
  "leave c = c\<lparr>cl_attached := False, cl_dirty := False, cl_owed := [], cl_owed_sent := 0, cl_draining_heal := False\<rparr>"

section \<open>Paste slots\<close>

definition find_slot :: "u64 \<Rightarrow> 'e server \<Rightarrow> paste_slot option" where
  "find_slot term s = map_of (sv_paste_slots s) term"

definition set_slot :: "u64 \<Rightarrow> paste_slot \<Rightarrow> 'e server \<Rightarrow> 'e server" where
  "set_slot term slot s = s\<lparr>sv_paste_slots := AList.update term slot (sv_paste_slots s)\<rparr>"

definition erase_slot :: "u64 \<Rightarrow> 'e server \<Rightarrow> 'e server" where
  "erase_slot term s = s\<lparr>sv_paste_slots := AList.delete term (sv_paste_slots s)\<rparr>"

text \<open>\<open>paste_slots_[term]\<close>, which makes one where there is none.\<close>

definition slot_at :: "u64 \<Rightarrow> 'e server \<Rightarrow> paste_slot" where
  "slot_at term s = (case find_slot term s of None \<Rightarrow> \<lparr>slot_owner = 0, slot_waiting = []\<rparr> | Some slot \<Rightarrow> slot)"

definition waiting_total :: "'e server \<Rightarrow> nat" where
  "waiting_total s = sum_list (map (\<lambda>(_, slot). length (slot_waiting slot)) (sv_paste_slots s))"

definition withdraw :: "u64 \<Rightarrow> paste_slot \<Rightarrow> paste_slot" where
  "withdraw client slot =
     slot\<lparr>slot_waiting := filter (\<lambda>p. fst p \<noteq> client) (slot_waiting slot),
          slot_owner := (if slot_owner slot = client then 0 else slot_owner slot)\<rparr>"

section \<open>The circle\<close>

definition release_by :: "(u64 \<Rightarrow> 'e server \<Rightarrow> 'e server) \<Rightarrow> u64 \<Rightarrow> 'e server \<Rightarrow> 'e server" where
  "release_by drain client s =
     (let freed = map fst (filter (\<lambda>(_, slot). slot_owner slot = client) (sv_paste_slots s))
      in fold drain freed (s\<lparr>sv_paste_slots := map (\<lambda>(term, slot). (term, withdraw client slot)) (sv_paste_slots s)\<rparr>))"

definition drop_by :: "(u64 \<Rightarrow> 'e server \<Rightarrow> 'e server) \<Rightarrow> u64 \<Rightarrow> 'e server \<Rightarrow> 'e server" where
  "drop_by drain client s =
     (let s = release_by drain client s;
          was_attached = cl_attached (the_client client s);
          s = on_client client hang_up s
      in if was_attached then s\<lparr>sv_list_dirty := True\<rparr> else s)"

text \<open>\<open>send\<close>, with what it does about a message too large to say.\<close>

definition send_by :: "('e server \<Rightarrow> 'e server) \<Rightarrow> (u64 \<Rightarrow> 'e server \<Rightarrow> 'e server) \<Rightarrow> u64 \<Rightarrow> message \<Rightarrow> 'e server \<Rightarrow> 'e server" where
  "send_by too_large drain client m s =
     (if \<not> sk_open (cl_stream (the_client client s)) then s
      else
        let s = on_client client (forget_dead m) s
        in case encode m of
             (frame, True) \<Rightarrow> too_large s
           | (frame, False) \<Rightarrow>
               if queued (cl_stream (the_client client s)) + length frame > hard_limit_bytes
               then drop_by drain client s
               else on_client client (put_frame m frame) s)"

definition detach_by :: "(message \<Rightarrow> 'e server \<Rightarrow> 'e server) \<Rightarrow> u64 \<Rightarrow> detach_reason \<Rightarrow> bytes \<Rightarrow> 'e server \<Rightarrow> 'e server" where
  "detach_by send client reason why s =
     (if \<not> cl_attached (the_client client s) then s
      else
        let s = on_client client leave s;
            s = send (Detached \<lparr>detached_reason = reason, detached_text = why\<rparr>) s
        in s\<lparr>sv_list_dirty := True\<rparr>)"

definition send_with :: "(u64 \<Rightarrow> 'e server \<Rightarrow> 'e server) \<Rightarrow> u64 \<Rightarrow> message \<Rightarrow> 'e server \<Rightarrow> 'e server" where
  "send_with drain client m =
     send_by (\<lambda>s. if is_attached m
                  then detach_by (send_by (on_client client wants_snapshot) drain client) client Session_Killed
                         (str ''this session is too large to send'') s
                  else on_client client wants_snapshot s)
       drain client m"

definition focus_on :: "u64 \<Rightarrow> u64 \<Rightarrow> 'e server \<Rightarrow> 'e server" where
  "focus_on client term s =
     (let s = on_client client (\<lambda>c. c\<lparr>cl_focused := term\<rparr>) s
      in case session_holding term s of
           None \<Rightarrow> s
         | Some home \<Rightarrow> on_session (se_id home) (\<lambda>se. se\<lparr>se_last_focused := term\<rparr>) s)"

definition write_by :: "'e emulator \<Rightarrow> (u64 \<Rightarrow> 'e server \<Rightarrow> 'e server) \<Rightarrow> u64 \<Rightarrow> paste_chunk \<Rightarrow> 'e server \<Rightarrow> 'e server" where
  "write_by em drain client chunk s =
     (let term = pc_term chunk;
          s = on_term term (send_input em (pc_bytes chunk)) s;
          s = focus_on client term s;
          finished = (pc_final_chunk chunk \<noteq> 0);
          s = set_slot term ((slot_at term s)\<lparr>slot_owner := (if finished then 0 else client)\<rparr>) s;
          s = send_with drain client (PasteAck (pc_seq chunk)) s
      in if finished then drain term s else s)"

definition acknowledge :: "(u64 \<Rightarrow> 'e server \<Rightarrow> 'e server) \<Rightarrow> u64 \<times> paste_chunk \<Rightarrow> 'e server \<Rightarrow> 'e server" where
  "acknowledge drain pending s =
     (case client_with_id (fst pending) s of
       None \<Rightarrow> s
     | Some _ \<Rightarrow> send_with drain (fst pending) (PasteAck (pc_seq (snd pending))) s)"

definition forget_by :: "(u64 \<Rightarrow> 'e server \<Rightarrow> 'e server) \<Rightarrow> u64 \<Rightarrow> 'e server \<Rightarrow> 'e server" where
  "forget_by drain term s =
     (case find_slot term s of
       None \<Rightarrow> s
     | Some slot \<Rightarrow> fold (acknowledge drain) (slot_waiting slot) (erase_slot term s))"

primrec drain_slot :: "'e emulator \<Rightarrow> nat \<Rightarrow> u64 \<Rightarrow> 'e server \<Rightarrow> 'e server" where
  "drain_slot em 0 = (\<lambda>term s. s)"
| "drain_slot em (Suc n) = (\<lambda>term s.
     case find_slot term s of
       None \<Rightarrow> s
     | Some slot \<Rightarrow>
         if slot_owner slot \<noteq> 0 then s
         else case slot_waiting slot of
           [] \<Rightarrow> erase_slot term s
         | front # rest \<Rightarrow>
             let s = set_slot term (slot\<lparr>slot_waiting := rest\<rparr>) s
             in if terminal_at term s = None then forget_by (drain_slot em n) term s
                else if client_with_id (fst front) s = None then drain_slot em n term s
                else write_by em (drain_slot em n) (fst front) (snd front) s)"

section \<open>The operations\<close>

text \<open>One more than the chunks that wait is as deep as the circle can go.\<close>

definition deep :: "'e server \<Rightarrow> nat" where
  "deep s = Suc (waiting_total s)"

definition send :: "'e emulator \<Rightarrow> u64 \<Rightarrow> message \<Rightarrow> 'e server \<Rightarrow> 'e server" where
  "send em client m s = send_with (drain_slot em (deep s)) client m s"

definition drop_client :: "'e emulator \<Rightarrow> u64 \<Rightarrow> 'e server \<Rightarrow> 'e server" where
  "drop_client em client s = drop_by (drain_slot em (deep s)) client s"

definition detach :: "'e emulator \<Rightarrow> u64 \<Rightarrow> detach_reason \<Rightarrow> bytes \<Rightarrow> 'e server \<Rightarrow> 'e server" where
  "detach em client reason why s = detach_by (send em client) client reason why s"

definition write_paste_chunk :: "'e emulator \<Rightarrow> u64 \<Rightarrow> paste_chunk \<Rightarrow> 'e server \<Rightarrow> 'e server" where
  "write_paste_chunk em client chunk s = write_by em (drain_slot em (deep s)) client chunk s"

definition drain_paste_slot :: "'e emulator \<Rightarrow> u64 \<Rightarrow> 'e server \<Rightarrow> 'e server" where
  "drain_paste_slot em term s = drain_slot em (deep s) term s"

definition forget_paste_slot :: "'e emulator \<Rightarrow> u64 \<Rightarrow> 'e server \<Rightarrow> 'e server" where
  "forget_paste_slot em term s = forget_by (drain_slot em (deep s)) term s"

text \<open>The \<open>PasteChunk\<close> branch of \<open>handle\<close>.\<close>

definition handle_paste :: "'e emulator \<Rightarrow> u64 \<Rightarrow> paste_chunk \<Rightarrow> 'e server \<Rightarrow> 'e server" where
  "handle_paste em client chunk s =
     (if terminal_at (pc_term chunk) s = None
      then send em client (PasteAck (pc_seq chunk)) (forget_paste_slot em (pc_term chunk) s)
      else
        let slot = slot_at (pc_term chunk) s;
            s = set_slot (pc_term chunk) slot s
        in if slot_owner slot \<noteq> 0 \<and> slot_owner slot \<noteq> client
           then set_slot (pc_term chunk) (slot\<lparr>slot_waiting := slot_waiting slot @ [(client, chunk)]\<rparr>) s
           else write_paste_chunk em client chunk s)"

section \<open>The circle ends\<close>

text \<open>Nothing on the circle makes a chunk wait, and it never needs more turns than chunks that wait.\<close>

definition shrinks :: "('e server \<Rightarrow> 'e server) \<Rightarrow> bool" where
  "shrinks f \<longleftrightarrow> (\<forall>s. waiting_total (f s) \<le> waiting_total s)"

definition alike :: "nat \<Rightarrow> ('e server \<Rightarrow> 'e server) \<Rightarrow> ('e server \<Rightarrow> 'e server) \<Rightarrow> bool" where
  "alike k f g \<longleftrightarrow> (\<forall>s. waiting_total s \<le> k \<longrightarrow> f s = g s)"

lemma waiting_total_other [simp]:
  "waiting_total (on_client c f s) = waiting_total s"
  "waiting_total (on_session i g s) = waiting_total s"
  "waiting_total (on_term t h s) = waiting_total s"
  "waiting_total (s\<lparr>sv_list_dirty := b\<rparr>) = waiting_total s"
  by (simp_all add: waiting_total_def on_client_def on_session_def on_term_def)

lemma focus_on_total [simp]: "waiting_total (focus_on c t s) = waiting_total s"
  by (simp add: focus_on_def Let_def split: option.split)

lemma waiting_update:
  "sum_list (map (\<lambda>(_, slot). length (slot_waiting slot)) (AList.update k v ps)) +
     (case map_of ps k of None \<Rightarrow> 0 | Some slot \<Rightarrow> length (slot_waiting slot)) =
   sum_list (map (\<lambda>(_, slot). length (slot_waiting slot)) ps) + length (slot_waiting v)"
  by (induction ps) auto

lemma set_slot_total:
  "waiting_total (set_slot t v s) + length (slot_waiting (slot_at t s)) = waiting_total s + length (slot_waiting v)"
  using waiting_update [of t v "sv_paste_slots s"]
  by (simp add: waiting_total_def set_slot_def slot_at_def find_slot_def split: option.split_asm option.split)

lemma set_owner_total [simp]: "waiting_total (set_slot t ((slot_at t s)\<lparr>slot_owner := c\<rparr>) s) = waiting_total s"
  using set_slot_total [of t "(slot_at t s)\<lparr>slot_owner := c\<rparr>" s] by simp

lemma waiting_delete:
  "sum_list (map (\<lambda>(_, slot). length (slot_waiting slot)) (AList.delete k ps))
     \<le> sum_list (map (\<lambda>(_, slot). length (slot_waiting slot)) ps)"
  by (induction ps) (auto simp: AList.delete_eq)

lemma erase_slot_total: "waiting_total (erase_slot t s) \<le> waiting_total s"
  using waiting_delete by (simp add: waiting_total_def erase_slot_def)

lemma withdraw_total:
  "waiting_total (s\<lparr>sv_paste_slots := map (\<lambda>(t, slot). (t, withdraw c slot)) (sv_paste_slots s)\<rparr>) \<le> waiting_total s"
  unfolding waiting_total_def
  by (simp add: comp_def case_prod_beta)
    (rule sum_list_mono, simp add: withdraw_def case_prod_beta)

definition shrink_drain :: "(u64 \<Rightarrow> 'e server \<Rightarrow> 'e server) \<Rightarrow> bool" where
  "shrink_drain d \<longleftrightarrow> (\<forall>t. shrinks (d t))"

definition alike_drain :: "nat \<Rightarrow> (u64 \<Rightarrow> 'e server \<Rightarrow> 'e server) \<Rightarrow> (u64 \<Rightarrow> 'e server \<Rightarrow> 'e server) \<Rightarrow> bool" where
  "alike_drain k d d' \<longleftrightarrow> (\<forall>t. alike k (d t) (d' t))"

lemma fold_shrinks: "(\<And>x s. waiting_total (f x s) \<le> waiting_total s) \<Longrightarrow> waiting_total (fold f xs s) \<le> waiting_total s"
  by (induction xs arbitrary: s) (auto intro: order_trans)

lemma fold_alike:
  "(\<And>x s. waiting_total s \<le> k \<Longrightarrow> f x s = g x s) \<Longrightarrow> (\<And>x s. waiting_total (f x s) \<le> waiting_total s) \<Longrightarrow>
     waiting_total s \<le> k \<Longrightarrow> fold f xs s = fold g xs s"
proof (induction xs arbitrary: s)
  case (Cons x xs)
  have "waiting_total (g x s) \<le> k" using Cons.prems(2) [of x s] Cons.prems(1) [of s x] Cons.prems(3) by simp
  with Cons show ?case by simp
qed simp

lemma release_shrinks: "shrink_drain d \<Longrightarrow> waiting_total (release_by d c s) \<le> waiting_total s"
  unfolding release_by_def Let_def
  by (rule order_trans [OF fold_shrinks withdraw_total]) (simp add: shrink_drain_def shrinks_def)

lemma drop_shrinks: "shrink_drain d \<Longrightarrow> waiting_total (drop_by d c s) \<le> waiting_total s"
  using release_shrinks [of d c s] by (simp add: drop_by_def Let_def)

lemma send_by_shrinks:
  "shrink_drain d \<Longrightarrow> (\<And>s. waiting_total (large s) \<le> waiting_total s) \<Longrightarrow>
     waiting_total (send_by large d c m s) \<le> waiting_total s"
  using drop_shrinks [of d c "on_client c (forget_dead m) s"]
  by (simp add: send_by_def Let_def split: prod.split bool.split) (metis waiting_total_other(1))

lemma detach_by_shrinks:
  "(\<And>m s. waiting_total (snd_to m s) \<le> waiting_total s) \<Longrightarrow> waiting_total (detach_by snd_to c r w s) \<le> waiting_total s"
  by (simp add: detach_by_def Let_def) (metis waiting_total_other(1))

lemma send_with_shrinks: "shrink_drain d \<Longrightarrow> waiting_total (send_with d c m s) \<le> waiting_total s"
  unfolding send_with_def by (rule send_by_shrinks) (auto intro!: detach_by_shrinks send_by_shrinks)

lemma write_shrinks: "shrink_drain d \<Longrightarrow> waiting_total (write_by em d c chunk s) \<le> waiting_total s"
proof -
  assume d: "shrink_drain d"
  let ?s = "focus_on c (pc_term chunk) (on_term (pc_term chunk) (send_input em (pc_bytes chunk)) s)"
  let ?set = "set_slot (pc_term chunk) ((slot_at (pc_term chunk) ?s)\<lparr>slot_owner := if pc_final_chunk chunk \<noteq> 0 then 0 else c\<rparr>) ?s"
  have "waiting_total (send_with d c (PasteAck (pc_seq chunk)) ?set) \<le> waiting_total s"
    using send_with_shrinks [OF d, of c "PasteAck (pc_seq chunk)" ?set] by simp
  moreover have "waiting_total (d t s') \<le> waiting_total s'" for t s'
    using d by (simp add: shrink_drain_def shrinks_def)
  ultimately have "waiting_total (d (pc_term chunk) (send_with d c (PasteAck (pc_seq chunk)) ?set)) \<le> waiting_total s"
    and "waiting_total (send_with d c (PasteAck (pc_seq chunk)) ?set) \<le> waiting_total s"
    by (blast intro: order_trans)+
  then show ?thesis unfolding write_by_def Let_def by (simp only: split: if_split) blast
qed

lemma acknowledge_shrinks: "shrink_drain d \<Longrightarrow> waiting_total (acknowledge d p s) \<le> waiting_total s"
  by (simp add: acknowledge_def send_with_shrinks split: option.split)

lemma forget_shrinks: "shrink_drain d \<Longrightarrow> waiting_total (forget_by d t s) \<le> waiting_total s"
  by (auto simp: forget_by_def split: option.split
      intro: order_trans [OF fold_shrinks erase_slot_total] acknowledge_shrinks)

lemma pop_total:
  assumes "find_slot t s = Some slot" and "slot_waiting slot = front # rest"
  shows "Suc (waiting_total (set_slot t (slot\<lparr>slot_waiting := rest\<rparr>) s)) = waiting_total s"
  using set_slot_total [of t "slot\<lparr>slot_waiting := rest\<rparr>" s] assms by (simp add: slot_at_def)

lemma drain_slot_shrinks: "shrink_drain (drain_slot em n)"
proof (induction n)
  case 0
  then show ?case by (simp add: shrink_drain_def shrinks_def)
next
  case (Suc n)
  have "waiting_total (drain_slot em (Suc n) t s) \<le> waiting_total s" for t s
  proof (cases "find_slot t s")
    case (Some slot)
    show ?thesis
    proof (cases "slot_waiting slot")
      case Nil
      with Some show ?thesis by (simp add: erase_slot_total)
    next
      case (Cons front rest)
      let ?s = "set_slot t (slot\<lparr>slot_waiting := rest\<rparr>) s"
      have "waiting_total (drain_slot em n t ?s) \<le> waiting_total ?s"
        using Suc by (simp add: shrink_drain_def shrinks_def)
      with pop_total [OF Some Cons] forget_shrinks [OF Suc, of t ?s] write_shrinks [OF Suc, of em "fst front" "snd front" ?s]
      show ?thesis by (simp add: Some Cons Let_def)
    qed
  qed simp
  then show ?case by (simp add: shrink_drain_def shrinks_def)
qed

text \<open>Two ways to drain that agree where at most \<open>k\<close> chunks wait make circles that agree there.\<close>

lemma alike_at: "alike_drain k d d' \<Longrightarrow> waiting_total s \<le> k \<Longrightarrow> d t s = d' t s"
  by (simp add: alike_drain_def alike_def)

lemma release_alike:
  assumes "alike_drain k d d'" and "shrink_drain d" and "waiting_total s \<le> k"
  shows "release_by d c s = release_by d' c s"
  unfolding release_by_def Let_def
proof (rule fold_alike [where k = k])
  show "waiting_total (s\<lparr>sv_paste_slots := map (\<lambda>(t, slot). (t, withdraw c slot)) (sv_paste_slots s)\<rparr>) \<le> k"
    using withdraw_total assms(3) by (rule order_trans)
qed (use assms in \<open>auto simp: alike_at shrink_drain_def shrinks_def\<close>)

lemma drop_alike:
  "alike_drain k d d' \<Longrightarrow> shrink_drain d \<Longrightarrow> waiting_total s \<le> k \<Longrightarrow> drop_by d c s = drop_by d' c s"
  by (simp add: drop_by_def release_alike)

lemma send_by_alike:
  assumes "alike_drain k d d'" and "shrink_drain d" and "waiting_total s \<le> k"
    and "\<And>s. waiting_total s \<le> k \<Longrightarrow> large s = large' s"
  shows "send_by large d c m s = send_by large' d' c m s"
  using assms(3,4) drop_alike [OF assms(1,2)] by (simp add: send_by_def Let_def split: prod.split bool.split)

lemma send_with_alike:
  assumes "alike_drain k d d'" and "shrink_drain d" and "waiting_total s \<le> k"
  shows "send_with d c m s = send_with d' c m s"
proof -
  have "send_by (on_client c wants_snapshot) d c m s = send_by (on_client c wants_snapshot) d' c m s"
    if "waiting_total s \<le> k" for c m s
    by (rule send_by_alike [OF assms(1,2) that]) simp
  then show ?thesis
    unfolding send_with_def by (intro send_by_alike [OF assms]) (simp add: detach_by_def Let_def)
qed

lemma acknowledge_alike:
  "alike_drain k d d' \<Longrightarrow> shrink_drain d \<Longrightarrow> waiting_total s \<le> k \<Longrightarrow> acknowledge d p s = acknowledge d' p s"
  by (simp add: acknowledge_def send_with_alike split: option.split)

lemma forget_alike:
  assumes "alike_drain k d d'" and "shrink_drain d" and "waiting_total s \<le> k"
  shows "forget_by d t s = forget_by d' t s"
proof (cases "find_slot t s")
  case (Some slot)
  have "waiting_total (erase_slot t s) \<le> k" using erase_slot_total assms(3) by (rule order_trans)
  then have "fold (acknowledge d) (slot_waiting slot) (erase_slot t s) =
      fold (acknowledge d') (slot_waiting slot) (erase_slot t s)"
    by (intro fold_alike) (auto simp: acknowledge_alike [OF assms(1,2)] acknowledge_shrinks [OF assms(2)])
  with Some show ?thesis by (simp add: forget_by_def)
qed (simp add: forget_by_def)

lemma write_alike:
  assumes "alike_drain k d d'" and "shrink_drain d" and "waiting_total s \<le> k"
  shows "write_by em d c chunk s = write_by em d' c chunk s"
proof -
  let ?s = "focus_on c (pc_term chunk) (on_term (pc_term chunk) (send_input em (pc_bytes chunk)) s)"
  let ?set = "set_slot (pc_term chunk) ((slot_at (pc_term chunk) ?s)\<lparr>slot_owner := if pc_final_chunk chunk \<noteq> 0 then 0 else c\<rparr>) ?s"
  have set: "waiting_total ?set \<le> k" using assms(3) by simp
  have "waiting_total (send_with d c (PasteAck (pc_seq chunk)) ?set) \<le> k"
    using send_with_shrinks [OF assms(2)] set by (rule order_trans)
  then show ?thesis
    unfolding write_by_def Let_def
    by (simp only: send_with_alike [OF assms(1,2) set] alike_at [OF assms(1)])
qed

text \<open>More turns than chunks that wait make no difference.\<close>

lemma drain_slot_enough:
  "k < n \<Longrightarrow> k < m \<Longrightarrow> alike_drain k (drain_slot em n) (drain_slot em m)"
proof (induction n arbitrary: m k)
  case (Suc n)
  then obtain m' where m: "m = Suc m'" by (cases m) auto
  have "drain_slot em (Suc n) t s = drain_slot em (Suc m') t s" if s: "waiting_total s \<le> k" for t s
  proof (cases "find_slot t s")
    case (Some slot)
    show ?thesis
    proof (cases "slot_waiting slot")
      case (Cons front rest)
      let ?s = "set_slot t (slot\<lparr>slot_waiting := rest\<rparr>) s"
      have total: "Suc (waiting_total ?s) = waiting_total s" by (rule pop_total [OF Some Cons])
      have "waiting_total ?s < n" "waiting_total ?s < m'" using total s Suc.prems m by auto
      from Suc.IH [OF this] have a: "alike_drain (waiting_total ?s) (drain_slot em n) (drain_slot em m')" .
      note b = a drain_slot_shrinks order_refl
      show ?thesis
        by (simp add: Some Cons Let_def alike_at [OF a] forget_alike [OF b] write_alike [OF b])
    qed (simp add: Some)
  qed simp
  then show ?case by (simp add: m alike_drain_def alike_def)
qed simp

lemma deep_is_enough: "n \<ge> deep s \<Longrightarrow> drain_slot em n t s = drain_paste_slot em t s"
  using drain_slot_enough [of "waiting_total s" n "deep s" em]
  by (simp add: drain_paste_slot_def deep_def alike_drain_def alike_def)

lemma send_enough: "n \<ge> deep s \<Longrightarrow> send_with (drain_slot em n) c m s = send em c m s"
  unfolding send_def
  by (rule send_with_alike [OF drain_slot_enough [of "waiting_total s"] drain_slot_shrinks]) (simp_all add: deep_def)

end
