(* ===== verification/Server_Frame.thy ===== *)
theory Server_Frame
  imports Server_Send
begin

text \<open>
  What sending cannot touch. Whatever a send sets off (a client dropped, pastes let go, their bytes
  written), the sessions keep their ids, names and terminals, the terminals their ids, the clients
  who they are; a client may lose its session and its connection, and never gains one.
\<close>

named_theorems calm_intros "an operation leaves the outline of a server alone"

definition meek :: "client \<Rightarrow> client \<Rightarrow> bool" where
  "meek c c' \<longleftrightarrow> cl_id c' = cl_id c \<and> cl_greeted c' = cl_greeted c \<and> cl_kind c' = cl_kind c \<and> cl_mode c' = cl_mode c \<and>
     cl_session c' = cl_session c \<and> (cl_attached c' \<longrightarrow> cl_attached c) \<and> (cl_closing c \<longrightarrow> cl_closing c')"

definition unfocused :: "session \<Rightarrow> session" where
  "unfocused se = se\<lparr>se_last_focused := 0\<rparr>"

definition calm :: "'e server \<Rightarrow> 'e server \<Rightarrow> bool" where
  "calm s s' \<longleftrightarrow> list_all2 meek (sv_clients s) (sv_clients s') \<and>
     map unfocused (sv_sessions s') = map unfocused (sv_sessions s) \<and>
     terminal_ids (sv_terminals s') = terminal_ids (sv_terminals s) \<and>
     tms_next_id (sv_terminals s') = tms_next_id (sv_terminals s) \<and>
     tms_settings (sv_terminals s') = tms_settings (sv_terminals s) \<and>
     tms_ended (sv_terminals s') = tms_ended (sv_terminals s) \<and>
     sv_settings s' = sv_settings s \<and> sv_diffs s' = sv_diffs s \<and>
     sv_next_client s' = sv_next_client s \<and> sv_next_session s' = sv_next_session s \<and>
     sv_kills s' = sv_kills s \<and> sv_closes s' = sv_closes s \<and>
     sv_session_existed s' = sv_session_existed s \<and> sv_running s' = sv_running s"

lemma meek_refl [simp]: "meek c c"
  by (simp add: meek_def)

lemma meek_trans: "meek a b \<Longrightarrow> meek b c \<Longrightarrow> meek a c"
  by (auto simp: meek_def)

lemma calm_refl [simp]: "calm s s"
  by (simp add: calm_def list_all2_refl)

lemma calm_trans:
  assumes "calm a b" and "calm b c"
  shows "calm a c"
proof -
  have "list_all2 meek (sv_clients a) (sv_clients c)"
    by (rule list_all2_trans [of meek meek meek, OF meek_trans]) (use assms in \<open>auto simp: calm_def\<close>)
  with assms show ?thesis by (simp add: calm_def)
qed

lemma update_first_all2: "(\<And>x. R x x) \<Longrightarrow> (\<And>x. R x (f x)) \<Longrightarrow> list_all2 R xs (update_first P f xs)"
  by (induction xs) (auto intro: list_all2_refl)

lemma calm_on_client [calm_intros]: "calm r s \<Longrightarrow> (\<And>c. meek c (f c)) \<Longrightarrow> calm r (on_client i f s)"
  by (rule calm_trans) (auto simp: calm_def on_client_def intro: update_first_all2)

lemma calm_on_term [calm_intros]: "calm r s \<Longrightarrow> (\<And>t. t_id (f t) = t_id t) \<Longrightarrow> calm r (on_term i f s)"
  by (rule calm_trans) (auto simp: calm_def on_term_def list_all2_refl)

lemma calm_on_session [calm_intros]:
  "calm r s \<Longrightarrow> (\<And>se. unfocused (f se) = unfocused se) \<Longrightarrow> calm r (on_session i f s)"
  by (rule calm_trans) (auto simp: calm_def on_session_def list_all2_refl map_update_first)

lemma calm_fields [calm_intros]:
  "calm r s \<Longrightarrow> calm r (s\<lparr>sv_list_dirty := b\<rparr>)"
  "calm r s \<Longrightarrow> calm r (s\<lparr>sv_paste_slots := p\<rparr>)"
  "calm r s \<Longrightarrow> calm r (s\<lparr>sv_next_tick := n\<rparr>)"
  "calm r s \<Longrightarrow> calm r (s\<lparr>sv_next_stats := n\<rparr>)"
  "calm r s \<Longrightarrow> calm r (s\<lparr>sv_baselines := m\<rparr>)"
  "calm r s \<Longrightarrow> calm r (s\<lparr>sv_stats_passes := k\<rparr>)"
  "calm r s \<Longrightarrow> calm r (s\<lparr>sv_stats_were_running := b\<rparr>)"
  by (auto simp: calm_def)

lemma calm_slots [calm_intros]:
  "calm r s \<Longrightarrow> calm r (set_slot t slot s)"
  "calm r s \<Longrightarrow> calm r (erase_slot t s)"
  by (auto simp: set_slot_def erase_slot_def intro: calm_intros)

lemma meek_operations [simp]:
  "meek c (forget_dead m c)"
  "meek c (wants_snapshot c)"
  "meek c (put_frame m frame c)"
  "meek c (hang_up c)"
  "meek c (leave c)"
  "meek c (c\<lparr>cl_focused := t\<rparr>)"
  by (auto simp: meek_def forget_dead_def wants_snapshot_def put_frame_def hang_up_def leave_def
      split: message.split prod.split)

lemma calm_focus [calm_intros]: "calm r s \<Longrightarrow> calm r (focus_on c t s)"
  by (auto simp: focus_on_def Let_def unfocused_def split: option.split intro!: calm_intros)

lemma calm_fold [calm_intros]:
  "calm r s \<Longrightarrow> (\<And>x s. calm r s \<Longrightarrow> calm r (f x s)) \<Longrightarrow> calm r (fold f xs s)"
  by (induction xs arbitrary: s) auto

definition calm_drain :: "(u64 \<Rightarrow> 'e server \<Rightarrow> 'e server) \<Rightarrow> bool" where
  "calm_drain d \<longleftrightarrow> (\<forall>t r s. calm r s \<longrightarrow> calm r (d t s))"

lemma calm_drainD: "calm_drain d \<Longrightarrow> calm r s \<Longrightarrow> calm r (d t s)"
  by (simp add: calm_drain_def)

lemma calm_if [calm_intros]: "calm r a \<Longrightarrow> calm r b \<Longrightarrow> calm r (if c then a else b)"
  by simp

lemma calm_option [calm_intros]: "calm r a \<Longrightarrow> (\<And>x. calm r (f x)) \<Longrightarrow> calm r (case z of None \<Rightarrow> a | Some x \<Rightarrow> f x)"
  by (cases z) auto

lemma calm_release:
  assumes d: "calm_drain d" and "calm r s"
  shows "calm r (release_by d c s)"
  unfolding release_by_def Let_def
  by (rule calm_fold [OF _ calm_drainD [OF d]]) (intro calm_fields assms(2))

lemma calm_drop_by: "calm_drain d \<Longrightarrow> calm r s \<Longrightarrow> calm r (drop_by d c s)"
  unfolding drop_by_def Let_def by (intro calm_if calm_fields calm_on_client calm_release meek_operations)

lemma calm_send_by:
  assumes "calm_drain d" and large: "\<And>s. calm r s \<Longrightarrow> calm r (large s)" and "calm r s"
  shows "calm r (send_by large d c m s)"
proof -
  obtain frame big where e: "encode m = (frame, big)" by fastforce
  have s: "calm r (on_client c (forget_dead m) s)" by (intro calm_on_client meek_operations assms(3))
  show ?thesis
    unfolding send_by_def Let_def e prod.case
    by (cases big; simp only: bool.case; intro calm_if calm_drop_by calm_on_client meek_operations s large assms(1,3))
qed

lemma calm_detach_by:
  assumes tell: "\<And>m s. calm r s \<Longrightarrow> calm r (tell m s)" and "calm r s"
  shows "calm r (detach_by tell c reason why s)"
  unfolding detach_by_def Let_def
  by (intro calm_if calm_fields tell calm_on_client meek_operations assms(2))

lemma calm_send_with:
  assumes d: "calm_drain d" and "calm r s"
  shows "calm r (send_with d c m s)"
proof -
  have dirty: "calm r (on_client c wants_snapshot s)" if "calm r s" for s
    by (intro calm_on_client meek_operations that)
  have tell: "calm r (send_by (on_client c wants_snapshot) d c m s)" if "calm r s" for m s
    by (rule calm_send_by [OF d dirty that])
  show ?thesis
    unfolding send_with_def by (rule calm_send_by [OF d _ assms(2)]) (intro calm_if dirty calm_detach_by tell)
qed

lemma calm_write_by:
  assumes d: "calm_drain d" and "calm r s"
  shows "calm r (write_by em d c chunk s)"
  unfolding write_by_def Let_def
  by (intro calm_if calm_drainD [OF d] calm_send_with [OF d] calm_slots calm_focus calm_on_term same_id assms(2))

lemma calm_acknowledge: "calm_drain d \<Longrightarrow> calm r s \<Longrightarrow> calm r (acknowledge d p s)"
  unfolding acknowledge_def by (intro calm_option calm_send_with)

lemma calm_forget_by: "calm_drain d \<Longrightarrow> calm r s \<Longrightarrow> calm r (forget_by d t s)"
  unfolding forget_by_def by (intro calm_option calm_fold calm_acknowledge calm_slots)

lemma calm_drain_slot: "calm_drain (drain_slot em n)"
proof (induction n)
  case (Suc n)
  have "calm r (drain_slot em (Suc n) t s)" if "calm r s" for r t s
  proof (cases "find_slot t s")
    case (Some slot)
    show ?thesis
    proof (cases "slot_waiting slot")
      case Nil
      with Some that show ?thesis by (simp add: calm_slots)
    next
      case (Cons front rest)
      have "calm r (set_slot t (slot\<lparr>slot_waiting := rest\<rparr>) s)" using that by (rule calm_slots)
      with that Some Cons Suc show ?thesis
        by (simp add: Let_def calm_forget_by calm_write_by calm_drainD)
    qed
  qed (use that in simp)
  then show ?case by (simp add: calm_drain_def)
qed (simp add: calm_drain_def)

lemma calm_operations [calm_intros]:
  "calm r s \<Longrightarrow> calm r (send em c m s)"
  "calm r s \<Longrightarrow> calm r (drop_client em c s)"
  "calm r s \<Longrightarrow> calm r (write_paste_chunk em c chunk s)"
  "calm r s \<Longrightarrow> calm r (drain_paste_slot em t s)"
  "calm r s \<Longrightarrow> calm r (forget_paste_slot em t s)"
  by (simp_all add: send_def drop_client_def write_paste_chunk_def drain_paste_slot_def forget_paste_slot_def
      calm_drain_slot calm_send_with calm_drop_by calm_write_by calm_forget_by calm_drainD)

lemma calm_detach [calm_intros]: "calm r s \<Longrightarrow> calm r (detach em c reason why s)"
  unfolding detach_def by (intro calm_detach_by calm_intros)

lemma calm_handle_paste [calm_intros]: "calm r s \<Longrightarrow> calm r (handle_paste em c chunk s)"
  unfolding handle_paste_def Let_def by (intro calm_intros)

lemma calm_for_each [calm_intros]:
  "calm r s \<Longrightarrow> (\<And>c s. calm r s \<Longrightarrow> calm r (visit c s)) \<Longrightarrow> calm r (for_each_attached i visit s)"
  unfolding for_each_attached_def by (rule calm_fold) auto

end
