(* ===== verification/Server_Sessions.thy ===== *)
theory Server_Sessions
  imports Server_Frame
begin

text \<open>
  Sessions and the terminals in them: how they are made, listed, moved between, killed, closed and
  forgotten (\<^verbatim>\<open>src/src/server/server.cpp\<close>). The clock's reading is an argument. What is written to
  standard error is left out.
\<close>

section \<open>Who is told what there is\<close>

definition session_info_of :: "'e server \<Rightarrow> session \<Rightarrow> session_info" where
  "session_info_of s se =
     \<lparr>si_id = se_id se, si_name = se_name se, si_terminals = of_nat (length (se_terminals se)),
      si_attached = of_nat (min (attached_count (se_id se) s) 255), si_created = 0, si_last_attached = 0\<rparr>"

definition send_session_list :: "'e emulator \<Rightarrow> u64 \<Rightarrow> 'e server \<Rightarrow> 'e server" where
  "send_session_list em client s =
     (let infos = map (session_info_of s) (sv_sessions s);
          s = send em client (SessionList infos) s
      in if cl_awaiting_removal (the_client client s) \<noteq> 0 \<and>
            \<not> list_ex (\<lambda>info. si_id info = cl_awaiting_removal (the_client client s)) infos
         then on_client client (\<lambda>c. c\<lparr>cl_awaiting_removal := 0\<rparr>) s
         else s)"

definition broadcast_session_list :: "'e emulator \<Rightarrow> u64 option \<Rightarrow> 'e server \<Rightarrow> 'e server" where
  "broadcast_session_list em requester s =
     fold (\<lambda>client s.
       let c = the_client client s
       in if cl_greeted c \<and> (cl_kind c = Ui \<or> Some client = requester \<or> cl_awaiting_removal c \<noteq> 0)
          then send_session_list em client s else s)
       (map cl_id (sv_clients s)) (s\<lparr>sv_list_dirty := False\<rparr>)"

definition flush_reader_counts :: "'e emulator \<Rightarrow> 'e server \<Rightarrow> 'e server" where
  "flush_reader_counts em s =
     (let (everybody, s) =
        fold (\<lambda>client (everybody, s).
          let c = the_client client s
          in if \<not> cl_greeted c \<or> cl_kind c \<noteq> Ui then (everybody, s)
             else if over_high_water (cl_stream c) \<or> cl_dirty c then (False, s)
             else (everybody, send_session_list em client s))
          (map cl_id (sv_clients s)) (True, s)
      in s\<lparr>sv_list_dirty := \<not> everybody\<rparr>)"

section \<open>Making sessions and terminals\<close>

definition create_session :: "bytes \<Rightarrow> 'e server \<Rightarrow> u64 \<times> 'e server" where
  "create_session name s =
     (let ident = sv_next_session s;
          se = \<lparr>se_id = ident, se_name = (if name = [] then next_session_name s else name), se_terminals = [],
                se_last_focused = 0, se_desktop = no_extent, se_printer = no_override\<rparr>
      in (ident, s\<lparr>sv_session_existed := True, sv_next_session := ident + 1, sv_sessions := sv_sessions s @ [se]\<rparr>))"

definition home_for :: "u64 \<Rightarrow> 'e server \<Rightarrow> u64 \<times> 'e server" where
  "home_for ident s =
     (case session_for ident s of
       Some se \<Rightarrow> (se_id se, s)
     | None \<Rightarrow> if ident = 0 \<and> sv_sessions s \<noteq> [] then (se_id (hd (sv_sessions s)), s) else create_session [] s)"

definition open_terminal :: "'e emulator \<Rightarrow> u64 \<Rightarrow> terminal_spec \<Rightarrow> 'e server \<Rightarrow> u64 \<times> 'e server" where
  "open_terminal em ident spec s =
     (let (term, tms) = terminals_open em spec (sv_terminals s);
          (home, s) = home_for ident (s\<lparr>sv_terminals := tms\<rparr>)
      in (term, on_session home (\<lambda>se. se\<lparr>se_terminals := se_terminals se @ [term], se_last_focused := term\<rparr>) s))"

section \<open>Printing\<close>

definition apply_policy :: "'e emulator \<Rightarrow> effective_policy \<Rightarrow> 'e terminal \<Rightarrow> 'e terminal" where
  "apply_policy em p t =
     (let session = em_set_printer_policy em (if ep_mode p = Off then Policy_Deny else Policy_Capture) (t_session t);
          session = em_set_printer_spool_limit em (unat (if ep_mode p = Ask then ep_ask_cache p else ep_spool_limit p)) session
      in t\<lparr>t_session := session, t_printer_news := True\<rparr>)"

definition apply_printer_policies :: "'e emulator \<Rightarrow> 'e server \<Rightarrow> 'e server" where
  "apply_printer_policies em s =
     fold (\<lambda>term s. on_term term (apply_policy em (effective_printer_policy term s)) s)
       (terminal_ids (sv_terminals s)) s"

definition job_info :: "held_job \<Rightarrow> print_job_info" where
  "job_info job = \<lparr>job_id = hj_id job, job_kind = hj_kind job, job_bytes = clamp_u32 (length (hj_text job)),
     job_lines = hj_lines job, job_at = hj_at job\<rparr>"

definition collect_and_announce :: "'e emulator \<Rightarrow> int \<Rightarrow> u64 \<Rightarrow> u64 \<Rightarrow> 'e server \<Rightarrow> 'e server" where
  "collect_and_announce em now term watcher s =
     (case terminal_at term s of
       None \<Rightarrow> s
     | Some t \<Rightarrow>
         (case collect_print_jobs em (word_of_int now) t of
           (added, t') \<Rightarrow>
             fold (\<lambda>job_id s. case terminal_at term s of
                 None \<Rightarrow> s
               | Some t \<Rightarrow> (case print_job job_id t of
                     None \<Rightarrow> s
                   | Some job \<Rightarrow> send em watcher (PrintJobAdded \<lparr>pja_term = term, pja_job = job_info job\<rparr>) s))
               added (on_term term (\<lambda>_. t') s)))"

section \<open>Forgetting\<close>

definition erase_session :: "u64 \<Rightarrow> 'e server \<Rightarrow> 'e server" where
  "erase_session ident s = s\<lparr>sv_sessions := filter (\<lambda>se. se_id se \<noteq> ident) (sv_sessions s)\<rparr>"

definition forget_session :: "'e emulator \<Rightarrow> u64 \<Rightarrow> detach_reason \<Rightarrow> bytes \<Rightarrow> 'e server \<Rightarrow> 'e server" where
  "forget_session em ident reason why s =
     (let s = fold (\<lambda>client s. let c = the_client client s
                in if cl_attached c \<and> cl_session c = ident then detach em client reason why s else s)
                (map cl_id (sv_clients s)) s;
          s = broadcast_session_list em None (erase_session ident s)
      in if sv_sessions s = [] \<and> sv_session_existed s then s\<lparr>sv_running := False\<rparr> else s)"

definition erase_terminal :: "'e emulator \<Rightarrow> u64 \<Rightarrow> 'e server \<Rightarrow> 'e server" where
  "erase_terminal em term s =
     s\<lparr>sv_terminals := snd (terminals_close em term (sv_terminals s)), sv_diffs := engine_forget term (sv_diffs s)\<rparr>"

definition remove_terminal :: "'e emulator \<Rightarrow> u64 \<Rightarrow> bool \<Rightarrow> 'e server \<Rightarrow> 'e server" where
  "remove_terminal em term exited s =
     (let s = forget_paste_slot em term s;
          home = session_holding term s;
          status = (case terminal_at term s of None \<Rightarrow> None | Some t \<Rightarrow> t_exit_status t);
          s = erase_terminal em term s;
          s = s\<lparr>sv_baselines := (sv_baselines s)(term := None)\<rparr>;
          closed = TermClosed \<lparr>tc_term = term, tc_exited = (if exited then 1 else 0),
                     tc_exit_status = (case status of None \<Rightarrow> 0 | Some v \<Rightarrow> v), tc_hold = 0\<rparr>
      in case home of
           None \<Rightarrow> s
         | Some se \<Rightarrow>
             let s = on_session (se_id se) (\<lambda>se. se\<lparr>se_terminals := filter (\<lambda>i. i \<noteq> term) (se_terminals se)\<rparr>) s;
                 s = for_each_attached (se_id se) (\<lambda>watcher. send em watcher closed) s;
                 s = broadcast_session_list em None s
             in if (case session_for (se_id se) s of None \<Rightarrow> False | Some home \<Rightarrow> se_terminals home = [])
                   \<and> set_kill_empty_session (sv_settings s)
                then forget_session em (se_id se) Session_Killed (str ''its last terminal closed'') s
                else s)"

section \<open>Killing a session\<close>

definition second :: int where "second = 1000000000"

definition begin_kill :: "'e emulator \<Rightarrow> int \<Rightarrow> u64 \<Rightarrow> bool \<Rightarrow> int \<Rightarrow> 'e server \<Rightarrow> 'e server" where
  "begin_kill em now ident force grace s =
     (case session_for ident s of
       None \<Rightarrow> s
     | Some se \<Rightarrow>
         let s = fold (\<lambda>term. on_term term (request_termination em)) (se_terminals se) s
         in s\<lparr>sv_kills := sv_kills s @ [\<lparr>pk_session = ident, pk_deadline = now + max 0 grace * second, pk_force = force,
              pk_kill_deadline = 0, pk_killed = False\<rparr>]\<rparr>)"

definition lives :: "'e emulator \<Rightarrow> u64 \<Rightarrow> 'e server \<Rightarrow> bool" where
  "lives em term s = (case terminal_at term s of None \<Rightarrow> False | Some t \<Rightarrow> live em t)"

definition end_session :: "'e emulator \<Rightarrow> session \<Rightarrow> 'e server \<Rightarrow> 'e server" where
  "end_session em se s =
     forget_session em (se_id se) Session_Killed (str ''the session was ended'')
       (fold (erase_terminal em) (se_terminals se) s)"

text \<open>One pending kill: whether it stays pending, and what it did.\<close>

definition advance_kill :: "'e emulator \<Rightarrow> int \<Rightarrow> pending_kill \<Rightarrow> 'e server \<Rightarrow> pending_kill option \<times> 'e server" where
  "advance_kill em now p s =
     (case session_for (pk_session p) s of
       None \<Rightarrow> (None, s)
     | Some se \<Rightarrow>
         let still_running = filter (\<lambda>term. lives em term s) (se_terminals se)
         in if still_running \<noteq> [] \<and> now < pk_deadline p then (Some p, s)
            else if still_running \<noteq> [] \<and> pk_force p \<and> \<not> pk_killed p then
              (Some (p\<lparr>pk_killed := True, pk_kill_deadline := now + 2 * second\<rparr>),
               fold (\<lambda>term. on_term term (request_kill em)) still_running s)
            else if still_running \<noteq> [] \<and> pk_force p \<and> now < pk_kill_deadline p then (Some p, s)
            else if still_running \<noteq> [] \<and> \<not> pk_force p then (None, broadcast_session_list em None s)
            else (None, end_session em se s))"

text \<open>A walk along a list of pending things, each of which stays, changed or not, or goes.\<close>

definition walk :: "('p \<Rightarrow> 's \<Rightarrow> 'p option \<times> 's) \<Rightarrow> 'p list \<Rightarrow> 's \<Rightarrow> 'p list \<times> 's" where
  "walk step ps s =
     fold (\<lambda>p (kept, s). case step p s of (None, s) \<Rightarrow> (kept, s) | (Some p, s) \<Rightarrow> (kept @ [p], s)) ps ([], s)"

definition advance_kills :: "'e emulator \<Rightarrow> int \<Rightarrow> 'e server \<Rightarrow> 'e server" where
  "advance_kills em now s = (case walk (advance_kill em now) (sv_kills s) s of (kept, s) \<Rightarrow> s\<lparr>sv_kills := kept\<rparr>)"

section \<open>Closing a terminal\<close>

definition begin_close :: "'e emulator \<Rightarrow> int \<Rightarrow> u64 \<Rightarrow> bool \<Rightarrow> int \<Rightarrow> 'e server \<Rightarrow> 'e server" where
  "begin_close em now term force grace s =
     (if terminal_at term s = None then s
      else
        let s = on_term term (request_termination em) s;
            deadline = now + max 0 grace * second
        in if list_ex (\<lambda>p. pc_terminal p = term) (sv_closes s)
           then s\<lparr>sv_closes := update_first (\<lambda>p. pc_terminal p = term)
                (\<lambda>p. p\<lparr>pc_force := force, pc_deadline := deadline, pc_killed := False, pc_kill_deadline := 0\<rparr>) (sv_closes s)\<rparr>
           else s\<lparr>sv_closes := sv_closes s @ [\<lparr>pc_terminal = term, pc_deadline = deadline, pc_force = force,
                pc_kill_deadline = 0, pc_killed = False\<rparr>]\<rparr>)"

definition begin_kill_terminal :: "'e emulator \<Rightarrow> int \<Rightarrow> u64 \<Rightarrow> 'e server \<Rightarrow> 'e server" where
  "begin_kill_terminal em now term s =
     (if terminal_at term s = None then s
      else
        let s = on_term term (request_kill em) s;
            killed = \<lparr>pc_terminal = term, pc_deadline = now, pc_force = True, pc_kill_deadline = now + 2 * second, pc_killed = True\<rparr>
        in if list_ex (\<lambda>p. pc_terminal p = term) (sv_closes s)
           then s\<lparr>sv_closes := update_first (\<lambda>p. pc_terminal p = term) (\<lambda>_. killed) (sv_closes s)\<rparr>
           else s\<lparr>sv_closes := sv_closes s @ [killed]\<rparr>)"

definition advance_close :: "'e emulator \<Rightarrow> int \<Rightarrow> pending_close \<Rightarrow> 'e server \<Rightarrow> pending_close option \<times> 'e server" where
  "advance_close em now p s =
     (case terminal_at (pc_terminal p) s of
       None \<Rightarrow> (None, s)
     | Some t \<Rightarrow>
         if live em t \<and> now < pc_deadline p then (Some p, s)
         else if live em t \<and> pc_force p \<and> \<not> pc_killed p then
           (Some (p\<lparr>pc_killed := True, pc_kill_deadline := now + 2 * second\<rparr>), on_term (pc_terminal p) (request_kill em) s)
         else if live em t \<and> pc_force p \<and> now < pc_kill_deadline p then (Some p, s)
         else if live em t \<and> \<not> pc_force p then (None, s)
         else (None, remove_terminal em (pc_terminal p) True s))"

definition advance_closes :: "'e emulator \<Rightarrow> int \<Rightarrow> 'e server \<Rightarrow> 'e server" where
  "advance_closes em now s = (case walk (advance_close em now) (sv_closes s) s of (kept, s) \<Rightarrow> s\<lparr>sv_closes := kept\<rparr>)"

section \<open>Exits\<close>

definition notice_exit :: "'e emulator \<Rightarrow> u64 \<Rightarrow> 'e server \<Rightarrow> 'e server" where
  "notice_exit em term s =
     (case terminal_at term s of
       None \<Rightarrow> s
     | Some t \<Rightarrow>
         if t_exit_announced t \<or> \<not> nw_lifecycle (em_news em (t_session t)) then s
         else
           let t = observe_exit em t;
               s = on_term term (observe_exit em) s
           in if live em t then s
              else
                let s = on_term term (\<lambda>t. t\<lparr>t_exit_announced := True\<rparr>) s;
                    failed = (t_exit_status t = None \<or> t_exit_status t \<noteq> Some 0);
                    hold = (set_on_exit (sv_settings s) = Exit_Hold \<or> set_on_exit (sv_settings s) = Exit_Hold_On_Error \<and> failed)
                in if \<not> hold then remove_terminal em term True s
                   else
                     let closed = TermClosed \<lparr>tc_term = term, tc_exited = 1,
                           tc_exit_status = (case t_exit_status t of None \<Rightarrow> 0 | Some v \<Rightarrow> v), tc_hold = 1\<rparr>
                     in case session_holding term s of
                          None \<Rightarrow> s
                        | Some home \<Rightarrow> for_each_attached (se_id home) (\<lambda>watcher. send em watcher closed) s)"

definition notice_exits :: "'e emulator \<Rightarrow> 'e server \<Rightarrow> 'e server" where
  "notice_exits em s = fold (notice_exit em) (terminal_ids (sv_terminals s)) s"

section \<open>Moving a terminal\<close>

definition transfer :: "'e emulator \<Rightarrow> u64 \<Rightarrow> u64 \<Rightarrow> u64 \<Rightarrow> 'e server \<Rightarrow> 'e server" where
  "transfer em term source target s =
     (let s = s\<lparr>sv_closes := filter (\<lambda>p. pc_terminal p \<noteq> term) (sv_closes s)\<rparr>;
          s = on_session source (\<lambda>se. se\<lparr>se_terminals := filter (\<lambda>i. i \<noteq> term) (se_terminals se)\<rparr>) s;
          s = on_session target (\<lambda>se. se\<lparr>se_terminals := se_terminals se @ [term]\<rparr>) s;
          s = on_term term (set_layout no_layout) s;
          left = TermClosed \<lparr>tc_term = term, tc_exited = 0, tc_exit_status = 0, tc_hold = 0\<rparr>;
          s = for_each_attached source (\<lambda>watcher. send em watcher left) s;
          s = for_each_attached target (\<lambda>watcher. on_client watcher wants_snapshot) s;
          s = broadcast_session_list em None s
      in if (case session_for source s of None \<Rightarrow> False | Some se \<Rightarrow> se_terminals se = []) \<and> set_kill_empty_session (sv_settings s)
         then forget_session em source Session_Killed (str ''its last terminal moved away'') s
         else s)"

definition server_move_terminal :: "'e emulator \<Rightarrow> u64 \<Rightarrow> move_terminal \<Rightarrow> 'e server \<Rightarrow> 'e server" where
  "server_move_terminal em client request s =
     (case session_holding (mt_term request) s of
       None \<Rightarrow> send em client (error_said No_Such_Terminal (str ''MoveTerminal'') (str ''no such terminal'')) s
     | Some source \<Rightarrow>
         if terminal_at (mt_term request) s = None
         then send em client (error_said No_Such_Terminal (str ''MoveTerminal'') (str ''no such terminal'')) s
         else if mt_to_new_session request \<noteq> 0 then
           (case create_session [] s of (target, s) \<Rightarrow> transfer em (mt_term request) (se_id source) target s)
         else
           case session_for (mt_destination_session request) s of
             None \<Rightarrow> send em client (error_said No_Such_Session (str ''MoveTerminal'') (str ''no such session'')) s
           | Some target \<Rightarrow>
               if se_id target = se_id source then s
               else transfer em (mt_term request) (se_id source) (se_id target) s)"

end
