(* ===== verification/Server_Screens.thy ===== *)
theory Server_Screens
  imports Server_Sessions
begin

text \<open>
  What the readers of a session are shown: the snapshot an attach or a heal sends, the pictures owed
  behind it, and what each tick announces (\<^verbatim>\<open>src/src/server/server.cpp\<close>).
\<close>

section \<open>Pictures owed\<close>

definition image_op_subject :: "message \<Rightarrow> u64" where
  "image_op_subject m =
     (case m of ImageAddBegin b \<Rightarrow> iab_id b | ImageChunk c \<Rightarrow> ic_id c | ImageEnd i \<Rightarrow> i | ImagePlace p \<Rightarrow> ip_id p
      | ImageRemove r \<Rightarrow> ir_id r | _ \<Rightarrow> 0)"

definition opens_picture :: "message \<Rightarrow> bool" where
  "opens_picture m \<longleftrightarrow> (case m of ImageAddBegin _ \<Rightarrow> True | _ \<Rightarrow> False)"

definition removes_picture :: "message \<Rightarrow> bool" where
  "removes_picture m \<longleftrightarrow> (case m of ImageRemove _ \<Rightarrow> True | _ \<Rightarrow> False)"

definition places_picture :: "message \<Rightarrow> bool" where
  "places_picture m \<longleftrightarrow> (case m of ImagePlace _ \<Rightarrow> True | _ \<Rightarrow> False)"

definition owed_of :: "message \<Rightarrow> owed_image" where
  "owed_of m = \<lparr>oi_message = m, oi_image = image_op_subject m, oi_begins = opens_picture m\<rparr>"

text \<open>What the debt loses to an operation that is to join it: a group of that picture that has not begun to go
  out, and an earlier place.\<close>

definition superseded :: "u64 \<Rightarrow> owed_image list \<Rightarrow> owed_image list" where
  "superseded subject debt =
     (let fresh = (\<lambda>owed. \<not> (oi_image owed = subject \<and> oi_begins owed))
      in takeWhile fresh debt @ filter (\<lambda>owed. oi_image owed \<noteq> subject) (dropWhile fresh debt))"

definition without_place :: "u64 \<Rightarrow> owed_image list \<Rightarrow> owed_image list" where
  "without_place subject debt =
     filter (\<lambda>owed. \<not> (oi_image owed = subject \<and> places_picture (oi_message owed))) debt"

definition debt_after :: "message \<Rightarrow> owed_image list \<Rightarrow> owed_image list" where
  "debt_after m debt =
     (let subject = image_op_subject m;
          debt = (if (opens_picture m \<or> removes_picture m) \<and> subject \<noteq> 0 then superseded subject debt else debt);
          debt = (if places_picture m \<and> subject \<noteq> 0 then without_place subject debt else debt)
      in debt @ [owed_of m])"

definition owe_image :: "message \<Rightarrow> client \<Rightarrow> client" where
  "owe_image m c = c\<lparr>cl_owed := take (cl_owed_sent c) (cl_owed c) @ debt_after m (still_owed c)\<rparr>"

text \<open>Whether somebody would draw this picture now.\<close>

definition wants_picture :: "u64 \<Rightarrow> u64 \<Rightarrow> client \<Rightarrow> bool" where
  "wants_picture home wire_id c \<longleftrightarrow>
     cl_attached c \<and> \<not> cl_closing c \<and> cl_kind c = Ui \<and> cl_session c = home \<and> \<not> cl_dirty c \<and>
     \<not> list_ex (\<lambda>owed. oi_image owed = wire_id \<and> oi_begins owed) (still_owed c)"

definition picture_wanted_now :: "'e server \<Rightarrow> u64 \<Rightarrow> u64 \<Rightarrow> bool" where
  "picture_wanted_now s term wire_id =
     (case session_holding term s of None \<Rightarrow> False | Some home \<Rightarrow> list_ex (wants_picture (se_id home) wire_id) (sv_clients s))"

section \<open>A snapshot\<close>

definition printing_state :: "'e emulator \<Rightarrow> 'e terminal \<Rightarrow> printer_state" where
  "printing_state em t =
     (if em_printer_sunk em (t_session t) then Printer_Sunk
      else if st_printer_controller (src_status (em_source em (t_session t))) then Printer_Capturing else Printer_Idle)"

definition printing_bytes :: "'e emulator \<Rightarrow> 'e terminal \<Rightarrow> u32" where
  "printing_bytes em t = clamp_u32 (st_printer_pending (src_status (em_source em (t_session t))))"

definition mark_flags :: "'e terminal \<Rightarrow> u8" where
  "mark_flags t = (if t_bell_marked t then 1 else 0) OR (if t_activity_marked t then 2 else 0)"

text \<open>What the server knows of a terminal beside its screen.\<close>

definition state_with :: "'e emulator \<Rightarrow> nat \<Rightarrow> effective_policy \<Rightarrow> 'e terminal \<Rightarrow> terminal_state \<Rightarrow> terminal_state" where
  "state_with em index policy t state =
     (let state = state\<lparr>ts_index := of_nat index, ts_printer_mode := wire_printer_mode (ep_mode policy),
            ts_printer_scope := ep_mode_from policy, ts_print_jobs := map job_info (t_jobs t),
            ts_printer_state := printing_state em t, ts_printer_bytes := printing_bytes em t,
            ts_rect := wl_rect (t_layout t), ts_z_order := wl_z_order (t_layout t),
            ts_zoomed := (if wl_zoomed (t_layout t) then 1 else 0), ts_tile := wl_tile (t_layout t),
            ts_flags := mark_flags t, ts_custom_title := t_custom_title t,
            ts_bell_serial := t_bell_serial t, ts_activity_serial := t_activity_serial t\<rparr>
      in if live em t then state
         else state\<lparr>ts_exited := 1, ts_exit_status := (case t_exit_status t of None \<Rightarrow> 0 | Some v \<Rightarrow> v), ts_hold := 1\<rparr>)"

definition all_announced :: "'e terminal \<Rightarrow> 'e terminal" where
  "all_announced t = t\<lparr>t_layout_announced := True, t_marks_announced := True, t_custom_title_announced := True\<rparr>"

definition snapshot_one :: "'e emulator \<Rightarrow> u64 \<Rightarrow> terminal_state list \<times> 'e server \<Rightarrow> terminal_state list \<times> 'e server" where
  "snapshot_one em term st =
     (case st of (states, s) \<Rightarrow>
       (case terminal_at term s of
         None \<Rightarrow> (states, s)
       | Some t \<Rightarrow>
           (case engine_snapshot term (em_source em (t_session t)) (sv_diffs s) of
             (state, diffs) \<Rightarrow>
               (states @ [state_with em (length states) (effective_printer_policy term s) t state],
                on_term term all_announced (s\<lparr>sv_diffs := diffs\<rparr>)))))"

text \<open>The history of each terminal, out of what is left of the budget.\<close>

fun share_history :: "'e emulator \<Rightarrow> 'e server \<Rightarrow> nat \<Rightarrow> terminal_state list \<Rightarrow> terminal_state list" where
  "share_history em s remaining [] = []"
| "share_history em s remaining (state # states) =
     (case terminal_at (ts_term state) s of
       None \<Rightarrow> state # share_history em s remaining states
     | Some t \<Rightarrow>
         (case engine_fill_history (ts_term state) state (em_source em (t_session t))
                 (remaining div max 1 (Suc (length states))) (sv_diffs s) of
           (spent, state) \<Rightarrow> state # share_history em s (remaining - spent) states))"

definition snapshot_payload_budget :: nat where
  "snapshot_payload_budget = 4 * 1024 * 1024"

definition snapshot_head :: "client \<Rightarrow> 'e server \<Rightarrow> snapshot" where
  "snapshot_head c s =
     (let home = session_for (cl_session c) s;
          desktop = (case home of None \<Rightarrow> cl_desktop c
                     | Some se \<Rightarrow> if real_extent (se_desktop se) then se_desktop se else cl_desktop c)
      in \<lparr>sn_desktop_columns = word_of_int (max 0 (width desktop)), sn_desktop_rows = word_of_int (max 0 (height desktop)),
          sn_focused_term = (if cl_focused c \<noteq> 0 then cl_focused c
                             else case home of None \<Rightarrow> 0 | Some se \<Rightarrow> se_last_focused se),
          sn_terminals = []\<rparr>)"

definition owe_pictures :: "u64 list \<Rightarrow> diff_engine \<Rightarrow> client \<Rightarrow> client" where
  "owe_pictures held diffs c =
     fold owe_image (concat (map (\<lambda>term. engine_attach_images term diffs) held)) (c\<lparr>cl_owed := [], cl_owed_sent := 0\<rparr>)"

definition send_snapshot :: "'e emulator \<Rightarrow> u64 \<Rightarrow> 'e server \<Rightarrow> 'e server" where
  "send_snapshot em client s =
     (let s = on_client client (\<lambda>c. c\<lparr>cl_dirty := False\<rparr>) s;
          c = the_client client s;
          head = snapshot_head c s;
          held = (case session_for (cl_session c) s of None \<Rightarrow> [] | Some se \<Rightarrow> se_terminals se);
          (states, s) = fold (snapshot_one em) held ([], s);
          spent = 8 + snapshot_size (head\<lparr>sn_terminals := states\<rparr>)
      in if spent > snapshot_payload_budget
         then detach em client Session_Killed
           (str ''this session is too large for one snapshot; the screens alone are past the protocol's limit'') s
         else
           let states = share_history em s (snapshot_payload_budget - spent) states;
               s = send em client (Attached \<lparr>attached_session = cl_session c,
                     attached_snapshot = head\<lparr>sn_terminals := states\<rparr>\<rparr>) s
           in on_client client (\<lambda>c. (owe_pictures held (sv_diffs s) c)\<lparr>cl_draining_heal := True\<rparr>) s)"

section \<open>What a terminal has to say\<close>

definition wrote_something :: "damage \<Rightarrow> bool" where
  "wrote_something d \<longleftrightarrow> dm_pushed d > 0 \<or> list_ex (\<lambda>row. \<not> damage_empty row) (dm_rows d)"

text \<open>The counts and marks of one tick.\<close>

definition mark_news :: "'e emulator \<Rightarrow> bool \<Rightarrow> 'e terminal \<Rightarrow> 'e terminal" where
  "mark_news em focused t =
     (let wrote = (\<not> t_resized_by_client t \<and> wrote_something (src_damage (em_source em (t_session t))));
          bell = nw_bell (em_news em (t_session t));
          t = t\<lparr>t_resized_by_client := False\<rparr>;
          t = (if bell then count_bell t else t);
          t = (if wrote then count_activity t else t)
      in if focused then clear_marks t
         else
           let t = (if bell then mark_bell t else t)
           in if wrote then mark_activity t else t)"

definition position_in :: "u64 \<Rightarrow> u64 list \<Rightarrow> nat" where
  "position_in term ids = length (takeWhile (\<lambda>i. i \<noteq> term) ids)"

definition term_meta_of :: "'e emulator \<Rightarrow> session \<Rightarrow> 'e terminal \<Rightarrow> message" where
  "term_meta_of em home t =
     TermMeta \<lparr>tm_term = t_id t, tm_index = of_nat (position_in (t_id t) (se_terminals home)),
       tm_title = clamp_utf8 (st_title (src_status (em_source em (t_session t)))) max_title_bytes,
       tm_custom_title = t_custom_title t, tm_flags = mark_flags t,
       tm_bell_serial = t_bell_serial t, tm_activity_serial = t_activity_serial t\<rparr>"

definition announce_meta :: "'e emulator \<Rightarrow> u64 \<Rightarrow> session \<Rightarrow> u64 \<Rightarrow> 'e server \<Rightarrow> 'e server" where
  "announce_meta em term home watcher s =
     (case terminal_at term s of
       None \<Rightarrow> s
     | Some t \<Rightarrow>
         if t_marks_announced t \<and> t_custom_title_announced t then s
         else on_term term (\<lambda>t. t\<lparr>t_marks_announced := True, t_custom_title_announced := True\<rparr>)
                (send em watcher (term_meta_of em home t) s))"

definition announce_clipboard :: "'e emulator \<Rightarrow> u64 \<Rightarrow> u64 \<Rightarrow> 'e server \<Rightarrow> 'e server" where
  "announce_clipboard em term watcher s =
     (case terminal_at term s of
       None \<Rightarrow> s
     | Some t \<Rightarrow>
         if nw_clipboard (em_news em (t_session t)) \<and> set_osc52 (sv_settings s) \<and> em_clipboard_text em (t_session t) \<noteq> []
         then send em watcher (ClipboardSet \<lparr>cs_term = term, cs_text = em_clipboard_text em (t_session t)\<rparr>) s
         else s)"

definition print_state_of :: "'e emulator \<Rightarrow> u64 \<Rightarrow> 'e terminal \<Rightarrow> 'e server \<Rightarrow> message" where
  "print_state_of em term t s =
     PrintState \<lparr>ps_term = term, ps_mode = wire_printer_mode (ep_mode (effective_printer_policy term s)),
       ps_state = printing_state em t, ps_bytes = printing_bytes em t, ps_jobs = of_nat (min (length (t_jobs t)) 0xFFFF)\<rparr>"

text \<open>\<open>damage.printer || take_printer_news()\<close>: the news is taken only where the damage has not already said so.\<close>

definition announce_printing :: "'e emulator \<Rightarrow> int \<Rightarrow> u64 \<Rightarrow> u64 \<Rightarrow> 'e server \<Rightarrow> 'e server" where
  "announce_printing em now term watcher s =
     (case terminal_at term s of
       None \<Rightarrow> s
     | Some t \<Rightarrow>
         let damaged = nw_printer (em_news em (t_session t));
             s = (if damaged then s else on_term term (\<lambda>t. t\<lparr>t_printer_news := False\<rparr>) s)
         in if damaged \<or> t_printer_news t then
              let s = collect_and_announce em now term watcher s
              in (case terminal_at term s of None \<Rightarrow> s | Some t \<Rightarrow> send em watcher (print_state_of em term t s) s)
            else s)"

definition announce_complaint :: "'e emulator \<Rightarrow> u64 \<Rightarrow> u64 \<Rightarrow> 'e server \<Rightarrow> 'e server" where
  "announce_complaint em term watcher s =
     (case terminal_at term s of
       None \<Rightarrow> s
     | Some t \<Rightarrow>
         let complaints = src_diagnostics (em_source em (t_session t))
         in if nw_diagnostics (em_news em (t_session t)) \<and> complaints \<noteq> []
            then send em watcher (TermDiagnostic \<lparr>td_term = term, td_kind = wire_kind (fst (last complaints)),
                   td_text = clamp_utf8 (snd (last complaints)) max_title_bytes\<rparr>) s
            else s)"

definition announce_news :: "'e emulator \<Rightarrow> int \<Rightarrow> u64 \<Rightarrow> 'e server \<Rightarrow> 'e server" where
  "announce_news em now term s =
     (if terminal_at term s = None then s
      else case session_holding term s of
        None \<Rightarrow> s
      | Some home \<Rightarrow>
          let s = on_term term (mark_news em (se_last_focused home = term)) s
          in case client_attached_to (se_id home) s of
               None \<Rightarrow> s
             | Some watcher \<Rightarrow>
                 announce_complaint em term (cl_id watcher)
                   (announce_printing em now term (cl_id watcher)
                     (announce_clipboard em term (cl_id watcher)
                       (announce_meta em term home (cl_id watcher) s))))"

definition announce_terminal_news :: "'e emulator \<Rightarrow> int \<Rightarrow> 'e server \<Rightarrow> 'e server" where
  "announce_terminal_news em now s = fold (announce_news em now) (terminal_ids (sv_terminals s)) s"

section \<open>Layout\<close>

definition layout_entry_of :: "'e terminal \<Rightarrow> layout_entry" where
  "layout_entry_of t =
     \<lparr>le_term = t_id t, le_rect = wl_rect (t_layout t), le_z_order = wl_z_order (t_layout t),
      le_zoomed = (if wl_zoomed (t_layout t) then 1 else 0), le_tile = wl_tile (t_layout t)\<rparr>"

definition layout_entries :: "session \<Rightarrow> 'e server \<Rightarrow> layout_entry list" where
  "layout_entries se s =
     map layout_entry_of (List.map_filter (\<lambda>term. terminal_at term s) (se_terminals se))"

definition layout_moved :: "session \<Rightarrow> 'e server \<Rightarrow> bool" where
  "layout_moved se s \<longleftrightarrow>
     list_ex (\<lambda>term. case terminal_at term s of None \<Rightarrow> False | Some t \<Rightarrow> \<not> t_layout_announced t) (se_terminals se)"

definition announce_session_layout :: "'e emulator \<Rightarrow> u64 \<Rightarrow> session \<Rightarrow> 'e server \<Rightarrow> 'e server" where
  "announce_session_layout em force se s =
     (if \<not> ((se_id se = force \<and> force \<noteq> 0) \<or> layout_moved se s) then s
      else case client_attached_to (se_id se) s of
        None \<Rightarrow> s
      | Some first \<Rightarrow>
          let desktop = (if real_extent (se_desktop se) then se_desktop se else cl_desktop first);
              entries = layout_entries se s;
              s = for_each_attached (se_id se) (\<lambda>watcher s.
                    send em watcher (LayoutDelta \<lparr>ld_session = se_id se, ld_entries = entries,
                      ld_focused_term = cl_focused (the_client watcher s),
                      ld_desktop_columns = word_of_int (max 0 (width desktop)),
                      ld_desktop_rows = word_of_int (max 0 (height desktop))\<rparr>) s) s
          in fold (\<lambda>term. on_term term (\<lambda>t. t\<lparr>t_layout_announced := True\<rparr>)) (se_terminals se) s)"

definition announce_layout :: "'e emulator \<Rightarrow> u64 \<Rightarrow> 'e server \<Rightarrow> 'e server" where
  "announce_layout em force s = fold (announce_session_layout em force) (sv_sessions s) s"

end
