(* ===== verification/Server_Tick.thy ===== *)
theory Server_Tick
  imports Server_Screens
begin

text \<open>
  What the server does when its clock says so (\<open>flush_tick\<close> and \<open>stats_tick\<close> of
  \<^verbatim>\<open>src/src/server/server.cpp\<close>).
\<close>

section \<open>The steps of a tick\<close>

definition each_client :: "(u64 \<Rightarrow> 'e server \<Rightarrow> 'e server) \<Rightarrow> 'e server \<Rightarrow> 'e server" where
  "each_client f s = fold f (map cl_id (sv_clients s)) s"

definition expire_mismatch :: "'e emulator \<Rightarrow> int \<Rightarrow> u64 \<Rightarrow> 'e server \<Rightarrow> 'e server" where
  "expire_mismatch em now client s =
     (let c = the_client client s
      in if cl_awaiting_kill c \<and> \<not> cl_closing c \<and> now \<ge> cl_kill_deadline c then drop_client em client s else s)"

definition observe_exits :: "'e emulator \<Rightarrow> 'e server \<Rightarrow> 'e server" where
  "observe_exits em s = fold (\<lambda>term. on_term term (observe_exit em)) (terminal_ids (sv_terminals s)) s"

definition flush_stream :: "client \<Rightarrow> client" where
  "flush_stream c = c\<lparr>cl_stream := snd (stream_flush (cl_stream c))\<rparr>"

definition heal_client :: "'e emulator \<Rightarrow> u64 \<Rightarrow> 'e server \<Rightarrow> 'e server" where
  "heal_client em client s =
     (let c = the_client client s
      in if \<not> cl_attached c \<or> \<not> cl_dirty c then s
         else
           let s = on_client client flush_stream s
           in if ready_for_screen (cl_stream (the_client client s)) then send_snapshot em client s else s)"

text \<open>Pictures out of the debt while the queue is short. Each turn sends one, so the debt is a bound.\<close>

definition owed_image_burst_bytes :: nat where "owed_image_burst_bytes = 1024 * 1024"

primrec drip :: "'e emulator \<Rightarrow> nat \<Rightarrow> u64 \<Rightarrow> 'e server \<Rightarrow> 'e server" where
  "drip em 0 client s = s"
| "drip em (Suc n) client s =
     (let c = the_client client s
      in if cl_owed_sent c < length (cl_owed c) \<and> queued (cl_stream c) < owed_image_burst_bytes
         then drip em n client
                (send em client (oi_message (cl_owed c ! cl_owed_sent c))
                  (on_client client (\<lambda>c. c\<lparr>cl_owed_sent := cl_owed_sent c + 1\<rparr>) s))
         else s)"

definition settle_debt :: "client \<Rightarrow> client" where
  "settle_debt c =
     (if cl_owed c \<noteq> [] \<and> cl_owed_sent c \<ge> length (cl_owed c) then c\<lparr>cl_owed := [], cl_owed_sent := 0\<rparr> else c)"

definition pay_client :: "'e emulator \<Rightarrow> u64 \<Rightarrow> 'e server \<Rightarrow> 'e server" where
  "pay_client em client s =
     (let c = the_client client s
      in if \<not> cl_attached c \<or> cl_closing c then s
         else on_client client settle_debt (drip em (length (cl_owed c) - cl_owed_sent c) client s))"

text \<open>The differ's turn: what it has to say, and the damage it has read cleared.\<close>

definition read_sources :: "'e emulator \<Rightarrow> 'e server \<Rightarrow> (u64 \<times> source) list" where
  "read_sources em s = map (\<lambda>t. (t_id t, em_source em (t_session t))) (tms_list (sv_terminals s))"

definition caught_up :: "'e emulator \<Rightarrow> 'e terminal \<Rightarrow> 'e terminal" where
  "caught_up em t =
     (if src_synchronized (em_source em (t_session t)) then t else t\<lparr>t_session := em_clear_damage em (t_session t)\<rparr>)"

definition flush_diffs :: "'e emulator \<Rightarrow> 'e server \<Rightarrow> (grid_delta list \<times> (u64 \<times> message) list) \<times> 'e server" where
  "flush_diffs em s =
     (case engine_flush (em_lib em) (Some (picture_wanted_now s)) (read_sources em s) (sv_diffs s) of
       (tick, diffs) \<Rightarrow>
         (tick, s\<lparr>sv_diffs := diffs,
                  sv_terminals := (sv_terminals s)\<lparr>tms_list := map (caught_up em) (tms_list (sv_terminals s))\<rparr>\<rparr>))"

definition ask_again :: "u64 \<Rightarrow> 'e server \<Rightarrow> 'e server" where
  "ask_again term s =
     (case de_differs (sv_diffs s) term of
       None \<Rightarrow> s
     | Some df \<Rightarrow>
         if \<not> df_needs_snapshot df then s
         else case session_holding term s of
           None \<Rightarrow> s
         | Some home \<Rightarrow> for_each_attached (se_id home) (\<lambda>watcher. on_client watcher wants_snapshot) s)"

definition deliver :: "'e emulator \<Rightarrow> grid_delta list \<Rightarrow> (u64 \<times> message) list \<Rightarrow> u64 \<Rightarrow> 'e server \<Rightarrow> 'e server" where
  "deliver em deltas images client s =
     (let c = the_client client s
      in if \<not> cl_attached c \<or> cl_kind c \<noteq> Ui then s
         else case session_for (cl_session c) s of
           None \<Rightarrow> s
         | Some watched \<Rightarrow>
             if cl_dirty c then s
             else
               let ready = ready_for_screen (cl_stream c);
                   healed = (cl_draining_heal c \<and> ready \<and> cl_owed_sent c \<ge> length (cl_owed c));
                   s = (if healed then on_client client (\<lambda>c. c\<lparr>cl_draining_heal := False\<rparr>) s else s)
               in if \<not> ready \<and> \<not> cl_draining_heal c then on_client client wants_snapshot s
                  else
                    let owes = cl_owed_sent c < length (cl_owed c);
                        s = fold (\<lambda>delta s. if gd_term delta \<in> set (se_terminals watched)
                                            then send em client (GridDelta delta) s else s) deltas s
                    in fold (\<lambda>(term, m) s. if term \<notin> set (se_terminals watched) then s
                                           else if owes then on_client client (owe_image m) s
                                           else send em client m s) images s)"

definition flush_tick :: "'e emulator \<Rightarrow> int \<Rightarrow> 'e server \<Rightarrow> 'e server" where
  "flush_tick em now s =
     (let s = s\<lparr>sv_next_tick := now + 1000000000 div max 1 (set_max_fps (sv_settings s))\<rparr>;
          s = each_client (expire_mismatch em now) s;
          s = observe_exits em s;
          s = (if sv_kills s = [] then s else advance_kills em now s);
          s = (if sv_closes s = [] then s else advance_closes em now s);
          s = (if sv_list_dirty s then flush_reader_counts em s else s);
          s = notice_exits em s;
          s = each_client (heal_client em) s;
          s = each_client (pay_client em) s;
          s = announce_terminal_news em now s;
          s = announce_layout em 0 s;
          ((deltas, images), s) = flush_diffs em s;
          s = fold ask_again (terminal_ids (sv_terminals s)) s
      in if deltas = [] \<and> images = [] then s else each_client (deliver em deltas images) s)"

section \<open>Samples\<close>

definition anyone_watching_stats :: "bool \<Rightarrow> 'e server \<Rightarrow> bool" where
  "anyone_watching_stats supported s \<longleftrightarrow>
     supported \<and> list_ex (\<lambda>c. cl_greeted c \<and> cl_attached c \<and> cl_watch_stats c \<and> \<not> cl_closing c) (sv_clients s)"

text \<open>A sample to one client: a terminal that is gone is said to be so once.\<close>

definition say_stats :: "'e emulator \<Rightarrow> u64 \<Rightarrow> u64 \<Rightarrow> term_stats \<Rightarrow> 'e server \<Rightarrow> 'e server" where
  "say_stats em client term stats s =
     (if tst_state stats \<noteq> Stats_Gone then
        send em client (TermStats stats) (on_client client (\<lambda>c. c\<lparr>cl_dead_announced := cl_dead_announced c - {term}\<rparr>) s)
      else if term \<in> cl_dead_announced (the_client client s) then s
      else send em client (TermStats stats) (on_client client (\<lambda>c. c\<lparr>cl_dead_announced := insert term (cl_dead_announced c)\<rparr>) s))"

definition stats_one :: "'e emulator \<Rightarrow> int \<Rightarrow> u64 \<Rightarrow> u64 \<Rightarrow> (u64 \<rightharpoonup> term_stats) \<times> 'e server \<Rightarrow> (u64 \<rightharpoonup> term_stats) \<times> 'e server" where
  "stats_one em now client term st =
     (case st of (packets, s) \<Rightarrow>
       (case terminal_at term s of
         None \<Rightarrow> (packets, s)
       | Some t \<Rightarrow>
           (case packets term of
             Some stats \<Rightarrow> (packets, say_stats em client term stats s)
           | None \<Rightarrow>
               let (resources, cost) = em_sample em (t_session t);
                   baseline = (case sv_baselines s term of None \<Rightarrow> baseline_new | Some b \<Rightarrow> b);
                   (stats, baseline) = make_term_stats resources baseline (word_of_int now) term cost
               in (packets(term \<mapsto> stats),
                   say_stats em client term stats (s\<lparr>sv_baselines := (sv_baselines s)(term \<mapsto> baseline)\<rparr>)))))"

definition stats_client :: "'e emulator \<Rightarrow> int \<Rightarrow> u64 \<Rightarrow> (u64 \<rightharpoonup> term_stats) \<times> 'e server \<Rightarrow> (u64 \<rightharpoonup> term_stats) \<times> 'e server" where
  "stats_client em now client st =
     (case st of (packets, s) \<Rightarrow>
        let c = the_client client s
        in if \<not> cl_greeted c \<or> \<not> cl_attached c \<or> \<not> cl_watch_stats c \<or> cl_closing c then st
           else case session_of c s of
             None \<Rightarrow> st
           | Some watched \<Rightarrow> fold (stats_one em now client) (se_terminals watched) st)"

definition stats_tick :: "'e emulator \<Rightarrow> int \<Rightarrow> 'e server \<Rightarrow> 'e server" where
  "stats_tick em now s =
     (let s = s\<lparr>sv_next_stats := now + second, sv_stats_passes := sv_stats_passes s + 1\<rparr>
      in snd (fold (stats_client em now) (map cl_id (sv_clients s)) (Map.empty, s)))"

end
