(* ===== verification/Server_Handle.thy ===== *)
theory Server_Handle
  imports Server_Tick
begin

text \<open>
  What a client may ask (\<open>attach\<close>, \<open>handle_set_reader_mode\<close> and \<open>handle\<close> of
  \<^verbatim>\<open>src/src/server/server.cpp\<close>), a reading of its connection, and a pass of the loop.
\<close>

section \<open>Attaching\<close>

definition attach_mode_of :: "attach \<Rightarrow> attach_mode" where
  "attach_mode_of request = (case mode_of_byte (attach_mode request) of None \<Rightarrow> Take_Over | Some m \<Rightarrow> m)"

text \<open>The session a request means, made where there is none to mean.\<close>

definition attach_target :: "u64 \<Rightarrow> 'e server \<Rightarrow> u64 option \<times> 'e server" where
  "attach_target ident s =
     (case session_for ident s of
       Some se \<Rightarrow> (Some ident, s)
     | None \<Rightarrow>
         if ident \<noteq> 0 then (None, s)
         else if sv_sessions s = [] then (case create_session [] s of (i, s) \<Rightarrow> (Some i, s))
         else (Some (se_id (hd (sv_sessions s))), s))"

definition fit_desktop :: "desktop_policy \<Rightarrow> extent \<Rightarrow> session \<Rightarrow> session" where
  "fit_desktop policy arriving se =
     (if \<not> real_extent arriving then se
      else if \<not> real_extent (se_desktop se) then se\<lparr>se_desktop := arriving\<rparr>
      else se\<lparr>se_desktop := desktop_after policy (se_desktop se) arriving\<rparr>)"

definition extent_of :: "u16 \<Rightarrow> u16 \<Rightarrow> extent" where
  "extent_of columns rows = \<lparr>width = uint columns, height = uint rows\<rparr>"

definition become_reader :: "attach \<Rightarrow> u64 \<Rightarrow> client \<Rightarrow> client" where
  "become_reader request ident c =
     (let c = c\<lparr>cl_attached := True, cl_session := ident, cl_mode := attach_mode_of request, cl_dirty := False,
            cl_host_sixel := (attach_host_sixel request \<noteq> 0)\<rparr>
      in if attach_columns request > 0 \<and> attach_rows request > 0
         then c\<lparr>cl_desktop := extent_of (attach_columns request) (attach_rows request),
                cl_cell_pixels := cell_metric (attach_columns request) (attach_rows request)
                  (attach_pixel_width request) (attach_pixel_height request)\<rparr>
         else c)"

definition take_over :: "'e emulator \<Rightarrow> u64 \<Rightarrow> u64 \<Rightarrow> 'e server \<Rightarrow> 'e server" where
  "take_over em client ident s =
     (case client_attached_to ident s of
       None \<Rightarrow> s
     | Some previous \<Rightarrow>
         if cl_id previous = client then s
         else detach em (cl_id previous) By_Takeover (str ''taken over by another client on this machine'') s)"

definition attach_client :: "'e emulator \<Rightarrow> u64 \<Rightarrow> attach \<Rightarrow> 'e server \<Rightarrow> 'e server" where
  "attach_client em client request s =
     (case attach_target (attach_session request) s of
       (None, s) \<Rightarrow> send em client (error_said No_Such_Session (str ''Attach'') (str ''no such session'')) s
     | (Some ident, s) \<Rightarrow>
         let s = on_session ident (fit_desktop (set_desktop_size (sv_settings s))
                   (extent_of (attach_columns request) (attach_rows request))) s;
             s = (if attach_mode_of request = Take_Over then take_over em client ident s else s);
             s = on_client client (become_reader request ident) s;
             s = send_snapshot em client s
         in s\<lparr>sv_list_dirty := True\<rparr>)"

section \<open>Reader modes\<close>

definition invalid :: "string \<Rightarrow> message" where
  "invalid human = error_said Invalid_Request (str ''SetReaderMode'') (str human)"

definition change_mode :: "'e emulator \<Rightarrow> u64 \<Rightarrow> attach_mode \<Rightarrow> u64 \<Rightarrow> 'e server \<Rightarrow> 'e server" where
  "change_mode em client mode other s =
     (if other = client \<or> cl_mode (the_client other s) = mode then s
      else send em other (ReaderMode (mode_code mode)) (on_client other (\<lambda>c. c\<lparr>cl_mode := mode\<rparr>) s))"

definition evict_others :: "'e emulator \<Rightarrow> u64 \<Rightarrow> u64 \<Rightarrow> 'e server \<Rightarrow> 'e server" where
  "evict_others em client ident s =
     fold (\<lambda>other s. case client_with_id other s of
         None \<Rightarrow> s
       | Some _ \<Rightarrow> detach em other By_Takeover (str ''another reader took this session over'') s)
       (filter (\<lambda>other. other \<noteq> client) (map cl_id (filter (reads ident) (sv_clients s)))) s"

definition handle_set_reader_mode :: "'e emulator \<Rightarrow> u64 \<Rightarrow> set_reader_mode \<Rightarrow> 'e server \<Rightarrow> 'e server" where
  "handle_set_reader_mode em client wish s =
     (case session_of (the_client client s) s of
       None \<Rightarrow> send em client (error_said No_Such_Session (str ''SetReaderMode'')
                 (str ''attach to a session before changing what its readers may do'')) s
     | Some se \<Rightarrow>
         if srm_scope wish \<noteq> 0 \<and> srm_scope wish \<noteq> 1
         then send em client (invalid ''a reader mode is aimed either at you or at the others'') s
         else case mode_of_byte (srm_mode wish) of
           None \<Rightarrow> send em client (invalid ''no such reader mode'') s
         | Some mode \<Rightarrow>
             if srm_scope wish = 0 then
               (if mode = Take_Over
                then send em client (invalid ''attaching is how a session is taken; aim this at the other readers'') s
                else on_client client (\<lambda>c. c\<lparr>cl_mode := mode\<rparr>) s)
             else if mode = Take_Over then evict_others em client (se_id se) s
             else for_each_attached (se_id se) (change_mode em client mode) s)"

section \<open>Requests\<close>

definition no_such_terminal :: "string \<Rightarrow> message" where
  "no_such_terminal context_text = error_said No_Such_Terminal (str context_text) (str ''no such terminal'')"

definition no_such_session :: "string \<Rightarrow> message" where
  "no_such_session context_text = error_said No_Such_Session (str context_text) (str ''no such session'')"

definition name_taken :: "string \<Rightarrow> bytes \<Rightarrow> message" where
  "name_taken context_text name =
     error_said Name_Taken (str context_text) (str ''a session is already called '' @ [34] @ name @ [34])"

definition handle_new_session :: "'e emulator \<Rightarrow> u64 \<Rightarrow> new_session \<Rightarrow> 'e server \<Rightarrow> 'e server" where
  "handle_new_session em client request s =
     (case session_named (ns_name request) 0 s of
       Some taken \<Rightarrow> send em client (name_taken ''NewSession'' (se_name taken)) s
     | None \<Rightarrow>
         let (ident, s) = create_session (ns_name request) s;
             spec = default_spec\<lparr>tsp_command := ns_command request, tsp_working_directory := sv_working_directory s,
                      tsp_host_sixel := cl_host_sixel (the_client client s)\<rparr>;
             s = (if ns_spawn_first request \<noteq> 0 then snd (open_terminal em ident spec s) else s)
         in broadcast_session_list em (Some client) s)"

definition target_session :: "u64 \<Rightarrow> u64 \<Rightarrow> 'e server \<Rightarrow> session option" where
  "target_session named client s = session_for (if named \<noteq> 0 then named else cl_session (the_client client s)) s"

definition handle_kill_session :: "'e emulator \<Rightarrow> int \<Rightarrow> u64 \<Rightarrow> kill_session \<Rightarrow> 'e server \<Rightarrow> 'e server" where
  "handle_kill_session em now client request s =
     (case target_session (ks_session request) client s of
       None \<Rightarrow> send em client (no_such_session ''KillSession'') s
     | Some se \<Rightarrow>
         let s = on_client client (\<lambda>c. if cl_kind c = Cli then c\<lparr>cl_awaiting_removal := se_id se\<rparr> else c) s
         in begin_kill em now (se_id se) (ks_force request \<noteq> 0) (uint (ks_grace_seconds request)) s)"

definition handle_rename_session :: "'e emulator \<Rightarrow> u64 \<Rightarrow> rename_session \<Rightarrow> 'e server \<Rightarrow> 'e server" where
  "handle_rename_session em client request s =
     (case target_session (rs_id request) client s of
       None \<Rightarrow> send em client (no_such_session ''RenameSession'') s
     | Some se \<Rightarrow>
         (case session_named (rs_name request) (se_id se) s of
           Some taken \<Rightarrow> send em client (name_taken ''RenameSession'' (se_name taken)) s
         | None \<Rightarrow>
             broadcast_session_list em (Some client)
               (on_session (se_id se) (\<lambda>se. se\<lparr>se_name := (if rs_name request = [] then se_name se else rs_name request)\<rparr>) s)))"

definition handle_rename_terminal :: "'e emulator \<Rightarrow> u64 \<Rightarrow> rename_terminal \<Rightarrow> 'e server \<Rightarrow> 'e server" where
  "handle_rename_terminal em client request s =
     (if terminal_at (rt_id request) s = None then send em client (no_such_terminal ''RenameTerminal'') s
      else on_term (rt_id request) (set_custom_title (rt_name request)) s)"

text \<open>The pieces of a printed text; an empty text is one empty piece.\<close>

definition print_chunk :: nat where "print_chunk = 48 * 1024"

function print_pieces :: "u64 \<Rightarrow> u64 \<Rightarrow> u32 \<Rightarrow> bytes \<Rightarrow> message list" where
  "print_pieces term job seq text =
     PrintJobData \<lparr>pjd_term = term, pjd_job = job, pjd_seq = seq,
         pjd_final_chunk = (if length text \<le> print_chunk then 1 else 0), pjd_bytes = take print_chunk text\<rparr>
     # (if length text \<le> print_chunk then [] else print_pieces term job (seq + 1) (drop print_chunk text))"
  by pat_completeness auto

termination print_pieces
  by (relation "measure (\<lambda>(_, _, _, text). length text)") (auto simp: print_chunk_def)

declare print_pieces.simps [simp del]

definition handle_print_fetch :: "'e emulator \<Rightarrow> u64 \<Rightarrow> print_job_fetch \<Rightarrow> 'e server \<Rightarrow> 'e server" where
  "handle_print_fetch em client request s =
     (case terminal_at (pjf_term request) s of
       None \<Rightarrow> send em client (no_such_terminal ''PrintJobFetch'') s
     | Some t \<Rightarrow>
         (case print_job (pjf_job request) t of
           None \<Rightarrow> send em client (error_said No_Such_Terminal (str ''PrintJobFetch'') (str ''no such print job'')) s
         | Some job \<Rightarrow> fold (send em client) (print_pieces (pjf_term request) (hj_id job) 0 (hj_text job)) s))"

definition handle_print_discard :: "'e emulator \<Rightarrow> u64 \<Rightarrow> print_job_discard \<Rightarrow> 'e server \<Rightarrow> 'e server" where
  "handle_print_discard em client request s =
     (if terminal_at (pjx_term request) s = None then send em client (no_such_terminal ''PrintJobDiscard'') s
      else on_term (pjx_term request) (\<lambda>t. case discard_print_jobs (pjx_job request) t of
             (True, t) \<Rightarrow> t\<lparr>t_printer_news := True\<rparr> | (False, t) \<Rightarrow> t) s)"

definition said_policy :: "set_printer_policy \<Rightarrow> printer_override" where
  "said_policy request =
     \<lparr>po_mode = Some (wire_printer_mode_in (spp_mode request)),
      po_ask_cache = (if spp_ask_cache request \<noteq> 0 then Some (spp_ask_cache request) else None),
      po_spool_limit = (if spp_spool_limit request \<noteq> 0 then Some (spp_spool_limit request) else None)\<rparr>"

definition set_globally :: "printer_override \<Rightarrow> settings \<Rightarrow> settings" where
  "set_globally said st =
     (let st = (case po_mode said of None \<Rightarrow> st | Some m \<Rightarrow> st\<lparr>set_printer_mode := m\<rparr>);
          st = (case po_ask_cache said of None \<Rightarrow> st | Some v \<Rightarrow> st\<lparr>set_ask_cache_bytes := unat v\<rparr>)
      in (case po_spool_limit said of None \<Rightarrow> st | Some v \<Rightarrow> st\<lparr>set_spool_limit_bytes := unat v\<rparr>))"

definition handle_printer_policy :: "'e emulator \<Rightarrow> u64 \<Rightarrow> set_printer_policy \<Rightarrow> 'e server \<Rightarrow> 'e server" where
  "handle_printer_policy em client request s =
     (let said = said_policy request
      in case spp_scope request of
           Scope_Terminal \<Rightarrow>
             (if terminal_at (spp_target request) s = None then send em client (no_such_terminal ''SetPrinterPolicy'') s
              else apply_printer_policies em (on_term (spp_target request) (\<lambda>t. t\<lparr>t_printer := said\<rparr>) s))
         | Scope_Session \<Rightarrow>
             (case target_session (spp_target request) client s of
               None \<Rightarrow> send em client (no_such_session ''SetPrinterPolicy'') s
             | Some se \<Rightarrow> apply_printer_policies em (on_session (se_id se) (\<lambda>se. se\<lparr>se_printer := said\<rparr>) s))
         | Scope_Global \<Rightarrow> apply_printer_policies em (s\<lparr>sv_settings := set_globally said (sv_settings s)\<rparr>))"

text \<open>A session's desktop changed, and said.\<close>

definition resize_desktop :: "'e emulator \<Rightarrow> u64 \<Rightarrow> extent \<Rightarrow> extent \<Rightarrow> 'e server \<Rightarrow> 'e server" where
  "resize_desktop em ident held wanted s =
     (if \<not> real_extent wanted \<or> wanted = held then s
      else announce_layout em ident (on_session ident (\<lambda>se. se\<lparr>se_desktop := wanted\<rparr>) s))"

definition handle_client_resize :: "'e emulator \<Rightarrow> u64 \<Rightarrow> client_resize \<Rightarrow> 'e server \<Rightarrow> 'e server" where
  "handle_client_resize em client resize s =
     (let arriving = extent_of (cr_columns resize) (cr_rows resize);
          s = on_client client (\<lambda>c. c\<lparr>cl_desktop := arriving,
                cl_cell_pixels := cell_metric (cr_columns resize) (cr_rows resize)
                  (cr_pixel_width resize) (cr_pixel_height resize)\<rparr>) s;
          ident = cl_session (the_client client s)
      in case session_for ident s of
           None \<Rightarrow> s
         | Some home \<Rightarrow>
             if \<not> real_extent arriving then s
             else
               let readers = length (filter (\<lambda>c. cl_attached c \<and> cl_kind c = Ui \<and> cl_session c = ident) (sv_clients s));
                   wanted = (if readers \<le> 1 then arriving
                             else desktop_after (set_desktop_size (sv_settings s)) (se_desktop home) arriving)
               in resize_desktop em ident (se_desktop home) wanted s)"

definition handle_desktop_size :: "'e emulator \<Rightarrow> u64 \<Rightarrow> set_desktop_size \<Rightarrow> 'e server \<Rightarrow> 'e server" where
  "handle_desktop_size em client fit s =
     (let ident = cl_session (the_client client s)
      in case session_for ident s of
           None \<Rightarrow> s
         | Some home \<Rightarrow> resize_desktop em ident (se_desktop home) (extent_of (sds_columns fit) (sds_rows fit)) s)"

definition clamp_int :: "int \<Rightarrow> int \<Rightarrow> int \<Rightarrow> int" where
  "clamp_int v lowest highest = (if v < lowest then lowest else if v > highest then highest else v)"

definition handle_move_resize :: "'e emulator \<Rightarrow> u64 \<Rightarrow> move_resize \<Rightarrow> 'e server \<Rightarrow> 'e server" where
  "handle_move_resize em client resize s =
     (if terminal_at (mr_term resize) s = None then send em client (no_such_terminal ''MoveResize'') s
      else
        let columns = clamp_int (uint (rect_width (mr_rect resize))) 1 (uint max_grid_columns);
            rows = clamp_int (uint (rect_height (mr_rect resize))) 1 (uint max_grid_rows);
            pixels = cl_cell_pixels (the_client client s)
        in on_term (mr_term resize)
             (terminal_resize em columns rows (columns * max 0 (width pixels)) (rows * max 0 (height pixels))) s)"

definition handle_layout :: "'e emulator \<Rightarrow> u64 \<Rightarrow> layout_entry list \<Rightarrow> 'e server \<Rightarrow> 'e server" where
  "handle_layout em client entries s =
     (case session_of (the_client client s) s of
       None \<Rightarrow> send em client (error_said No_Such_Session (str ''SetLayout'')
                 (str ''attach to a session before reporting its layout'')) s
     | Some se \<Rightarrow>
         fold (\<lambda>entry s.
           if terminal_at (le_term entry) s = None \<or> le_term entry \<notin> set (se_terminals se) then s
           else on_term (le_term entry) (set_layout \<lparr>wl_rect = le_rect entry, wl_z_order = le_z_order entry,
                  wl_zoomed = (le_zoomed entry \<noteq> 0), wl_tile = le_tile entry\<rparr>) s) entries s)"

definition handle_new_terminal :: "'e emulator \<Rightarrow> u64 \<Rightarrow> new_terminal \<Rightarrow> 'e server \<Rightarrow> 'e server" where
  "handle_new_terminal em client request s =
     (case session_of (the_client client s) s of
       None \<Rightarrow> send em client (error_said No_Such_Session (str ''NewTerminal'')
                 (str ''attach to a session before opening a terminal in it'')) s
     | Some se \<Rightarrow>
         if int (length (se_terminals se)) \<ge> set_max_terminals (sv_settings s)
         then send em client (error_said Limit_Reached (str ''NewTerminal'')
                (str ''this session already holds '' @ decimal (nat (set_max_terminals (sv_settings s)))
                 @ str '' terminals, which is [general] max-terminals'')) s
         else
           let sixel = (nt_host_sixel request \<noteq> 0);
               s = on_client client (\<lambda>c. c\<lparr>cl_host_sixel := sixel\<rparr>) s;
               pixels = cl_cell_pixels (the_client client s);
               w = uint (rect_width (nt_rect request));
               h = uint (rect_height (nt_rect request));
               columns = (if w > 0 then min w (uint max_grid_columns) else 80);
               rows = (if h > 0 then min h (uint max_grid_rows) else 24);
               spec = \<lparr>tsp_command = nt_command request, tsp_working_directory = sv_working_directory s, tsp_environment = [],
                        tsp_columns = columns, tsp_rows = rows, tsp_pixel_width = columns * max 0 (width pixels),
                        tsp_pixel_height = rows * max 0 (height pixels), tsp_host_sixel = sixel\<rparr>;
               (term, s) = open_terminal em (se_id se) spec s;
               opened = TermOpened \<lparr>to_term = term, to_session = se_id se, to_index = 0,
                 to_rect = \<lparr>rect_x = 0, rect_y = 0, rect_width = 0, rect_height = 0\<rparr>, to_title = [],
                 to_columns = word_of_int columns, to_rows = word_of_int rows\<rparr>
           in for_each_attached (se_id se) (\<lambda>watcher. send em watcher opened) s)"

definition handle_respawn :: "'e emulator \<Rightarrow> u64 \<Rightarrow> u64 \<Rightarrow> 'e server \<Rightarrow> 'e server" where
  "handle_respawn em client term s =
     (if terminal_at term s = None then send em client (no_such_terminal ''RespawnTerminal'') s
      else case terminals_respawn em term (sv_terminals s) of
        (False, _) \<Rightarrow> send em client (error_said No_Such_Terminal (str ''RespawnTerminal'') (str ''that terminal is still running'')) s
      | (True, tms) \<Rightarrow>
          let s = s\<lparr>sv_terminals := tms, sv_diffs := engine_forget term (sv_diffs s),
                    sv_baselines := (sv_baselines s)(term := None)\<rparr>
          in case session_holding term s of
               None \<Rightarrow> s
             | Some home \<Rightarrow>
                 (case terminal_at term s of
                   None \<Rightarrow> s
                 | Some t \<Rightarrow>
                     let opened = TermOpened \<lparr>to_term = term, to_session = se_id home, to_index = 0,
                           to_rect = \<lparr>rect_x = 0, rect_y = 0, rect_width = 0, rect_height = 0\<rparr>, to_title = [],
                           to_columns = word_of_int (t_columns t), to_rows = word_of_int (t_rows t)\<rparr>
                     in for_each_attached (se_id home) (\<lambda>watcher. send em watcher opened) s))"

definition handle_input :: "'e emulator \<Rightarrow> u64 \<Rightarrow> input_msg \<Rightarrow> 'e server \<Rightarrow> 'e server" where
  "handle_input em client input s =
     (if terminal_at (input_term input) s = None then s
      else focus_on client (input_term input) (on_term (input_term input) (send_input em (input_bytes input)) s))"

section \<open>Every message\<close>

text \<open>The version the build files state.\<close>

definition build_identity :: bytes where
  "build_identity = str ''ckmux 0.1.10''"

definition refuse_version :: "u32 \<Rightarrow> bytes" where
  "refuse_version spoken =
     str ''this server speaks protocol version '' @ decimal (unat protocol_version) @ str '' and the client speaks '' @
     decimal (unat spoken) @
     str ''. They are the same program, so one of them is from before an upgrade: end the running server with `ckmux kill-server` (every terminal in it is lost) or keep using the client that matches it.''"

text \<open>\<open>std::get_if\<close> for the messages that are looked for before the others.\<close>

definition hello_in :: "message \<Rightarrow> hello option" where
  "hello_in m = (case m of Hello hello \<Rightarrow> Some hello | _ \<Rightarrow> None)"

definition paste_in :: "message \<Rightarrow> paste_chunk option" where
  "paste_in m = (case m of PasteChunk chunk \<Rightarrow> Some chunk | _ \<Rightarrow> None)"

definition is_input :: "message \<Rightarrow> bool" where
  "is_input m = (case m of Input _ \<Rightarrow> True | _ \<Rightarrow> False)"

definition handle_greeting :: "'e emulator \<Rightarrow> int \<Rightarrow> u64 \<Rightarrow> message \<Rightarrow> 'e server \<Rightarrow> 'e server" where
  "handle_greeting em now client m s =
     (case hello_in m of
        None \<Rightarrow>
          drop_client em client
            (send em client (Refuse (str ''the first message on a connection must be Hello; this one was '' @ name_of m)) s)
      | Some hello \<Rightarrow>
          if hello_proto_version hello \<noteq> protocol_version then
            let s = send em client (Refuse (refuse_version (hello_proto_version hello))) s
            in if hello_client_kind hello = Cli
               then on_client client (\<lambda>c. c\<lparr>cl_awaiting_kill := True, cl_kill_deadline := now + 2 * second\<rparr>) s
               else drop_client em client s
          else
            send em client (HelloAck \<lparr>hello_ack_proto_version = protocol_version, hello_ack_build = build_identity\<rparr>)
              (on_client client (\<lambda>c. c\<lparr>cl_greeted := True, cl_kind := hello_client_kind hello\<rparr>) s))"

text \<open>What a reader that only watches is told instead.\<close>

definition refuse_watcher :: "'e emulator \<Rightarrow> u64 \<Rightarrow> message \<Rightarrow> 'e server \<Rightarrow> 'e server" where
  "refuse_watcher em client m s =
     (if is_input m then s
      else case paste_in m of
        Some chunk \<Rightarrow> send em client (PasteAck (pc_seq chunk)) s
      | None \<Rightarrow> send em client (error_said Read_Only (name_of m)
               (str ''this client is watching this session; stop watching to change it'')) s)"

definition handle_request :: "'e emulator \<Rightarrow> int \<Rightarrow> u64 \<Rightarrow> message \<Rightarrow> 'e server \<Rightarrow> 'e server" where
  "handle_request em now client m s =
     (case m of
        Ping nonce \<Rightarrow> send em client (Pong nonce) s
      | WatchStats on \<Rightarrow>
          on_client client (\<lambda>c. c\<lparr>cl_dead_announced := (if (on \<noteq> 0) \<noteq> cl_watch_stats c then {} else cl_dead_announced c),
            cl_watch_stats := (on \<noteq> 0)\<rparr>) s
      | Hello _ \<Rightarrow> drop_client em client s
      | ListSessions \<Rightarrow> send_session_list em client s
      | NewSession request \<Rightarrow> handle_new_session em client request s
      | KillSession request \<Rightarrow> handle_kill_session em now client request s
      | RenameSession request \<Rightarrow> handle_rename_session em client request s
      | RenameTerminal request \<Rightarrow> handle_rename_terminal em client request s
      | PrintJobFetch request \<Rightarrow> handle_print_fetch em client request s
      | PrintJobDiscard request \<Rightarrow> handle_print_discard em client request s
      | SetPrinterPolicy request \<Rightarrow> handle_printer_policy em client request s
      | Attach request \<Rightarrow> attach_client em client request s
      | Detach \<Rightarrow> detach em client By_User (str ''detached'') s
      | ClientResize resize \<Rightarrow> handle_client_resize em client resize s
      | SetDesktopSize fit \<Rightarrow> handle_desktop_size em client fit s
      | MoveResize resize \<Rightarrow> handle_move_resize em client resize s
      | SetLayout entries \<Rightarrow> handle_layout em client entries s
      | NewTerminal request \<Rightarrow> handle_new_terminal em client request s
      | RespawnTerminal term \<Rightarrow> handle_respawn em client term s
      | Input input \<Rightarrow> handle_input em client input s
      | PasteChunk chunk \<Rightarrow> handle_paste em client chunk s
      | SetReaderMode wish \<Rightarrow> handle_set_reader_mode em client wish s
      | CloseTerminal request \<Rightarrow> begin_close em now (ct_term request) (ct_force request \<noteq> 0) (uint (ct_grace_seconds request)) s
      | KillTerminal term \<Rightarrow> begin_kill_terminal em now term s
      | MoveTerminal request \<Rightarrow> server_move_terminal em client request s
      | KillServer \<Rightarrow> s\<lparr>sv_running := False\<rparr>
      | _ \<Rightarrow> send em client (error_said Not_Implemented (name_of m)
               (name_of m @ str '' is not something this build of the server does.'')) s)"

definition handle :: "'e emulator \<Rightarrow> int \<Rightarrow> u64 \<Rightarrow> message \<Rightarrow> 'e server \<Rightarrow> 'e server" where
  "handle em now client m s =
     (let c = the_client client s
      in if cl_awaiting_kill c then
           (if m = KillServer then s\<lparr>sv_running := False\<rparr> else drop_client em client s)
         else if \<not> cl_greeted c then handle_greeting em now client m s
         else if watching c \<and> changes_the_session m then refuse_watcher em client m s
         else handle_request em now client m s)"

section \<open>A connection\<close>

text \<open>The messages of one reading, until the client has been dropped.\<close>

function serve_frames :: "'e emulator \<Rightarrow> int \<Rightarrow> u64 \<Rightarrow> frame_reader \<Rightarrow> 'e server \<Rightarrow> frame_reader \<times> 'e server" where
  "serve_frames em now client fr s =
     (case fr_next (em_lib em) fr default_message of
       (e, fr', m) \<Rightarrow>
         if e = Incomplete then (fr', s)
         else if e \<noteq> No_Error then (fr', drop_client em client s)
         else
           let s = handle em now client m s
           in if cl_closing (the_client client s) then (fr', s) else serve_frames em now client fr' s)"
  by pat_completeness auto

termination serve_frames
  by (relation "measure (\<lambda>(_, _, _, fr, _). fr_buffered fr)") (auto dest: fr_next_shrinks [OF sym])

declare serve_frames.simps [simp del]

definition serve :: "'e emulator \<Rightarrow> int \<Rightarrow> u64 \<Rightarrow> 'e server \<Rightarrow> 'e server" where
  "serve em now client s =
     (case stream_receive (cl_stream (the_client client s)) of
       (arrived, alive, stream) \<Rightarrow>
         let s = on_client client (\<lambda>c. c\<lparr>cl_stream := stream\<rparr>) s
         in case (if arrived = [] then (True, cl_reader (the_client client s))
                  else fr_append arrived (cl_reader (the_client client s))) of
              (False, fr) \<Rightarrow> drop_client em client (on_client client (\<lambda>c. c\<lparr>cl_reader := fr\<rparr>) s)
            | (True, fr) \<Rightarrow>
                let (fr, s) = serve_frames em now client fr s;
                    s = on_client client (\<lambda>c. c\<lparr>cl_reader := fr\<rparr>) s
                in if cl_closing (the_client client s) \<or> alive then s else drop_client em client s)"

section \<open>A pass of the loop\<close>

datatype accept_result = Accepted stream | Accept_Idle | Accept_Retry | Accept_Refused | Accept_Failed | Accept_Exhausted

fun accept_pending :: "int \<Rightarrow> accept_result list \<Rightarrow> 'e server \<Rightarrow> 'e server" where
  "accept_pending now [] s = s"
| "accept_pending now (Accepted stream # rest) s =
     accept_pending now rest
       (s\<lparr>sv_clients := sv_clients s @ [client_new (sv_next_client s) stream], sv_next_client := sv_next_client s + 1\<rparr>)"
| "accept_pending now (Accept_Retry # rest) s = accept_pending now rest s"
| "accept_pending now (Accept_Exhausted # rest) s = s\<lparr>sv_accept_paused_until := now + second\<rparr>"
| "accept_pending now (_ # rest) s = s"

datatype poll_outcome = Poll_Ready | Poll_Timed_Out | Poll_Interrupted | Poll_Failed

text \<open>What a source was ready for. A client: to be written, to be read or hung up.\<close>

datatype ready =
    Listener_Ready "accept_result list"
  | Signal_Ready nat
  | Client_Ready u64 bool bool
  | Child_Ready

definition on_ready :: "'e emulator \<Rightarrow> int \<Rightarrow> ready \<Rightarrow> bool \<times> 'e server \<Rightarrow> bool \<times> 'e server" where
  "on_ready em now r st =
     (case st of (child_output, s) \<Rightarrow>
       (case r of
          Listener_Ready results \<Rightarrow> (child_output, accept_pending now results s)
        | Signal_Ready signal \<Rightarrow> (child_output, if signal \<noteq> 0 then s\<lparr>sv_running := False\<rparr> else s)
        | Client_Ready client writable readable \<Rightarrow>
            (child_output,
             if find_client client s = None then s
             else
               let (flushed, stream) = stream_flush (cl_stream (the_client client s));
                   s = (if writable then on_client client (\<lambda>c. c\<lparr>cl_stream := stream\<rparr>) s else s)
               in if writable \<and> \<not> flushed then drop_client em client s
                  else if readable then serve em now client s else s)
        | Child_Ready \<Rightarrow> (True, s)))"

text \<open>How long a pass may sleep, in milliseconds: to the next tick, to the end of a pause of accepting, to the next
  sample where somebody watches, and never past a second.\<close>

definition nanos_until :: "int \<Rightarrow> int \<Rightarrow> int" where
  "nanos_until deadline now = (if deadline > now then deadline - now else 0)"

definition poll_timeout :: "int \<Rightarrow> bool \<Rightarrow> 'e server \<Rightarrow> int" where
  "poll_timeout now watching_stats s =
     (let until_wake = nanos_until (sv_next_tick s) now;
          until_wake = (if sv_accept_paused_until s > now then min until_wake (sv_accept_paused_until s - now) else until_wake);
          until_wake = (if watching_stats then min until_wake (nanos_until (sv_next_stats s) now) else until_wake)
      in min (until_wake div 1000000) 1000)"

definition drain_children :: "'e emulator \<Rightarrow> 'e server \<Rightarrow> 'e server" where
  "drain_children em s =
     (let s = s\<lparr>sv_terminals := snd (terminals_drain em (64 * 1024) (sv_terminals s))\<rparr>
      in fold (\<lambda>term. on_term term (flush_replies_to_child em)) (terminal_ids (sv_terminals s)) s)"

definition start_stats :: "int \<Rightarrow> bool \<Rightarrow> 'e server \<Rightarrow> 'e server" where
  "start_stats now watching_stats s =
     (let s = (if watching_stats \<and> \<not> sv_stats_were_running s then s\<lparr>sv_baselines := Map.empty, sv_next_stats := now\<rparr> else s)
      in s\<lparr>sv_stats_were_running := watching_stats\<rparr>)"

definition bury_clients :: "'e server \<Rightarrow> 'e server" where
  "bury_clients s =
     (let alive = filter (\<lambda>c. \<not> cl_closing c \<and> sk_open (cl_stream c)) (sv_clients s)
      in if length alive < length (sv_clients s) then s\<lparr>sv_clients := alive, sv_accept_paused_until := 0\<rparr>
         else s\<lparr>sv_clients := alive\<rparr>)"

text \<open>\<open>supported\<close>: whether the platform can sample processes.\<close>

definition step :: "'e emulator \<Rightarrow> bool \<Rightarrow> int \<Rightarrow> poll_outcome \<Rightarrow> ready list \<Rightarrow> 'e server \<Rightarrow> 'e server" where
  "step em supported now outcome events s =
     (let watching_stats = anyone_watching_stats supported s;
          s = start_stats now watching_stats s;
          s = (if outcome = Poll_Failed then s\<lparr>sv_poll_failures := sv_poll_failures s + 1\<rparr> else s\<lparr>sv_poll_failures := 0\<rparr>)
      in if outcome = Poll_Failed \<and> sv_poll_failures s \<ge> 3 then s\<lparr>sv_running := False\<rparr>
         else
           let (child_output, s) = fold (on_ready em now) events (False, s);
               s = (if child_output then drain_children em s else s);
               s = (if now \<ge> sv_next_tick s then flush_tick em now s else s);
               s = (if watching_stats \<and> now \<ge> sv_next_stats s then stats_tick em now s else s)
           in bury_clients s)"

text \<open>The end of \<open>run\<close>: every child is closed, what is queued gets 250 more tries, and every connection is closed.
  The clients are returned as they were let go.\<close>

definition flush_waiting :: "client \<Rightarrow> client" where
  "flush_waiting c = (if wants_write (cl_stream c) then flush_stream c else c)"

primrec last_flushes :: "nat \<Rightarrow> client list \<Rightarrow> client list" where
  "last_flushes 0 cs = cs"
| "last_flushes (Suc n) cs =
     (let cs = map flush_waiting cs
      in if list_ex (\<lambda>c. wants_write (cl_stream c)) cs then last_flushes n cs else cs)"

definition shut_down :: "'e emulator \<Rightarrow> 'e server \<Rightarrow> client list \<times> 'e server" where
  "shut_down em s =
     (map (\<lambda>c. c\<lparr>cl_stream := stream_close (cl_stream c)\<rparr>) (last_flushes 250 (sv_clients s)),
      s\<lparr>sv_terminals := close_all em (sv_terminals s), sv_clients := []\<rparr>)"

section \<open>What can happen to a server\<close>

text \<open>The pieces a pass is made of, each of which takes a whole turn: a message, a connection, a hang-up, output of
  the children, a tick, a sample, a queue that drains, the closed connections let go.\<close>

datatype occurrence =
    Heard u64 message
  | Came stream
  | Hung_Up u64
  | Children_Spoke
  | Ticked
  | Sampled
  | Queue_Drained u64
  | Buried

primrec react :: "'e emulator \<Rightarrow> int \<Rightarrow> occurrence \<Rightarrow> 'e server \<Rightarrow> 'e server" where
  "react em now (Heard client m) s = handle em now client m s"
| "react em now (Came stream) s = accept_pending now [Accepted stream] s"
| "react em now (Hung_Up client) s = drop_client em client s"
| "react em now Children_Spoke s = drain_children em s"
| "react em now Ticked s = flush_tick em now s"
| "react em now Sampled s = stats_tick em now s"
| "react em now (Queue_Drained client) s = on_client client flush_stream s"
| "react em now Buried s = bury_clients s"

text \<open>No counter of ids is about to begin again at zero.\<close>

definition roomy :: "'e server \<Rightarrow> bool" where
  "roomy s \<longleftrightarrow> sv_next_session s \<noteq> - 1 \<and> tms_next_id (sv_terminals s) \<noteq> - 1 \<and> sv_next_client s \<noteq> - 1"

inductive server_reachable :: "'e emulator \<Rightarrow> 'e server \<Rightarrow> bool" for em :: "'e emulator" where
  server_started: "server_reachable em (server_new st directory now)"
| server_reacted: "server_reachable em s \<Longrightarrow> roomy s \<Longrightarrow> server_reachable em (react em now what s)"

end
