(* ===== verification/Server_Sound.thy ===== *)
theory Server_Sound
  imports Server_Handle
begin

text \<open>
  The invariant of a server: ids are not shared, every terminal is in exactly one session, and who is
  attached is attached to a session that is there. Operations that leave what this is about alone are
  \<open>mild\<close>; the others are met one by one.
\<close>

named_theorems mild_intros "an operation leaves what the invariant is about alone"

section \<open>The invariant\<close>

text \<open>The terminals of the sessions that are not being emptied.\<close>

definition homes_but :: "u64 set \<Rightarrow> 'e server \<Rightarrow> u64 list" where
  "homes_but X s = concat (map se_terminals (filter (\<lambda>se. se_id se \<notin> X) (sv_sessions s)))"

definition below :: "u64 \<Rightarrow> u64 list \<Rightarrow> bool" where
  "below n is \<longleftrightarrow> (\<forall>i\<in>set is. i < n)"

definition sound_but :: "u64 set \<Rightarrow> 'e server \<Rightarrow> bool" where
  "sound_but X s \<longleftrightarrow>
     distinct (map se_id (sv_sessions s)) \<and> below (sv_next_session s) (map se_id (sv_sessions s)) \<and>
     distinct (terminal_ids (sv_terminals s)) \<and> below (tms_next_id (sv_terminals s)) (terminal_ids (sv_terminals s)) \<and>
     distinct (homes_but {} s) \<and> set (homes_but X s) = set (terminal_ids (sv_terminals s)) \<and>
     distinct (map cl_id (sv_clients s)) \<and> below (sv_next_client s) (map cl_id (sv_clients s)) \<and>
     (\<forall>c\<in>set (sv_clients s). cl_attached c \<longrightarrow> cl_session c \<in> se_id ` set (sv_sessions s))"

abbreviation sound :: "'e server \<Rightarrow> bool" where
  "sound \<equiv> sound_but {}"

text \<open>What the invariant is about, and what a client may lose.\<close>

definition tame :: "client \<Rightarrow> client \<Rightarrow> bool" where
  "tame c c' \<longleftrightarrow> cl_id c' = cl_id c \<and> (cl_attached c' \<longrightarrow> cl_attached c \<and> cl_session c' = cl_session c)"

definition mild :: "'e server \<Rightarrow> 'e server \<Rightarrow> bool" where
  "mild s s' \<longleftrightarrow>
     map (\<lambda>se. (se_id se, se_terminals se)) (sv_sessions s') = map (\<lambda>se. (se_id se, se_terminals se)) (sv_sessions s) \<and>
     terminal_ids (sv_terminals s') = terminal_ids (sv_terminals s) \<and>
     tms_next_id (sv_terminals s') = tms_next_id (sv_terminals s) \<and>
     sv_next_session s' = sv_next_session s \<and> sv_next_client s' = sv_next_client s \<and>
     list_all2 tame (sv_clients s) (sv_clients s')"

lemma tame_refl [simp]: "tame c c"
  by (simp add: tame_def)

lemma tame_trans: "tame a b \<Longrightarrow> tame b c \<Longrightarrow> tame a c"
  by (auto simp: tame_def)

lemma meek_tame: "meek c c' \<Longrightarrow> tame c c'"
  by (auto simp: meek_def tame_def)

lemma mild_refl [simp]: "mild s s"
  by (simp add: mild_def list_all2_refl)

lemma mild_trans:
  assumes "mild a b" and "mild b c"
  shows "mild a c"
proof -
  have "list_all2 tame (sv_clients a) (sv_clients c)"
    by (rule list_all2_trans [of tame tame tame, OF tame_trans]) (use assms in \<open>auto simp: mild_def\<close>)
  with assms show ?thesis by (simp add: mild_def)
qed

lemma calm_mild: "calm s s' \<Longrightarrow> mild s s'"
proof -
  assume c: "calm s s'"
  have same: "map (\<lambda>se. (se_id se, se_terminals se)) ss = map (\<lambda>se. (se_id se, se_terminals se)) (map unfocused ss)" for ss
    by (simp add: unfocused_def comp_def)
  have "list_all2 tame (sv_clients s) (sv_clients s')"
    using c by (auto simp: calm_def intro: list_all2_mono meek_tame)
  moreover have "map (\<lambda>se. (se_id se, se_terminals se)) (sv_sessions s') = map (\<lambda>se. (se_id se, se_terminals se)) (sv_sessions s)"
    using c by (subst (1 2) same) (simp only: calm_def)
  ultimately show ?thesis using c by (simp add: mild_def calm_def)
qed

lemma mild_calm [mild_intros]:
  "mild r s \<Longrightarrow> mild r (send em c m s)"
  "mild r s \<Longrightarrow> mild r (drop_client em c s)"
  "mild r s \<Longrightarrow> mild r (write_paste_chunk em c chunk s)"
  "mild r s \<Longrightarrow> mild r (forget_paste_slot em t s)"
  "mild r s \<Longrightarrow> mild r (detach em c reason why s)"
  "mild r s \<Longrightarrow> mild r (handle_paste em c chunk s)"
  "mild r s \<Longrightarrow> mild r (focus_on c t s)"
  by (rule mild_trans [OF _ calm_mild], assumption, intro calm_intros calm_refl)+

section \<open>Mild operations\<close>

lemma mild_on_client [mild_intros]: "mild r s \<Longrightarrow> (\<And>c. tame c (f c)) \<Longrightarrow> mild r (on_client i f s)"
  by (rule mild_trans) (auto simp: mild_def on_client_def intro: update_first_all2)

lemma mild_on_term [mild_intros]: "mild r s \<Longrightarrow> (\<And>t. t_id (f t) = t_id t) \<Longrightarrow> mild r (on_term i f s)"
  by (rule mild_trans) (auto simp: mild_def on_term_def list_all2_refl)

lemma mild_on_session [mild_intros]:
  "mild r s \<Longrightarrow> (\<And>se. se_id (f se) = se_id se) \<Longrightarrow> (\<And>se. se_terminals (f se) = se_terminals se) \<Longrightarrow> mild r (on_session i f s)"
  by (rule mild_trans) (auto simp: mild_def on_session_def list_all2_refl map_update_first)

lemma mild_fields [mild_intros]:
  "mild r s \<Longrightarrow> mild r (s\<lparr>sv_list_dirty := b\<rparr>)"
  "mild r s \<Longrightarrow> mild r (s\<lparr>sv_running := b\<rparr>)"
  "mild r s \<Longrightarrow> mild r (s\<lparr>sv_next_tick := n\<rparr>)"
  "mild r s \<Longrightarrow> mild r (s\<lparr>sv_baselines := m\<rparr>)"
  "mild r s \<Longrightarrow> mild r (s\<lparr>sv_diffs := d\<rparr>)"
  "mild r s \<Longrightarrow> mild r (s\<lparr>sv_kills := ks\<rparr>)"
  "mild r s \<Longrightarrow> mild r (s\<lparr>sv_closes := cs\<rparr>)"
  "mild r s \<Longrightarrow> mild r (s\<lparr>sv_settings := st\<rparr>)"
  "mild r s \<Longrightarrow> mild r (s\<lparr>sv_next_stats := n, sv_stats_passes := k\<rparr>)"
  by (auto simp: mild_def)

lemma mild_if [mild_intros]: "mild r a \<Longrightarrow> mild r b \<Longrightarrow> mild r (if c then a else b)"
  by simp

lemma mild_option [mild_intros]: "mild r a \<Longrightarrow> (\<And>x. mild r (f x)) \<Longrightarrow> mild r (case z of None \<Rightarrow> a | Some x \<Rightarrow> f x)"
  by (cases z) auto

lemma mild_fold [mild_intros]:
  "mild r s \<Longrightarrow> (\<And>x s. mild r s \<Longrightarrow> mild r (f x s)) \<Longrightarrow> mild r (fold f xs s)"
  by (induction xs arbitrary: s) auto

lemma mild_for_each [mild_intros]:
  "mild r s \<Longrightarrow> (\<And>c s. mild r s \<Longrightarrow> mild r (visit c s)) \<Longrightarrow> mild r (for_each_attached i visit s)"
  unfolding for_each_attached_def by (rule mild_fold) auto

lemma tame_operations [simp]:
  "tame c (wants_snapshot c)"
  "tame c (c\<lparr>cl_awaiting_removal := i\<rparr>)"
  "tame c (c\<lparr>cl_dirty := b\<rparr>)"
  "tame c (c\<lparr>cl_mode := mode\<rparr>)"
  "tame c (c\<lparr>cl_stream := stream\<rparr>)"
  "tame c (flush_stream c)"
  "tame c (settle_debt c)"
  "tame c (c\<lparr>cl_owed_sent := n\<rparr>)"
  "tame c (c\<lparr>cl_draining_heal := b\<rparr>)"
  "tame c (owe_image m c)"
  "tame c (c\<lparr>cl_dead_announced := D\<rparr>)"
  "tame c (c\<lparr>cl_desktop := e, cl_cell_pixels := p\<rparr>)"
  "tame c (c\<lparr>cl_host_sixel := b\<rparr>)"
  "tame c (c\<lparr>cl_awaiting_kill := b, cl_kill_deadline := d\<rparr>)"
  "tame c (c\<lparr>cl_greeted := b, cl_kind := k\<rparr>)"
  "tame c (c\<lparr>cl_dead_announced := D, cl_watch_stats := b\<rparr>)"
  "tame c (if cl_kind c = Cli then c\<lparr>cl_awaiting_removal := i\<rparr> else c)"
  by (auto simp: tame_def wants_snapshot_def flush_stream_def settle_debt_def owe_image_def)

lemma mild_send_session_list [mild_intros]: "mild r s \<Longrightarrow> mild r (send_session_list em c s)"
  unfolding send_session_list_def Let_def by (intro mild_intros tame_operations)

lemma mild_broadcast [mild_intros]: "mild r s \<Longrightarrow> mild r (broadcast_session_list em who s)"
  unfolding broadcast_session_list_def Let_def by (intro mild_intros)

lemma mild_fold_pair:
  "mild r (snd p) \<Longrightarrow> (\<And>x p. mild r (snd p) \<Longrightarrow> mild r (snd (f x p))) \<Longrightarrow> mild r (snd (fold f xs p))"
  by (induction xs arbitrary: p) auto

lemma mild_flush_reader_counts [mild_intros]:
  assumes "mild r s"
  shows "mild r (flush_reader_counts em s)"
proof -
  have "mild r (snd (fold (\<lambda>client p. let c = the_client client (snd p)
      in if \<not> cl_greeted c \<or> cl_kind c \<noteq> Ui then (fst p, snd p)
         else if over_high_water (cl_stream c) \<or> cl_dirty c then (False, snd p)
         else (fst p, send_session_list em client (snd p))) (map cl_id (sv_clients s)) (True, s)))"
    by (rule mild_fold_pair) (use assms in \<open>auto simp: Let_def mild_send_session_list\<close>)
  then show ?thesis unfolding flush_reader_counts_def case_prod_beta Let_def by (intro mild_fields)
qed

lemma apply_policy_id [simp, same_id]: "t_id (apply_policy em p t) = t_id t"
  by (simp add: apply_policy_def Let_def)

lemma mild_apply_printer_policies [mild_intros]: "mild r s \<Longrightarrow> mild r (apply_printer_policies em s)"
  unfolding apply_printer_policies_def by (intro mild_intros apply_policy_id)

lemma set_terminal_mild:
  assumes "terminal_at term s = Some t" and "t_id t' = t_id t"
  shows "mild s (on_term term (\<lambda>_. t') s)"
proof -
  have "t_id t = term" using assms(1) by (simp add: terminal_at_def find_terminal_id)
  then have "terminal_ids (on_terminal term (\<lambda>_. t') (sv_terminals s)) = terminal_ids (sv_terminals s)"
    using assms(2) by (simp add: terminal_ids_def on_terminal_def map_update_first)
  then show ?thesis by (simp add: mild_def on_term_def list_all2_refl)
qed

lemma mild_collect [mild_intros]: "mild r s \<Longrightarrow> mild r (collect_and_announce em now term watcher s)"
proof -
  assume m: "mild r s"
  show ?thesis
  proof (cases "terminal_at term s")
    case (Some t)
    obtain added t' where c: "collect_print_jobs em (word_of_int now) t = (added, t')" by fastforce
    then have "t_id t' = t_id t" using same_id_collect [of em "word_of_int now" t] by simp
    then have "mild r (on_term term (\<lambda>_. t') s)" using m set_terminal_mild [OF Some] mild_trans by blast
    then show ?thesis
      unfolding collect_and_announce_def Some option.case c prod.case by (intro mild_fold mild_option mild_calm)
  qed (simp add: collect_and_announce_def m)
qed

lemma mild_begin_kill [mild_intros]: "mild r s \<Longrightarrow> mild r (begin_kill em now i force grace s)"
  unfolding begin_kill_def Let_def by (intro mild_intros same_id)

lemma mild_begin_close [mild_intros]: "mild r s \<Longrightarrow> mild r (begin_close em now term force grace s)"
  unfolding begin_close_def Let_def by (intro mild_intros same_id)

lemma mild_begin_kill_terminal [mild_intros]: "mild r s \<Longrightarrow> mild r (begin_kill_terminal em now term s)"
  unfolding begin_kill_terminal_def Let_def by (intro mild_intros same_id)

subsection \<open>Screens\<close>

lemma mild_snapshot_one:
  assumes "mild r (snd p)"
  shows "mild r (snd (snapshot_one em term p))"
proof (cases p)
  case (Pair states s)
  show ?thesis
  proof (cases "terminal_at term s")
    case (Some t)
    obtain state diffs where "engine_snapshot term (em_source em (t_session t)) (sv_diffs s) = (state, diffs)"
      by fastforce
    moreover have "mild r (on_term term all_announced (s\<lparr>sv_diffs := diffs\<rparr>))"
      using assms Pair by (intro mild_intros) (simp_all add: all_announced_def)
    ultimately show ?thesis by (simp add: snapshot_one_def Pair Some)
  qed (use assms Pair in \<open>simp add: snapshot_one_def\<close>)
qed

lemma tame_owe_fold: "tame c0 c \<Longrightarrow> tame c0 (fold owe_image ms c)"
proof (induction ms arbitrary: c)
  case (Cons m ms)
  have "tame c0 (owe_image m c)" by (rule tame_trans [OF Cons.prems]) simp
  from Cons.IH [OF this] show ?case by simp
qed simp

lemma tame_owe_pictures: "tame c ((owe_pictures held diffs c)\<lparr>cl_draining_heal := True\<rparr>)"
proof -
  have "tame c (c\<lparr>cl_owed := [], cl_owed_sent := 0\<rparr>)" by (simp add: tame_def)
  then have "tame c (owe_pictures held diffs c)" unfolding owe_pictures_def by (rule tame_owe_fold)
  then show ?thesis by (auto simp: tame_def)
qed

lemma mild_send_snapshot [mild_intros]:
  assumes "mild r s"
  shows "mild r (send_snapshot em client s)"
proof -
  let ?s = "on_client client (\<lambda>c. c\<lparr>cl_dirty := False\<rparr>) s"
  let ?held = "case session_for (cl_session (the_client client ?s)) ?s of None \<Rightarrow> [] | Some se \<Rightarrow> se_terminals se"
  obtain states s' where f: "fold (snapshot_one em) ?held ([], ?s) = (states, s')" by fastforce
  have "mild r ?s" by (intro mild_intros assms tame_operations)
  then have "mild r (snd (fold (snapshot_one em) ?held ([], ?s)))"
    by (intro mild_fold_pair mild_snapshot_one) simp_all
  then have "mild r s'" using f by simp
  then show ?thesis
    unfolding send_snapshot_def Let_def f prod.case by (intro mild_intros tame_owe_pictures)
qed

lemma mark_news_id [simp, same_id]: "t_id (mark_news em focused t) = t_id t"
  by (simp add: mark_news_def Let_def)

lemma mild_announce_meta [mild_intros]: "mild r s \<Longrightarrow> mild r (announce_meta em term home watcher s)"
  unfolding announce_meta_def by (intro mild_intros) simp_all

lemma mild_announce_clipboard [mild_intros]: "mild r s \<Longrightarrow> mild r (announce_clipboard em term watcher s)"
  unfolding announce_clipboard_def by (intro mild_intros)

lemma mild_announce_printing [mild_intros]: "mild r s \<Longrightarrow> mild r (announce_printing em now term watcher s)"
  unfolding announce_printing_def Let_def by (intro mild_intros) simp_all

lemma mild_announce_complaint [mild_intros]: "mild r s \<Longrightarrow> mild r (announce_complaint em term watcher s)"
  unfolding announce_complaint_def Let_def by (intro mild_intros)

lemma mild_announce_news [mild_intros]: "mild r s \<Longrightarrow> mild r (announce_news em now term s)"
  unfolding announce_news_def Let_def by (intro mild_intros mark_news_id)

lemma mild_announce_terminal_news [mild_intros]: "mild r s \<Longrightarrow> mild r (announce_terminal_news em now s)"
  unfolding announce_terminal_news_def by (intro mild_intros)

lemma mild_announce_layout [mild_intros]: "mild r s \<Longrightarrow> mild r (announce_layout em force s)"
  unfolding announce_layout_def announce_session_layout_def Let_def by (intro mild_intros) simp_all

subsection \<open>The tick\<close>

lemma mild_each_client [mild_intros]:
  "mild r s \<Longrightarrow> (\<And>c s. mild r s \<Longrightarrow> mild r (f c s)) \<Longrightarrow> mild r (each_client f s)"
  unfolding each_client_def by (rule mild_fold)

lemma mild_expire [mild_intros]: "mild r s \<Longrightarrow> mild r (expire_mismatch em now c s)"
  unfolding expire_mismatch_def Let_def by (intro mild_intros)

lemma mild_observe [mild_intros]: "mild r s \<Longrightarrow> mild r (observe_exits em s)"
  unfolding observe_exits_def by (intro mild_intros same_id)

lemma mild_heal [mild_intros]: "mild r s \<Longrightarrow> mild r (heal_client em c s)"
  unfolding heal_client_def Let_def by (intro mild_intros tame_operations)

lemma mild_drip [mild_intros]: "mild r s \<Longrightarrow> mild r (drip em n c s)"
proof (induction n arbitrary: s)
  case (Suc n)
  have "mild r (drip em n c (send em c m (on_client c (\<lambda>c. c\<lparr>cl_owed_sent := cl_owed_sent c + 1\<rparr>) s)))" for m
    by (intro Suc.IH mild_intros Suc.prems) simp
  then show ?case by (simp add: Let_def Suc.prems)
qed simp

lemma mild_pay [mild_intros]: "mild r s \<Longrightarrow> mild r (pay_client em c s)"
  unfolding pay_client_def Let_def by (intro mild_intros tame_operations)

lemma caught_up_id [simp]: "t_id (caught_up em t) = t_id t"
  by (simp add: caught_up_def)

lemma mild_flush_diffs: "mild r s \<Longrightarrow> mild r (snd (flush_diffs em s))"
  by (erule mild_trans)
    (simp add: flush_diffs_def mild_def list_all2_refl terminal_ids_def split: prod.split)

lemma mild_ask_again [mild_intros]: "mild r s \<Longrightarrow> mild r (ask_again term s)"
  unfolding ask_again_def by (intro mild_intros tame_operations)

lemma mild_deliver [mild_intros]: "mild r s \<Longrightarrow> mild r (deliver em deltas images c s)"
  unfolding deliver_def Let_def case_prod_beta by (intro mild_intros tame_operations)

lemma mild_say_stats [mild_intros]: "mild r s \<Longrightarrow> mild r (say_stats em c term stats s)"
  unfolding say_stats_def by (intro mild_intros tame_operations)

lemma mild_stats_one:
  assumes "mild r (snd p)"
  shows "mild r (snd (stats_one em now c term p))"
proof (cases p)
  case (Pair packets s)
  with assms have m: "mild r s" by simp
  show ?thesis
    by (auto simp: stats_one_def Pair Let_def m case_prod_beta split: option.split intro!: mild_say_stats mild_fields)
qed

lemma mild_stats_client:
  assumes "mild r (snd p)"
  shows "mild r (snd (stats_client em now c p))"
proof (cases p)
  case (Pair packets s)
  have "mild r (snd (fold (stats_one em now c) ts p))" for ts
    by (intro mild_fold_pair mild_stats_one assms)
  with assms show ?thesis by (auto simp: stats_client_def Pair Let_def split: option.split)
qed

lemma mild_stats_tick [mild_intros]: "mild r s \<Longrightarrow> mild r (stats_tick em now s)"
  unfolding stats_tick_def Let_def by (intro mild_fold_pair mild_stats_client) (simp add: mild_fields)

section \<open>Mild operations keep the invariant\<close>

lemma mild_homes:
  assumes "mild s s'"
  shows "map se_id (sv_sessions s') = map se_id (sv_sessions s)" and "homes_but X s' = homes_but X s"
proof -
  let ?p = "\<lambda>se. (se_id se, se_terminals se)"
  have eq: "map ?p (sv_sessions s') = map ?p (sv_sessions s)" using assms by (simp add: mild_def)
  from arg_cong [OF eq, of "map fst"] show "map se_id (sv_sessions s') = map se_id (sv_sessions s)"
    by (simp add: comp_def)
  have h: "homes_but X u = concat (map snd (filter (\<lambda>q. fst q \<notin> X) (map ?p (sv_sessions u))))" for u :: "'a server"
    by (simp add: homes_but_def filter_map comp_def)
  show "homes_but X s' = homes_but X s" by (simp only: h eq)
qed

lemma mild_clients:
  assumes "mild s s'"
  shows "map cl_id (sv_clients s') = map cl_id (sv_clients s)"
    and "c' \<in> set (sv_clients s') \<Longrightarrow> cl_attached c' \<Longrightarrow>
      \<exists>c\<in>set (sv_clients s). cl_attached c \<and> cl_id c' = cl_id c \<and> cl_session c' = cl_session c"
proof -
  have l: "list_all2 tame (sv_clients s) (sv_clients s')" using assms by (simp add: mild_def)
  then show "map cl_id (sv_clients s') = map cl_id (sv_clients s)"
    by (auto simp: list_all2_conv_all_nth tame_def intro: nth_equalityI)
  show "c' \<in> set (sv_clients s') \<Longrightarrow> cl_attached c' \<Longrightarrow>
      \<exists>c\<in>set (sv_clients s). cl_attached c \<and> cl_id c' = cl_id c \<and> cl_session c' = cl_session c"
    using l unfolding list_all2_conv_all_nth tame_def in_set_conv_nth by (metis nth_mem)
qed

lemma ids_in: "se_id ` set ss = set (map se_id ss)"
  by simp

lemma sound_mild: "mild s s' \<Longrightarrow> sound_but X s \<Longrightarrow> sound_but X s'"
proof -
  assume m: "mild s s'" and w: "sound_but X s"
  note h = mild_homes [OF m] and c = mild_clients [OF m]
  have "cl_session c' \<in> set (map se_id (sv_sessions s))" if "c' \<in> set (sv_clients s')" "cl_attached c'" for c'
    using c(2) [OF that] w unfolding sound_but_def ids_in by auto
  with m w show ?thesis unfolding sound_but_def ids_in by (simp add: mild_def h c(1))
qed

text \<open>An operation that is mild from wherever it starts keeps the invariant.\<close>

lemma sound_by_mild: "(\<And>r s. mild r s \<Longrightarrow> mild r (f s)) \<Longrightarrow> sound_but X s \<Longrightarrow> sound_but X (f s)"
  using sound_mild mild_refl by metis

section \<open>Making\<close>

lemma below_snoc: "below n is \<Longrightarrow> (n::u64) \<noteq> - 1 \<Longrightarrow> below (n + 1) (is @ [n])"
proof -
  assume b: "below n is" and n: "n \<noteq> - 1"
  have "1 + n \<noteq> 0" using n by (metis add.commute eq_neg_iff_add_eq_0)
  then have "n < n + 1" by (simp add: word_less_nat_alt add.commute [of n] unatSuc)
  with b show ?thesis by (auto simp: below_def intro: less_trans)
qed

lemma below_fresh: "below n is \<Longrightarrow> n \<notin> set is"
  by (auto simp: below_def)

lemma create_session_sound:
  assumes "sound_but X s" and "sv_next_session s \<noteq> - 1"
  shows "sound_but X (snd (create_session name s))"
proof -
  have "below (sv_next_session s + 1) (map se_id (sv_sessions s) @ [sv_next_session s])"
    using assms by (intro below_snoc) (simp_all add: sound_but_def)
  moreover have "sv_next_session s \<notin> set (map se_id (sv_sessions s))"
    using assms(1) by (intro below_fresh) (simp add: sound_but_def)
  ultimately show ?thesis using assms(1)
    by (auto simp: sound_but_def create_session_def Let_def homes_but_def)
qed

lemma create_session_fields:
  "fst (create_session name s) = sv_next_session s"
  "sv_terminals (snd (create_session name s)) = sv_terminals s"
  "sv_clients (snd (create_session name s)) = sv_clients s"
  "sv_next_client (snd (create_session name s)) = sv_next_client s"
  "sv_sessions (snd (create_session name s)) = sv_sessions s @ [\<lparr>se_id = sv_next_session s,
     se_name = (if name = [] then next_session_name s else name), se_terminals = [], se_last_focused = 0,
     se_desktop = no_extent, se_printer = no_override\<rparr>]"
  by (simp_all add: create_session_def Let_def)

text \<open>Where \<open>home_for\<close> says a terminal is to live, there is a session.\<close>

lemma home_for_sound:
  assumes "sound_but {} s" and "sv_next_session s \<noteq> - 1" and "home_for ident s = (home, s')"
  shows "sound_but {} s'" and "home \<in> se_id ` set (sv_sessions s')" and "sv_terminals s' = sv_terminals s"
    and "sv_next_client s' = sv_next_client s"
proof -
  have "sound_but {} s' \<and> home \<in> se_id ` set (sv_sessions s') \<and> sv_terminals s' = sv_terminals s \<and> sv_next_client s' = sv_next_client s"
  proof (cases "session_for ident s")
    case (Some se)
    then have "se \<in> set (sv_sessions s)" by (auto simp: session_for_def find_Some_iff)
    with assms Some show ?thesis by (auto simp: home_for_def)
  next
    case None
    show ?thesis
    proof (cases "ident = 0 \<and> sv_sessions s \<noteq> []")
      case True
      with assms None show ?thesis by (auto simp: home_for_def)
    next
      case False
      with None assms(3) have "create_session [] s = (home, s')" by (auto simp: home_for_def)
      with create_session_sound [OF assms(1,2), of "[]"] create_session_fields [of "[]" s] show ?thesis by auto
    qed
  qed
  then show "sound_but {} s'" and "home \<in> se_id ` set (sv_sessions s')" and "sv_terminals s' = sv_terminals s"
    and "sv_next_client s' = sv_next_client s" by auto
qed

end
