(* ===== verification/Terminals_Pass.thy ===== *)
theory Terminals_Pass
  imports Terminals
begin

text \<open>
  A pass over every child (\<open>Terminals::drain\<close>): whatever terminal goes first, each is drained once,
  with the same share.
\<close>

section \<open>A pass over every child\<close>

lemma drain_order_perm: "start < count \<Longrightarrow> distinct (drain_order start count) \<and> set (drain_order start count) = {0..<count}"
proof -
  assume less: "start < count"
  have at: "(start + x) mod count = (if start + x < count then start + x else start + x - count)" if "x < count" for x
    using that less by (simp add: mod_if)
  have inj: "inj_on (\<lambda>step. (start + step) mod count) {0..<count}"
    by (rule inj_onI) (simp add: at split: if_splits)
  moreover have "(\<lambda>step. (start + step) mod count) ` {0..<count} = {0..<count}"
    by (rule endo_inj_surj) (use inj less in auto)
  ultimately show ?thesis by (simp add: drain_order_def distinct_map)
qed

text \<open>Updating each index of a list once is mapping over it.\<close>

lemma fold_update_each:
  "distinct order \<Longrightarrow> set order \<subseteq> {0..<length xs} \<Longrightarrow>
     fold (\<lambda>i xs. xs[i := f (xs ! i)]) order xs = map (\<lambda>i. if i \<in> set order then f (xs ! i) else xs ! i) [0..<length xs]"
proof (induction order arbitrary: xs)
  case (Cons i order)
  let ?ys = "xs[i := f (xs ! i)]"
  have "fold (\<lambda>i xs. xs[i := f (xs ! i)]) order ?ys =
      map (\<lambda>i. if i \<in> set order then f (?ys ! i) else ?ys ! i) [0..<length ?ys]"
    by (rule Cons.IH) (use Cons.prems in auto)
  also have "\<dots> = map (\<lambda>j. if j \<in> set (i # order) then f (xs ! j) else xs ! j) [0..<length xs]"
    using Cons.prems by (intro nth_equalityI) (auto simp: nth_list_update)
  finally show ?case by simp
qed (simp add: map_nth)

lemma drain_step_fields:
  "tms_list (snd (drain_step em share i st)) = (tms_list (snd st))[i := snd (drain_one em share (tms_list (snd st) ! i))]"
  "tms_next_id (snd (drain_step em share i st)) = tms_next_id (snd st)"
  "tms_settings (snd (drain_step em share i st)) = tms_settings (snd st)"
  "tms_cursor (snd (drain_step em share i st)) = tms_cursor (snd st)"
  "tms_ended (snd (drain_step em share i st)) = tms_ended (snd st)"
  by (simp_all add: drain_step_def split: prod.split)

lemma drain_fold_list:
  "tms_list (snd (fold (drain_step em share) order st)) =
     fold (\<lambda>i ts. ts[i := snd (drain_one em share (ts ! i))]) order (tms_list (snd st))"
proof (induction order arbitrary: st)
  case (Cons i order)
  show ?case by (simp only: fold_Cons o_apply Cons.IH drain_step_fields)
qed simp

lemma drain_fold_fields:
  "tms_next_id (snd (fold (drain_step em share) order st)) = tms_next_id (snd st)"
  "tms_settings (snd (fold (drain_step em share) order st)) = tms_settings (snd st)"
  "tms_cursor (snd (fold (drain_step em share) order st)) = tms_cursor (snd st)"
  "tms_ended (snd (fold (drain_step em share) order st)) = tms_ended (snd st)"
  by (induction order arbitrary: st) (simp_all only: fold_Nil fold_Cons o_apply id_apply drain_step_fields)

lemma fold_update_all:
  assumes "distinct order" and "set order = {0..<length xs}"
  shows "fold (\<lambda>i xs. xs[i := f (xs ! i)]) order xs = map f xs"
proof -
  have "fold (\<lambda>i xs. xs[i := f (xs ! i)]) order xs =
      map (\<lambda>i. if i \<in> set order then f (xs ! i) else xs ! i) [0..<length xs]"
    by (rule fold_update_each) (use assms in auto)
  also have "\<dots> = map f xs" by (rule nth_equalityI) (simp_all add: assms(2))
  finally show ?thesis .
qed

text \<open>Whatever terminal goes first, one pass drains each of them once, with the same share.\<close>

lemma terminals_drain_fields:
  "tms_next_id (snd (terminals_drain em budget tms)) = tms_next_id tms"
  "tms_settings (snd (terminals_drain em budget tms)) = tms_settings tms"
  "tms_ended (snd (terminals_drain em budget tms)) = tms_ended tms"
  by (simp_all add: terminals_drain_def Let_def drain_fold_fields)

lemma terminals_drain_list:
  "tms_list (snd (terminals_drain em budget tms)) =
     map (\<lambda>t. snd (drain_one em (max minimum_drain_share (budget div length (tms_list tms))) t)) (tms_list tms)"
proof (cases "tms_list tms = []")
  case False
  then have "tms_cursor tms mod length (tms_list tms) < length (tms_list tms)" by simp
  note p = drain_order_perm [OF this]
  note all = fold_update_all [OF p [THEN conjunct1] p [THEN conjunct2],
      of "\<lambda>t. snd (drain_one em (max minimum_drain_share (budget div length (tms_list tms))) t)"]
  show ?thesis
    using False unfolding terminals_drain_def Let_def by (simp add: drain_fold_list all)
qed (simp add: terminals_drain_def)

lemma terminals_drain_ids [simp]:
  "terminal_ids (snd (terminals_drain em budget tms)) = terminal_ids tms"
  "tms_next_id (snd (terminals_drain em budget tms)) = tms_next_id tms"
  by (simp_all add: terminals_drain_fields terminal_ids_def terminals_drain_list)

end
