(* ===== verification/Server_Sound_Handlers.thy ===== *)
theory Server_Sound_Handlers
  imports Server_Sound Terminals_Pass "HOL-Library.Multiset"
begin

text \<open>
  The operations that move terminals and sessions about, one by one, and then every message, every
  tick and everything else that can happen: the invariant of \<^verbatim>\<open>Server_Sound\<close> is kept.
\<close>

section \<open>Lists of sessions\<close>

abbreviation all_homes :: "session list \<Rightarrow> u64 list" where
  "all_homes ss \<equiv> concat (map se_terminals ss)"

lemma homes_but_none [simp]: "homes_but {} s = all_homes (sv_sessions s)"
  by (simp add: homes_but_def)

lemma homes_append:
  "i \<in> se_id ` set ss \<Longrightarrow>
     (\<And>se. se_terminals (f se) = se_terminals se @ [n]) \<Longrightarrow>
     mset (all_homes (update_first (\<lambda>se. se_id se = i) f ss)) = add_mset n (mset (all_homes ss))"
  by (induction ss) auto

lemma homes_filter:
  "distinct (map se_id ss) \<Longrightarrow> distinct (all_homes ss) \<Longrightarrow> se \<in> set ss \<Longrightarrow> t \<in> set (se_terminals se) \<Longrightarrow>
     all_homes (update_first (\<lambda>x. se_id x = se_id se) (\<lambda>x. x\<lparr>se_terminals := filter (\<lambda>i. i \<noteq> t) (se_terminals x)\<rparr>) ss) =
     filter (\<lambda>i. i \<noteq> t) (all_homes ss)"
proof (induction ss)
  case (Cons x ss)
  show ?case
  proof (cases "x = se")
    case True
    then have "t \<notin> set (all_homes ss)" using Cons.prems by auto
    then have "filter (\<lambda>i. i \<noteq> t) (all_homes ss) = all_homes ss" by (intro filter_True) auto
    with True show ?thesis by simp
  next
    case False
    then have se: "se \<in> set ss" using Cons.prems by simp
    then have "se_id x \<noteq> se_id se" using Cons.prems(1) by auto
    moreover have "t \<notin> set (se_terminals x)" using Cons.prems se by auto
    then have "filter (\<lambda>i. i \<noteq> t) (se_terminals x) = se_terminals x" by (intro filter_True) auto
    ultimately show ?thesis using Cons.IH Cons.prems se by simp
  qed
qed simp

lemma distinct_homes_filter: "distinct (all_homes ss) \<Longrightarrow> distinct (all_homes (filter P ss))"
  by (induction ss) auto

lemma homes_split:
  "distinct (map se_id ss) \<Longrightarrow> se \<in> set ss \<Longrightarrow>
     set (all_homes ss) = set (se_terminals se) \<union> set (all_homes (filter (\<lambda>x. se_id x \<noteq> se_id se) ss))"
  by (auto simp: inj_on_def distinct_map)

lemma homes_disjoint:
  "distinct (map se_id ss) \<Longrightarrow> distinct (all_homes ss) \<Longrightarrow> se \<in> set ss \<Longrightarrow>
     set (se_terminals se) \<inter> set (all_homes (filter (\<lambda>x. se_id x \<noteq> se_id se) ss)) = {}"
  by (induction ss) auto

lemma holding_in: "session_holding t s = Some se \<Longrightarrow> se \<in> set (sv_sessions s) \<and> t \<in> set (se_terminals se)"
  by (auto simp: session_holding_def find_Some_iff)

lemma session_for_in: "session_for i s = Some se \<Longrightarrow> se \<in> set (sv_sessions s) \<and> se_id se = i"
  by (auto simp: session_for_def find_Some_iff)

lemma session_for_found: "i \<in> se_id ` set (sv_sessions s) \<Longrightarrow> session_for i s \<noteq> None"
  by (auto simp: session_for_def find_None_iff)

lemma holding_none: "session_holding t s = None \<Longrightarrow> t \<notin> set (all_homes (sv_sessions s))"
  by (auto simp: session_holding_def find_None_iff)

lemma update_ids: "(\<And>se. se_id (f se) = se_id se) \<Longrightarrow> map se_id (update_first P f ss) = map se_id ss"
  by (rule map_update_first)

section \<open>Opening\<close>

lemma create_session_terminals:
  "create_session name (s\<lparr>sv_terminals := tms\<rparr>) =
     (fst (create_session name s), (snd (create_session name s))\<lparr>sv_terminals := tms\<rparr>)"
  by (simp add: create_session_def next_session_name_def Let_def)

lemma session_for_terminals: "session_for i (s\<lparr>sv_terminals := tms\<rparr>) = session_for i s"
  by (simp add: session_for_def)

lemma home_for_terminals:
  "home_for i (s\<lparr>sv_terminals := tms\<rparr>) = (fst (home_for i s), (snd (home_for i s))\<lparr>sv_terminals := tms\<rparr>)"
  by (cases "session_for i s") (simp_all add: home_for_def session_for_terminals create_session_terminals)

lemma open_terminal_eq:
  "open_terminal em i spec s =
     (tms_next_id (sv_terminals s),
      on_session (fst (home_for i s))
        (\<lambda>se. se\<lparr>se_terminals := se_terminals se @ [tms_next_id (sv_terminals s)],
                  se_last_focused := tms_next_id (sv_terminals s)\<rparr>)
        ((snd (home_for i s))\<lparr>sv_terminals := snd (terminals_open em spec (sv_terminals s))\<rparr>))"
  unfolding open_terminal_def Let_def
  by (simp only: case_prod_beta home_for_terminals terminals_open_ids fst_conv snd_conv)

lemma open_terminal_at_sound:
  assumes "sound s" and "tms_next_id (sv_terminals s) \<noteq> - 1"
    and h: "home_for i s = (home, s')" and k: "sound s'" "home \<in> se_id ` set (sv_sessions s')" "sv_terminals s' = sv_terminals s"
  shows "sound (snd (open_terminal em i spec s))"
proof -
  let ?n = "tms_next_id (sv_terminals s)"
  let ?f = "\<lambda>se. se\<lparr>se_terminals := se_terminals se @ [?n], se_last_focused := ?n\<rparr>"
  let ?tms = "snd (terminals_open em spec (sv_terminals s))"
  note o = terminals_open_ids [of em spec "sv_terminals s"]
  have result: "snd (open_terminal em i spec s) = on_session home ?f (s'\<lparr>sv_terminals := ?tms\<rparr>)"
    by (simp only: open_terminal_eq h fst_conv snd_conv)
  have ms: "mset (all_homes (update_first (\<lambda>se. se_id se = home) ?f (sv_sessions s'))) = add_mset ?n (mset (all_homes (sv_sessions s')))"
    using k(2) by (rule homes_append) simp
  have fresh: "?n \<notin> set (terminal_ids (sv_terminals s))"
    using assms(1) by (intro below_fresh) (simp add: sound_but_def)
  have all: "set (all_homes (sv_sessions s')) = set (terminal_ids (sv_terminals s))"
    using k(1,3) by (simp add: sound_but_def)
  have "distinct (?n # all_homes (sv_sessions s'))"
    using k(1) fresh all by (simp add: sound_but_def)
  moreover have "mset (all_homes (update_first (\<lambda>se. se_id se = home) ?f (sv_sessions s'))) = mset (?n # all_homes (sv_sessions s'))"
    using ms by simp
  ultimately have d: "distinct (all_homes (update_first (\<lambda>se. se_id se = home) ?f (sv_sessions s')))"
    using mset_eq_imp_distinct_iff by blast
  have st: "set (all_homes (update_first (\<lambda>se. se_id se = home) ?f (sv_sessions s'))) = insert ?n (set (terminal_ids (sv_terminals s)))"
    using arg_cong [OF ms, of set_mset] all by simp
  have b: "below (?n + 1) (terminal_ids (sv_terminals s) @ [?n])"
    using assms(1,2) by (intro below_snoc) (simp_all add: sound_but_def)
  have ids: "map se_id (update_first (\<lambda>se. se_id se = home) ?f (sv_sessions s')) = map se_id (sv_sessions s')"
    by (rule update_ids) simp
  have i: "se_id ` set (update_first (\<lambda>se. se_id se = home) ?f (sv_sessions s')) = se_id ` set (sv_sessions s')"
    using arg_cong [OF ids, of set] by simp
  have old: "distinct (terminal_ids (sv_terminals s))" using assms(1) by (simp add: sound_but_def)
  show ?thesis
    unfolding result using k(1,3) d st b ids i o fresh old
    by (simp add: sound_but_def on_session_def)
qed

lemma open_terminal_found_sound:
  assumes "sound s" and "session_for i s = Some se" and "tms_next_id (sv_terminals s) \<noteq> - 1"
  shows "sound (snd (open_terminal em i spec s))"
proof -
  have "home_for i s = (se_id se, s)" using assms(2) by (simp add: home_for_def)
  moreover have "se_id se \<in> se_id ` set (sv_sessions s)" using session_for_in [OF assms(2)] by auto
  ultimately show ?thesis by (intro open_terminal_at_sound [OF assms(1,3) _ assms(1)]) simp_all
qed

section \<open>Forgetting a session\<close>

definition nobody_reads :: "u64 \<Rightarrow> client list \<Rightarrow> bool" where
  "nobody_reads i cs \<longleftrightarrow> (\<forall>c\<in>set cs. \<not> (cl_attached c \<and> cl_session c = i))"

lemma all2_tame_nobody:
  "list_all2 tame cs cs' \<Longrightarrow> nobody_reads i (filter (\<lambda>c. P (cl_id c)) cs) \<Longrightarrow> nobody_reads i (filter (\<lambda>c. P (cl_id c)) cs')"
  by (induction rule: list_all2_induct) (auto simp: nobody_reads_def tame_def)

lemma find_client_in: "distinct (map cl_id cs) \<Longrightarrow> c \<in> set cs \<Longrightarrow> find (\<lambda>x. cl_id x = cl_id c) cs = Some c"
  by (induction cs) auto

lemma the_client_in:
  "sound_but X s \<Longrightarrow> c \<in> set (sv_clients s) \<Longrightarrow> the_client (cl_id c) s = c"
  by (simp add: the_client_def find_client_def find_client_in sound_but_def)

lemma leave_nobody:
  "distinct (map cl_id cs) \<Longrightarrow> nobody_reads i (filter (\<lambda>c. cl_id c = k) (update_first (\<lambda>c. cl_id c = k) leave cs))"
proof (induction cs)
  case (Cons c cs)
  show ?case
  proof (cases "cl_id c = k")
    case True
    then have "filter (\<lambda>c. cl_id c = k) cs = []" using Cons.prems by (auto simp: filter_empty_conv image_iff)
    with True show ?thesis by (simp add: nobody_reads_def leave_def)
  next
    case False
    with Cons show ?thesis by simp
  qed
qed (simp add: nobody_reads_def)

lemma detached_one:
  assumes "sound_but X s"
  shows "nobody_reads i (filter (\<lambda>c. cl_id c = k) (sv_clients
    (if cl_attached (the_client k s) \<and> cl_session (the_client k s) = i then detach em k reason why s else s)))"
proof (cases "cl_attached (the_client k s) \<and> cl_session (the_client k s) = i")
  case True
  let ?s = "on_client k leave s"
  have "nobody_reads i (filter (\<lambda>c. cl_id c = k) (sv_clients ?s))"
    unfolding on_client_def using assms by (simp add: leave_nobody sound_but_def)
  moreover have "detach em k reason why s =
      (send em k (Detached \<lparr>detached_reason = reason, detached_text = why\<rparr>) ?s)\<lparr>sv_list_dirty := True\<rparr>"
    using True by (simp add: detach_def detach_by_def)
  then have "mild ?s (detach em k reason why s)" by (simp only:) (intro mild_fields mild_calm mild_refl)
  then have "list_all2 tame (sv_clients ?s) (sv_clients (detach em k reason why s))" by (simp only: mild_def)
  ultimately have "nobody_reads i (filter (\<lambda>c. cl_id c = k) (sv_clients (detach em k reason why s)))"
    using all2_tame_nobody [where P = "\<lambda>n. n = k"] by blast
  with True show ?thesis by simp
next
  case False
  have "c = the_client k s" if "c \<in> set (sv_clients s)" "cl_id c = k" for c
    using the_client_in [OF assms that(1)] that(2) by simp
  with False show ?thesis by (auto simp: nobody_reads_def)
qed

definition detach_reader :: "'e emulator \<Rightarrow> u64 \<Rightarrow> detach_reason \<Rightarrow> bytes \<Rightarrow> u64 \<Rightarrow> 'e server \<Rightarrow> 'e server" where
  "detach_reader em i reason why k s =
     (let c = the_client k s in if cl_attached c \<and> cl_session c = i then detach em k reason why s else s)"

lemma mild_detach_reader: "mild r s \<Longrightarrow> mild r (detach_reader em i reason why k s)"
  unfolding detach_reader_def Let_def by (intro mild_if mild_calm)

lemma detached_all:
  "sound_but X s \<Longrightarrow>
     nobody_reads i (filter (\<lambda>c. cl_id c \<in> set ks) (sv_clients (fold (detach_reader em i reason why) ks s)))"
proof (induction ks arbitrary: s rule: rev_induct)
  case Nil
  then show ?case by (simp add: nobody_reads_def)
next
  case (snoc k ks)
  let ?s = "fold (detach_reader em i reason why) ks s"
  let ?t = "detach_reader em i reason why k ?s"
  have "mild s ?s" by (intro mild_fold mild_refl mild_detach_reader)
  then have w: "sound_but X ?s" using snoc.prems by (rule sound_mild)
  have "list_all2 tame (sv_clients ?s) (sv_clients ?t)"
    using mild_detach_reader [OF mild_refl, of ?s em i reason why k] by (simp add: mild_def)
  from all2_tame_nobody [OF this snoc.IH [OF snoc.prems]]
  have "nobody_reads i (filter (\<lambda>c. cl_id c \<in> set ks) (sv_clients ?t))" .
  moreover have "nobody_reads i (filter (\<lambda>c. cl_id c = k) (sv_clients ?t))"
    using detached_one [OF w] by (simp add: detach_reader_def Let_def)
  ultimately show ?case by (auto simp: nobody_reads_def)
qed

lemma nobody_reads_all:
  assumes "map cl_id cs' = map cl_id cs" and "nobody_reads i (filter (\<lambda>c. cl_id c \<in> set (map cl_id cs)) cs')"
  shows "nobody_reads i cs'"
proof -
  have "filter (\<lambda>c. cl_id c \<in> set (map cl_id cs)) cs' = cs'"
    by (rule filter_True) (auto simp flip: assms(1))
  with assms(2) show ?thesis by simp
qed

lemma erase_session_sound:
  assumes "sound_but {i} s" and "nobody_reads i (sv_clients s)"
  shows "sound (erase_session i s)"
proof -
  have "distinct (all_homes (filter (\<lambda>se. se_id se \<noteq> i) (sv_sessions s)))"
    using assms(1) by (intro distinct_homes_filter) (simp add: sound_but_def)
  moreover have "distinct (map se_id (filter (\<lambda>se. se_id se \<noteq> i) (sv_sessions s)))"
    using assms(1) by (simp add: sound_but_def distinct_map_filter)
  moreover have "cl_session c \<in> se_id ` set (filter (\<lambda>se. se_id se \<noteq> i) (sv_sessions s))"
    if "c \<in> set (sv_clients s)" "cl_attached c" for c
  proof -
    have "cl_session c \<in> se_id ` set (sv_sessions s)" using assms(1) that by (simp add: sound_but_def)
    moreover have "cl_session c \<noteq> i" using assms(2) that by (simp add: nobody_reads_def)
    ultimately show ?thesis by auto
  qed
  ultimately show ?thesis
    using assms(1) by (simp add: sound_but_def erase_session_def below_def homes_but_def)
qed

lemma forget_session_sound:
  assumes "sound_but {i} s"
  shows "sound (forget_session em i reason why s)"
proof -
  let ?s = "fold (detach_reader em i reason why) (map cl_id (sv_clients s)) s"
  have m: "mild s ?s" by (intro mild_fold mild_refl mild_detach_reader)
  have all: "nobody_reads i (filter (\<lambda>c. cl_id c \<in> set (map cl_id (sv_clients s))) (sv_clients ?s))"
    by (rule detached_all [OF assms])
  have "nobody_reads i (sv_clients ?s)" by (rule nobody_reads_all [OF mild_clients(1) [OF m] all])
  then have w: "sound (erase_session i ?s)" using sound_mild [OF m assms] by (intro erase_session_sound)
  have "forget_session em i reason why s =
      (let s = broadcast_session_list em None (erase_session i ?s)
       in if sv_sessions s = [] \<and> sv_session_existed s then s\<lparr>sv_running := False\<rparr> else s)"
    by (simp add: forget_session_def detach_reader_def [abs_def])
  moreover have "mild (erase_session i ?s) (let s = broadcast_session_list em None (erase_session i ?s)
       in if sv_sessions s = [] \<and> sv_session_existed s then s\<lparr>sv_running := False\<rparr> else s)"
    unfolding Let_def by (intro mild_if mild_fields mild_broadcast mild_refl)
  ultimately show ?thesis using sound_mild [OF _ w] by simp
qed

lemma sound_empty_session:
  assumes "sound s" and "\<And>se. se \<in> set (sv_sessions s) \<Longrightarrow> se_id se = i \<Longrightarrow> se_terminals se = []"
  shows "sound_but {i} s"
proof -
  have "set (homes_but {i} s) = set (all_homes (sv_sessions s))"
    using assms(2) by (auto simp: homes_but_def)
  with assms(1) show ?thesis by (simp add: sound_but_def)
qed

section \<open>Removing a terminal\<close>

lemma erase_terminal_fields:
  "sv_sessions (erase_terminal em t s) = sv_sessions s"
  "sv_clients (erase_terminal em t s) = sv_clients s"
  "sv_next_session (erase_terminal em t s) = sv_next_session s"
  "sv_next_client (erase_terminal em t s) = sv_next_client s"
  "tms_next_id (sv_terminals (erase_terminal em t s)) = tms_next_id (sv_terminals s)"
  "terminal_ids (sv_terminals (erase_terminal em t s)) = remove1 t (terminal_ids (sv_terminals s))"
  by (simp_all add: erase_terminal_def terminals_close_ids)

lemma erase_homeless:
  assumes "sound s" and "t \<notin> set (all_homes (sv_sessions s))"
  shows "sound (erase_terminal em t s)"
proof -
  have "remove1 t (terminal_ids (sv_terminals s)) = terminal_ids (sv_terminals s)"
    using assms by (intro remove1_idem) (simp add: sound_but_def)
  with assms(1) show ?thesis by (simp add: sound_but_def erase_terminal_fields)
qed

definition take_out :: "u64 \<Rightarrow> u64 \<Rightarrow> 'e server \<Rightarrow> 'e server" where
  "take_out i t = on_session i (\<lambda>se. se\<lparr>se_terminals := filter (\<lambda>i. i \<noteq> t) (se_terminals se)\<rparr>)"

lemma take_out_sessions:
  assumes "sound s" and "se \<in> set (sv_sessions s)" and "t \<in> set (se_terminals se)"
  shows "all_homes (sv_sessions (take_out (se_id se) t s)) = filter (\<lambda>i. i \<noteq> t) (all_homes (sv_sessions s))"
    and "map se_id (sv_sessions (take_out i t s)) = map se_id (sv_sessions s)"
  using assms by (simp_all add: take_out_def on_session_def homes_filter sound_but_def map_update_first)

lemma erase_and_take_out:
  assumes w: "sound s" and "se \<in> set (sv_sessions s)" and "t \<in> set (se_terminals se)"
  shows "sound (take_out (se_id se) t (erase_terminal em t s))"
proof -
  let ?s = "erase_terminal em t s"
  have h: "all_homes (sv_sessions (take_out (se_id se) t ?s)) = filter (\<lambda>i. i \<noteq> t) (all_homes (sv_sessions s))"
    and i: "map se_id (sv_sessions (take_out (se_id se) t ?s)) = map se_id (sv_sessions s)"
    using take_out_sessions [OF assms] by (simp_all add: take_out_def on_session_def erase_terminal_fields)
  have "se_id ` set (sv_sessions (take_out (se_id se) t ?s)) = se_id ` set (sv_sessions s)"
    using arg_cong [OF i, of set] by simp
  moreover have "set (remove1 t (terminal_ids (sv_terminals s))) = set (terminal_ids (sv_terminals s)) - {t}"
    using w by (intro set_remove1_eq) (simp add: sound_but_def)
  moreover have "sv_terminals (take_out (se_id se) t ?s) = sv_terminals ?s" "sv_clients (take_out (se_id se) t ?s) = sv_clients ?s"
    "sv_next_session (take_out (se_id se) t ?s) = sv_next_session ?s" "sv_next_client (take_out (se_id se) t ?s) = sv_next_client ?s"
    by (simp_all add: take_out_def on_session_def)
  ultimately show ?thesis
    using w unfolding sound_but_def homes_but_none h i by (auto simp: erase_terminal_fields below_def)
qed

lemma empty_then_forget_sound:
  assumes w: "sound s"
  shows "sound (if (case session_for i s of None \<Rightarrow> False | Some home \<Rightarrow> se_terminals home = []) \<and> b
    then forget_session em i reason why s else s)"
proof (cases "session_for i s")
  case (Some home)
  have "se_terminals se = []" if "se_terminals home = []" "se \<in> set (sv_sessions s)" "se_id se = i" for se
  proof -
    have "distinct (map se_id (sv_sessions s))" using w by (simp add: sound_but_def)
    then have "se = home" using session_for_in [OF Some] that(2,3) by (auto simp: distinct_map inj_on_def)
    with that(1) show ?thesis by simp
  qed
  then have "se_terminals home = [] \<Longrightarrow> sound_but {i} s" by (intro sound_empty_session [OF w]) blast
  with w Some show ?thesis by (simp add: forget_session_sound)
qed (simp add: w)

lemma remove_terminal_sound:
  assumes w0: "sound s"
  shows "sound (remove_terminal em t exited s)"
proof -
  let ?s = "forget_paste_slot em t s"
  have w: "sound ?s" by (rule sound_mild [OF _ w0]) (intro mild_calm mild_refl)
  let ?e = "(erase_terminal em t ?s)\<lparr>sv_baselines := (sv_baselines (erase_terminal em t ?s))(t := None)\<rparr>"
  show ?thesis
  proof (cases "session_holding t ?s")
    case None
    have "sound (erase_terminal em t ?s)" by (rule erase_homeless [OF w holding_none [OF None]])
    then have "sound ?e" by (rule sound_mild [rotated]) (intro mild_fields mild_refl)
    then show ?thesis unfolding remove_terminal_def Let_def None option.case .
  next
    case (Some se)
    have "sound (take_out (se_id se) t (erase_terminal em t ?s))"
      using holding_in [OF Some] by (intro erase_and_take_out [OF w]) auto
    moreover have "take_out (se_id se) t ?e = (take_out (se_id se) t (erase_terminal em t ?s))
        \<lparr>sv_baselines := (sv_baselines (erase_terminal em t ?s))(t := None)\<rparr>"
      by (simp add: take_out_def on_session_def)
    ultimately have out: "sound (take_out (se_id se) t ?e)"
      using sound_mild [OF mild_fields(4) [OF mild_refl]] by simp
    have "sound (broadcast_session_list em None (for_each_attached (se_id se) (\<lambda>watcher. send em watcher m) (take_out (se_id se) t ?e)))" for m
      by (rule sound_mild [OF _ out]) (intro mild_broadcast mild_for_each mild_calm mild_refl)
    then show ?thesis
      unfolding remove_terminal_def Let_def Some option.case take_out_def [symmetric] by (rule empty_then_forget_sound)
  qed
qed

section \<open>Ending a session\<close>

lemma erase_all_fields:
  "sv_sessions (fold (erase_terminal em) ts s) = sv_sessions s"
  "sv_clients (fold (erase_terminal em) ts s) = sv_clients s"
  "sv_next_session (fold (erase_terminal em) ts s) = sv_next_session s"
  "sv_next_client (fold (erase_terminal em) ts s) = sv_next_client s"
  "tms_next_id (sv_terminals (fold (erase_terminal em) ts s)) = tms_next_id (sv_terminals s)"
  by (induction ts arbitrary: s) (simp_all add: erase_terminal_fields)

lemma erase_all_ids:
  "distinct (terminal_ids (sv_terminals s)) \<Longrightarrow>
     distinct (terminal_ids (sv_terminals (fold (erase_terminal em) ts s))) \<and>
     set (terminal_ids (sv_terminals (fold (erase_terminal em) ts s))) = set (terminal_ids (sv_terminals s)) - set ts"
  by (induction ts arbitrary: s) (auto simp: erase_terminal_fields distinct_remove1)

lemma end_session_sound:
  assumes w: "sound s" and "se \<in> set (sv_sessions s)"
  shows "sound (end_session em se s)"
proof -
  let ?s = "fold (erase_terminal em) (se_terminals se) s"
  have d: "distinct (map se_id (sv_sessions s))" "distinct (all_homes (sv_sessions s))" "distinct (terminal_ids (sv_terminals s))"
    and all: "set (all_homes (sv_sessions s)) = set (terminal_ids (sv_terminals s))"
    using w by (simp_all add: sound_but_def)
  note ids = erase_all_ids [OF d(3), of em "se_terminals se"]
  have "homes_but {se_id se} ?s = all_homes (filter (\<lambda>x. se_id x \<noteq> se_id se) (sv_sessions s))"
    by (simp add: homes_but_def erase_all_fields)
  then have rest: "set (homes_but {se_id se} ?s) = set (terminal_ids (sv_terminals ?s))"
    using homes_split [OF d(1) assms(2)] homes_disjoint [OF d(1,2) assms(2)] ids all by auto
  have "below n (terminal_ids (sv_terminals ?s))" if "below n (terminal_ids (sv_terminals s))" for n
    using that ids by (auto simp: below_def)
  then have "sound_but {se_id se} ?s"
    using w rest ids unfolding sound_but_def homes_but_none erase_all_fields by simp
  then show ?thesis unfolding end_session_def by (rule forget_session_sound)
qed

lemma walk_invariant:
  assumes "\<And>p s. I s \<Longrightarrow> I (snd (turn p s))" and "I s"
  shows "I (snd (walk turn ps s))"
proof -
  have "I (snd (fold (\<lambda>p (kept, s). case turn p s of (None, s) \<Rightarrow> (kept, s) | (Some p, s) \<Rightarrow> (kept @ [p], s)) ps (kept, s)))"
    if "I s" for kept s
    using that
  proof (induction ps arbitrary: kept s)
    case (Cons p ps)
    obtain q s' where st: "turn p s = (q, s')" by fastforce
    with assms(1) [OF Cons.prems, of p] have "I s'" by simp
    from Cons.IH [OF this] st show ?case by (cases q) simp_all
  qed simp
  with assms(2) show ?thesis by (simp add: walk_def)
qed

lemma advance_kill_sound: "sound s \<Longrightarrow> sound (snd (advance_kill em now p s))"
proof -
  assume w: "sound s"
  have k: "sound (fold (\<lambda>term. on_term term (request_kill em)) ts s)" for ts
    by (rule sound_mild [OF _ w]) (intro mild_fold mild_on_term mild_refl same_id)
  have b: "sound (broadcast_session_list em None s)"
    by (rule sound_mild [OF _ w]) (intro mild_broadcast mild_refl)
  show ?thesis
    using end_session_sound [OF w] session_for_in [of "pk_session p" s] w k b
    by (simp add: advance_kill_def Let_def split: option.split)
qed

lemma advance_kills_sound: "sound s \<Longrightarrow> sound (advance_kills em now s)"
proof -
  assume w: "sound s"
  have "sound (snd (walk (advance_kill em now) (sv_kills s) s))"
    by (rule walk_invariant [where I = sound, OF advance_kill_sound w])
  then show ?thesis unfolding advance_kills_def case_prod_beta
    by (rule sound_mild [rotated]) (intro mild_fields mild_refl)
qed

lemma advance_close_sound: "sound s \<Longrightarrow> sound (snd (advance_close em now p s))"
proof -
  assume w: "sound s"
  have "sound (on_term (pc_terminal p) (request_kill em) s)"
    by (rule sound_mild [OF _ w]) (intro mild_on_term mild_refl same_id)
  with w remove_terminal_sound [OF w] show ?thesis
    by (simp add: advance_close_def split: option.split)
qed

lemma advance_closes_sound: "sound s \<Longrightarrow> sound (advance_closes em now s)"
proof -
  assume w: "sound s"
  have "sound (snd (walk (advance_close em now) (sv_closes s) s))"
    by (rule walk_invariant [where I = sound, OF advance_close_sound w])
  then show ?thesis unfolding advance_closes_def case_prod_beta
    by (rule sound_mild [rotated]) (intro mild_fields mild_refl)
qed

section \<open>Exits and moves\<close>

lemma mset_remove_one:
  "distinct xs \<Longrightarrow> t \<in> set xs \<Longrightarrow> add_mset t (mset (filter (\<lambda>i. i \<noteq> t) xs)) = mset xs"
proof (induction xs)
  case (Cons x xs)
  show ?case
  proof (cases "x = t")
    case True
    with Cons.prems have "filter (\<lambda>i. i \<noteq> t) xs = xs" by (intro filter_True) auto
    with True show ?thesis by simp
  next
    case False
    with Cons show ?thesis by simp
  qed
qed simp

lemma notice_exit_sound: "sound s \<Longrightarrow> sound (notice_exit em t s)"
proof -
  assume w: "sound s"
  let ?s = "on_term t (\<lambda>t. t\<lparr>t_exit_announced := True\<rparr>) (on_term t (observe_exit em) s)"
  have o: "mild s (on_term t (observe_exit em) s)" by (intro mild_on_term mild_refl same_id)
  then have a: "mild s ?s" by (rule mild_on_term) simp
  have "mild s (case session_holding t ?s of None \<Rightarrow> ?s
      | Some home \<Rightarrow> for_each_attached (se_id home) (\<lambda>watcher. send em watcher m) ?s)" for m
    by (intro mild_option mild_for_each mild_calm a)
  note tell = sound_mild [OF this w]
  show ?thesis
    using w sound_mild [OF o w] remove_terminal_sound [OF sound_mild [OF a w]] tell
    unfolding notice_exit_def Let_def
    by (cases "terminal_at t s") (simp_all only: option.case if_True if_False split: if_split, blast+)
qed

lemma notice_exits_sound: "sound s \<Longrightarrow> sound (notice_exits em s)"
proof -
  have "sound s \<Longrightarrow> sound (fold (notice_exit em) ts s)" for ts
    by (induction ts arbitrary: s) (simp_all add: notice_exit_sound)
  then show "sound s \<Longrightarrow> ?thesis" by (simp add: notice_exits_def)
qed

lemma transfer_sound:
  assumes w: "sound s" and se: "se \<in> set (sv_sessions s)" and t: "t \<in> set (se_terminals se)"
    and target: "target \<in> se_id ` set (sv_sessions s)"
  shows "sound (transfer em t (se_id se) target s)"
proof -
  let ?c = "s\<lparr>sv_closes := filter (\<lambda>p. pc_terminal p \<noteq> t) (sv_closes s)\<rparr>"
  let ?o = "take_out (se_id se) t ?c"
  let ?add = "\<lambda>se. se\<lparr>se_terminals := se_terminals se @ [t]\<rparr>"
  let ?m = "on_session target ?add ?o"
  have same: "sv_sessions ?c = sv_sessions s" by simp
  have wc: "sound ?c" by (rule sound_mild [OF _ w]) (intro mild_fields mild_refl)
  have h: "all_homes (sv_sessions ?o) = filter (\<lambda>i. i \<noteq> t) (all_homes (sv_sessions s))"
    and i: "map se_id (sv_sessions ?o) = map se_id (sv_sessions s)"
    using take_out_sessions [OF wc] se t same by auto
  have "target \<in> se_id ` set (sv_sessions ?o)" using target arg_cong [OF i, of set] by simp
  from homes_append [OF this, of ?add t] have "mset (all_homes (sv_sessions ?m)) = add_mset t (mset (filter (\<lambda>i. i \<noteq> t) (all_homes (sv_sessions s))))"
    by (simp add: on_session_def h)
  moreover have d: "distinct (all_homes (sv_sessions s))" using w by (simp add: sound_but_def)
  moreover have "t \<in> set (all_homes (sv_sessions s))" using se t by auto
  ultimately have ms: "mset (all_homes (sv_sessions ?m)) = mset (all_homes (sv_sessions s))"
    using mset_remove_one [OF d] by simp
  have dm: "distinct (all_homes (sv_sessions ?m))" using ms d mset_eq_imp_distinct_iff by blast
  have sm: "set (all_homes (sv_sessions ?m)) = set (all_homes (sv_sessions s))" using ms by (rule mset_eq_setD)
  have ids: "map se_id (sv_sessions ?m) = map se_id (sv_sessions s)"
    unfolding i [symmetric] on_session_def by (simp add: map_update_first)
  have i2: "se_id ` set (sv_sessions ?m) = se_id ` set (sv_sessions s)" using arg_cong [OF ids, of set] by simp
  have rest: "sv_terminals ?m = sv_terminals s" "sv_clients ?m = sv_clients s" "sv_next_session ?m = sv_next_session s"
    "sv_next_client ?m = sv_next_client s"
    by (simp_all add: on_session_def take_out_def)
  have m: "sound ?m" using w unfolding sound_but_def homes_but_none ids i2 rest sm using dm by simp
  have "sound (broadcast_session_list em None
      (for_each_attached target (\<lambda>watcher. on_client watcher wants_snapshot)
        (for_each_attached (se_id se) (\<lambda>watcher. send em watcher left)
          (on_term t (set_layout no_layout) ?m))))" for left
    by (rule sound_mild [OF _ m]) (intro mild_broadcast mild_for_each mild_on_client mild_calm mild_on_term mild_refl tame_operations same_id)
  then show ?thesis unfolding transfer_def Let_def take_out_def [symmetric] by (rule empty_then_forget_sound)
qed

lemma move_terminal_sound:
  assumes w: "sound s" and room: "sv_next_session s \<noteq> - 1"
  shows "sound (server_move_terminal em client request s)"
proof (cases "session_holding (mt_term request) s")
  case None
  have "sound (send em client m s)" for m by (rule sound_mild [OF _ w]) (intro mild_calm mild_refl)
  with None show ?thesis by (simp add: server_move_terminal_def)
next
  case (Some se)
  note se = holding_in [OF Some]
  have said: "sound (send em client m s)" for m by (rule sound_mild [OF _ w]) (intro mild_calm mild_refl)
  obtain i s' where c: "create_session [] s = (i, s')" by fastforce
  note f = create_session_fields [of "[]" s, unfolded c fst_conv snd_conv]
  have "sound s'" using create_session_sound [OF w room, of "[]"] by (simp add: c)
  then have fresh: "sound (transfer em (mt_term request) (se_id se) i s')"
    using se f by (intro transfer_sound) auto
  have moved: "sound (transfer em (mt_term request) (se_id se) (se_id target) s)"
    if "session_for (mt_destination_session request) s = Some target" for target
    using session_for_in [OF that] se by (intro transfer_sound [OF w]) (auto intro: rev_image_eqI)
  show ?thesis
    using w said fresh moved by (simp add: server_move_terminal_def Some c split: option.split)
qed

section \<open>Requests\<close>

lemma attach_target_sound:
  assumes w: "sound s" and room: "sv_next_session s \<noteq> - 1" and a: "attach_target ident s = (found, s')"
  shows "sound s'" and "found = Some i \<Longrightarrow> i \<in> se_id ` set (sv_sessions s')"
proof -
  have "sound s' \<and> (\<forall>i. found = Some i \<longrightarrow> i \<in> se_id ` set (sv_sessions s'))"
  proof (cases "session_for ident s")
    case (Some se)
    with a session_for_in [OF Some] w show ?thesis by (auto simp: attach_target_def intro: rev_image_eqI)
  next
    case None
    show ?thesis
    proof (cases "ident = 0 \<and> sv_sessions s = []")
      case True
      with a None have "found = Some (fst (create_session [] s))" "s' = snd (create_session [] s)"
        by (auto simp: attach_target_def split: prod.splits)
      with create_session_sound [OF w room, of "[]"] create_session_fields [of "[]" s] show ?thesis by simp
    next
      case False
      with a None w show ?thesis by (auto simp: attach_target_def split: if_splits)
    qed
  qed
  then show "sound s'" and "found = Some i \<Longrightarrow> i \<in> se_id ` set (sv_sessions s')" by auto
qed

lemma set_update_first: "x \<in> set (update_first P f xs) \<Longrightarrow> x \<in> set xs \<or> (\<exists>y\<in>set xs. P y \<and> x = f y)"
  by (induction xs) (auto split: if_splits)

lemma become_reader_sound:
  assumes w: "sound s" and i: "i \<in> se_id ` set (sv_sessions s)"
  shows "sound (on_client client (become_reader request i) s)"
proof -
  have ident: "cl_id (become_reader request i c) = cl_id c" "cl_session (become_reader request i c) = i" for c
    by (simp_all add: become_reader_def Let_def)
  have ids: "map cl_id (sv_clients (on_client client (become_reader request i) s)) = map cl_id (sv_clients s)"
    by (simp add: on_client_def map_update_first ident)
  have "cl_session c \<in> se_id ` set (sv_sessions s)"
    if "c \<in> set (sv_clients (on_client client (become_reader request i) s))" "cl_attached c" for c
  proof -
    have old: "\<forall>c\<in>set (sv_clients s). cl_attached c \<longrightarrow> cl_session c \<in> se_id ` set (sv_sessions s)"
      using w by (simp add: sound_but_def)
    from that(1) consider "c \<in> set (sv_clients s)" | y where "c = become_reader request i y"
      unfolding on_client_def by (auto dest: set_update_first)
    then show ?thesis
    proof cases
      case 1
      with old that(2) show ?thesis by blast
    next
      case 2
      with i ident show ?thesis by simp
    qed
  qed
  then show ?thesis using w unfolding sound_but_def homes_but_none ids by (simp add: on_client_def)
qed

lemma mild_take_over [mild_intros]: "mild r s \<Longrightarrow> mild r (take_over em client i s)"
  unfolding take_over_def by (intro mild_intros)

lemma fit_desktop_fields [simp]:
  "se_id (fit_desktop policy e se) = se_id se" "se_terminals (fit_desktop policy e se) = se_terminals se"
  by (simp_all add: fit_desktop_def)

lemma attach_client_sound:
  assumes w: "sound s" and room: "sv_next_session s \<noteq> - 1"
  shows "sound (attach_client em client request s)"
proof -
  obtain found s' where a: "attach_target (attach_session request) s = (found, s')" by fastforce
  note t = attach_target_sound [OF w room a]
  show ?thesis
  proof (cases found)
    case None
    have "sound (send em client m s')" for m by (rule sound_mild [OF _ t(1)]) (intro mild_calm mild_refl)
    with a None show ?thesis by (simp add: attach_client_def)
  next
    case (Some i)
    let ?d = "on_session i (fit_desktop (set_desktop_size (sv_settings s')) (extent_of (attach_columns request) (attach_rows request))) s'"
    let ?t = "if attach_mode_of request = Take_Over then take_over em client i ?d else ?d"
    have m: "mild s' ?t" by (intro mild_if mild_take_over mild_on_session mild_refl fit_desktop_fields)
    have "i \<in> se_id ` set (sv_sessions ?t)"
      using t(2) [OF Some] arg_cong [OF mild_homes(1) [OF m], of set] by simp
    then have "sound (on_client client (become_reader request i) ?t)"
      by (rule become_reader_sound [OF sound_mild [OF m t(1)]])
    then have "sound ((send_snapshot em client (on_client client (become_reader request i) ?t))\<lparr>sv_list_dirty := True\<rparr>)"
      by (rule sound_mild [rotated]) (intro mild_fields mild_send_snapshot mild_refl)
    then show ?thesis unfolding attach_client_def a prod.case Some option.case Let_def .
  qed
qed

lemma mild_change_mode [mild_intros]: "mild r s \<Longrightarrow> mild r (change_mode em client mode other s)"
  unfolding change_mode_def by (intro mild_intros tame_operations)

lemma mild_evict [mild_intros]: "mild r s \<Longrightarrow> mild r (evict_others em client i s)"
  unfolding evict_others_def by (intro mild_intros)

lemma mild_set_reader_mode [mild_intros]: "mild r s \<Longrightarrow> mild r (handle_set_reader_mode em client wish s)"
  unfolding handle_set_reader_mode_def by (intro mild_intros tame_operations)

lemma new_session_sound:
  assumes w: "sound s" and room: "roomy s"
  shows "sound (handle_new_session em client request s)"
proof (cases "session_named (ns_name request) 0 s")
  case (Some taken)
  have "sound (send em client m s)" for m by (rule sound_mild [OF _ w]) (intro mild_calm mild_refl)
  with Some show ?thesis by (simp add: handle_new_session_def)
next
  case None
  obtain i s' where c: "create_session (ns_name request) s = (i, s')" by fastforce
  note f = create_session_fields [of "ns_name request" s, unfolded c fst_conv snd_conv]
  have w': "sound s'" using create_session_sound [OF w, of "ns_name request"] room by (simp add: c roomy_def)
  have "i \<in> se_id ` set (sv_sessions s')" using f(1,5) by simp
  then have found: "session_for i s' \<noteq> None" by (rule session_for_found)
  have "sound (snd (open_terminal em i spec s'))" for spec
  proof -
    obtain se where se: "session_for i s' = Some se" using found by auto
    show ?thesis by (rule open_terminal_found_sound [OF w' se]) (use room f in \<open>simp add: roomy_def\<close>)
  qed
  then have o: "sound (if ns_spawn_first request \<noteq> 0 then snd (open_terminal em i spec s') else s')" for spec
    using w' by simp
  have "sound (broadcast_session_list em who (if ns_spawn_first request \<noteq> 0 then snd (open_terminal em i spec s') else s'))"
    for who spec
    by (rule sound_mild [OF _ o [of spec]]) (intro mild_broadcast mild_refl)
  then show ?thesis unfolding handle_new_session_def None option.case c Let_def prod.case .
qed

lemma mild_new_terminal_tell:
  "mild r s \<Longrightarrow> mild r (for_each_attached i (\<lambda>watcher. send em watcher m) s)"
  by (intro mild_for_each mild_calm)

lemma new_terminal_sound:
  assumes w: "sound s" and room: "roomy s"
  shows "sound (handle_new_terminal em client request s)"
proof (cases "session_of (the_client client s) s")
  case None
  have "sound (send em client m s)" for m by (rule sound_mild [OF _ w]) (intro mild_calm mild_refl)
  with None show ?thesis by (simp add: handle_new_terminal_def)
next
  case (Some se)
  let ?s = "on_client client (\<lambda>c. c\<lparr>cl_host_sixel := nt_host_sixel request \<noteq> 0\<rparr>) s"
  have m: "mild s ?s" by (intro mild_on_client mild_refl tame_operations)
  have w': "sound ?s" by (rule sound_mild [OF m w])
  have "session_for (se_id se) ?s \<noteq> None"
  proof -
    have "session_for (cl_session (the_client client s)) s = Some se"
      using Some by (simp add: session_of_def split: if_splits)
    from session_for_in [OF this] have "se_id se \<in> se_id ` set (sv_sessions ?s)"
      unfolding on_client_def by (auto intro: rev_image_eqI)
    then show ?thesis by (rule session_for_found)
  qed
  then obtain se' where se': "session_for (se_id se) ?s = Some se'" by blast
  have room': "tms_next_id (sv_terminals ?s) \<noteq> - 1" using room by (simp add: roomy_def on_client_def)
  have o: "sound (snd (open_terminal em (se_id se) spec ?s))" for spec
    by (rule open_terminal_found_sound [OF w' se' room'])
  have t: "sound (for_each_attached (se_id se) (\<lambda>watcher. send em watcher (opened p)) (snd p))"
    if "p = open_terminal em (se_id se) spec ?s" for p spec and opened :: "u64 \<times> 'a server \<Rightarrow> message"
    unfolding that by (rule sound_mild [OF _ o [of spec]]) (intro mild_new_terminal_tell mild_refl)
  have e: "sound (send em client m s)" for m by (rule sound_mild [OF _ w]) (intro mild_calm mild_refl)
  show ?thesis
    unfolding handle_new_terminal_def Some option.case Let_def case_prod_beta
    by (cases "int (length (se_terminals se)) \<ge> set_max_terminals (sv_settings s)")
      (simp only: if_True e, simp only: if_False, rule t, rule refl)
qed

lemma mild_new_terminals: "terminal_ids tms = terminal_ids (sv_terminals s) \<Longrightarrow>
    tms_next_id tms = tms_next_id (sv_terminals s) \<Longrightarrow> mild s (s\<lparr>sv_terminals := tms\<rparr>)"
  by (simp add: mild_def list_all2_refl)

lemma mild_respawn [mild_intros]:
  assumes "mild r s"
  shows "mild r (handle_respawn em client term s)"
proof -
  obtain ok tms where t: "terminals_respawn em term (sv_terminals s) = (ok, tms)" by fastforce
  let ?s = "s\<lparr>sv_terminals := tms, sv_diffs := engine_forget term (sv_diffs s), sv_baselines := (sv_baselines s)(term := None)\<rparr>"
  have "mild s (s\<lparr>sv_terminals := tms\<rparr>)"
    using terminals_respawn_ids [of em "term" "sv_terminals s"] t by (intro mild_new_terminals) simp_all
  then have "mild s ?s" by (intro mild_fields)
  then have m: "mild r ?s" using assms mild_trans by blast
  show ?thesis
    unfolding handle_respawn_def t prod.case Let_def
    by (cases ok; simp only: bool.case; intro mild_if mild_option mild_for_each mild_calm m assms)
qed

lemma mild_print_fetch [mild_intros]: "mild r s \<Longrightarrow> mild r (handle_print_fetch em client request s)"
  unfolding handle_print_fetch_def by (intro mild_intros)

lemma mild_print_discard [mild_intros]: "mild r s \<Longrightarrow> mild r (handle_print_discard em client request s)"
  unfolding handle_print_discard_def
  by (intro mild_intros) (auto simp: discard_print_jobs_def split: prod.split bool.split)

lemma mild_printer_policy [mild_intros]: "mild r s \<Longrightarrow> mild r (handle_printer_policy em client request s)"
  unfolding handle_printer_policy_def Let_def
  by (cases "spp_scope request"; simp only: printer_scope.case; intro mild_intros) simp_all

lemma mild_kill_session [mild_intros]: "mild r s \<Longrightarrow> mild r (handle_kill_session em now client request s)"
  unfolding handle_kill_session_def Let_def by (intro mild_intros tame_operations)

lemma mild_rename_session [mild_intros]: "mild r s \<Longrightarrow> mild r (handle_rename_session em client request s)"
  unfolding handle_rename_session_def by (intro mild_intros) simp_all

lemma mild_rename_terminal [mild_intros]: "mild r s \<Longrightarrow> mild r (handle_rename_terminal em client request s)"
  unfolding handle_rename_terminal_def by (intro mild_intros same_id)

lemma mild_resize_desktop [mild_intros]: "mild r s \<Longrightarrow> mild r (resize_desktop em i held wanted s)"
  unfolding resize_desktop_def by (intro mild_intros) simp_all

lemma mild_client_resize [mild_intros]: "mild r s \<Longrightarrow> mild r (handle_client_resize em client resize s)"
  unfolding handle_client_resize_def Let_def by (intro mild_intros tame_operations)

lemma mild_desktop_size [mild_intros]: "mild r s \<Longrightarrow> mild r (handle_desktop_size em client fit s)"
  unfolding handle_desktop_size_def Let_def by (intro mild_intros)

lemma mild_move_resize [mild_intros]: "mild r s \<Longrightarrow> mild r (handle_move_resize em client resize s)"
  unfolding handle_move_resize_def Let_def by (intro mild_intros same_id)

lemma mild_layout [mild_intros]: "mild r s \<Longrightarrow> mild r (handle_layout em client entries s)"
  unfolding handle_layout_def by (intro mild_intros same_id)

lemma mild_input [mild_intros]: "mild r s \<Longrightarrow> mild r (handle_input em client input s)"
  unfolding handle_input_def by (intro mild_intros same_id)

lemma mild_greeting [mild_intros]: "mild r s \<Longrightarrow> mild r (handle_greeting em now client m s)"
  unfolding handle_greeting_def Let_def by (intro mild_intros tame_operations)

lemma mild_refuse_watcher [mild_intros]: "mild r s \<Longrightarrow> mild r (refuse_watcher em client m s)"
  unfolding refuse_watcher_def by (intro mild_intros)

lemma handle_request_sound:
  assumes w: "sound s" and room: "roomy s"
  shows "sound (handle_request em now client m s)"
proof -
  have r: "sv_next_session s \<noteq> - 1" using room by (simp add: roomy_def)
  have p: "sound (f s)" if "\<And>r s. mild r s \<Longrightarrow> mild r (f s)" for f by (rule sound_by_mild [OF that w])
  show ?thesis
    unfolding handle_request_def
    by (cases m; simp only: message.case;
        (rule new_session_sound [OF w room] new_terminal_sound [OF w room] attach_client_sound [OF w r]
           move_terminal_sound [OF w r] | rule p, intro mild_intros tame_operations, assumption?))
qed

lemma handle_sound: "sound s \<Longrightarrow> roomy s \<Longrightarrow> sound (handle em now client m s)"
proof -
  assume w: "sound s" and room: "roomy s"
  have k: "sound s'" if "mild s s'" for s' by (rule sound_mild [OF that w])
  show ?thesis
    unfolding handle_def Let_def
    by (simp only: split: if_split)
      (blast intro: k mild_refl mild_greeting mild_refuse_watcher mild_calm(2) mild_fields(2) handle_request_sound [OF w room])
qed

section \<open>Everything that can happen\<close>

lemma flush_tick_sound:
  assumes w: "sound s"
  shows "sound (flush_tick em now s)"
proof -
  let ?a = "observe_exits em (each_client (expire_mismatch em now)
      (s\<lparr>sv_next_tick := now + 1000000000 div max 1 (set_max_fps (sv_settings s))\<rparr>))"
  have a: "sound ?a"
    by (rule sound_mild [OF _ w]) (intro mild_observe mild_each_client mild_expire mild_fields mild_refl)
  let ?b = "if sv_kills ?a = [] then ?a else advance_kills em now ?a"
  have b: "sound ?b" using a by (simp add: advance_kills_sound)
  let ?c = "if sv_closes ?b = [] then ?b else advance_closes em now ?b"
  have c: "sound ?c" using advance_closes_sound [OF b] b by (simp only: split: if_split) blast
  let ?d = "if sv_list_dirty ?c then flush_reader_counts em ?c else ?c"
  have d: "sound ?d" by (rule sound_mild [OF _ c]) (intro mild_if mild_flush_reader_counts mild_refl)
  let ?e = "notice_exits em ?d"
  have e: "sound ?e" by (rule notice_exits_sound [OF d])
  let ?f = "announce_layout em 0 (announce_terminal_news em now (each_client (pay_client em) (each_client (heal_client em) ?e)))"
  have f: "mild ?e ?f"
    by (intro mild_announce_layout mild_announce_terminal_news mild_each_client mild_pay mild_heal mild_refl)
  obtain deltas images s' where g: "flush_diffs em ?f = ((deltas, images), s')" by (metis prod.exhaust_sel)
  have "mild ?e s'" using mild_flush_diffs [OF f, of em] g by simp
  then have "mild ?e (let s = fold ask_again (terminal_ids (sv_terminals s')) s'
      in if deltas = [] \<and> images = [] then s else each_client (deliver em deltas images) s)"
    unfolding Let_def by (intro mild_if mild_each_client mild_deliver mild_fold mild_ask_again)
  from sound_mild [OF this e] show ?thesis
    unfolding flush_tick_def Let_def g prod.case .
qed

lemma accept_sound:
  assumes w: "sound s" and "sv_next_client s \<noteq> - 1"
  shows "sound (accept_pending now [Accepted stream] s)"
proof -
  have "below (sv_next_client s + 1) (map cl_id (sv_clients s) @ [sv_next_client s])"
    using assms by (intro below_snoc) (simp_all add: sound_but_def)
  moreover have "sv_next_client s \<notin> set (map cl_id (sv_clients s))"
    using w by (intro below_fresh) (simp add: sound_but_def)
  ultimately show ?thesis using w by (simp add: sound_but_def client_new_def)
qed

lemma bury_sound: "sound s \<Longrightarrow> sound (bury_clients s)"
  by (auto simp: bury_clients_def Let_def sound_but_def below_def distinct_map_filter)

lemma drain_children_sound:
  assumes w: "sound s"
  shows "sound (drain_children em s)"
proof -
  let ?s = "s\<lparr>sv_terminals := snd (terminals_drain em (64 * 1024) (sv_terminals s))\<rparr>"
  have "mild s ?s" by (rule mild_new_terminals) (rule terminals_drain_ids)+
  then have "mild s (fold (\<lambda>t. on_term t (flush_replies_to_child em)) (terminal_ids (sv_terminals ?s)) ?s)"
    by (intro mild_fold mild_on_term same_id)
  from sound_mild [OF this w] show ?thesis by (simp add: drain_children_def)
qed

lemma react_sound:
  assumes w: "sound s" and room: "roomy s"
  shows "sound (react em now what s)"
proof (cases what)
  case (Heard client m)
  with handle_sound [OF w room] show ?thesis by simp
next
  case (Came stream)
  with accept_sound [OF w] room show ?thesis by (simp add: roomy_def)
next
  case (Hung_Up client)
  have "sound (drop_client em client s)" by (rule sound_mild [OF _ w]) (intro mild_calm mild_refl)
  with Hung_Up show ?thesis by simp
next
  case Sampled
  have "sound (stats_tick em now s)" by (rule sound_mild [OF _ w]) (intro mild_stats_tick mild_refl)
  with Sampled show ?thesis by simp
next
  case (Queue_Drained client)
  have "sound (on_client client flush_stream s)" by (rule sound_mild [OF _ w]) (intro mild_on_client mild_refl tame_operations)
  with Queue_Drained show ?thesis by simp
qed (simp_all add: flush_tick_sound bury_sound drain_children_sound w)

lemma start_sound: "sound (server_new st directory now)"
  by (simp add: sound_but_def server_new_def terminals_new_def terminal_ids_def below_def)

lemma server_reachable_sound: "server_reachable em s \<Longrightarrow> sound s"
  by (induction rule: server_reachable.induct) (simp_all add: start_sound react_sound)

end
