(* ===== verification/Server_Facts.thy ===== *)
theory Server_Facts
  imports Server_Sound_Handlers Sync
begin

text \<open>
  Facts about single operations of a server that its properties rest on: what a send to a client that
  holds no paste can touch, names of sessions, the printer policy, how long closing takes, what a
  snapshot costs, and how often a bell is counted.
\<close>

section \<open>A client that holds no paste\<close>

definition holds_no_paste :: "u64 \<Rightarrow> 'e server \<Rightarrow> bool" where
  "holds_no_paste client s \<longleftrightarrow> (\<forall>(term, slot)\<in>set (sv_paste_slots s). slot_owner slot \<noteq> client)"

text \<open>The pastes of a terminal, without what this client waits to paste.\<close>

definition pastes_but :: "u64 \<Rightarrow> 'e server \<Rightarrow> (u64 \<times> u64 \<times> (u64 \<times> paste_chunk) list) list" where
  "pastes_but client s =
     map (\<lambda>(term, slot). (term, slot_owner slot, filter (\<lambda>p. fst p \<noteq> client) (slot_waiting slot))) (sv_paste_slots s)"

text \<open>Nothing but this client and what it waits to paste.\<close>

definition only_this_client :: "u64 \<Rightarrow> 'e server \<Rightarrow> 'e server \<Rightarrow> bool" where
  "only_this_client client s s' \<longleftrightarrow>
     sv_terminals s' = sv_terminals s \<and> sv_sessions s' = sv_sessions s \<and> sv_settings s' = sv_settings s \<and>
     sv_kills s' = sv_kills s \<and> sv_closes s' = sv_closes s \<and> sv_running s' = sv_running s \<and> sv_diffs s' = sv_diffs s \<and>
     pastes_but client s' = pastes_but client s \<and>
     map cl_id (sv_clients s') = map cl_id (sv_clients s) \<and>
     (\<forall>other. other \<noteq> client \<longrightarrow> find_client other s' = find_client other s)"

lemma only_this_refl [simp]: "only_this_client client s s"
  by (simp add: only_this_client_def)

lemma only_this_trans: "only_this_client client a b \<Longrightarrow> only_this_client client b c \<Longrightarrow> only_this_client client a c"
  by (simp add: only_this_client_def)

lemma only_this_on_client: "(\<And>c. cl_id (f c) = cl_id c) \<Longrightarrow> only_this_client client s (on_client client f s)"
  by (auto simp: only_this_client_def on_client_def find_client_def map_update_first find_update_first_other pastes_but_def)

lemma only_this_dirty: "only_this_client client s (s\<lparr>sv_list_dirty := b\<rparr>)"
  by (simp add: only_this_client_def find_client_def pastes_but_def)

lemma only_this_withdraw:
  "holds_no_paste client s \<Longrightarrow>
     only_this_client client s (s\<lparr>sv_paste_slots := map (\<lambda>(term, slot). (term, withdraw client slot)) (sv_paste_slots s)\<rparr>)"
  by (auto simp: only_this_client_def find_client_def pastes_but_def holds_no_paste_def withdraw_def)

lemma only_this_holds: "only_this_client client s s' \<Longrightarrow> holds_no_paste client s' = holds_no_paste client s"
proof -
  have "holds_no_paste client s \<longleftrightarrow> (\<forall>(_, owner, _)\<in>set (pastes_but client s). owner \<noteq> client)" for s :: "'a server"
    by (auto simp: holds_no_paste_def pastes_but_def)
  then show "only_this_client client s s' \<Longrightarrow> holds_no_paste client s' = holds_no_paste client s"
    by (simp add: only_this_client_def)
qed

lemma holds_no_paste_on_client [simp]: "holds_no_paste client (on_client i f s) = holds_no_paste client s"
  by (simp add: holds_no_paste_def on_client_def)

lemma release_nothing:
  "holds_no_paste client s \<Longrightarrow>
     release_by d client s = s\<lparr>sv_paste_slots := map (\<lambda>(term, slot). (term, withdraw client slot)) (sv_paste_slots s)\<rparr>"
proof -
  assume "holds_no_paste client s"
  then have "filter (\<lambda>(_, slot). slot_owner slot = client) (sv_paste_slots s) = []"
    by (auto simp: holds_no_paste_def filter_empty_conv)
  then show ?thesis by (simp add: release_by_def)
qed

lemma same_client_id [simp]:
  "cl_id (forget_dead m c) = cl_id c" "cl_id (wants_snapshot c) = cl_id c" "cl_id (put_frame m frame c) = cl_id c"
  "cl_id (hang_up c) = cl_id c" "cl_id (leave c) = cl_id c"
  by (simp_all add: forget_dead_def wants_snapshot_def put_frame_def hang_up_def leave_def split: message.split prod.split)

lemma drop_only_this:
  assumes "holds_no_paste client s"
  shows "only_this_client client s (drop_by d client s)"
proof -
  let ?s = "s\<lparr>sv_paste_slots := map (\<lambda>(term, slot). (term, withdraw client slot)) (sv_paste_slots s)\<rparr>"
  have "only_this_client client ?s (on_client client hang_up ?s)" by (rule only_this_on_client) simp
  note hung = only_this_trans [OF only_this_withdraw [OF assms] this]
  show ?thesis
    unfolding drop_by_def Let_def release_nothing [OF assms]
    using hung only_this_trans [OF hung only_this_dirty] by (simp split: if_split)
qed

lemma send_by_only_this:
  assumes "holds_no_paste client s"
    and large: "\<And>s. holds_no_paste client s \<Longrightarrow> only_this_client client s (large s)"
  shows "only_this_client client s (send_by large d client m s)"
proof -
  obtain frame big where e: "encode m = (frame, big)" by fastforce
  let ?s = "on_client client (forget_dead m) s"
  have s: "only_this_client client s ?s" by (rule only_this_on_client) simp
  have h: "holds_no_paste client ?s" using assms(1) by simp
  have p: "only_this_client client ?s (on_client client (put_frame m frame) ?s)" by (rule only_this_on_client) simp
  show ?thesis
    unfolding send_by_def Let_def e prod.case
    using only_this_trans [OF s p] only_this_trans [OF s drop_only_this [OF h]] only_this_trans [OF s large [OF h]]
    by (cases big) simp_all
qed

lemma send_only_this:
  assumes "holds_no_paste client s"
  shows "only_this_client client s (send em client m s)"
proof -
  have w: "only_this_client client s (on_client client wants_snapshot s)" for s :: "'a server"
    by (rule only_this_on_client) simp
  have d: "only_this_client client s (detach_by (send_by (on_client client wants_snapshot) k client) client r y s)"
    if "holds_no_paste client s" for s :: "'a server" and k r y
  proof -
    have l: "only_this_client client s (on_client client leave s)" by (rule only_this_on_client) simp
    have "holds_no_paste client (on_client client leave s)" using that by simp
    from only_this_trans [OF l send_by_only_this [OF this w]] show ?thesis
      unfolding detach_by_def Let_def by (simp add: only_this_trans [OF _ only_this_dirty])
  qed
  show ?thesis
    unfolding send_def send_with_def by (rule send_by_only_this [OF assms]) (use w d in simp)
qed

lemma only_this_present: "only_this_client client s s' \<Longrightarrow> find_client client s \<noteq> None \<Longrightarrow> find_client client s' \<noteq> None"
proof -
  have none: "find_client client s = None \<longleftrightarrow> client \<notin> set (map cl_id (sv_clients s))" for s :: "'a server"
    by (auto simp: find_client_def find_None_iff)
  show "only_this_client client s s' \<Longrightarrow> find_client client s \<noteq> None \<Longrightarrow> find_client client s' \<noteq> None"
    unfolding none by (simp add: only_this_client_def del: set_map)
qed

lemma drop_hangs_up:
  assumes "holds_no_paste client s" and "find_client client s \<noteq> None"
  shows "cl_closing (the_client client (drop_client em client s))"
    and "\<not> sk_open (cl_stream (the_client client (drop_client em client s)))"
proof -
  have "find (\<lambda>c. cl_id c = client) (update_first (\<lambda>c. cl_id c = client) hang_up (sv_clients s)) =
      map_option hang_up (find (\<lambda>c. cl_id c = client) (sv_clients s))"
    by (rule find_update_first) simp
  then show "cl_closing (the_client client (drop_client em client s))"
    "\<not> sk_open (cl_stream (the_client client (drop_client em client s)))"
    using assms(2)
    by (auto simp: drop_client_def drop_by_def Let_def release_nothing [OF assms(1)] the_client_def find_client_def
        on_client_def hang_up_def stream_close_def)
qed

section \<open>Names of sessions\<close>

lemma digit_of: "n < 10 \<Longrightarrow> unat (48 + word_of_nat n :: u8) = 48 + n"
  using unat_of_nat_len [of "48 + n", where 'a = 8] by simp

lemma digit_is_digit: "n < 10 \<Longrightarrow> is_digit (48 + word_of_nat n)"
  by (simp add: is_digit_def word_le_nat_alt digit_of)

lemma decimal_digits: "list_all is_digit (decimal n) \<and> decimal n \<noteq> []"
proof (induction n rule: decimal.induct)
  case (1 n)
  have "n mod 10 < 10" by simp
  then show ?case
    by (subst decimal.simps, subst decimal.simps) (use 1 digit_is_digit in auto)
qed

lemma read_decimal: "read_digits (decimal n) = n"
proof (induction n rule: decimal.induct)
  case (1 n)
  have d: "unat (48 + word_of_nat (n mod 10) :: u8) = 48 + n mod 10" by (rule digit_of) simp
  show ?case
  proof (cases "n < 10")
    case True
    then show ?thesis by (subst decimal.simps) (simp add: read_digits_def digit_of)
  next
    case False
    then have "read_digits (decimal n) = 10 * read_digits (decimal (n div 10)) + (unat (48 + word_of_nat (n mod 10) :: u8) - 48)"
      by (subst decimal.simps) (simp add: read_digits_def)
    with False 1 d show ?thesis by simp
  qed
qed

lemma session_prefix: "length (str ''session-'') = 8"
  by (simp add: str_def)

lemma session_number_decimal: "session_number (str ''session-'' @ decimal n) = Some (min n long_max)"
  using decimal_digits [of n]
  by (simp add: session_number_def session_prefix strtol_def read_decimal)

lemma session_number_sign: "session_number (str ''session-'' @ str ''-'' @ ds) = None"
  by (simp add: session_number_def session_prefix is_digit_def str_def)

lemma highest_fold:
  "n \<le> fold (\<lambda>se n. case session_number (se_name se) of None \<Rightarrow> n | Some m \<Rightarrow> max n m) ss n"
  "se \<in> set ss \<Longrightarrow> session_number (se_name se) = Some m \<Longrightarrow>
     m \<le> fold (\<lambda>se n. case session_number (se_name se) of None \<Rightarrow> n | Some m \<Rightarrow> max n m) ss n"
proof -
  have le: "n \<le> fold (\<lambda>se n. case session_number (se_name se) of None \<Rightarrow> n | Some m \<Rightarrow> max n m) ss n" for n ss
  proof (induction ss arbitrary: n)
    case (Cons x ss)
    have "n \<le> (case session_number (se_name x) of None \<Rightarrow> n | Some m \<Rightarrow> max n m)" by (simp split: option.split)
    also note Cons.IH
    finally show ?case by simp
  qed simp
  show "n \<le> fold (\<lambda>se n. case session_number (se_name se) of None \<Rightarrow> n | Some m \<Rightarrow> max n m) ss n" by (rule le)
  show "se \<in> set ss \<Longrightarrow> session_number (se_name se) = Some m \<Longrightarrow>
     m \<le> fold (\<lambda>se n. case session_number (se_name se) of None \<Rightarrow> n | Some m \<Rightarrow> max n m) ss n"
  proof (induction ss arbitrary: n)
    case (Cons x ss)
    show ?case
    proof (cases "x = se")
      case True
      have "m \<le> max n m" by simp
      also note le [of "max n m"]
      finally show ?thesis using True Cons.prems by simp
    qed (use Cons in simp)
  qed simp
qed

lemma fresh_name:
  assumes "highest_number (sv_sessions s) < long_max"
  shows "next_session_name s \<notin> se_name ` set (sv_sessions s)"
proof
  let ?n = "highest_number (sv_sessions s)"
  assume "next_session_name s \<in> se_name ` set (sv_sessions s)"
  then obtain se where se: "se \<in> set (sv_sessions s)" and name: "se_name se = str ''session-'' @ decimal (?n + 1)"
    using assms by (auto simp: next_session_name_def Let_def)
  have "session_number (se_name se) = Some (?n + 1)"
    unfolding name session_number_decimal using assms by simp
  from highest_fold(2) [OF se this, of 0] show False by (simp add: highest_number_def)
qed

lemma overflowing_name:
  assumes "highest_number (sv_sessions s) = long_max"
  shows "next_session_name s = str ''session-'' @ str ''-'' @ decimal (2 ^ 63)"
    and "next_session_name (snd (create_session [] s)) = next_session_name s"
proof -
  show n: "next_session_name s = str ''session-'' @ str ''-'' @ decimal (2 ^ 63)"
    using assms by (simp add: next_session_name_def)
  have "highest_number (sv_sessions (snd (create_session [] s))) = highest_number (sv_sessions s)"
    by (simp add: highest_number_def create_session_fields n session_number_sign [simplified])
  then show "next_session_name (snd (create_session [] s)) = next_session_name s"
    by (simp add: next_session_name_def)
qed

section \<open>How long closing takes\<close>

lemma session_ids_mild: "mild r s \<Longrightarrow> terminal_ids (sv_terminals s) = terminal_ids (sv_terminals r)"
  by (simp add: mild_def)

lemma forget_session_ids: "terminal_ids (sv_terminals (forget_session em i reason why s)) = terminal_ids (sv_terminals s)"
proof -
  let ?s = "fold (detach_reader em i reason why) (map cl_id (sv_clients s)) s"
  have m: "mild s ?s" by (intro mild_fold mild_refl mild_detach_reader)
  have e: "terminal_ids (sv_terminals (erase_session i ?s)) = terminal_ids (sv_terminals s)"
    using session_ids_mild [OF m] by (simp add: erase_session_def)
  have "forget_session em i reason why s =
      (let s = broadcast_session_list em None (erase_session i ?s)
       in if sv_sessions s = [] \<and> sv_session_existed s then s\<lparr>sv_running := False\<rparr> else s)"
    by (simp add: forget_session_def detach_reader_def [abs_def])
  moreover have "mild (erase_session i ?s) (let s = broadcast_session_list em None (erase_session i ?s)
       in if sv_sessions s = [] \<and> sv_session_existed s then s\<lparr>sv_running := False\<rparr> else s)"
    unfolding Let_def by (intro mild_if mild_fields mild_broadcast mild_refl)
  ultimately show ?thesis using session_ids_mild e by metis
qed

lemma remove_terminal_ids:
  "terminal_ids (sv_terminals (remove_terminal em t exited s)) = remove1 t (terminal_ids (sv_terminals s))"
proof -
  let ?s = "forget_paste_slot em t s"
  have "mild s ?s" by (intro mild_calm mild_refl)
  then have e: "terminal_ids (sv_terminals (erase_terminal em t ?s)) = remove1 t (terminal_ids (sv_terminals s))"
    by (simp add: erase_terminal_fields session_ids_mild)
  let ?e = "(erase_terminal em t ?s)\<lparr>sv_baselines := (sv_baselines (erase_terminal em t ?s))(t := None)\<rparr>"
  show ?thesis
  proof (cases "session_holding t ?s")
    case None
    with e show ?thesis by (simp add: remove_terminal_def Let_def)
  next
    case (Some se)
    have "terminal_ids (sv_terminals (broadcast_session_list em None
        (for_each_attached (se_id se) (\<lambda>watcher. send em watcher m) (take_out (se_id se) t ?e)))) =
        terminal_ids (sv_terminals (take_out (se_id se) t ?e))" for m
      by (rule session_ids_mild) (intro mild_broadcast mild_for_each mild_calm mild_refl)
    moreover have "terminal_ids (sv_terminals (take_out (se_id se) t ?e)) = remove1 t (terminal_ids (sv_terminals s))"
      using e by (simp add: take_out_def on_session_def)
    ultimately show ?thesis
      unfolding remove_terminal_def Let_def Some option.case take_out_def [symmetric]
      by (simp only: forget_session_ids split: if_split) simp
  qed
qed

lemma removed_is_gone: "sound s \<Longrightarrow> terminal_at t (remove_terminal em t exited s) = None"
  by (simp add: terminal_at_def find_terminal_iff remove_terminal_ids sound_but_def)

lemma close_first:
  assumes "sound s" and "pc_force p" and "\<not> pc_killed p" and "now \<ge> pc_deadline p"
    and "advance_close em now p s = (kept, s')"
  shows "kept = None \<and> terminal_at (pc_terminal p) s' = None \<or>
    kept = Some (p\<lparr>pc_killed := True, pc_kill_deadline := now + 2 * second\<rparr>)"
  using assms removed_is_gone [OF assms(1)]
  by (auto simp: advance_close_def split: option.splits if_splits)

lemma close_second:
  assumes "sound s" and "pc_force p" and "pc_killed p" and "now \<ge> pc_deadline p" and "now \<ge> pc_kill_deadline p"
    and "advance_close em now p s = (kept, s')"
  shows "kept = None \<and> terminal_at (pc_terminal p) s' = None"
  using assms removed_is_gone [OF assms(1)]
  by (auto simp: advance_close_def split: option.splits if_splits)

section \<open>What a snapshot costs\<close>

lemma share_history_cost:
  assumes "list_all (\<lambda>st. ts_scrollback st = []) states"
  shows "(\<Sum>st\<leftarrow>share_history em s remaining states. terminal_state_size st)
    \<le> (\<Sum>st\<leftarrow>states. terminal_state_size st) + remaining"
  using assms
proof (induction states arbitrary: remaining)
  case (Cons st states)
  show ?case
  proof (cases "terminal_at (ts_term st) s")
    case None
    with Cons.IH [of remaining] Cons.prems show ?thesis by simp
  next
    case (Some t)
    let ?share = "remaining div max 1 (Suc (length states))"
    obtain spent st' where f: "engine_fill_history (ts_term st) st (em_source em (t_session t)) ?share (sv_diffs s) = (spent, st')"
      by fastforce
    have cost: "spent \<le> ?share \<and> terminal_state_size st' \<le> terminal_state_size st + spent"
    proof (cases "de_differs (sv_diffs s) (ts_term st)")
      case None
      with f show ?thesis by (simp add: engine_fill_history_def)
    next
      case (Some df)
      with f have h: "fill_history st (em_source em (t_session t)) ?share = (spent, st')"
        by (simp add: engine_fill_history_def)
      from fill_history_newest [OF h] have s: "spent \<le> ?share" "spent = sum_list (map runs_size (ts_scrollback st'))"
        and st': "st' = st\<lparr>ts_scrollback := ts_scrollback st'\<rparr>" by auto
      have "terminal_state_size (st\<lparr>ts_scrollback := h\<rparr>) = terminal_state_size st + sum_list (map runs_size h)" for h
        using Cons.prems by (simp add: terminal_state_size_def lines_size_def)
      with s st' show ?thesis by (metis order_refl)
    qed
    have e: "share_history em s remaining (st # states) = st' # share_history em s (remaining - spent) states"
      by (simp only: share_history.simps Some option.case f prod.case)
    have "?share \<le> remaining" by simp
    with cost have fits: "spent \<le> remaining" by linarith
    have "list_all (\<lambda>st. ts_scrollback st = []) states" using Cons.prems by simp
    note rest = Cons.IH [OF this, of "remaining - spent"]
    from cost rest fits show ?thesis unfolding e by (simp only: list.map sum_list.Cons) linarith
  qed
qed simp

lemma snapshot_one_bare:
  "list_all (\<lambda>st. ts_scrollback st = []) (fst p) \<Longrightarrow> list_all (\<lambda>st. ts_scrollback st = []) (fst (snapshot_one em t p))"
  by (cases p)
    (auto simp: snapshot_one_def engine_snapshot_def differ_snapshot_def default_terminal_state_def state_with_def Let_def
      split: option.split prod.split)

lemma snapshot_states_bare: "list_all (\<lambda>st. ts_scrollback st = []) (fst (fold (snapshot_one em) ts ([], s)))"
proof -
  have "list_all (\<lambda>st. ts_scrollback st = []) (fst p) \<Longrightarrow> list_all (\<lambda>st. ts_scrollback st = []) (fst (fold (snapshot_one em) ts p))" for p
    by (induction ts arbitrary: p) (simp_all add: snapshot_one_bare)
  then show ?thesis by simp
qed

section \<open>A bell inside a synchronized update\<close>

lemma bell_again:
  assumes "nw_bell (em_news em (t_session t))" and "src_synchronized (em_source em (t_session t))"
  shows "t_session (caught_up em (mark_news em focused t)) = t_session t"
    and "t_bell_serial (caught_up em (mark_news em focused t)) = t_bell_serial t + 1"
proof -
  have session: "t_session (mark_news em focused t) = t_session t"
    by (simp add: mark_news_def Let_def count_bell_def count_activity_def clear_marks_def mark_bell_def mark_activity_def)
  show "t_session (caught_up em (mark_news em focused t)) = t_session t"
    using assms(2) by (simp add: caught_up_def session)
  have "t_bell_serial (mark_news em focused t) = t_bell_serial t + 1"
    using assms(1)
    by (simp add: mark_news_def Let_def count_bell_def count_activity_def clear_marks_def mark_bell_def mark_activity_def)
  then show "t_bell_serial (caught_up em (mark_news em focused t)) = t_bell_serial t + 1"
    using assms(2) by (simp add: caught_up_def session)
qed

lemma bell_every_tick:
  assumes "nw_bell (em_news em (t_session t))" and "src_synchronized (em_source em (t_session t))"
  shows "t_bell_serial (((\<lambda>t. caught_up em (mark_news em focused t)) ^^ n) t) = t_bell_serial t + of_nat n"
    and "t_session (((\<lambda>t. caught_up em (mark_news em focused t)) ^^ n) t) = t_session t"
proof (induction n)
  case (Suc n)
  let ?t = "((\<lambda>t. caught_up em (mark_news em focused t)) ^^ n) t"
  case 1
  from Suc assms show ?case using bell_again(2) [of em ?t focused] by simp
next
  case (Suc n)
  case 2
  from Suc assms show ?case using bell_again(1) [of em "((\<lambda>t. caught_up em (mark_news em focused t)) ^^ n) t" focused] by simp
qed simp_all

section \<open>Who says what of a printer\<close>

text \<open>Scopes, from the widest to the narrowest.\<close>

primrec narrowness :: "printer_scope \<Rightarrow> nat" where
  "narrowness Scope_Global = 0"
| "narrowness Scope_Session = 1"
| "narrowness Scope_Terminal = 2"

instantiation printer_scope :: linorder
begin

definition less_eq_printer_scope :: "printer_scope \<Rightarrow> printer_scope \<Rightarrow> bool" where
  "a \<le> b \<longleftrightarrow> narrowness a \<le> narrowness b"

definition less_printer_scope :: "printer_scope \<Rightarrow> printer_scope \<Rightarrow> bool" where
  "a < b \<longleftrightarrow> narrowness a < narrowness b"

instance
proof
  fix a b :: printer_scope
  show "a \<le> b \<Longrightarrow> b \<le> a \<Longrightarrow> a = b" by (cases a; cases b) (simp_all add: less_eq_printer_scope_def)
qed (auto simp: less_eq_printer_scope_def less_printer_scope_def)

end

text \<open>Everybody who has a say in a terminal's printer.\<close>

definition voices :: "u64 \<Rightarrow> 'e server \<Rightarrow> (printer_scope \<times> printer_override) list" where
  "voices ident s =
     [(Scope_Global, \<lparr>po_mode = Some (set_printer_mode (sv_settings s)),
         po_ask_cache = Some (clamp_u32 (set_ask_cache_bytes (sv_settings s))),
         po_spool_limit = Some (clamp_u32 (set_spool_limit_bytes (sv_settings s)))\<rparr>)] @
     (case session_holding ident s of None \<Rightarrow> [] | Some se \<Rightarrow> [(Scope_Session, se_printer se)]) @
     (case terminal_at ident s of None \<Rightarrow> [] | Some t \<Rightarrow> [(Scope_Terminal, t_printer t)])"

text \<open>Of those that say something of one thing, the narrowest, and what it says.\<close>

definition in_force :: "(printer_override \<Rightarrow> 'b option) \<Rightarrow> (printer_scope \<times> printer_override) list \<Rightarrow> printer_scope \<times> 'b option" where
  "in_force said vs =
     (let who = Max (set (map fst (filter (\<lambda>v. said (snd v) \<noteq> None) vs)))
      in (who, Option.bind (map_of vs who) said))"

lemma scope_order [simp]:
  "Scope_Global \<le> x" "x \<le> Scope_Terminal"
  "Scope_Session \<le> Scope_Global \<longleftrightarrow> False" "Scope_Terminal \<le> Scope_Global \<longleftrightarrow> False" "Scope_Terminal \<le> Scope_Session \<longleftrightarrow> False"
  by (cases x; simp add: less_eq_printer_scope_def)+

text \<open>The narrowest that says something, found by asking the terminal, then its session, then everybody.\<close>

lemma in_force_chain:
  assumes "said g = Some v"
  shows "in_force said ([(Scope_Global, g)] @ (case se of None \<Rightarrow> [] | Some x \<Rightarrow> [(Scope_Session, pr x)]) @
      (case t of None \<Rightarrow> [] | Some x \<Rightarrow> [(Scope_Terminal, pt x)])) =
    (case Option.bind t (\<lambda>x. said (pt x)) of
       Some u \<Rightarrow> (Scope_Terminal, Some u)
     | None \<Rightarrow> (case Option.bind se (\<lambda>x. said (pr x)) of
         Some u \<Rightarrow> (Scope_Session, Some u)
       | None \<Rightarrow> (Scope_Global, Some v)))"
  using assms by (cases se; cases t) (auto simp: in_force_def max_def split: option.split)

lemma apply_override_fields [simp]:
  "ep_mode (apply_override said who p) = (case po_mode said of None \<Rightarrow> ep_mode p | Some m \<Rightarrow> m)"
  "ep_mode_from (apply_override said who p) = (case po_mode said of None \<Rightarrow> ep_mode_from p | Some m \<Rightarrow> who)"
  "ep_ask_cache (apply_override said who p) = (case po_ask_cache said of None \<Rightarrow> ep_ask_cache p | Some m \<Rightarrow> m)"
  "ep_ask_cache_from (apply_override said who p) = (case po_ask_cache said of None \<Rightarrow> ep_ask_cache_from p | Some m \<Rightarrow> who)"
  "ep_spool_limit (apply_override said who p) = (case po_spool_limit said of None \<Rightarrow> ep_spool_limit p | Some m \<Rightarrow> m)"
  "ep_spool_limit_from (apply_override said who p) = (case po_spool_limit said of None \<Rightarrow> ep_spool_limit_from p | Some m \<Rightarrow> who)"
  by (simp_all add: apply_override_def split: option.split)

lemma policy_in_force:
  "in_force po_mode (voices ident s) =
     (ep_mode_from (effective_printer_policy ident s), Some (ep_mode (effective_printer_policy ident s)))"
  "in_force po_ask_cache (voices ident s) =
     (ep_ask_cache_from (effective_printer_policy ident s), Some (ep_ask_cache (effective_printer_policy ident s)))"
  "in_force po_spool_limit (voices ident s) =
     (ep_spool_limit_from (effective_printer_policy ident s), Some (ep_spool_limit (effective_printer_policy ident s)))"
proof -
  note chain = voices_def effective_printer_policy_def Let_def
  show "in_force po_mode (voices ident s) =
      (ep_mode_from (effective_printer_policy ident s), Some (ep_mode (effective_printer_policy ident s)))"
    unfolding chain by (subst in_force_chain, simp) (auto split: option.splits)
  show "in_force po_ask_cache (voices ident s) =
      (ep_ask_cache_from (effective_printer_policy ident s), Some (ep_ask_cache (effective_printer_policy ident s)))"
    unfolding chain by (subst in_force_chain, simp) (auto split: option.splits)
  show "in_force po_spool_limit (voices ident s) =
      (ep_spool_limit_from (effective_printer_policy ident s), Some (ep_spool_limit (effective_printer_policy ident s)))"
    unfolding chain by (subst in_force_chain, simp) (auto split: option.splits)
qed

section \<open>A send that has room\<close>

lemma the_client_on [simp]:
  "cl_stream (the_client client (on_client client (forget_dead m) s)) = cl_stream (the_client client s)"
proof -
  have f: "cl_id (forget_dead m c) = cl_id c" "cl_stream (forget_dead m c) = cl_stream c" for c
    by (simp_all add: forget_dead_def split: message.split)
  have "find (\<lambda>c. cl_id c = client) (update_first (\<lambda>c. cl_id c = client) (forget_dead m) (sv_clients s)) =
      map_option (forget_dead m) (find (\<lambda>c. cl_id c = client) (sv_clients s))"
    by (rule find_update_first) (simp add: f)
  then show ?thesis by (simp add: the_client_def find_client_def on_client_def f split: option.split)
qed

definition has_room :: "u64 \<Rightarrow> message \<Rightarrow> 'e server \<Rightarrow> bool" where
  "has_room client m s \<longleftrightarrow> queued (cl_stream (the_client client s)) + length (fst (encode m)) \<le> hard_limit_bytes"

lemma send_with_room:
  assumes "has_room client m s" and "\<not> is_attached m"
  shows "sv_paste_slots (send em client m s) = sv_paste_slots s" and "sv_terminals (send em client m s) = sv_terminals s"
    and "other \<noteq> client \<Longrightarrow> find_client other (send em client m s) = find_client other s"
proof -
  obtain frame big where e: "encode m = (frame, big)" by fastforce
  have n: "\<not> hard_limit_bytes < queued (cl_stream (the_client client s)) + length frame"
    using assms(1) by (simp add: has_room_def e)
  have two: "only_this_client client s (on_client client f (on_client client (forget_dead m) s)) \<and>
      sv_paste_slots (on_client client f (on_client client (forget_dead m) s)) = sv_paste_slots s"
    if "\<And>c. cl_id (f c) = cl_id c" for f
    using only_this_trans [OF only_this_on_client only_this_on_client, of "forget_dead m" f client s] that
    by (simp add: on_client_def)
  have "send em client m s =
      (if \<not> sk_open (cl_stream (the_client client s)) then s
       else on_client client (if big then wants_snapshot else put_frame m frame) (on_client client (forget_dead m) s))"
    using assms(2) n by (cases big) (simp_all add: send_def send_with_def send_by_def e Let_def)
  with two [of wants_snapshot] two [of "put_frame m frame"]
  have "only_this_client client s (send em client m s) \<and> sv_paste_slots (send em client m s) = sv_paste_slots s"
    by simp
  then show "sv_paste_slots (send em client m s) = sv_paste_slots s" "sv_terminals (send em client m s) = sv_terminals s"
    "other \<noteq> client \<Longrightarrow> find_client other (send em client m s) = find_client other s"
    by (auto simp: only_this_client_def)
qed

end
