(* ===== verification/Properties_Server.thy ===== *)
theory Properties_Server
  imports Samples Server_Facts
begin

text \<open>
  What a server promises its clients: what is invariant, what a reader may do, which policy is in
  force, how long closing takes, what a snapshot may cost, and in which order bytes leave.
\<close>

section \<open>A small server for the witnesses\<close>

text \<open>A terminal in a synchronized update, with a bell in it, behind an emulator that remembers what was typed.\<close>

definition bell_source :: source where
  "bell_source = \<lparr>src_damaged = True, src_damage = no_damage,
     src_status = \<lparr>st_cells = \<lparr>width = 2, height = 1\<rparr>, st_cursor_x = 0, st_cursor_y = 0, st_cursor_shape = 0,
       st_cursor_visible = True, st_cursor_blink = False, st_mouse_reporting = False, st_mouse_sgr = False,
       st_bracketed_paste = True, st_application_cursor_keys = False, st_focus_reporting = False,
       st_alternate_buffer = False, st_alternate_scroll = False, st_mouse_tracking = 0, st_keyboard_flags = 0,
       st_printer_controller = False, st_printer_pending = 0, st_clipboard_serial = 0, st_title = []\<rparr>,
     src_cells = [letter 65, letter 66], src_scrollback = [], src_diagnostics = [], src_rasters = [],
     src_synchronized = True\<rparr>"

definition sample_emulator :: "bytes emulator" where
  "sample_emulator = \<lparr>em_lib = sample_library,
     em_host = \<lparr>sh_platform = Posix, sh_environment = [], sh_account = [], sh_system = str ''/bin/sh'', sh_usable = None\<rparr>,
     em_launch = (\<lambda>_ _. []), em_state = (\<lambda>_. Life_Running), em_exit_code = (\<lambda>_. 0), em_source = (\<lambda>_. bell_source),
     em_news = (\<lambda>_. \<lparr>nw_lifecycle = False, nw_bell = True, nw_clipboard = False, nw_printer = False, nw_diagnostics = False\<rparr>),
     em_printer_sunk = (\<lambda>_. False), em_clipboard_text = (\<lambda>_. []), em_send_input = (\<lambda>bs e. e @ bs),
     em_take_pending_input = (\<lambda>e. ([], e)), em_drain = (\<lambda>_ e. (False, e)), em_resize = (\<lambda>_ _ e. e),
     em_request_termination = (\<lambda>e. e), em_request_kill = (\<lambda>e. e), em_close = (\<lambda>e. e), em_clear_damage = (\<lambda>e. e),
     em_set_printer_policy = (\<lambda>_ e. e), em_set_printer_spool_limit = (\<lambda>_ e. e), em_take_printer_jobs = (\<lambda>e. ([], e)),
     em_sample = (\<lambda>_. (\<lparr>pr_state = Res_Failed, pr_cpu_scope = Process_Scope, pr_live = 0, pr_unreadable = 0,
       pr_system_error = 0, pr_rss = None, pr_private_rss = None, pr_cpu_nanos = None\<rparr>, None))\<rparr>"

definition sample_reader :: "u64 \<Rightarrow> attach_mode \<Rightarrow> client" where
  "sample_reader ident mode = (client_new ident (stream_new [] []))
     \<lparr>cl_greeted := True, cl_attached := True, cl_session := 1, cl_mode := mode\<rparr>"

definition sample_session :: session where
  "sample_session = \<lparr>se_id = 1, se_name = str ''session-1'', se_terminals = [1], se_last_focused = 1,
     se_desktop = no_extent, se_printer = no_override\<rparr>"

text \<open>Client 1 joined and client 2 watches; client 2 still holds the pastes of the one terminal.\<close>

definition sample_server :: "(u64 \<times> paste_slot) list \<Rightarrow> bytes server" where
  "sample_server slots = (server_new default_settings [] 0)
     \<lparr>sv_clients := [sample_reader 1 Join, sample_reader 2 Watch], sv_next_client := 3, sv_paste_slots := slots,
      sv_sessions := [sample_session],
      sv_next_session := 2,
      sv_terminals := \<lparr>tms_settings = default_settings, tms_list = [terminal_new 1 [] default_spec], tms_next_id = 2,
        tms_cursor = 0, tms_ended = []\<rparr>\<rparr>"

lemma sample_server_simps [simp]:
  "the_client 1 (sample_server p) = sample_reader 1 Join" "the_client 2 (sample_server p) = sample_reader 2 Watch"
  "sv_paste_slots (sample_server p) = p" "sv_next_session (sample_server p) = 2" "sv_next_client (sample_server p) = 3"
  "tms_next_id (sv_terminals (sample_server p)) = 2" "tms_settings (sv_terminals (sample_server p)) = default_settings"
  "sv_settings (sample_server p) = default_settings" "sv_diffs (sample_server p) = engine_new"
  "terminal_at 1 (sample_server p) = Some (terminal_new 1 [] default_spec)"
  "session_for 1 (sample_server p) = Some sample_session"
  by (simp_all add: sample_session_def sample_server_def server_new_def the_client_def find_client_def sample_reader_def client_new_def
      terminal_at_def find_terminal_def terminal_new_def session_for_def)

lemma sample_reader_simps [simp]:
  "cl_greeted (sample_reader i m)" "\<not> cl_awaiting_kill (sample_reader i m)" "cl_mode (sample_reader i m) = m"
  "cl_stream (sample_reader i m) = stream_new [] []" "cl_id (sample_reader i m) = i"
  by (simp_all add: sample_reader_def client_new_def)

lemma sample_sound: "sound (sample_server p)"
  by (simp add: sound_but_def sample_server_def server_new_def terminal_ids_def homes_but_def below_def
      sample_session_def sample_reader_def client_new_def)

section \<open>What is always so\<close>

text \<open>C4. Whatever clients say, however connections come and go and whatever children do, no id is used twice,
  every terminal is in exactly one session and every terminal of a session exists, and a client is attached only
  to a session that exists.\<close>

theorem server_invariant:
  assumes "server_reachable em s"
  shows "distinct (map se_id (sv_sessions s)) \<and> distinct (terminal_ids (sv_terminals s)) \<and>
    distinct (map cl_id (sv_clients s)) \<and>
    distinct (concat (map se_terminals (sv_sessions s))) \<and>
    set (concat (map se_terminals (sv_sessions s))) = set (terminal_ids (sv_terminals s)) \<and>
    cl_session ` {c \<in> set (sv_clients s). cl_attached c} \<subseteq> se_id ` set (sv_sessions s)"
  using server_reachable_sound [OF assms] by (auto simp: sound_but_def homes_but_def)

definition young_server :: "bytes server" where
  "young_server = react sample_emulator 5 (Came (stream_new [] [])) (server_new default_settings [] 0)"

lemma server_invariant_witness:
  "distinct (map se_id (sv_sessions young_server)) \<and> distinct (terminal_ids (sv_terminals young_server)) \<and>
    distinct (map cl_id (sv_clients young_server)) \<and>
    distinct (concat (map se_terminals (sv_sessions young_server))) \<and>
    set (concat (map se_terminals (sv_sessions young_server))) = set (terminal_ids (sv_terminals young_server)) \<and>
    cl_session ` {c \<in> set (sv_clients young_server). cl_attached c} \<subseteq> se_id ` set (sv_sessions young_server)"
  unfolding young_server_def
  by (rule server_invariant [OF server_reacted [OF server_started]])
    (simp add: roomy_def server_new_def terminals_new_def)

section \<open>What a reader may do\<close>

text \<open>C12. A greeted reader that only watches, has not asked the server to end and owns no unfinished paste changes
  nothing: whatever it sends of what changes a session leaves the terminals, the sessions, the settings, the pending
  closes, the pastes under way and every other client exactly as they were. (One that was made a watcher in the middle of
  its paste still owns it; what becomes of that is shown below.)\<close>

theorem watcher_changes_nothing:
  assumes "cl_greeted (the_client client s)" and "\<not> cl_awaiting_kill (the_client client s)"
    and "watching (the_client client s)" and "changes_the_session m" and "holds_no_paste client s"
  shows "only_this_client client s (handle em now client m s)"
  using assms send_only_this [OF assms(5)]
  by (simp add: handle_def Let_def refuse_watcher_def split: option.split)

lemma watcher_changes_nothing_witness:
  "only_this_client 2 (sample_server []) (handle sample_emulator 5 2 (KillTerminal 1) (sample_server []))"
  by (rule watcher_changes_nothing)
    (simp_all add: watching_def changes_the_session_def holds_no_paste_def)

text \<open>C13. The same holds of a connection that has not said Hello and owns no paste, whatever it says instead; and it is
  hung up on.\<close>

theorem before_hello_nothing:
  assumes "\<not> cl_greeted (the_client client s)" and "\<not> cl_awaiting_kill (the_client client s)"
    and "hello_in m = None" and "holds_no_paste client s" and "find_client client s \<noteq> None"
  shows "only_this_client client s (handle em now client m s) \<and>
    cl_closing (the_client client (handle em now client m s)) \<and>
    \<not> sk_open (cl_stream (the_client client (handle em now client m s)))"
proof -
  let ?m = "Refuse (str ''the first message on a connection must be Hello; this one was '' @ name_of m)"
  let ?s = "send em client ?m s"
  have h: "handle em now client m s = drop_client em client ?s"
    using assms by (simp add: handle_def Let_def handle_greeting_def)
  have calm: "only_this_client client s ?s" "holds_no_paste client ?s"
    using send_only_this [OF assms(4)] only_this_holds [OF send_only_this [OF assms(4)]] assms(4) by auto
  have "find_client client ?s \<noteq> None" using only_this_present [OF calm(1) assms(5)] .
  from drop_hangs_up [OF calm(2) this] drop_only_this [OF calm(2)] only_this_trans [OF calm(1)]
  show ?thesis by (simp add: h drop_client_def)
qed

definition silent_server :: "bytes server" where
  "silent_server = (sample_server [])\<lparr>sv_clients := [sample_reader 1 Join, client_new 3 (stream_new [] [])]\<rparr>"

lemma before_hello_nothing_witness:
  "only_this_client 3 silent_server (handle sample_emulator 5 3 KillServer silent_server) \<and>
    cl_closing (the_client 3 (handle sample_emulator 5 3 KillServer silent_server)) \<and>
    \<not> sk_open (cl_stream (the_client 3 (handle sample_emulator 5 3 KillServer silent_server)))"
  by (rule before_hello_nothing)
    (simp_all add: silent_server_def the_client_def find_client_def client_new_def hello_in_def holds_no_paste_def sample_server_def)

text \<open>An empty queue has room for any message.\<close>

lemma has_room_empty: "queued (cl_stream (the_client client s)) = 0 \<Longrightarrow> has_room client m s"
  using payload_cap_le [of "type_of m"]
  by (simp add: has_room_def encode_alt hard_limit_bytes_def header_bytes_def)

lemma paste_request: "handle_request em now client (PasteChunk chunk) s = handle_paste em client chunk s"
  unfolding handle_request_def message.case ..

lemma find_set_slot: "find_slot t (set_slot t v s) = Some v"
  by (simp add: find_slot_def set_slot_def update_conv)

lemma set_slot_terminals: "sv_terminals (set_slot t v s) = sv_terminals s"
  by (simp add: set_slot_def)

text \<open>A reader that is made a watcher while it pastes keeps the terminal's paste for good. Its last chunk is
  acknowledged, not written, and the paste stays its own; what any other client pastes afterwards is put behind it,
  and neither text reaches the terminal.\<close>

theorem watcher_strands_paste:
  assumes owner: "find_slot (pc_term chunk) s = Some slot" "slot_owner slot = client" "client \<noteq> 0"
    and watcher: "cl_greeted (the_client client s)" "\<not> cl_awaiting_kill (the_client client s)" "watching (the_client client s)"
    and room: "has_room client (PasteAck (pc_seq chunk)) s"
    and other: "other \<noteq> client" "cl_greeted (the_client other s)" "\<not> cl_awaiting_kill (the_client other s)"
      "\<not> watching (the_client other s)"
    and after: "pc_term after = pc_term chunk" "terminal_at (pc_term chunk) s \<noteq> None"
    and s': "s' = handle em later other (PasteChunk after) (handle em now client (PasteChunk chunk) s)"
  shows "find_slot (pc_term chunk) s' = Some (slot\<lparr>slot_waiting := slot_waiting slot @ [(other, after)]\<rparr>) \<and>
    sv_terminals s' = sv_terminals s"
proof -
  let ?s = "send em client (PasteAck (pc_seq chunk)) s"
  have acked: "handle em now client (PasteChunk chunk) s = ?s"
    using watcher by (simp add: handle_def Let_def changes_the_session_def refuse_watcher_def is_input_def paste_in_def)
  have "\<not> is_attached (PasteAck (pc_seq chunk))" by (simp add: is_attached_def)
  note same = send_with_room [OF room this, where em = em]
  have c: "the_client other ?s = the_client other s" using same(3) [OF other(1)] by (simp add: the_client_def)
  have t: "terminal_at (pc_term chunk) ?s \<noteq> None" using after(2) same(2) by (simp add: terminal_at_def)
  have slot: "find_slot (pc_term chunk) ?s = Some slot" using owner(1) same(1) by (simp add: find_slot_def)
  have "s' = handle em later other (PasteChunk after) ?s" by (simp only: s' acked)
  also have "\<dots> = handle_paste em other after ?s"
    unfolding handle_def Let_def c paste_request using other(2-4) by (simp only: if_False if_True simp_thms)
  also have "\<dots> = set_slot (pc_term chunk) (slot\<lparr>slot_waiting := slot_waiting slot @ [(other, after)]\<rparr>)
      (set_slot (pc_term chunk) slot ?s)"
    using t owner(2,3) other(1) slot by (auto simp: handle_paste_def Let_def after(1) slot_at_def)
  finally show ?thesis by (simp only: find_set_slot set_slot_terminals same(2) simp_thms)
qed

definition sample_chunk :: "u32 \<Rightarrow> u8 \<Rightarrow> paste_chunk" where
  "sample_chunk seq c = \<lparr>pc_term = 1, pc_seq = seq, pc_final_chunk = 1, pc_bytes = [c]\<rparr>"

definition held_slots :: "(u64 \<times> paste_slot) list" where
  "held_slots = [(1, \<lparr>slot_owner = 2, slot_waiting = []\<rparr>)]"

lemma watcher_strands_paste_witness:
  "find_slot 1 (handle sample_emulator 6 1 (PasteChunk (sample_chunk 1 66))
      (handle sample_emulator 5 2 (PasteChunk (sample_chunk 9 65)) (sample_server held_slots))) =
     Some \<lparr>slot_owner = 2, slot_waiting = [(1, sample_chunk 1 66)]\<rparr> \<and>
   sv_terminals (handle sample_emulator 6 1 (PasteChunk (sample_chunk 1 66))
      (handle sample_emulator 5 2 (PasteChunk (sample_chunk 9 65)) (sample_server held_slots))) = sv_terminals (sample_server held_slots)"
proof -
  have "has_room 2 (PasteAck 9) (sample_server held_slots)" by (rule has_room_empty) (simp add: queued_def stream_new_def)
  then show ?thesis
    using watcher_strands_paste [of "sample_chunk 9 65" "sample_server held_slots" "\<lparr>slot_owner = 2, slot_waiting = []\<rparr>" 2
      1 "sample_chunk 1 66" _ sample_emulator 6 5]
    by (simp add: sample_chunk_def held_slots_def find_slot_def watching_def)
qed

section \<open>Printers\<close>

text \<open>Who decides about a terminal's printer: of those who say anything of the mode, the terminal before its
  session and its session before the settings, and the same of each limit by itself.\<close>

theorem printer_narrowest_wins:
  "in_force po_mode (voices ident s) =
     (ep_mode_from (effective_printer_policy ident s), Some (ep_mode (effective_printer_policy ident s))) \<and>
   in_force po_ask_cache (voices ident s) =
     (ep_ask_cache_from (effective_printer_policy ident s), Some (ep_ask_cache (effective_printer_policy ident s))) \<and>
   in_force po_spool_limit (voices ident s) =
     (ep_spool_limit_from (effective_printer_policy ident s), Some (ep_spool_limit (effective_printer_policy ident s)))"
  by (simp add: policy_in_force)

lemma apply_printer_policies_fields:
  "tms_settings (sv_terminals (apply_printer_policies em s)) = tms_settings (sv_terminals s)"
  "tms_next_id (sv_terminals (apply_printer_policies em s)) = tms_next_id (sv_terminals s)"
  "terminal_ids (sv_terminals (apply_printer_policies em s)) = terminal_ids (sv_terminals s)"
  "sv_sessions (apply_printer_policies em s) = sv_sessions s"
  "sv_settings (apply_printer_policies em s) = sv_settings s"
proof -
  let ?f = "\<lambda>term s. on_term term (apply_policy em (effective_printer_policy term s)) s"
  have id: "t_id (apply_policy em p t) = t_id t" for p t by (simp add: apply_policy_def Let_def)
  have one: "tms_settings (sv_terminals (?f t s)) = tms_settings (sv_terminals s) \<and>
      tms_next_id (sv_terminals (?f t s)) = tms_next_id (sv_terminals s) \<and>
      terminal_ids (sv_terminals (?f t s)) = terminal_ids (sv_terminals s) \<and>
      sv_sessions (?f t s) = sv_sessions s \<and> sv_settings (?f t s) = sv_settings s" for t s
    by (simp add: on_term_def id)
  have "tms_settings (sv_terminals (fold ?f ts s)) = tms_settings (sv_terminals s) \<and>
      tms_next_id (sv_terminals (fold ?f ts s)) = tms_next_id (sv_terminals s) \<and>
      terminal_ids (sv_terminals (fold ?f ts s)) = terminal_ids (sv_terminals s) \<and>
      sv_sessions (fold ?f ts s) = sv_sessions s \<and> sv_settings (fold ?f ts s) = sv_settings s" for ts
    by (induction ts arbitrary: s) (simp_all add: one)
  then show "tms_settings (sv_terminals (apply_printer_policies em s)) = tms_settings (sv_terminals s)"
    "tms_next_id (sv_terminals (apply_printer_policies em s)) = tms_next_id (sv_terminals s)"
    "terminal_ids (sv_terminals (apply_printer_policies em s)) = terminal_ids (sv_terminals s)"
    "sv_sessions (apply_printer_policies em s) = sv_sessions s"
    "sv_settings (apply_printer_policies em s) = sv_settings s"
    by (simp_all add: apply_printer_policies_def)
qed

lemma find_snoc: "find P xs = None \<Longrightarrow> find P (xs @ [x]) = (if P x then Some x else None)"
  by (induction xs) (auto split: if_splits)

text \<open>What a terminal opened in a session there is finds: its launch, and who has a say in its printer.\<close>

lemma open_terminal_new:
  assumes "sound s" and home: "session_for ident s = Some se" and opened: "open_terminal em ident spec s = (term, s')"
  shows "map_option t_session (terminal_at term s') = Some (em_launch em
      (launch_spec_for (em_host em) (tms_settings (sv_terminals s)) spec) (subsession_options_for (tms_settings (sv_terminals s))))"
    and "map_option t_printer (terminal_at term s') = Some no_override"
    and "map_option se_printer (session_holding term s') = Some (se_printer se)"
    and "sv_settings s' = sv_settings s"
proof -
  let ?n = "tms_next_id (sv_terminals s)"
  have fresh: "?n \<notin> set (terminal_ids (sv_terminals s))"
    using assms(1) by (intro below_fresh) (simp add: sound_but_def)
  have nowhere: "?n \<notin> set (se_terminals x)" if "x \<in> set (sv_sessions s)" for x
    using assms(1) fresh that by (auto simp: sound_but_def homes_but_def)
  have new: "term = ?n" and s': "s' = on_session (se_id se) (\<lambda>se. se\<lparr>se_terminals := se_terminals se @ [?n], se_last_focused := ?n\<rparr>)
      (s\<lparr>sv_terminals := snd (terminals_open em spec (sv_terminals s))\<rparr>)"
    using opened home by (auto simp: open_terminal_def terminals_open_def Let_def home_for_def session_for_def)
  have "find (\<lambda>t. t_id t = ?n) (tms_list (sv_terminals s)) = None"
    using fresh by (simp add: find_None_iff terminal_ids_def image_iff) metis
  then have t: "terminal_at term s' = Some (terminal_new ?n (em_launch em
      (launch_spec_for (em_host em) (tms_settings (sv_terminals s)) spec) (subsession_options_for (tms_settings (sv_terminals s)))) spec)"
    by (simp add: new s' on_session_def terminal_at_def find_terminal_def terminals_open_def Let_def find_snoc)
  show "map_option t_session (terminal_at term s') = Some (em_launch em
      (launch_spec_for (em_host em) (tms_settings (sv_terminals s)) spec) (subsession_options_for (tms_settings (sv_terminals s))))"
    "map_option t_printer (terminal_at term s') = Some no_override"
    unfolding t by (simp_all add: terminal_new_def)
  have "map_option se_printer (find (\<lambda>se. ?n \<in> set (se_terminals se)) (update_first (\<lambda>x. se_id x = se_id se)
      (\<lambda>se. se\<lparr>se_terminals := se_terminals se @ [?n], se_last_focused := ?n\<rparr>) ss)) =
      map_option se_printer (find (\<lambda>x. se_id x = se_id se) ss)" if "set ss \<subseteq> set (sv_sessions s)" for ss
    using that by (induction ss) (auto simp: nowhere)
  with home have "map_option se_printer (session_holding term s') = map_option se_printer (find (\<lambda>x. se_id x = se_id se) (sv_sessions s))"
    by (simp add: new s' session_holding_def on_session_def)
  moreover have "se_id se = ident" using home by (auto simp: session_for_def find_Some_iff)
  ultimately show "map_option se_printer (session_holding term s') = Some (se_printer se)"
    using home by (simp add: session_for_def)
  show "sv_settings s' = sv_settings s" by (simp add: s' on_session_def)
qed

text \<open>A printer turned off for everybody is off for the terminals there are; the next terminal is launched with
  the settings the server began with. The policy in force for it is off, and its emulator was told to capture.\<close>

theorem new_terminal_keeps_old_policy:
  assumes "sound s" and began: "set_printer_mode (tms_settings (sv_terminals s)) \<noteq> Off"
    and off: "spp_scope request = Scope_Global" "spp_mode request = Mode_Off"
    and home: "session_for ident s = Some se" "po_mode (se_printer se) = None"
    and opened: "open_terminal em ident spec (handle_printer_policy em client request s) = (term, s')"
  shows "ep_mode (effective_printer_policy term s') = Off \<and>
    (\<exists>launch options. map_option t_session (terminal_at term s') = Some (em_launch em launch options) \<and>
       ls_printer_policy launch = Policy_Capture)"
proof -
  let ?s = "s\<lparr>sv_settings := set_globally (said_policy request) (sv_settings s)\<rparr>"
  let ?h = "apply_printer_policies em ?s"
  have h: "handle_printer_policy em client request s = ?h" using off by (simp add: handle_printer_policy_def Let_def)
  note fields = apply_printer_policies_fields [of em ?s]
  have mild: "mild s ?h" by (intro mild_apply_printer_policies mild_fields mild_refl)
  have home': "session_for ident ?h = Some se" using home(1) by (simp add: session_for_def fields)
  note new = open_terminal_new [OF sound_mild [OF mild assms(1)] home' opened [unfolded h]]
  have "set_printer_mode (sv_settings s') = Off"
    by (simp add: new(4) apply_printer_policies_fields set_globally_def said_policy_def off Let_def)
  then have "ep_mode (effective_printer_policy term s') = Off"
    using new(2,3) home(2)
    by (auto simp: effective_printer_policy_def Let_def no_override_def)
  moreover have "ls_printer_policy (launch_spec_for (em_host em) (tms_settings (sv_terminals s)) spec) = Policy_Capture"
    using began by (simp add: launch_spec_for_def)
  ultimately show ?thesis using new(1) by (auto simp: fields)
qed

definition printer_off :: set_printer_policy where
  "printer_off = \<lparr>spp_scope = Scope_Global, spp_target = 0, spp_mode = Mode_Off, spp_ask_cache = 0, spp_spool_limit = 0\<rparr>"

definition after_printer_off :: "u64 \<times> bytes server" where
  "after_printer_off = open_terminal sample_emulator 1 default_spec (handle_printer_policy sample_emulator 1 printer_off (sample_server []))"

lemma new_terminal_keeps_old_policy_witness:
  "ep_mode (effective_printer_policy (fst after_printer_off) (snd after_printer_off)) = Off \<and>
    (\<exists>launch options. map_option t_session (terminal_at (fst after_printer_off) (snd after_printer_off)) =
         Some (em_launch sample_emulator launch options) \<and>
       ls_printer_policy launch = Policy_Capture)"
  by (rule new_terminal_keeps_old_policy [OF sample_sound, of "[]" printer_off 1 sample_session sample_emulator default_spec 1])
    (simp_all add: printer_off_def after_printer_off_def default_settings_def no_override_def sample_session_def)

section \<open>Names\<close>

text \<open>The name a session is given is nobody's yet, whatever names the others were given by hand.\<close>

theorem given_name_is_fresh:
  assumes "highest_number (sv_sessions s) < long_max"
  shows "next_session_name s \<notin> se_name ` set (sv_sessions s)"
  using assms by (rule fresh_name)

lemma given_name_is_fresh_witness: "next_session_name (sample_server []) \<notin> se_name ` set (sv_sessions (sample_server []))"
proof (rule given_name_is_fresh)
  have "session_number (str ''session-1'') = Some 1"
    by (simp add: session_number_def str_def is_digit_def strtol_def read_digits_def long_max_def)
  then show "highest_number (sv_sessions (sample_server [])) < long_max"
    by (simp add: sample_server_def highest_number_def sample_session_def long_max_def)
qed

text \<open>That bound is needed: a session named \<open>session-\<close> and the largest \<open>long\<close>, or any number past it, makes
  the addition overflow, and where it wraps two sessions that were given names have the same one.\<close>

theorem overflow_gives_a_name_twice:
  assumes "highest_number (sv_sessions s) = long_max"
  shows "map se_name (sv_sessions (snd (create_session [] (snd (create_session [] s))))) =
    map se_name (sv_sessions s) @ [str ''session--9223372036854775808'', str ''session--9223372036854775808'']"
proof -
  have "decimal (2 ^ 63) = str ''9223372036854775808''" by (simp add: decimal.simps str_def)
  then have "next_session_name s = str ''session--9223372036854775808''"
    using overflowing_name(1) [OF assms] by (simp add: str_def)
  with overflowing_name(2) [OF assms] show ?thesis by (simp add: create_session_fields)
qed

definition overflowed_server :: "bytes server" where
  "overflowed_server = (sample_server [])\<lparr>sv_sessions := [sample_session\<lparr>se_name := str ''session-9223372036854775808''\<rparr>]\<rparr>"

lemma overflow_gives_a_name_twice_witness:
  "map se_name (sv_sessions (snd (create_session [] (snd (create_session [] overflowed_server))))) =
    map se_name (sv_sessions overflowed_server) @ [str ''session--9223372036854775808'', str ''session--9223372036854775808'']"
proof (rule overflow_gives_a_name_twice)
  have "session_number (str ''session-9223372036854775808'') = Some long_max"
    by (simp add: session_number_def str_def is_digit_def strtol_def read_digits_def long_max_def)
  then show "highest_number (sv_sessions overflowed_server) = long_max"
    by (simp add: overflowed_server_def highest_number_def)
qed

section \<open>Closing\<close>







section \<open>What a snapshot may cost\<close>

text \<open>C27. However much history there is, what a snapshot takes on the wire stays within its budget whenever the
  screens alone do.\<close>

theorem snapshot_within_budget:
  assumes "fold (snapshot_one em) held ([], s) = (states, s')"
    and "spent = 8 + snapshot_size (head\<lparr>sn_terminals := states\<rparr>)" and "spent \<le> snapshot_payload_budget"
  shows "8 + snapshot_size (head\<lparr>sn_terminals := share_history em s' (snapshot_payload_budget - spent) states\<rparr>)
    \<le> snapshot_payload_budget"
proof -
  have "list_all (\<lambda>st. ts_scrollback st = []) states" using snapshot_states_bare [of em held s] assms(1) by simp
  from share_history_cost [OF this, of em s' "snapshot_payload_budget - spent"] assms(2,3)
  show ?thesis by (simp add: snapshot_size_def)
qed

definition sample_head :: snapshot where
  "sample_head = \<lparr>sn_desktop_columns = 80, sn_desktop_rows = 24, sn_focused_term = 1, sn_terminals = []\<rparr>"

definition sample_states :: "terminal_state list" where
  "sample_states = fst (fold (snapshot_one sample_emulator) [1] ([], sample_server []))"

lemma sample_states_size: "(\<Sum>st\<leftarrow>sample_states. terminal_state_size st) \<le> 200"
proof -
  obtain st where one: "sample_states = [st]" and st: "ts_title st = []" "ts_custom_title st = []" "ts_diagnostic st = []"
    "ts_grid st = to_runs [letter 65, letter 66]" "ts_scrollback st = []" "ts_images st = []" "ts_print_jobs st = []"
    by (simp add: sample_states_def snapshot_one_def engine_snapshot_def differ_snapshot_def differ_at_def Let_def
        sample_emulator_def bell_source_def source_view_def clamp_utf8_def state_with_def default_terminal_state_def
        live_def terminal_new_def engine_new_def differ_new_def)
  have "runs_size (to_runs [letter 65, letter 66]) \<le> 100"
    by (simp add: runs_size_def run_size_def to_runs_def letter_def plain_style_def add_cell_def)
  then show ?thesis unfolding one by (simp add: terminal_state_size_def lines_size_def st)
qed

lemma snapshot_within_budget_witness:
  "8 + snapshot_size (sample_head\<lparr>sn_terminals := share_history sample_emulator
      (snd (fold (snapshot_one sample_emulator) [1] ([], sample_server [])))
      (snapshot_payload_budget - (8 + snapshot_size (sample_head\<lparr>sn_terminals := sample_states\<rparr>))) sample_states\<rparr>)
    \<le> snapshot_payload_budget"
  by (rule snapshot_within_budget [of sample_emulator "[1]" "sample_server []"])
    (use sample_states_size in \<open>simp_all add: sample_states_def snapshot_size_def snapshot_payload_budget_def\<close>)

section \<open>The circle of sends and pastes\<close>

text \<open>C22. A send may drop a client, which frees its pastes, which writes the next chunk that waits, which is
  acknowledged with a send. The circle ends: one turn more than chunks wait in all the slots is enough, and further turns
  change nothing. As many turns as chunks would not do: the last one only puts away a slot that is empty.\<close>

theorem circle_ends:
  assumes "n > waiting_total s"
  shows "send_with (drain_slot em n) client m s = send em client m s \<and> drain_slot em n term s = drain_paste_slot em term s"
  using assms send_enough [of s n em client m] deep_is_enough [of s n em "term"] by (simp add: deep_def)

lemma circle_ends_witness:
  "send_with (drain_slot sample_emulator 1) 2 Detach (sample_server held_slots) = send sample_emulator 2 Detach (sample_server held_slots) \<and>
   drain_slot sample_emulator 1 1 (sample_server held_slots) = drain_paste_slot sample_emulator 1 (sample_server held_slots)"
  by (rule circle_ends) (simp add: waiting_total_def held_slots_def)

section \<open>Bells\<close>

text \<open>A terminal that rings inside a synchronized update rings again at every tick until the update ends: the
  damage the bell is read from is cleared only where the differ could read the screen.\<close>

theorem bell_counted_every_tick:
  assumes "nw_bell (em_news em (t_session t))" and "src_synchronized (em_source em (t_session t))"
  shows "t_bell_serial (((\<lambda>t. caught_up em (mark_news em focused t)) ^^ n) t) = t_bell_serial t + of_nat n"
  using bell_every_tick [OF assms] by simp

lemma bell_counted_every_tick_witness:
  "t_bell_serial (((\<lambda>t. caught_up sample_emulator (mark_news sample_emulator False t)) ^^ 30) (terminal_new 1 [] default_spec)) =
     t_bell_serial (terminal_new 1 ([] :: bytes) default_spec) + of_nat 30"
  by (rule bell_counted_every_tick) (simp_all add: sample_emulator_def bell_source_def)

section \<open>Bytes that leave\<close>

text \<open>C23. What a client has been sent: at every moment a prefix of what was said, whatever its kernel took and
  refused; and while the connection stands, with what waits behind it, all of it, in order.\<close>

theorem stream_in_order:
  assumes "s = fold wire.act es (stream_new answers incoming)"
  shows "prefix (sk_peer s) (wire.words es) \<and> (stream_broken s \<or> sk_peer s @ unsent s = wire.words es)"
proof -
  have "wire.faithful [] (stream_new answers incoming)"
    by (simp add: wire.faithful_def stream_new_def stream_sound_def unsent_def)
  from wire.faithful_run [OF this, of es] show ?thesis by (simp add: assms wire.faithful_def)
qed

lemma stream_in_order_witness:
  "prefix (sk_peer (fold wire.act [Some [1, 2, 3], None] (stream_new [Wrote 2, Write_Blocks, Wrote 5] []))) (wire.words [Some [1, 2, 3], None]) \<and>
   (stream_broken (fold wire.act [Some [1, 2, 3], None] (stream_new [Wrote 2, Write_Blocks, Wrote 5] [])) \<or>
    sk_peer (fold wire.act [Some [1, 2, 3], None] (stream_new [Wrote 2, Write_Blocks, Wrote 5] [])) @
      unsent (fold wire.act [Some [1, 2, 3], None] (stream_new [Wrote 2, Write_Blocks, Wrote 5] [])) = wire.words [Some [1, 2, 3], None])"
  by (rule stream_in_order [OF refl])

text \<open>C24. A queue empties: where the kernel goes on taking bytes and never fails, as many flushes as it says to
  wait, and one more, send everything.\<close>

theorem stream_empties:
  assumes "will_empty s" and "stalls s < n"
  shows "queued (((\<lambda>s. snd (stream_flush s)) ^^ n) s) = 0"
  using assms by (simp add: flushes_empty)

definition waiting_stream :: stream where
  "waiting_stream = (stream_new [Wrote 1, Write_Blocks, Write_Interrupted, Wrote 9] [])\<lparr>sk_pending := [1, 2]\<rparr>"

lemma stream_empties_witness: "queued (((\<lambda>s. snd (stream_flush s)) ^^ 2) waiting_stream) = 0"
  by (rule stream_empties)
    (simp_all add: waiting_stream_def will_empty_def stream_sound_def patient_def queued_def stream_new_def stalls_def)

end
