(* ===== verification/Remote_Terminal.thy ===== *)
theory Remote_Terminal
  imports Mirror
begin

text \<open>
  A terminal as a client has it: \<open>RemoteTerminalSubsession\<close> of
  \<^verbatim>\<open>src/src/client/remote_terminal.cpp\<close> and its header. It answers what a view asks out of its mirror
  and turns what a view does into messages. Messages are handed back as a list, in the order the code
  gives them to its \<open>Send\<close>. The terminal profile is ckVision's: its type is a parameter, and
  \<open>with_pixels\<close>, which sets its cell size, an argument.
\<close>

section \<open>The state of a remote terminal\<close>

datatype mouse_encoding = No_Encoding | X10 | Sgr

datatype subsession_state = Ready | Running | Exited_State | Closed_State

record 'p remote_terminal =
  rmt_terminal :: u64
  rmt_profile :: 'p
  rmt_mirror :: mirror
  rmt_raster_identity :: int
  rmt_stray_output :: nat
  rmt_closed :: bool

definition remote_new :: "u64 \<Rightarrow> 'p \<Rightarrow> 'p remote_terminal" where
  "remote_new terminal profile =
     \<lparr>rmt_terminal = terminal, rmt_profile = profile, rmt_mirror = mirror_new, rmt_raster_identity = 0,
      rmt_stray_output = 0, rmt_closed = False\<rparr>"

definition on_mirror :: "(mirror \<Rightarrow> mirror) \<Rightarrow> 'p remote_terminal \<Rightarrow> 'p remote_terminal" where
  "on_mirror f r = r\<lparr>rmt_mirror := f (rmt_mirror r)\<rparr>"

section \<open>What a view is told\<close>

text \<open>\<open>TerminalStatus\<close>, the fields that are set here.\<close>

record remote_status =
  rst_cells :: extent
  rst_cursor_visible :: bool
  rst_cursor_x :: int
  rst_cursor_y :: int
  rst_cursor_shape :: u8
  rst_cursor_blink :: bool
  rst_alternate_buffer :: bool
  rst_title :: bytes
  rst_state :: subsession_state
  rst_bracketed_paste :: bool
  rst_mouse_reporting :: bool
  rst_mouse_encoding :: mouse_encoding
  rst_mouse_tracking :: u32
  rst_application_cursor_keys :: bool
  rst_focus_reporting :: bool
  rst_alternate_scroll :: bool
  rst_keyboard_flags :: u32
  rst_clipboard_serial :: u64
  rst_printer_controller :: bool
  rst_printer_pending :: nat
  rst_printer_jobs_ready :: nat
  rst_exit_code :: "int option"

definition has_mode :: "u32 \<Rightarrow> nat \<Rightarrow> bool" where
  "has_mode modes n \<longleftrightarrow> modes AND push_bit n 1 \<noteq> 0"

definition encoding_of :: "u32 \<Rightarrow> mouse_encoding" where
  "encoding_of modes =
     (if \<not> has_mode modes 0 then No_Encoding else if has_mode modes 1 then Sgr else X10)"

definition remote_state :: "'p remote_terminal \<Rightarrow> subsession_state" where
  "remote_state r =
     (if rmt_closed r then Closed_State
      else if mi_exited (rmt_mirror r) then Exited_State
      else if mi_sequence (rmt_mirror r) = 0 \<and> width (gs_cells (mi_state (rmt_mirror r))) = 0 then Ready
      else Running)"

definition remote_status :: "'p remote_terminal \<Rightarrow> remote_status" where
  "remote_status r =
     (let m = rmt_mirror r; s = mi_state m; modes = gs_modes s
      in \<lparr>rst_cells = gs_cells s,
          rst_cursor_visible = (gc_visible (gs_cursor s) \<noteq> 0),
          rst_cursor_x = uint (gc_column (gs_cursor s)),
          rst_cursor_y = uint (gc_row (gs_cursor s)),
          rst_cursor_shape = gc_style (gs_cursor s),
          rst_cursor_blink = (gc_blink (gs_cursor s) \<noteq> 0),
          rst_alternate_buffer = has_mode modes 5,
          rst_title = gs_title s,
          rst_state = remote_state r,
          rst_bracketed_paste = has_mode modes 2,
          rst_mouse_reporting = has_mode modes 0,
          rst_mouse_encoding = encoding_of modes,
          rst_mouse_tracking = drop_bit 7 (modes AND mouse_tracking_mask),
          rst_application_cursor_keys = has_mode modes 3,
          rst_focus_reporting = has_mode modes 4,
          rst_alternate_scroll = has_mode modes 6,
          rst_keyboard_flags = drop_bit 9 (modes AND keyboard_flags_mask),
          rst_clipboard_serial = mi_clipboard_serial m,
          rst_printer_controller = mi_printer_active m,
          rst_printer_pending = mi_printer_bytes m,
          rst_printer_jobs_ready = mi_printer_jobs m,
          rst_exit_code = mi_exit_status m\<rparr>)"

text \<open>\<open>TerminalSnapshot\<close>: the same scalars, and copies of what they do not hold. Nothing asks for its
  history or its pictures unless the options say so.\<close>

record remote_snapshot =
  rsn_scalars :: remote_status
  rsn_cells :: "cell list"
  rsn_scrollback :: "cell list"
  rsn_rasters :: "mirror_raster list"
  rsn_clipboard_text :: bytes
  rsn_diagnostics :: "(complaint_kind \<times> bytes) list"

definition remote_snapshot :: "bool \<Rightarrow> bool \<Rightarrow> 'p remote_terminal \<Rightarrow> remote_snapshot" where
  "remote_snapshot include_scrollback include_rasters r =
     (let m = rmt_mirror r
      in \<lparr>rsn_scalars = remote_status r,
          rsn_cells = gs_grid (mi_state m),
          rsn_scrollback = (if include_scrollback then mirror_history m else []),
          rsn_rasters = (if include_rasters then mi_rasters m else []),
          rsn_clipboard_text = mi_clipboard_text m,
          rsn_diagnostics = mi_diagnostics m\<rparr>)"

section \<open>What a view does\<close>

definition feed_output :: "'p remote_terminal \<Rightarrow> 'p remote_terminal" where
  "feed_output r = r\<lparr>rmt_stray_output := rmt_stray_output r + 1\<rparr>"

text \<open>A resize asks the server for this terminal's size, in cells.\<close>

definition resize_request :: "u64 \<Rightarrow> extent \<Rightarrow> message" where
  "resize_request terminal cells =
     MoveResize \<lparr>mr_term = terminal,
       mr_rect = \<lparr>rect_x = 0, rect_y = 0, rect_width = word_of_int (max 0 (width cells)),
                  rect_height = word_of_int (max 0 (height cells))\<rparr>\<rparr>"

definition remote_resize :: "(extent \<Rightarrow> 'p \<Rightarrow> 'p) \<Rightarrow> bool \<Rightarrow> extent \<Rightarrow> extent \<Rightarrow> 'p remote_terminal \<Rightarrow>
    message list \<times> 'p remote_terminal" where
  "remote_resize with_pixels sends cells cell_pixels r =
     (let r = (if width cell_pixels > 0 \<and> height cell_pixels > 0
               then r\<lparr>rmt_profile := with_pixels cell_pixels (rmt_profile r)\<rparr> else r)
      in (if sends then [resize_request (rmt_terminal r) cells] else [], r))"

definition remote_input :: "bool \<Rightarrow> bytes \<Rightarrow> 'p remote_terminal \<Rightarrow> message list" where
  "remote_input sends bs r =
     (if bs = [] \<or> \<not> sends then [] else [Input \<lparr>input_term = rmt_terminal r, input_bytes = bs\<rparr>])"

definition remote_close :: "bool \<Rightarrow> 'p remote_terminal \<Rightarrow> message list \<times> 'p remote_terminal" where
  "remote_close sends r =
     (if rmt_closed r then ([], r)
      else
        (if sends then [CloseTerminal \<lparr>ct_term = rmt_terminal r, ct_force = 1, ct_grace_seconds = 5\<rparr>] else [],
         r\<lparr>rmt_closed := True\<rparr>))"

definition remote_set_raster_identity :: "int \<Rightarrow> 'p remote_terminal \<Rightarrow> 'p remote_terminal" where
  "remote_set_raster_identity identity r =
     on_mirror (set_raster_identity identity) (r\<lparr>rmt_raster_identity := identity\<rparr>)"

section \<open>Facts\<close>

lemma on_mirror_simps [simp]:
  "rmt_mirror (on_mirror f r) = f (rmt_mirror r)" "rmt_terminal (on_mirror f r) = rmt_terminal r"
  "rmt_closed (on_mirror f r) = rmt_closed r" "rmt_profile (on_mirror f r) = rmt_profile r"
  by (simp_all add: on_mirror_def)

lemma closes_once: "remote_close sends (snd (remote_close sends r)) = ([], snd (remote_close sends r))"
  by (simp add: remote_close_def)

text \<open>Each mode travels in a bit of its own.\<close>

lemma has_mode_bit: "has_mode modes n \<longleftrightarrow> bit modes n"
  by (simp add: has_mode_def bit_iff_and_push_bit_not_eq_0)

lemma bit_mode_bit: "n < 32 \<Longrightarrow> bit (mode_bit n on) k \<longleftrightarrow> k = n \<and> on"
  by (auto simp: mode_bit_def bit_simps)

lemma bit_tracking: "bit (push_bit 7 t AND mouse_tracking_mask) n \<longleftrightarrow> 7 \<le> n \<and> n < 9 \<and> bit t (n - 7)"
proof -
  have mask: "mouse_tracking_mask = push_bit 7 (mask 2)" by (simp add: mouse_tracking_mask_def mask_eq_exp_minus_1)
  show ?thesis by (auto simp: mask bit_and_iff bit_push_bit_iff bit_mask_iff)
qed

lemma bit_flags: "bit (push_bit 9 f AND keyboard_flags_mask) n \<longleftrightarrow> 9 \<le> n \<and> n < 14 \<and> bit f (n - 9)"
proof -
  have mask: "keyboard_flags_mask = push_bit 9 (mask 5)" by (simp add: keyboard_flags_mask_def mask_eq_exp_minus_1)
  show ?thesis by (auto simp: mask bit_and_iff bit_push_bit_iff bit_mask_iff)
qed

lemma bit_modes_of:
  "bit (modes_of st) n \<longleftrightarrow>
     n = 0 \<and> st_mouse_reporting st \<or> n = 1 \<and> st_mouse_sgr st \<or> n = 2 \<and> st_bracketed_paste st \<or>
     n = 3 \<and> st_application_cursor_keys st \<or> n = 4 \<and> st_focus_reporting st \<or>
     n = 5 \<and> st_alternate_buffer st \<or> n = 6 \<and> st_alternate_scroll st \<or>
     7 \<le> n \<and> n < 9 \<and> bit (st_mouse_tracking st) (n - 7) \<or> 9 \<le> n \<and> n < 14 \<and> bit (st_keyboard_flags st) (n - 9)"
  by (simp add: modes_of_def bit_or_iff bit_mode_bit bit_tracking bit_flags del: One_nat_def)

lemma modes_told:
  "has_mode (modes_of st) 0 = st_mouse_reporting st" "has_mode (modes_of st) 1 = st_mouse_sgr st"
  "has_mode (modes_of st) 2 = st_bracketed_paste st" "has_mode (modes_of st) 3 = st_application_cursor_keys st"
  "has_mode (modes_of st) 4 = st_focus_reporting st" "has_mode (modes_of st) 5 = st_alternate_buffer st"
  "has_mode (modes_of st) 6 = st_alternate_scroll st"
  "drop_bit 7 (modes_of st AND mouse_tracking_mask) = st_mouse_tracking st AND 3"
  "drop_bit 9 (modes_of st AND keyboard_flags_mask) = st_keyboard_flags st AND 31"
proof -
  have three: "3 = (mask 2 :: u32)" "31 = (mask 5 :: u32)" by (simp_all add: mask_eq_exp_minus_1)
  have masks: "mouse_tracking_mask = push_bit 7 (mask 2)" "keyboard_flags_mask = push_bit 9 (mask 5)"
    by (simp_all add: mouse_tracking_mask_def keyboard_flags_mask_def mask_eq_exp_minus_1)
  show "drop_bit 7 (modes_of st AND mouse_tracking_mask) = st_mouse_tracking st AND 3"
    unfolding three masks
    by (rule bit_word_eqI) (auto simp: bit_mask_iff bit_and_iff bit_drop_bit_eq bit_modes_of bit_push_bit_iff)
  show "drop_bit 9 (modes_of st AND keyboard_flags_mask) = st_keyboard_flags st AND 31"
    unfolding three masks
    by (rule bit_word_eqI) (auto simp: bit_mask_iff bit_and_iff bit_drop_bit_eq bit_modes_of bit_push_bit_iff)
qed (simp_all add: has_mode_bit bit_modes_of)

end
