(* ===== verification/Ordered_Map.thy ===== *)
theory Ordered_Map
  imports Prelude "HOL-Library.AList"
begin

text \<open>
  Tables. The code keeps some of its state under ids: a \<open>std::map\<close>, walked in the order of its keys,
  and an \<open>std::unordered_map\<close>. Both are lists of pairs here; the first keeps them sorted. What users
  of a table rely on is the locale \<open>table\<close>, which both are.
\<close>

section \<open>A map in the order of its keys\<close>

fun put_at :: "'k::linorder \<Rightarrow> 'a \<Rightarrow> ('k \<times> 'a) list \<Rightarrow> ('k \<times> 'a) list" where
  "put_at k v [] = [(k, v)]"
| "put_at k v ((l, w) # m) =
     (if k < l then (k, v) # (l, w) # m else if k = l then (k, v) # m else (l, w) # put_at k v m)"

fun drop_at :: "'k \<Rightarrow> ('k \<times> 'a) list \<Rightarrow> ('k \<times> 'a) list" where
  "drop_at k [] = []"
| "drop_at k ((l, w) # m) = (if k = l then m else (l, w) # drop_at k m)"

definition ids_of :: "('k \<times> 'a) list \<Rightarrow> 'k list" where
  "ids_of m = map fst m"

definition in_order :: "('k::linorder \<times> 'a) list \<Rightarrow> bool" where
  "in_order m \<longleftrightarrow> sorted_wrt (<) (map fst m)"

lemma ids_of_simps [simp]: "ids_of [] = []" "ids_of ((k, v) # m) = k # ids_of m"
  by (simp_all add: ids_of_def)

lemma in_order_simps [simp]:
  "in_order []" "in_order ((k, v) # m) \<longleftrightarrow> (\<forall>l \<in> set (ids_of m). k < l) \<and> in_order m"
  by (auto simp: in_order_def ids_of_def)

lemma set_ids_of: "set (ids_of m) = dom (map_of m)"
  by (simp add: ids_of_def dom_map_of_conv_image_fst)

lemma ids_put [simp]: "set (ids_of (put_at k v m)) = insert k (set (ids_of m))"
  by (induction k v m rule: put_at.induct) auto

lemma ids_drop: "set (ids_of (drop_at k m)) \<subseteq> set (ids_of m)"
  by (induction k m rule: drop_at.induct) auto

lemma in_order_put [simp]: "in_order m \<Longrightarrow> in_order (put_at k v m)"
  by (induction k v m rule: put_at.induct) auto

lemma in_order_drop [simp]: "in_order m \<Longrightarrow> in_order (drop_at k m)"
  by (induction k m rule: drop_at.induct) (use ids_drop in fastforce)+

lemma map_of_smaller: "\<forall>l \<in> set (ids_of m). k < (l :: 'k::linorder) \<Longrightarrow> map_of m k = None"
  by (auto simp: map_of_eq_None_iff ids_of_def)

lemma map_of_put: "map_of (put_at k v m) = (map_of m)(k \<mapsto> v)" if "in_order m"
  using that by (induction k v m rule: put_at.induct) (auto simp: fun_eq_iff map_of_smaller)

lemma map_of_drop: "map_of (drop_at k m) = (map_of m)(k := None)" if "in_order m"
  using that by (induction k m rule: drop_at.induct) (auto simp: fun_eq_iff map_of_smaller)

lemma in_order_distinct: "in_order m \<Longrightarrow> distinct (ids_of m)"
  by (simp add: in_order_def ids_of_def strict_sorted_iff)

section \<open>What a table promises\<close>

locale table =
  fixes put :: "'k \<Rightarrow> 'a \<Rightarrow> 'm \<Rightarrow> 'm" and del :: "'k \<Rightarrow> 'm \<Rightarrow> 'm"
    and look :: "'m \<Rightarrow> 'k \<Rightarrow> 'a option" and ok :: "'m \<Rightarrow> bool"
  assumes put_ok: "ok m \<Longrightarrow> ok (put k v m)"
    and del_ok: "ok m \<Longrightarrow> ok (del k m)"
    and look_put: "ok m \<Longrightarrow> look (put k v m) = (look m)(k \<mapsto> v)"
    and look_del: "ok m \<Longrightarrow> look (del k m) = (look m)(k := None)"
begin

lemma fold_del_ok: "ok m \<Longrightarrow> ok (fold del ks m)"
  by (induction ks arbitrary: m) (simp_all add: del_ok)

lemma look_fold_del: "ok m \<Longrightarrow> look (fold del ks m) k = (if k \<in> set ks then None else look m k)"
  by (induction ks arbitrary: m) (auto simp: look_del del_ok)

lemma look_put_other: "ok m \<Longrightarrow> k \<noteq> l \<Longrightarrow> look (put k v m) l = look m l"
  by (simp add: look_put)

text \<open>An entry taken out, changed and put back touches no other.\<close>

definition change :: "'k \<Rightarrow> ('a \<Rightarrow> 'a) \<Rightarrow> 'm \<Rightarrow> 'm" where
  "change k f m = (case look m k of None \<Rightarrow> m | Some v \<Rightarrow> put k (f v) m)"

lemma change_ok: "ok m \<Longrightarrow> ok (change k f m)"
  by (simp add: change_def put_ok split: option.split)

lemma look_change: "ok m \<Longrightarrow> look (change k f m) = (look m)(k := map_option f (look m k))"
  by (auto simp: change_def look_put fun_eq_iff split: option.split)

end

interpretation ordered: table put_at drop_at map_of in_order
  by unfold_locales (simp_all add: map_of_put map_of_drop)

interpretation unordered: table AList.update AList.delete map_of "\<lambda>m. distinct (map fst m)"
  by unfold_locales (simp_all add: distinct_update distinct_delete update_conv' delete_conv')

end
