(* ===== verification/Client_Session.thy ===== *)
theory Client_Session
  imports Remote_Terminal Ordered_Map
begin

text \<open>
  A client's side of one attachment: \<open>ServerSession\<close> of \<^verbatim>\<open>src/src/client/server_session.cpp\<close> and its
  header. The mirrors are a table in the order of their ids. What it sends and what it calls back are
  both entries of one log, in the order the code makes them; what a callback does to the windows is the
  window layer's, and what the window layer asks of the session is an operation of its own. Every
  callback is set, as \<^verbatim>\<open>run_client.cpp\<close> sets them; \<open>ca_sends\<close> says whether there is a \<open>Send\<close>.
\<close>

section \<open>The state of an attachment\<close>

datatype layout_statement = From_Snapshot | From_Delta

datatype told =
    Sent message
  | Opened u64
  | Closed u64
  | Is_Detached detach_reason bytes
  | Is_Attached u64
  | Is_Mode attach_mode
  | Has_Sessions "session_info list"
  | Has_Error error_msg
  | Has_Stats u64 term_stats
  | Has_Desktop extent
  | Has_Layout "layout_entry list" layout_statement

record paste_waiting =
  pw_term :: u64
  pw_seq :: u32
  pw_last :: bool
  pw_bytes :: bytes

record pending_image =
  pi_width :: u16
  pi_height :: u16
  pi_next_seq :: u32
  pi_bytes :: bytes

record 'p attachment =
  ca_sends :: bool
  ca_profile :: 'p
  ca_terminals :: "(u64 \<times> 'p remote_terminal) list"
  ca_announced :: "u64 set"
  ca_pending :: "u64 \<rightharpoonup> pending_image"
  ca_completed :: "u64 \<rightharpoonup> image"
  ca_paste_queue :: "paste_waiting list"
  ca_in_flight :: nat
  ca_next_seq :: u32
  ca_history_limit :: nat
  ca_session :: u64
  ca_desktop :: extent
  ca_cell_pixels :: extent
  ca_layout_sent :: "layout_entry list"
  ca_mode :: attach_mode
  ca_resnapshots :: u64
  ca_attachments :: u64
  ca_snapshot_requested :: bool
  ca_attached :: bool
  ca_stats_watched :: bool
  ca_host_sixel :: bool
  ca_session_desktop :: extent
  ca_next_identity :: int
  ca_log :: "told list"

definition nowhere :: extent where
  "nowhere = \<lparr>width = 0, height = 0\<rparr>"

definition attachment_new :: "bool \<Rightarrow> 'p \<Rightarrow> 'p attachment" where
  "attachment_new sends profile =
     \<lparr>ca_sends = sends, ca_profile = profile, ca_terminals = [], ca_announced = {}, ca_pending = Map.empty,
      ca_completed = Map.empty, ca_paste_queue = [], ca_in_flight = 0, ca_next_seq = 1, ca_history_limit = 0,
      ca_session = 0, ca_desktop = nowhere, ca_cell_pixels = nowhere, ca_layout_sent = [], ca_mode = Take_Over,
      ca_resnapshots = 0, ca_attachments = 0, ca_snapshot_requested = False, ca_attached = False,
      ca_stats_watched = False, ca_host_sixel = False, ca_session_desktop = nowhere, ca_next_identity = 2000000,
      ca_log = []\<rparr>"

definition tell :: "told \<Rightarrow> 'p attachment \<Rightarrow> 'p attachment" where
  "tell t a = a\<lparr>ca_log := ca_log a @ [t]\<rparr>"

definition request :: "message \<Rightarrow> 'p attachment \<Rightarrow> 'p attachment" where
  "request m a = (if ca_sends a then tell (Sent m) a else a)"

section \<open>Terminals\<close>

definition terminal :: "u64 \<Rightarrow> 'p attachment \<Rightarrow> 'p remote_terminal option" where
  "terminal ident a = map_of (ca_terminals a) ident"

definition terminal_ids :: "'p attachment \<Rightarrow> u64 list" where
  "terminal_ids a = ids_of (ca_terminals a)"

definition on_terminal :: "u64 \<Rightarrow> ('p remote_terminal \<Rightarrow> 'p remote_terminal) \<Rightarrow> 'p attachment \<Rightarrow> 'p attachment" where
  "on_terminal ident f a =
     (case terminal ident a of None \<Rightarrow> a | Some r \<Rightarrow> a\<lparr>ca_terminals := put_at ident (f r) (ca_terminals a)\<rparr>)"

definition ensure_terminal :: "u64 \<Rightarrow> 'p attachment \<Rightarrow> 'p attachment" where
  "ensure_terminal ident a =
     (case terminal ident a of
       Some _ \<Rightarrow> a
     | None \<Rightarrow>
         let r = on_mirror (set_history_limit (ca_history_limit a)) (remote_new ident (ca_profile a));
             r = remote_set_raster_identity (ca_next_identity a) r
         in tell (Opened ident)
              (a\<lparr>ca_next_identity := ca_next_identity a + 1,
                 ca_terminals := put_at ident r (ca_terminals a),
                 ca_announced := insert ident (ca_announced a)\<rparr>))"

text \<open>The window closed, and the mirror gone with it.\<close>

definition forget_terminal :: "u64 \<Rightarrow> 'p attachment \<Rightarrow> 'p attachment" where
  "forget_terminal ident a =
     (let a = tell (Closed ident) a
      in a\<lparr>ca_terminals := drop_at ident (ca_terminals a), ca_announced := ca_announced a - {ident}\<rparr>)"

section \<open>Attaching\<close>

definition attach_request :: "'p attachment \<Rightarrow> message" where
  "attach_request a =
     (let w = max 0 (width (ca_desktop a)); h = max 0 (height (ca_desktop a))
      in Attach \<lparr>attach_session = ca_session a, attach_columns = word_of_int w, attach_rows = word_of_int h,
           attach_pixel_width = word_of_int (w * max 0 (width (ca_cell_pixels a))),
           attach_pixel_height = word_of_int (h * max 0 (height (ca_cell_pixels a))),
           attach_mode = mode_code (ca_mode a), attach_host_sixel = (if ca_host_sixel a then 1 else 0)\<rparr>)"

definition attach_to :: "u64 \<Rightarrow> extent \<Rightarrow> extent \<Rightarrow> 'p attachment \<Rightarrow> 'p attachment" where
  "attach_to session desktop cell_pixels a =
     (let a = (if session \<noteq> ca_session a then a\<lparr>ca_layout_sent := []\<rparr> else a);
          a = a\<lparr>ca_session := session, ca_desktop := desktop, ca_cell_pixels := cell_pixels,
                ca_snapshot_requested := False\<rparr>
      in request (attach_request a) a)"

definition set_attach_mode :: "attach_mode \<Rightarrow> 'p attachment \<Rightarrow> 'p attachment" where
  "set_attach_mode mode a = a\<lparr>ca_mode := mode\<rparr>"

definition shares :: "'p attachment \<Rightarrow> bool" where
  "shares a \<longleftrightarrow> ca_mode a \<noteq> Take_Over"

definition only_watching :: "'p attachment \<Rightarrow> bool" where
  "only_watching a \<longleftrightarrow> ca_mode a = Watch"

definition set_stats_watched :: "bool \<Rightarrow> 'p attachment \<Rightarrow> 'p attachment" where
  "set_stats_watched on a =
     (if ca_stats_watched a = on then a
      else request (WatchStats (if on then 1 else 0)) (a\<lparr>ca_stats_watched := on\<rparr>))"

definition adopt_session_desktop :: "u16 \<Rightarrow> u16 \<Rightarrow> 'p attachment \<Rightarrow> 'p attachment" where
  "adopt_session_desktop columns rows a =
     (let world = \<lparr>width = uint columns, height = uint rows\<rparr>
      in if columns = 0 \<or> rows = 0 then a
         else if world = ca_session_desktop a then a
         else tell (Has_Desktop world) (a\<lparr>ca_session_desktop := world\<rparr>))"

definition desktop_resized :: "extent \<Rightarrow> extent \<Rightarrow> 'p attachment \<Rightarrow> 'p attachment" where
  "desktop_resized desktop cell_pixels a =
     (if width desktop \<le> 0 \<or> height desktop \<le> 0 then a
      else if desktop = ca_desktop a \<and> cell_pixels = ca_cell_pixels a then a
      else
        let a = a\<lparr>ca_desktop := desktop,
                  ca_cell_pixels := (if width cell_pixels > 0 \<and> height cell_pixels > 0
                                     then cell_pixels else ca_cell_pixels a)\<rparr>
        in if \<not> ca_attached a then a
           else request (ClientResize
             \<lparr>cr_columns = word_of_int (width desktop), cr_rows = word_of_int (height desktop),
              cr_pixel_width = word_of_int (width desktop * max 0 (width (ca_cell_pixels a))),
              cr_pixel_height = word_of_int (height desktop * max 0 (height (ca_cell_pixels a)))\<rparr>) a)"

definition report_layout :: "layout_entry list \<Rightarrow> 'p attachment \<Rightarrow> 'p attachment" where
  "report_layout entries a =
     (if entries = [] then a
      else if \<not> ca_attached a \<or> \<not> ca_sends a then a
      else if entries = ca_layout_sent a then a
      else request (SetLayout entries) (a\<lparr>ca_layout_sent := entries\<rparr>))"

section \<open>Pasting\<close>

definition paste_credit :: nat where
  "paste_credit = 2"

definition paste_chunk_bytes :: nat where
  "paste_chunk_bytes = 64 * 1024"

text \<open>A paste cut into chunks, numbered from \<open>seq\<close>.\<close>

function cut_paste :: "u64 \<Rightarrow> u32 \<Rightarrow> bytes \<Rightarrow> paste_waiting list" where
  "cut_paste term seq bs =
     (if bs = [] then []
      else \<lparr>pw_term = term, pw_seq = seq, pw_last = (length bs \<le> paste_chunk_bytes),
             pw_bytes = take paste_chunk_bytes bs\<rparr>
           # cut_paste term (seq + 1) (drop paste_chunk_bytes bs))"
  by pat_completeness auto

termination cut_paste
  by (relation "measure (\<lambda>(_, _, bs). length bs)") (auto simp: paste_chunk_bytes_def)

declare cut_paste.simps [simp del]

definition chunk_of :: "paste_waiting \<Rightarrow> paste_chunk" where
  "chunk_of w = \<lparr>pc_term = pw_term w, pc_seq = pw_seq w, pc_final_chunk = (if pw_last w then 1 else 0),
     pc_bytes = pw_bytes w\<rparr>"

function pump_paste :: "'p attachment \<Rightarrow> 'p attachment" where
  "pump_paste a =
     (case ca_paste_queue a of
       [] \<Rightarrow> a
     | waiting # rest \<Rightarrow>
         if ca_in_flight a < paste_credit
         then pump_paste (request (PasteChunk (chunk_of waiting)) (a\<lparr>ca_paste_queue := rest\<rparr>)
                            \<lparr>ca_in_flight := ca_in_flight a + 1\<rparr>)
         else a)"
  by pat_completeness auto

termination pump_paste
  by (relation "measure (\<lambda>a. length (ca_paste_queue a))") (auto simp: request_def tell_def)

declare pump_paste.simps [simp del]

definition paste :: "u64 \<Rightarrow> bytes \<Rightarrow> 'p attachment \<Rightarrow> 'p attachment" where
  "paste term bs a =
     (if bs = [] then a
      else
        let chunks = cut_paste term (ca_next_seq a) bs
        in pump_paste (a\<lparr>ca_paste_queue := ca_paste_queue a @ chunks,
                         ca_next_seq := ca_next_seq a + of_nat (length chunks)\<rparr>))"

definition abandon_paste :: "'p attachment \<Rightarrow> 'p attachment" where
  "abandon_paste a = a\<lparr>ca_paste_queue := [], ca_in_flight := 0\<rparr>"

section \<open>Losing the server, or the windows\<close>

definition connection_lost :: "'p attachment \<Rightarrow> 'p attachment" where
  "connection_lost a =
     abandon_paste (a\<lparr>ca_attached := False, ca_session := 0, ca_snapshot_requested := False,
       ca_session_desktop := nowhere, ca_terminals := [], ca_announced := {}, ca_layout_sent := []\<rparr>)"

definition windows_forgotten :: "'p attachment \<Rightarrow> 'p attachment" where
  "windows_forgotten a = (abandon_paste a)\<lparr>ca_announced := {}\<rparr>"

definition request_snapshot :: "'p attachment \<Rightarrow> 'p attachment" where
  "request_snapshot a =
     (if ca_snapshot_requested a then a
      else
        let a = attach_to (ca_session a) (ca_desktop a) (ca_cell_pixels a) (a\<lparr>ca_resnapshots := ca_resnapshots a + 1\<rparr>)
        in a\<lparr>ca_snapshot_requested := True\<rparr>)"

definition heal_if_needed :: "'p attachment \<Rightarrow> 'p attachment" where
  "heal_if_needed a =
     (if list_ex (\<lambda>(_, r). mi_needs_snapshot (rmt_mirror r)) (ca_terminals a) then request_snapshot a else a)"

section \<open>What the server says\<close>

definition adopt_terminal :: "ckvision \<Rightarrow> terminal_state \<Rightarrow> 'p attachment \<Rightarrow> 'p attachment" where
  "adopt_terminal lib state a =
     on_terminal (ts_term state) (on_mirror (\<lambda>m. snd (adopt lib state m))) (ensure_terminal (ts_term state) a)"

definition announce :: "u64 \<Rightarrow> 'p attachment \<Rightarrow> 'p attachment" where
  "announce ident a =
     (let a = a\<lparr>ca_announced := insert ident (ca_announced a)\<rparr>
      in if terminal ident a \<noteq> None then tell (Opened ident) a else a)"

definition layout_entry_of :: "terminal_state \<Rightarrow> layout_entry" where
  "layout_entry_of state = \<lparr>le_term = ts_term state, le_rect = ts_rect state, le_z_order = ts_z_order state,
     le_zoomed = ts_zoomed state, le_tile = ts_tile state\<rparr>"

definition handle_attached :: "ckvision \<Rightarrow> attached \<Rightarrow> 'p attachment \<Rightarrow> 'p attachment" where
  "handle_attached lib granted a =
     (let snapshot = attached_snapshot granted;
          states = sn_terminals snapshot;
          a = a\<lparr>ca_attached := True, ca_attachments := ca_attachments a + 1, ca_snapshot_requested := False,
                ca_session := attached_session granted\<rparr>;
          a = adopt_session_desktop (sn_desktop_columns snapshot) (sn_desktop_rows snapshot) a;
          a = (if ca_stats_watched a then request (WatchStats 1) a else a);
          a = fold (adopt_terminal lib) states a;
          vanished = filter (\<lambda>held. \<not> list_ex (\<lambda>state. ts_term state = held) states) (terminal_ids a);
          a = fold forget_terminal vanished a;
          unannounced = filter (\<lambda>held. held \<notin> ca_announced a) (terminal_ids a);
          a = fold announce unannounced a;
          a = tell (Has_Layout (map layout_entry_of states) From_Snapshot) a
      in tell (Is_Attached (ca_session a)) a)"

definition handle_layout_delta :: "layout_delta \<Rightarrow> 'p attachment \<Rightarrow> 'p attachment" where
  "handle_layout_delta layout a =
     (if ld_session layout = ca_session a
      then tell (Has_Layout (ld_entries layout) From_Delta)
             (adopt_session_desktop (ld_desktop_columns layout) (ld_desktop_rows layout) a)
      else a)"

definition handle_paste_ack :: "'p attachment \<Rightarrow> 'p attachment" where
  "handle_paste_ack a = pump_paste (a\<lparr>ca_in_flight := ca_in_flight a - 1\<rparr>)"

text \<open>Only joining and watching are states a reader can be left in.\<close>

definition handle_reader_mode :: "u8 \<Rightarrow> 'p attachment \<Rightarrow> 'p attachment" where
  "handle_reader_mode mode a =
     (if mode = mode_code Join then tell (Is_Mode Join) (a\<lparr>ca_mode := Join\<rparr>)
      else if mode = mode_code Watch then tell (Is_Mode Watch) (a\<lparr>ca_mode := Watch\<rparr>)
      else a)"

definition handle_detached :: "detached \<Rightarrow> 'p attachment \<Rightarrow> 'p attachment" where
  "handle_detached gone a =
     tell (Is_Detached (detached_reason gone) (detached_text gone)) (a\<lparr>ca_attached := False, ca_layout_sent := []\<rparr>)"

definition handle_grid_delta :: "ckvision \<Rightarrow> grid_delta \<Rightarrow> 'p attachment \<Rightarrow> 'p attachment" where
  "handle_grid_delta lib delta a =
     (if terminal (gd_term delta) a = None then request_snapshot a
      else on_terminal (gd_term delta) (on_mirror (\<lambda>m. snd (mirror_apply lib delta m))) a)"

definition handle_term_opened :: "ckvision \<Rightarrow> term_opened \<Rightarrow> 'p attachment \<Rightarrow> 'p attachment" where
  "handle_term_opened lib opened a =
     on_terminal (to_term opened)
       (on_mirror (mirror_open lib \<lparr>width = uint (to_columns opened), height = uint (to_rows opened)\<rparr>))
       (ensure_terminal (to_term opened) a)"

definition handle_term_closed :: "term_closed \<Rightarrow> 'p attachment \<Rightarrow> 'p attachment" where
  "handle_term_closed closed a =
     (if terminal (tc_term closed) a = None then a
      else
        let a = on_terminal (tc_term closed) (on_mirror (apply_term_closed closed)) a
        in if tc_hold closed = 0 then forget_terminal (tc_term closed) a else a)"

definition handle_term_stats :: "term_stats \<Rightarrow> 'p attachment \<Rightarrow> 'p attachment" where
  "handle_term_stats stats a =
     (if terminal (tst_term stats) a = None then a else tell (Has_Stats (tst_term stats) stats) a)"

section \<open>Pictures\<close>

definition picture_bytes :: "pending_image \<Rightarrow> nat" where
  "picture_bytes p = unat (pi_width p) * unat (pi_height p) * 4"

definition handle_image_begin :: "image_add_begin \<Rightarrow> 'p attachment \<Rightarrow> 'p attachment" where
  "handle_image_begin b a =
     a\<lparr>ca_pending := (ca_pending a)(iab_id b \<mapsto>
         \<lparr>pi_width = iab_width b, pi_height = iab_height b, pi_next_seq = 0, pi_bytes = []\<rparr>)\<rparr>"

definition handle_image_chunk :: "image_chunk \<Rightarrow> 'p attachment \<Rightarrow> 'p attachment" where
  "handle_image_chunk c a =
     (case ca_pending a (ic_id c) of
       None \<Rightarrow> a
     | Some p \<Rightarrow>
         if ic_seq c \<noteq> pi_next_seq p \<or> length (pi_bytes p) + length (ic_bytes c) > picture_bytes p
         then a\<lparr>ca_pending := (ca_pending a)(ic_id c := None)\<rparr>
         else a\<lparr>ca_pending := (ca_pending a)(ic_id c \<mapsto>
                p\<lparr>pi_bytes := pi_bytes p @ ic_bytes c, pi_next_seq := pi_next_seq p + 1\<rparr>)\<rparr>)"

text \<open>A picture whose bytes have all arrived. Its pixels lie close together, so a row is four bytes for each
  column; the object is one the client has just made.\<close>

definition picture_from :: "nat \<Rightarrow> pending_image \<Rightarrow> image" where
  "picture_from object p =
     \<lparr>img_object = object, img_width = uint (pi_width p), img_height = uint (pi_height p),
      img_stride = 4 * uint (pi_width p), img_data = pi_bytes p\<rparr>"

definition handle_image_end :: "nat \<Rightarrow> u64 \<Rightarrow> 'p attachment \<Rightarrow> 'p attachment" where
  "handle_image_end object ident a =
     (case ca_pending a ident of
       None \<Rightarrow> a
     | Some p \<Rightarrow>
         let a = (if picture_bytes p \<noteq> 0 \<and> length (pi_bytes p) = picture_bytes p
                  then a\<lparr>ca_completed := (ca_completed a)(ident \<mapsto> picture_from object p)\<rparr> else a)
         in a\<lparr>ca_pending := (ca_pending a)(ident := None)\<rparr>)"

definition handle_image_place :: "(mirror_raster list \<Rightarrow> int \<Rightarrow> int) \<Rightarrow> image_place \<Rightarrow> 'p attachment \<Rightarrow> 'p attachment" where
  "handle_image_place slot place a =
     (let picture = ca_completed a (ip_id place);
          a = a\<lparr>ca_completed := (ca_completed a)(ip_id place := None)\<rparr>;
          cells = ip_cells place
      in on_terminal (ip_term place)
           (on_mirror (place_image slot (ip_id place) picture (sint (rect_x cells), sint (rect_y cells))
             \<lparr>width = uint (rect_width cells), height = uint (rect_height cells)\<rparr>)) a)"

definition handle_image_remove :: "image_remove \<Rightarrow> 'p attachment \<Rightarrow> 'p attachment" where
  "handle_image_remove gone a =
     on_terminal (ir_term gone) (on_mirror (remove_image (ir_id gone)))
       (a\<lparr>ca_pending := (ca_pending a)(ir_id gone := None),
          ca_completed := (ca_completed a)(ir_id gone := None)\<rparr>)"

section \<open>Any message\<close>

record client_library =
  cl_cells :: ckvision
  cl_slot :: "mirror_raster list \<Rightarrow> int \<Rightarrow> int"
  cl_object :: nat

definition client_handle :: "client_library \<Rightarrow> message \<Rightarrow> 'p attachment \<Rightarrow> bool \<times> 'p attachment" where
  "client_handle lib m a =
     (case m of
       Attached granted \<Rightarrow> (True, handle_attached (cl_cells lib) granted a)
     | LayoutDelta layout \<Rightarrow> (True, handle_layout_delta layout a)
     | PasteAck seq \<Rightarrow> (True, handle_paste_ack a)
     | ReaderMode mode \<Rightarrow> (True, handle_reader_mode mode a)
     | Detached gone \<Rightarrow> (True, handle_detached gone a)
     | GridDelta delta \<Rightarrow> (True, handle_grid_delta (cl_cells lib) delta a)
     | TermOpened opened \<Rightarrow> (True, handle_term_opened (cl_cells lib) opened a)
     | TermClosed closed \<Rightarrow> (True, handle_term_closed closed a)
     | TermMeta meta \<Rightarrow> (True, on_terminal (tm_term meta) (on_mirror (apply_term_meta meta)) a)
     | TermStats stats \<Rightarrow> (True, handle_term_stats stats a)
     | ClipboardSet clipboard \<Rightarrow> (True, on_terminal (cs_term clipboard) (on_mirror (apply_clipboard_set clipboard)) a)
     | PrintState printing \<Rightarrow> (True, on_terminal (ps_term printing) (on_mirror (apply_print_state printing)) a)
     | PrintJobAdded added \<Rightarrow> (True, on_terminal (pja_term added) (on_mirror (apply_print_job_added added)) a)
     | PrintJobData chunk \<Rightarrow>
         (True, on_terminal (pjd_term chunk) (on_mirror (\<lambda>m. snd (apply_print_job_data chunk m))) a)
     | TermDiagnostic said \<Rightarrow> (True, on_terminal (td_term said) (on_mirror (apply_term_diagnostic said)) a)
     | Error failure \<Rightarrow> (True, tell (Has_Error failure) a)
     | SessionList sessions \<Rightarrow> (True, tell (Has_Sessions sessions) a)
     | ImageAddBegin b \<Rightarrow> (True, handle_image_begin b a)
     | ImageChunk c \<Rightarrow> (True, handle_image_chunk c a)
     | ImageEnd ident \<Rightarrow> (True, handle_image_end (cl_object lib) ident a)
     | ImagePlace place \<Rightarrow> (True, handle_image_place (cl_slot lib) place a)
     | ImageRemove gone \<Rightarrow> (True, handle_image_remove gone a)
     | Pong token \<Rightarrow> (True, a)
     | _ \<Rightarrow> (False, a))"

section \<open>What a window asks of its terminal\<close>

definition send_all :: "message list \<Rightarrow> 'p attachment \<Rightarrow> 'p attachment" where
  "send_all ms a = a\<lparr>ca_log := ca_log a @ map Sent ms\<rparr>"

definition window_resized :: "(extent \<Rightarrow> 'p \<Rightarrow> 'p) \<Rightarrow> u64 \<Rightarrow> extent \<Rightarrow> extent \<Rightarrow> 'p attachment \<Rightarrow> 'p attachment" where
  "window_resized with_pixels ident cells cell_pixels a =
     (case terminal ident a of
       None \<Rightarrow> a
     | Some r \<Rightarrow>
         case remote_resize with_pixels (ca_sends a) cells cell_pixels r of
           (ms, r) \<Rightarrow> send_all ms (on_terminal ident (\<lambda>_. r) a))"

definition window_typed :: "u64 \<Rightarrow> bytes \<Rightarrow> 'p attachment \<Rightarrow> 'p attachment" where
  "window_typed ident bs a =
     (case terminal ident a of None \<Rightarrow> a | Some r \<Rightarrow> send_all (remote_input (ca_sends a) bs r) a)"

definition window_closed :: "u64 \<Rightarrow> 'p attachment \<Rightarrow> 'p attachment" where
  "window_closed ident a =
     (case terminal ident a of
       None \<Rightarrow> a
     | Some r \<Rightarrow> case remote_close (ca_sends a) r of (ms, r) \<Rightarrow> send_all ms (on_terminal ident (\<lambda>_. r) a))"

section \<open>Whatever happens to an attachment\<close>

text \<open>A message read, an operation its owner calls, or something a window asks of its terminal.\<close>

datatype happening =
    Hears message
  | Attaches u64 extent extent
  | Wants_Mode attach_mode
  | Wants_Stats bool
  | Screen_Resized extent extent
  | Reports_Layout "layout_entry list"
  | Requests message
  | Pastes u64 bytes
  | Heals
  | Loses_Connection
  | Forgets_Windows
  | Keeps_History nat
  | Knows_Sixel bool
  | Window_Resized u64 extent extent
  | Window_Typed u64 bytes
  | Window_Closed u64

primrec client_step :: "client_library \<Rightarrow> (extent \<Rightarrow> 'p \<Rightarrow> 'p) \<Rightarrow> happening \<Rightarrow> 'p attachment \<Rightarrow> 'p attachment" where
  "client_step lib px (Hears m) a = snd (client_handle lib m a)"
| "client_step lib px (Attaches session desktop pixels) a = attach_to session desktop pixels a"
| "client_step lib px (Wants_Mode mode) a = set_attach_mode mode a"
| "client_step lib px (Wants_Stats on) a = set_stats_watched on a"
| "client_step lib px (Screen_Resized desktop pixels) a = desktop_resized desktop pixels a"
| "client_step lib px (Reports_Layout entries) a = report_layout entries a"
| "client_step lib px (Requests m) a = request m a"
| "client_step lib px (Pastes ident bs) a = paste ident bs a"
| "client_step lib px Heals a = heal_if_needed a"
| "client_step lib px Loses_Connection a = connection_lost a"
| "client_step lib px Forgets_Windows a = windows_forgotten a"
| "client_step lib px (Keeps_History n) a = a\<lparr>ca_history_limit := n\<rparr>"
| "client_step lib px (Knows_Sixel reported) a = a\<lparr>ca_host_sixel := reported\<rparr>"
| "client_step lib px (Window_Resized ident cells pixels) a = window_resized px ident cells pixels a"
| "client_step lib px (Window_Typed ident bs) a = window_typed ident bs a"
| "client_step lib px (Window_Closed ident) a = window_closed ident a"

definition client_run :: "client_library \<Rightarrow> (extent \<Rightarrow> 'p \<Rightarrow> 'p) \<Rightarrow> happening list \<Rightarrow> 'p attachment \<Rightarrow> 'p attachment" where
  "client_run lib px hs = fold (client_step lib px) hs"

inductive client_reachable :: "client_library \<Rightarrow> (extent \<Rightarrow> 'p \<Rightarrow> 'p) \<Rightarrow> 'p attachment \<Rightarrow> bool"
  for lib px where
  client_started: "client_reachable lib px (attachment_new sends profile)"
| client_stepped: "client_reachable lib px a \<Longrightarrow> client_reachable lib px (client_step lib px h a)"

end
