(* ===== verification/Client_Traffic.thy ===== *)
theory Client_Traffic
  imports Client_Facts
begin

text \<open>
  What an attachment sends: pastes cut into chunks and paced by acknowledgements, the one request for a
  snapshot, and what becomes of the pictures that arrive.
\<close>

section \<open>Messages that decide nothing\<close>

definition decides :: "message \<Rightarrow> bool" where
  "decides m \<longleftrightarrow> (case m of Attached g \<Rightarrow> True | PasteAck n \<Rightarrow> True | GridDelta d \<Rightarrow> True | _ \<Rightarrow> False)"

lemma traffic_handlers [simp]:
  "traffic (handle_layout_delta layout a) = traffic a" "traffic (handle_reader_mode mode a) = traffic a"
  "traffic (handle_detached gone a) = traffic a" "traffic (handle_term_opened lib opened a) = traffic a"
  "traffic (handle_term_closed closed a) = traffic a" "traffic (handle_term_stats stats a) = traffic a"
  "traffic (handle_image_begin b a) = traffic a" "traffic (handle_image_chunk c a) = traffic a"
  "traffic (handle_image_end object i a) = traffic a" "traffic (handle_image_place slot place a) = traffic a"
  "traffic (handle_image_remove gone' a) = traffic a"
proof -
  have same: "traffic (a\<lparr>ca_mode := md\<rparr>) = traffic a" "traffic (a\<lparr>ca_pending := p\<rparr>) = traffic a"
    "traffic (a\<lparr>ca_completed := q\<rparr>) = traffic a" "traffic (a\<lparr>ca_pending := p, ca_completed := q\<rparr>) = traffic a"
    for md p q and a :: "'p attachment" by (simp_all add: traffic_def)
  show "traffic (handle_layout_delta layout a) = traffic a" by (simp add: handle_layout_delta_def traffic_tell)
  show "traffic (handle_reader_mode mode a) = traffic a" by (simp add: handle_reader_mode_def traffic_tell same)
  show "traffic (handle_detached gone a) = traffic a" by (simp add: handle_detached_def traffic_tell)
  show "traffic (handle_term_opened lib opened a) = traffic a" by (simp add: handle_term_opened_def)
  show "traffic (handle_term_closed closed a) = traffic a" by (simp add: handle_term_closed_def Let_def)
  show "traffic (handle_term_stats stats a) = traffic a" by (simp add: handle_term_stats_def traffic_tell)
  show "traffic (handle_image_begin b a) = traffic a" by (simp add: handle_image_begin_def same)
  show "traffic (handle_image_chunk c a) = traffic a" by (simp add: handle_image_chunk_def same split: option.split)
  show "traffic (handle_image_end object i a) = traffic a"
    by (simp add: handle_image_end_def Let_def same split: option.split)
  show "traffic (handle_image_place slot place a) = traffic a" by (simp add: handle_image_place_def Let_def same)
  show "traffic (handle_image_remove gone' a) = traffic a" by (simp add: handle_image_remove_def same)
qed

lemma traffic_handle: "\<not> decides m \<Longrightarrow> traffic (snd (client_handle lib m a)) = traffic a"
  by (cases m) (simp_all add: client_handle_def decides_def traffic_tell)

section \<open>Pastes\<close>

definition all_chunks :: "'p attachment \<Rightarrow> paste_chunk list" where
  "all_chunks a = chunks_in (ca_log a) @ map chunk_of (ca_paste_queue a)"

definition text_to :: "u64 \<Rightarrow> paste_chunk list \<Rightarrow> bytes" where
  "text_to i cs = concat (map pc_bytes (filter (\<lambda>c. pc_term c = i) cs))"

lemma text_to_simps [simp]:
  "text_to i [] = []" "text_to i (cs @ ds) = text_to i cs @ text_to i ds"
  "text_to i (c # cs) = (if pc_term c = i then pc_bytes c else []) @ text_to i cs"
  by (simp_all add: text_to_def)

lemma chunk_of_simps [simp]:
  "pc_term (chunk_of w) = pw_term w" "pc_bytes (chunk_of w) = pw_bytes w" "pc_seq (chunk_of w) = pw_seq w"
  "pc_final_chunk (chunk_of w) = (if pw_last w then 1 else 0)"
  by (simp_all add: chunk_of_def)

lemma text_of_cut: "text_to j (map chunk_of (cut_paste i n bs)) = (if j = i then bs else [])"
proof (induction i n bs rule: cut_paste.induct)
  case (1 i n bs)
  then show ?case by (cases "bs = []"; cases "j = i") (subst cut_paste.simps, simp)+
qed

text \<open>Only the last chunk of a paste says it is the last; none is empty, and none too long.\<close>

definition well_cut :: "paste_chunk list \<Rightarrow> bool" where
  "well_cut cs \<longleftrightarrow> (\<forall>c \<in> set cs. pc_bytes c \<noteq> [] \<and> length (pc_bytes c) \<le> paste_chunk_bytes)"

lemma well_cut_simps [simp]: "well_cut []" "well_cut (cs @ ds) \<longleftrightarrow> well_cut cs \<and> well_cut ds"
  by (auto simp: well_cut_def)

lemma cut_well: "well_cut (map chunk_of (cut_paste i n bs))"
proof (induction i n bs rule: cut_paste.induct)
  case (1 i n bs)
  then show ?case by (subst cut_paste.simps) (auto simp: well_cut_def paste_chunk_bytes_def)
qed

lemma cut_final:
  "bs \<noteq> [] \<Longrightarrow> \<exists>k. map (\<lambda>w. pc_final_chunk (chunk_of w)) (cut_paste i n bs) = replicate k 0 @ [1]"
proof (induction i n bs rule: cut_paste.induct)
  case (1 i n bs)
  show ?case
  proof (cases "length bs \<le> paste_chunk_bytes")
    case True
    with 1 show ?thesis
      by (intro exI [of _ 0], subst cut_paste.simps) (simp add: cut_paste.simps [of _ _ "[]"])
  next
    case False
    with 1 obtain k where "map (\<lambda>w. pc_final_chunk (chunk_of w)) (cut_paste i (n + 1) (drop paste_chunk_bytes bs)) = replicate k 0 @ [1]"
      by auto
    with False 1(2) show ?thesis by (intro exI [of _ "Suc k"], subst cut_paste.simps) simp
  qed
qed

lemma pump_facts:
  assumes "ca_sends a"
  shows "all_chunks (pump_paste a) = all_chunks a \<and> ca_sends (pump_paste a) \<and>
     (ca_in_flight a \<le> paste_credit \<longrightarrow> ca_in_flight (pump_paste a) \<le> paste_credit) \<and>
     (ca_paste_queue (pump_paste a) = [] \<or> paste_credit \<le> ca_in_flight (pump_paste a)) \<and>
     length (chunks_in (ca_log (pump_paste a))) + ca_in_flight a = length (chunks_in (ca_log a)) + ca_in_flight (pump_paste a) \<and>
     ca_next_seq (pump_paste a) = ca_next_seq a \<and> ca_snapshot_requested (pump_paste a) = ca_snapshot_requested a \<and>
     asks_in (ca_log (pump_paste a)) = asks_in (ca_log a)"
  using assms
proof (induction a rule: pump_paste.induct)
  case (1 a)
  show ?case
  proof (cases "ca_paste_queue a")
    case Nil
    then show ?thesis using 1 by (subst (1 2 3 4 5 6 7 8 9 10) pump_paste.simps) simp
  next
    case (Cons w rest)
    show ?thesis
    proof (cases "ca_in_flight a < paste_credit")
      case True
      have step: "pump_paste a =
        pump_paste (request (PasteChunk (chunk_of w)) (a\<lparr>ca_paste_queue := rest\<rparr>)\<lparr>ca_in_flight := ca_in_flight a + 1\<rparr>)"
        using True Cons by (subst pump_paste.simps) simp
      show ?thesis
        using 1(1) [OF Cons True] 1(2) True Cons unfolding step by (simp add: all_chunks_def)
    next
      case False
      then have "pump_paste a = a" using Cons by (subst pump_paste.simps) simp
      with False Cons 1(2) show ?thesis by simp
    qed
  qed
qed

text \<open>What a step pastes, and whether it is an acknowledgement. A step is ordinary when it neither gives the
  pastes up nor sends a chunk that is not one of them.\<close>

definition pasted_by :: "u64 \<Rightarrow> happening \<Rightarrow> bytes" where
  "pasted_by j h = (case h of Pastes i bs \<Rightarrow> if i = j then bs else [] | _ \<Rightarrow> [])"

definition pasted_to :: "u64 \<Rightarrow> happening list \<Rightarrow> bytes" where
  "pasted_to j hs = concat (map (pasted_by j) hs)"

definition is_ack :: "happening \<Rightarrow> bool" where
  "is_ack h \<longleftrightarrow> (case h of Hears m \<Rightarrow> (case m of PasteAck n \<Rightarrow> True | _ \<Rightarrow> False) | _ \<Rightarrow> False)"

definition acks_in :: "happening list \<Rightarrow> nat" where
  "acks_in hs = length (filter is_ack hs)"

definition ordinary :: "happening \<Rightarrow> bool" where
  "ordinary h \<longleftrightarrow> \<not> takes_down h \<and> (\<forall>c. h \<noteq> Requests (PasteChunk c))"

text \<open>The credit is never exceeded, and nothing waits while there is credit left.\<close>

definition paced :: "'p attachment \<Rightarrow> bool" where
  "paced a \<longleftrightarrow> ca_sends a \<and> ca_in_flight a \<le> paste_credit \<and>
     (ca_paste_queue a = [] \<or> ca_in_flight a = paste_credit) \<and> well_cut (all_chunks a)"

lemma paced_new: "paced (attachment_new True profile)"
  by (simp add: paced_def attachment_new_def all_chunks_def)

text \<open>What is said of a step that pastes \<open>p\<close> and takes \<open>k\<close> acknowledgements.\<close>

definition paces :: "(u64 \<Rightarrow> bytes) \<Rightarrow> nat \<Rightarrow> 'p attachment \<Rightarrow> 'p attachment \<Rightarrow> bool" where
  "paces p k a b \<longleftrightarrow> (paced a \<longrightarrow> paced b \<and> (\<forall>j. text_to j (all_chunks b) = text_to j (all_chunks a) @ p j) \<and>
     length (chunks_in (ca_log b)) + ca_in_flight a \<le> length (chunks_in (ca_log a)) + ca_in_flight b + k)"

lemma paces_traffic: "traffic b = traffic a \<Longrightarrow> paces (\<lambda>_. []) k a b"
  by (simp add: paces_def paced_def traffic_def all_chunks_def)

lemma paces_pump:
  assumes "ca_sends b" and "ca_in_flight b \<le> ca_in_flight a" and "ca_in_flight a \<le> ca_in_flight b + k"
    and "chunks_in (ca_log b) = chunks_in (ca_log a)" and "well_cut (all_chunks a) \<Longrightarrow> well_cut (all_chunks b)"
    and "\<And>j. text_to j (all_chunks b) = text_to j (all_chunks a) @ p j"
  shows "paces p k a (pump_paste b)"
  using pump_facts [OF assms(1)] assms by (auto simp: paces_def paced_def)

lemma paces_ack: "paces (\<lambda>_. []) 1 a (handle_paste_ack a)"
proof (cases "ca_sends a")
  case True
  then show ?thesis unfolding handle_paste_ack_def by (intro paces_pump) (simp_all add: all_chunks_def)
qed (simp add: paces_def paced_def)

lemma paces_paste: "paces (\<lambda>j. if i = j then bs else []) 0 a (paste i bs a)"
proof (cases "bs = [] \<or> \<not> ca_sends a")
  case False
  then show ?thesis
    unfolding paste_def Let_def using cut_well [of i "ca_next_seq a" bs]
    by (auto intro!: paces_pump simp: all_chunks_def text_of_cut)
qed (auto simp: paste_def paces_def paced_def)

lemma chunks_of_attach [simp]: "chunk_sent (Sent (attach_request a)) = []"
  by (simp add: attach_request_def Let_def)

lemma request_snapshot_chunks:
  "chunks_in (ca_log (request_snapshot a)) = chunks_in (ca_log a)" "ca_paste_queue (request_snapshot a) = ca_paste_queue a"
  "ca_in_flight (request_snapshot a) = ca_in_flight a" "ca_sends (request_snapshot a) = ca_sends a"
  by (simp_all add: request_snapshot_def Let_def)

lemma paces_same:
  "\<lbrakk>chunks_in (ca_log b) = chunks_in (ca_log a); ca_paste_queue b = ca_paste_queue a; ca_in_flight b = ca_in_flight a;
    ca_sends b = ca_sends a\<rbrakk> \<Longrightarrow> paces (\<lambda>_. []) k a b"
  by (simp add: paces_def paced_def all_chunks_def)

lemma paces_heal: "paces (\<lambda>_. []) 0 a (heal_if_needed a)" "paces (\<lambda>_. []) 0 a (request_snapshot a)"
  by (simp_all add: heal_if_needed_def paces_same request_snapshot_chunks)

lemma paces_handle:
  "paces (\<lambda>_. []) (if is_ack (Hears m) then 1 else 0) a (snd (client_handle lib m a))"
proof (cases "decides m")
  case True
  have attached: "paces (\<lambda>_. []) 0 a (handle_attached lib' g a)" for lib' g
    using traffic_attached [of lib' g a] by (intro paces_same) (simp_all add: traffic_def)
  show ?thesis using True paces_ack [of a] attached paces_heal(2) [of a]
    by (auto simp: decides_def client_handle_def is_ack_def handle_grid_delta_def paces_traffic split: message.splits)
next
  case False
  then show ?thesis by (simp add: paces_traffic traffic_handle)
qed

lemma chunks_in_sent: "(\<And>m. m \<in> set ms \<Longrightarrow> chunk_sent (Sent m) = []) \<Longrightarrow> chunks_in (map Sent ms) = []"
  by (auto simp: chunks_in_def)

lemma asks_in_sent: "(\<And>m. m \<in> set ms \<Longrightarrow> \<not> is_ask (Sent m)) \<Longrightarrow> asks_in (map Sent ms) = 0"
  by (auto simp: asks_in_def filter_empty_conv)

lemma remote_says:
  "m \<in> set (fst (remote_resize px sends cells pixels r)) \<Longrightarrow> chunk_sent (Sent m) = [] \<and> \<not> is_ask (Sent m)"
  "m \<in> set (remote_input sends bs r) \<Longrightarrow> chunk_sent (Sent m) = [] \<and> \<not> is_ask (Sent m)"
  "m \<in> set (fst (remote_close sends r)) \<Longrightarrow> chunk_sent (Sent m) = [] \<and> \<not> is_ask (Sent m)"
  by (auto simp: remote_resize_def remote_input_def remote_close_def resize_request_def Let_def split: if_splits)

lemma traffic_send_all:
  "(\<And>m. m \<in> set ms \<Longrightarrow> chunk_sent (Sent m) = [] \<and> \<not> is_ask (Sent m)) \<Longrightarrow> traffic (send_all ms a) = traffic a"
  by (simp add: traffic_def send_all_def chunks_in_sent asks_in_sent)

lemma traffic_windows [simp]:
  "traffic (window_resized px i cells pixels a) = traffic a" "traffic (window_typed i bs a) = traffic a"
  "traffic (window_closed i a) = traffic a"
proof -
  show "traffic (window_resized px i cells pixels a) = traffic a"
  proof (cases "terminal i a")
    case (Some r)
    obtain ms q where "remote_resize px (ca_sends a) cells pixels r = (ms, q)" by fastforce
    with remote_says(1) [of _ px "ca_sends a" cells pixels r] Some show ?thesis
      by (simp add: window_resized_def traffic_send_all)
  qed (simp add: window_resized_def)
  show "traffic (window_typed i bs a) = traffic a"
    unfolding window_typed_def by (auto intro!: traffic_send_all [OF remote_says(2)] split: option.split)
  show "traffic (window_closed i a) = traffic a"
  proof (cases "terminal i a")
    case (Some r)
    obtain ms q where "remote_close (ca_sends a) r = (ms, q)" by fastforce
    with remote_says(3) [of _ "ca_sends a" r] Some show ?thesis
      by (simp add: window_closed_def traffic_send_all)
  qed (simp add: window_closed_def)
qed

lemma traffic_owner [simp]:
  "traffic (set_attach_mode mode a) = traffic a" "traffic (set_stats_watched on a) = traffic a"
  "traffic (desktop_resized desktop pixels a) = traffic a" "traffic (report_layout entries a) = traffic a"
  "traffic (a\<lparr>ca_history_limit := n\<rparr>) = traffic a" "traffic (a\<lparr>ca_host_sixel := s\<rparr>) = traffic a"
  by (simp_all add: traffic_def set_attach_mode_def set_stats_watched_def desktop_resized_def report_layout_def Let_def)

lemma paces_step: "ordinary h \<Longrightarrow> paces (\<lambda>j. pasted_by j h) (if is_ack h then 1 else 0) a (client_step lib px h a)"
proof (cases h)
  case (Hears m)
  then show ?thesis using paces_handle [of m a lib] by (simp add: pasted_by_def)
next
  case (Attaches session desktop pixels)
  then show ?thesis by (auto simp: pasted_by_def intro!: paces_same)
next
  case (Pastes i bs)
  then show ?thesis using paces_paste [of i bs a] by (simp add: pasted_by_def is_ack_def eq_commute)
next
  case (Requests m)
  assume "ordinary h"
  with Requests have "chunk_sent (Sent m) = []" by (auto simp: ordinary_def chunk_sent_def split: message.split)
  with Requests show ?thesis by (auto intro!: paces_same simp: pasted_by_def)
qed (auto simp: pasted_by_def is_ack_def ordinary_def takes_down_def paces_heal intro!: paces_traffic)

lemma paces_run:
  assumes "\<forall>h \<in> set hs. ordinary h" and "paced a"
  shows "paced (client_run lib px hs a) \<and>
     (\<forall>j. text_to j (all_chunks (client_run lib px hs a)) = text_to j (all_chunks a) @ pasted_to j hs) \<and>
     length (chunks_in (ca_log (client_run lib px hs a))) + ca_in_flight a
       \<le> length (chunks_in (ca_log a)) + ca_in_flight (client_run lib px hs a) + acks_in hs"
  using assms
proof (induction hs arbitrary: a)
  case (Cons h hs)
  have step: "paced (client_step lib px h a)"
    "\<forall>j. text_to j (all_chunks (client_step lib px h a)) = text_to j (all_chunks a) @ pasted_by j h"
    "length (chunks_in (ca_log (client_step lib px h a))) + ca_in_flight a
      \<le> length (chunks_in (ca_log a)) + ca_in_flight (client_step lib px h a) + (if is_ack h then 1 else 0)"
    using paces_step [of h a lib px] Cons.prems by (simp_all add: paces_def)
  have run: "client_run lib px (h # hs) a = client_run lib px hs (client_step lib px h a)" by (simp add: client_run_def)
  have sums: "pasted_to j (h # hs) = pasted_by j h @ pasted_to j hs" "acks_in (h # hs) = (if is_ack h then 1 else 0) + acks_in hs" for j
    by (simp_all add: pasted_to_def acks_in_def)
  have "\<forall>h \<in> set hs. ordinary h" using Cons.prems(1) by simp
  from Cons.IH [OF this step(1)] step(2,3) show ?case unfolding run sums by (auto simp del: One_nat_def)
qed (simp add: client_run_def pasted_to_def acks_in_def)

text \<open>Enough acknowledgements, and nothing waits any more.\<close>

lemma ack_shortens:
  assumes "paced a"
  shows "paced (handle_paste_ack a) \<and> length (ca_paste_queue (handle_paste_ack a)) \<le> length (ca_paste_queue a) - 1"
proof -
  have step: "paced (handle_paste_ack a)" using paces_ack [of a] assms by (simp add: paces_def)
  let ?b = "a\<lparr>ca_in_flight := ca_in_flight a - 1\<rparr>"
  have sends: "ca_sends ?b" using assms by (simp add: paced_def)
  have pieces: "all_chunks (pump_paste ?b) = all_chunks ?b"
    "ca_paste_queue (pump_paste ?b) = [] \<or> paste_credit \<le> ca_in_flight (pump_paste ?b)"
    "length (chunks_in (ca_log (pump_paste ?b))) + (ca_in_flight a - 1) = length (chunks_in (ca_log a)) + ca_in_flight (pump_paste ?b)"
    using pump_facts [OF sends] by auto
  have "length (all_chunks (pump_paste ?b)) = length (all_chunks a)" using pieces(1) by (simp add: all_chunks_def)
  then have "length (chunks_in (ca_log (pump_paste ?b))) + length (ca_paste_queue (pump_paste ?b))
     = length (chunks_in (ca_log a)) + length (ca_paste_queue a)" by (simp add: all_chunks_def)
  moreover have "ca_paste_queue a = [] \<or> ca_in_flight a = 2" "ca_in_flight a \<le> 2"
    using assms by (simp_all add: paced_def paste_credit_def)
  ultimately have "length (ca_paste_queue (pump_paste ?b)) \<le> length (ca_paste_queue a) - 1"
    using pieces(2,3) unfolding paste_credit_def by (elim disjE) (simp_all del: One_nat_def)
  with step show ?thesis by (simp add: handle_paste_ack_def)
qed

lemma acks_drain: "paced a \<Longrightarrow> length (ca_paste_queue a) \<le> n \<Longrightarrow> ca_paste_queue ((handle_paste_ack ^^ n) a) = []"
proof (induction n arbitrary: a)
  case (Suc n)
  from ack_shortens [OF Suc.prems(1)] Suc.prems(2)
  have "paced (handle_paste_ack a)" "length (ca_paste_queue (handle_paste_ack a)) \<le> n" by auto
  from Suc.IH [OF this] show ?case by (simp add: funpow_swap1)
qed simp

section \<open>One request for a snapshot\<close>

text \<open>A step that neither answers the request nor makes one of its own.\<close>

definition waits :: "happening \<Rightarrow> bool" where
  "waits h \<longleftrightarrow> (\<forall>g. h \<noteq> Hears (Attached g)) \<and> (\<forall>s d p. h \<noteq> Attaches s d p) \<and> (\<forall>q. h \<noteq> Requests (Attach q)) \<and>
     h \<noteq> Loses_Connection"

definition asked :: "'p attachment \<Rightarrow> nat" where
  "asked a = (if ca_snapshot_requested a then 1 else 0)"

text \<open>From \<open>a\<close> to \<open>b\<close> an attach is sent only where none was asked for, and then one is.\<close>

definition asks_once :: "'p attachment \<Rightarrow> 'p attachment \<Rightarrow> bool" where
  "asks_once a b \<longleftrightarrow> (ca_snapshot_requested a \<longrightarrow> ca_snapshot_requested b) \<and>
     asks_in (ca_log b) + asked a \<le> asks_in (ca_log a) + asked b"

lemma asks_once_same:
  "asks_in (ca_log b) = asks_in (ca_log a) \<Longrightarrow> ca_snapshot_requested b = ca_snapshot_requested a \<Longrightarrow> asks_once a b"
  by (simp add: asks_once_def asked_def)

lemma asks_once_traffic: "traffic b = traffic a \<Longrightarrow> asks_once a b"
  by (simp add: asks_once_same traffic_def)

lemma asks_once_trans: "asks_once a b \<Longrightarrow> asks_once b c \<Longrightarrow> asks_once a c"
  by (auto simp: asks_once_def)

lemma asks_once_request: "asks_once a (request_snapshot a)"
  by (simp add: asks_once_def asked_def request_snapshot_def Let_def)

lemma asks_once_heal: "asks_once a (heal_if_needed a)"
  by (simp add: heal_if_needed_def asks_once_request asks_once_same)

lemma pump_unasked:
  "asks_in (ca_log (pump_paste a)) = asks_in (ca_log a) \<and> ca_snapshot_requested (pump_paste a) = ca_snapshot_requested a"
proof (induction a rule: pump_paste.induct)
  case (1 a)
  then show ?case by (subst (1 2) pump_paste.simps) (simp split: list.split)
qed

lemma asks_once_paste: "asks_once a (paste i bs a)" "asks_once a (handle_paste_ack a)"
  by (simp_all add: asks_once_same paste_def handle_paste_ack_def Let_def pump_unasked)

lemma asks_once_handle: "(\<And>g. m \<noteq> Attached g) \<Longrightarrow> asks_once a (snd (client_handle lib m a))"
proof (cases "decides m")
  case True
  assume "\<And>g. m \<noteq> Attached g"
  with True show ?thesis
    by (auto simp: decides_def client_handle_def handle_grid_delta_def asks_once_request asks_once_paste
        asks_once_traffic split: message.splits)
qed (simp add: asks_once_traffic traffic_handle)

lemma asks_once_step: "waits h \<Longrightarrow> asks_once a (client_step lib px h a)"
proof (cases h)
  case (Hears m)
  assume "waits h"
  with Hears show ?thesis by (auto simp: waits_def intro: asks_once_handle)
next
  case (Requests m)
  assume "waits h"
  with Requests have "\<not> is_ask (Sent m)" by (auto simp: waits_def is_ask_def split: message.split)
  with Requests show ?thesis by (auto intro!: asks_once_same)
next
  case Forgets_Windows
  then show ?thesis by (auto intro!: asks_once_same simp: windows_forgotten_def abandon_paste_def)
qed (auto simp: waits_def asks_once_heal asks_once_paste intro!: asks_once_traffic)

lemma asks_once_run: "\<forall>h \<in> set hs. waits h \<Longrightarrow> asks_once a (client_run lib px hs a)"
proof (induction hs arbitrary: a)
  case (Cons h hs)
  then have "asks_once a (client_step lib px h a)" by (simp add: asks_once_step)
  moreover have "asks_once (client_step lib px h a) (client_run lib px hs (client_step lib px h a))" using Cons by simp
  ultimately show ?case unfolding client_run_def by (simp add: asks_once_trans)
qed (simp add: client_run_def asks_once_same)

end
