(* ===== verification/Client_Pictures.thy ===== *)
theory Client_Pictures
  imports Client_Traffic
begin

text \<open>
  A picture on its way to a mirror: the chunks the server cuts it into (\<^verbatim>\<open>diff_engine.cpp\<close>) are what the
  attachment puts it together from, whatever else happens in between, and placing it hands it over once.
\<close>

section \<open>What a message says of pictures\<close>

definition speaks_of :: "message \<Rightarrow> u64 option" where
  "speaks_of m =
     (case m of ImageAddBegin b \<Rightarrow> Some (iab_id b) | ImageChunk c \<Rightarrow> Some (ic_id c) | ImageEnd i \<Rightarrow> Some i
      | ImagePlace p \<Rightarrow> Some (ip_id p) | ImageRemove r \<Rightarrow> Some (ir_id r) | _ \<Rightarrow> None)"

definition about :: "u64 \<Rightarrow> happening \<Rightarrow> bool" where
  "about i h \<longleftrightarrow> (case h of Hears m \<Rightarrow> speaks_of m = Some i | _ \<Rightarrow> False)"

definition gallery :: "'p attachment \<Rightarrow> (u64 \<rightharpoonup> pending_image) \<times> (u64 \<rightharpoonup> image)" where
  "gallery a = (ca_pending a, ca_completed a)"

definition entry :: "u64 \<Rightarrow> 'p attachment \<Rightarrow> pending_image option \<times> image option" where
  "entry i a = (ca_pending a i, ca_completed a i)"

lemma entry_gallery: "gallery a = gallery b \<Longrightarrow> entry i a = entry i b"
  by (simp add: gallery_def entry_def)

lemma gallery_simps [simp]:
  "gallery (tell t a) = gallery a" "gallery (request m a) = gallery a" "gallery (on_terminal i f a) = gallery a"
  "gallery (ensure_terminal i a) = gallery a" "gallery (forget_terminal i a) = gallery a"
  "gallery (announce i a) = gallery a" "gallery (adopt_session_desktop columns rows a) = gallery a"
  "gallery (attach_to s d p a) = gallery a" "gallery (request_snapshot a) = gallery a"
  "gallery (heal_if_needed a) = gallery a" "gallery (send_all ms a) = gallery a"
  by (simp_all add: gallery_def ensure_terminal_def forget_terminal_def announce_def adopt_session_desktop_def Let_def
      request_snapshot_def heal_if_needed_def send_all_def split: option.split)

lemma gallery_fold [simp]: "(\<And>x b. gallery (f x b) = gallery b) \<Longrightarrow> gallery (fold f xs a) = gallery a"
  by (induction xs arbitrary: a) simp_all

lemma gallery_pump [simp]: "gallery (pump_paste a) = gallery a"
proof (induction a rule: pump_paste.induct)
  case (1 a)
  then show ?case by (subst pump_paste.simps) (simp add: gallery_def split: list.split)
qed

lemma gallery_attached [simp]: "gallery (handle_attached lib granted a) = gallery a"
  unfolding handle_attached_def Let_def by (simp add: adopt_terminal_def) (simp add: gallery_def)

lemma gallery_handle: "speaks_of m = None \<Longrightarrow> gallery (snd (client_handle lib m a)) = gallery a"
proof -
  have same: "gallery (a\<lparr>ca_mode := md\<rparr>) = gallery a" "gallery (a\<lparr>ca_attached := at, ca_layout_sent := ls\<rparr>) = gallery a"
    "gallery (a\<lparr>ca_in_flight := n\<rparr>) = gallery a" for md at ls n by (simp_all add: gallery_def)
  assume "speaks_of m = None"
  then show ?thesis
    by (cases m) (simp_all add: speaks_of_def client_handle_def handle_layout_delta_def handle_paste_ack_def
        handle_reader_mode_def handle_detached_def handle_grid_delta_def handle_term_opened_def handle_term_closed_def
        handle_term_stats_def Let_def same)
qed

lemma entry_handle: "speaks_of m \<noteq> Some i \<Longrightarrow> entry i (snd (client_handle lib m a)) = entry i a"
proof (cases "speaks_of m")
  case None
  then show ?thesis by (intro entry_gallery gallery_handle)
next
  case (Some j)
  assume "speaks_of m \<noteq> Some i"
  with Some have "j \<noteq> i" by simp
  with Some show ?thesis
    by (cases m) (auto simp: speaks_of_def client_handle_def entry_def handle_image_begin_def handle_image_chunk_def
        handle_image_end_def handle_image_place_def handle_image_remove_def Let_def split: option.split)
qed

lemma entry_step: "\<not> about i h \<Longrightarrow> entry i (client_step lib px h a) = entry i a"
proof (cases h)
  case (Hears m)
  assume "\<not> about i h"
  with Hears show ?thesis by (simp add: about_def entry_handle)
qed (auto intro!: entry_gallery simp: gallery_def paste_def set_attach_mode_def set_stats_watched_def desktop_resized_def
    report_layout_def connection_lost_def windows_forgotten_def abandon_paste_def window_resized_def window_typed_def
    window_closed_def send_all_def Let_def gallery_pump [unfolded gallery_def] gallery_simps(9,10) [unfolded gallery_def]
    split: option.split prod.split)

text \<open>What a message makes of the entry it speaks of depends on that entry alone.\<close>

lemma entry_alike: "speaks_of m = Some i \<Longrightarrow> entry i a = entry i b \<Longrightarrow>
    entry i (snd (client_handle lib m a)) = entry i (snd (client_handle lib m b))"
  by (cases m) (auto simp: speaks_of_def client_handle_def entry_def handle_image_begin_def handle_image_chunk_def
      handle_image_end_def handle_image_place_def handle_image_remove_def Let_def split: option.split)

lemma entry_filtered:
  "entry i a = entry i b \<Longrightarrow> entry i (client_run lib px hs a) = entry i (client_run lib px (filter (about i) hs) b)"
proof (induction hs arbitrary: a b)
  case (Cons h hs)
  show ?case
  proof (cases "about i h")
    case True
    then obtain m where m: "h = Hears m" "speaks_of m = Some i" by (auto simp: about_def split: happening.splits)
    with entry_alike [OF m(2) Cons.prems] have "entry i (client_step lib px h a) = entry i (client_step lib px h b)" by simp
    from Cons.IH [OF this] True show ?thesis by (simp add: client_run_def)
  next
    case False
    with Cons.prems have "entry i (client_step lib px h a) = entry i b" by (simp add: entry_step)
    from Cons.IH [OF this] False show ?thesis by (simp add: client_run_def)
  qed
qed (simp add: client_run_def)

section \<open>The chunks put together\<close>

lemma chunks_gathered:
  assumes "length data = n" and "n = picture_bytes p" and "ca_pending a i = Some (p\<lparr>pi_bytes := take at data, pi_next_seq := seq\<rparr>)"
  shows "\<exists>seq'. ca_pending (client_run lib px (map Hears (image_chunks i data n at seq)) a) i
      = Some (p\<lparr>pi_bytes := take (max at n) data, pi_next_seq := seq'\<rparr>) \<and>
    ca_completed (client_run lib px (map Hears (image_chunks i data n at seq)) a) i = ca_completed a i"
  using assms
proof (induction i data n at seq arbitrary: a rule: image_chunks.induct)
  case (1 i data n at seq)
  show ?case
  proof (cases "at < n")
    case True
    let ?k = "unat max_chunk_payload_bytes"
    let ?c = "\<lparr>ic_id = i, ic_seq = seq, ic_bytes = take (min ?k (n - at)) (drop at data)\<rparr>"
    let ?b = "client_step lib px (Hears (ImageChunk ?c)) a"
    have bytes: "take at data @ ic_bytes ?c = take (at + ?k) data"
      using True 1(2) by (simp add: take_add min_def)
    have "length (take at data) + length (ic_bytes ?c) \<le> n" using True 1(2) by simp
    with 1(2-4) have b: "ca_pending ?b i = Some (p\<lparr>pi_bytes := take (at + ?k) data, pi_next_seq := seq + 1\<rparr>)"
      "ca_completed ?b i = ca_completed a i"
      using bytes by (simp_all add: client_handle_def handle_image_chunk_def picture_bytes_def)
    have run: "client_run lib px (map Hears (image_chunks i data n at seq)) a =
        client_run lib px (map Hears (image_chunks i data n (at + ?k) (seq + 1))) ?b"
      using True by (subst image_chunks.simps) (simp add: client_run_def)
    have all: "take (max (at + ?k) n) data = take (max at n) data" using 1(2) True by simp
    from 1(1) [OF True 1(2,3) b(1)] b(2) show ?thesis unfolding run all by auto
  next
    case False
    then have "image_chunks i data n at seq = []" by (subst image_chunks.simps) simp
    with False 1(4) show ?thesis by (auto simp: client_run_def max_def)
  qed
qed

text \<open>A picture the wire can say: its sides fit, and its rows lie close together.\<close>

definition tight :: "image \<Rightarrow> bool" where
  "tight img \<longleftrightarrow> 0 < img_width img \<and> img_width img < 65536 \<and> 0 < img_height img \<and> img_height img < 65536 \<and>
     img_stride img = 4 * img_width img \<and> length (img_data img) = payload_bytes_of img"

lemma payload_gathered:
  assumes "tight img"
  shows "ca_completed (client_run lib px (map Hears (image_payload i img)) a) i = Some (img\<lparr>img_object := cl_object lib\<rparr>) \<and>
    ca_pending (client_run lib px (map Hears (image_payload i img)) a) i = None"
proof -
  let ?p = "\<lparr>pi_width = word_of_int (img_width img), pi_height = word_of_int (img_height img), pi_next_seq = 0, pi_bytes = []\<rparr>"
  let ?n = "payload_bytes_of img"
  define a0 where "a0 = client_step lib px (Hears (ImageAddBegin \<lparr>iab_id = i, iab_width = word_of_int (max 0 (img_width img)),
       iab_height = word_of_int (max 0 (img_height img))\<rparr>)) a"
  define a1 where "a1 = client_run lib px (map Hears (image_chunks i (img_data img) ?n 0 0)) a0"
  have sides: "uint (word_of_int (img_width img) :: u16) = img_width img" "uint (word_of_int (img_height img) :: u16) = img_height img"
    using assms by (simp_all add: tight_def uint_word_of_int)
  then have size: "?n = picture_bytes ?p"
    using assms by (simp add: tight_def payload_bytes_of_def picture_bytes_def nat_mult_distrib flip: nat_uint_eq)
  have "ca_pending a0 i = Some (?p\<lparr>pi_bytes := take 0 (img_data img), pi_next_seq := 0\<rparr>)"
    using assms by (simp add: a0_def client_handle_def handle_image_begin_def tight_def)
  from chunks_gathered [OF _ size this, of lib px] assms obtain seq'
    where "ca_pending a1 i = Some (?p\<lparr>pi_bytes := img_data img, pi_next_seq := seq'\<rparr>)"
    by (auto simp: a1_def tight_def)
  moreover have "?n \<noteq> 0" using assms by (simp add: tight_def payload_bytes_of_def)
  moreover have "client_run lib px (map Hears (image_payload i img)) a = client_step lib px (Hears (ImageEnd i)) a1"
    by (simp add: image_payload_def client_run_def a0_def a1_def)
  ultimately show ?thesis
    using size assms sides
    by (simp add: client_handle_def handle_image_end_def picture_bytes_def picture_from_def tight_def)
qed

section \<open>The picture placed\<close>

lemma update_raster_shown:
  "update_raster i f rs = Some rs' \<Longrightarrow> (\<And>r. mr_wire_id (f r) = mr_wire_id r) \<Longrightarrow> \<exists>r. f r \<in> set rs' \<and> mr_wire_id r = i"
  by (induction rs arbitrary: rs') (auto split: if_splits)

lemma placed_shown:
  "\<exists>r \<in> set (mi_rasters (place_image slot i (Some img) anchor e m)).
     mr_wire_id r = i \<and> mr_image r = img \<and> mr_anchor r = anchor \<and> mr_extent r = e"
proof (cases "update_raster i (\<lambda>r. r\<lparr>mr_anchor := anchor, mr_extent := e, mr_image := img\<rparr>) (mi_rasters m)")
  case (Some rs)
  have same: "mr_wire_id (r\<lparr>mr_anchor := anchor, mr_extent := e, mr_image := img\<rparr>) = mr_wire_id r" for r by simp
  from update_raster_shown [OF Some same] obtain r
    where "r\<lparr>mr_anchor := anchor, mr_extent := e, mr_image := img\<rparr> \<in> set rs" "mr_wire_id r = i" by auto
  then show ?thesis using Some by (intro bexI [of _ "r\<lparr>mr_anchor := anchor, mr_extent := e, mr_image := img\<rparr>"])
      (simp_all add: place_image_def)
qed (simp add: place_image_def Let_def)

end
