(* ===== verification/Properties_Client.thy ===== *)
theory Properties_Client
  imports Client_Pictures Properties_Sync
begin

text \<open>
  What a client's attachment promises whoever draws its windows and whoever types into them: which
  windows are open, that a paste arrives whole and paced, that pictures survive the way, and that a
  view is told what the terminal is doing.
\<close>

section \<open>Small things to try the properties at\<close>

definition sample_client_library :: client_library where
  "sample_client_library = \<lparr>cl_cells = sample_library, cl_slot = (\<lambda>_ _. 1), cl_object = 5\<rparr>"

definition sample_picture :: image where
  "sample_picture = \<lparr>img_object = 3, img_width = 1, img_height = 1, img_stride = 4, img_data = [1, 2, 3, 4]\<rparr>"

definition no_pixels :: "extent \<Rightarrow> nat \<Rightarrow> nat" where
  "no_pixels e p = p"

definition sample_attachment :: "nat attachment" where
  "sample_attachment = attachment_new True 0"

lemma sample_client_reachable: "client_reachable sample_client_library no_pixels sample_attachment"
  unfolding sample_attachment_def by (rule client_started)

text \<open>C6. A client holds one mirror per terminal, in the order of their ids; it has told the window layer
  of no terminal it does not hold, and no two of its terminals share a scene identity.\<close>

theorem client_invariant:
  assumes reach: "client_reachable lib px a"
  shows "sorted_wrt (<) (terminal_ids a) \<and> ca_announced a \<subseteq> set (terminal_ids a) \<and>
     (\<forall>i r. terminal i a = Some r \<longrightarrow> rmt_terminal r = i \<and> mi_raster_identity (rmt_mirror r) = rmt_raster_identity r \<and>
        2000000 \<le> rmt_raster_identity r) \<and>
     (\<forall>i j r q. terminal i a = Some r \<and> terminal j a = Some q \<and> rmt_raster_identity r = rmt_raster_identity q \<longrightarrow> i = j)"
proof -
  have tidy: "in_order (ca_terminals a)" "ca_announced a \<subseteq> set (terminal_ids a)" "well_numbered (ca_next_identity a) (cards a)"
    using reachable_tidy [OF reach] by (simp_all add: tidy_def)
  have card: "cards a i = Some (who r)" if "terminal i a = Some r" for i r using that by (simp add: cards_def)
  have one: "rmt_terminal r = i \<and> mi_raster_identity (rmt_mirror r) = rmt_raster_identity r \<and> 2000000 \<le> rmt_raster_identity r"
    if "terminal i a = Some r" for i r
    using tidy(3) card [OF that] unfolding well_numbered_def who_def by blast
  have two: "i = j" if "terminal i a = Some r" "terminal j a = Some q" "rmt_raster_identity r = rmt_raster_identity q" for i j r q
    using tidy(3) card [OF that(1)] card [OF that(2)] one [OF that(1)] one [OF that(2)] that(3)
    unfolding well_numbered_def who_def by metis
  show ?thesis using tidy one two by (auto simp: in_order_def terminal_ids_def ids_of_def)
qed

lemma client_invariant_witness:
  "sorted_wrt (<) (terminal_ids sample_attachment) \<and> ca_announced sample_attachment \<subseteq> set (terminal_ids sample_attachment)"
  using client_invariant [OF sample_client_reachable] by blast

text \<open>C15. Until its windows are taken down, a client opens a window only for a terminal that has none open,
  and the windows open at any moment are exactly the terminals it remembers having announced.\<close>

theorem no_window_twice:
  assumes reach: "client_reachable lib px a" and calm: "\<forall>h \<in> set hs. \<not> takes_down h"
  shows "\<exists>new. ca_log (client_run lib px hs a) = ca_log a @ new \<and> opens_once (ca_announced a) new \<and>
     windows_after new (ca_announced a) = ca_announced (client_run lib px hs a)"
proof -
  have "windows_kept a (client_run lib px hs a)"
    using calm unfolding client_run_def
  proof (induction hs rule: rev_induct)
    case (snoc h hs)
    then show ?case using step_kept [of h "fold (client_step lib px) hs a" lib px] by (simp add: windows_kept_trans)
  qed simp
  with reachable_tidy [OF reach] show ?thesis by (simp add: windows_kept_def)
qed

definition sample_opened :: message where
  "sample_opened = TermOpened \<lparr>to_term = 7, to_session = 1, to_index = 0,
     to_rect = \<lparr>rect_x = 0, rect_y = 0, rect_width = 2, rect_height = 2\<rparr>, to_title = [], to_columns = 2, to_rows = 2\<rparr>"

lemma no_window_twice_witness:
  "\<exists>new. ca_log (client_run sample_client_library no_pixels [Hears sample_opened, Hears sample_opened] sample_attachment)
       = ca_log sample_attachment @ new \<and> opens_once (ca_announced sample_attachment) new \<and>
     windows_after new (ca_announced sample_attachment)
       = ca_announced (client_run sample_client_library no_pixels [Hears sample_opened, Hears sample_opened] sample_attachment)"
  by (rule no_window_twice [OF sample_client_reachable]) (simp add: takes_down_def)

text \<open>C7. Whatever a reader pastes goes out whole while its windows stay up: the chunks sent and those still waiting, taken
  together, are for every terminal exactly the bytes pasted into it, in their order. None is empty or longer than
  64 KiB, never are more than two sent beyond what was acknowledged, and nothing waits while fewer than two are on
  their way. That is a claim about runs in which the connection is not lost, the windows are not taken down (either
  gives the credit back early and drops what waits), and chunks are sent by pasting only.\<close>

theorem paste_sent_whole:
  fixes lib :: client_library and px :: "extent \<Rightarrow> 'p \<Rightarrow> 'p" and profile :: 'p
  assumes ordinary: "\<forall>h \<in> set hs. ordinary h"
  defines "a \<equiv> client_run lib px hs (attachment_new True profile)"
  shows "text_to j (chunks_in (ca_log a)) @ text_to j (map chunk_of (ca_paste_queue a)) = pasted_to j hs \<and>
     length (chunks_in (ca_log a)) \<le> acks_in hs + 2 \<and> ca_in_flight a \<le> 2 \<and>
     (\<forall>c \<in> set (chunks_in (ca_log a)). pc_bytes c \<noteq> [] \<and> length (pc_bytes c) \<le> 65536) \<and>
     (ca_paste_queue a = [] \<or> ca_in_flight a = 2)"
proof -
  have new: "all_chunks (attachment_new True profile) = []" "ca_in_flight (attachment_new True profile) = 0"
    "ca_log (attachment_new True profile) = []"
    by (simp_all add: all_chunks_def attachment_new_def)
  from paces_run [OF ordinary paced_new, of lib px profile]
  have run: "paced a" "text_to j (all_chunks a) = pasted_to j hs" "length (chunks_in (ca_log a)) \<le> ca_in_flight a + acks_in hs"
    by (simp_all add: a_def new)
  then show ?thesis
    by (auto simp: paced_def all_chunks_def paste_credit_def well_cut_def paste_chunk_bytes_def)
qed

lemma paste_sent_whole_witness:
  "text_to 7 (chunks_in (ca_log (client_run sample_client_library no_pixels [Pastes 7 [65, 66]] (attachment_new True 0))))
       @ text_to 7 (map chunk_of (ca_paste_queue (client_run sample_client_library no_pixels [Pastes 7 [65, 66]] (attachment_new True 0))))
     = pasted_to 7 [Pastes 7 [65, 66]]"
  using paste_sent_whole [of "[Pastes 7 [65, 66]]" 7 sample_client_library no_pixels 0] by (simp add: ordinary_def takes_down_def)

text \<open>A paste finishes: as many acknowledgements as there are chunks waiting leave none waiting.\<close>

theorem paste_finishes:
  assumes "\<forall>h \<in> set hs. ordinary h" and "length (ca_paste_queue (client_run lib px hs (attachment_new True profile))) \<le> length seqs"
  shows "ca_paste_queue (client_run lib px (hs @ map (\<lambda>n. Hears (PasteAck n)) seqs) (attachment_new True profile)) = []"
proof -
  let ?a = "client_run lib px hs (attachment_new True profile)"
  have acks: "client_run lib px (map (\<lambda>n. Hears (PasteAck n)) seqs) b = (handle_paste_ack ^^ length seqs) b" for b
    by (induction seqs arbitrary: b) (simp_all add: client_run_def client_handle_def funpow_swap1)
  have "paced ?a" using paces_run [OF assms(1) paced_new, of lib px profile] by simp
  from acks_drain [OF this assms(2)] acks [of ?a] show ?thesis by (simp add: client_run_def)
qed

lemma paste_finishes_witness:
  "ca_paste_queue (client_run sample_client_library no_pixels
     ([Pastes 7 [65, 66]] @ map (\<lambda>n. Hears (PasteAck n)) [1]) (attachment_new True 0)) = []"
  by (rule paste_finishes) (simp_all add: ordinary_def takes_down_def client_run_def paste_def Let_def
      cut_paste.simps attachment_new_def pump_paste.simps paste_credit_def paste_chunk_bytes_def)

text \<open>A client that has lost track asks once: however often it heals and whatever deltas arrive, until the
  snapshot comes or it attaches anew it sends at most one attach, and none where one is on its way.\<close>

theorem heals_once:
  assumes "\<forall>h \<in> set hs. waits h"
  shows "asks_in (ca_log (client_run lib px hs a)) \<le> asks_in (ca_log a) + 1 \<and>
     (ca_snapshot_requested a \<longrightarrow>
        asks_in (ca_log (client_run lib px hs a)) \<le> asks_in (ca_log a) \<and> ca_snapshot_requested (client_run lib px hs a))"
  using asks_once_run [OF assms, of a lib px] by (auto simp: asks_once_def asked_def split: if_splits)

lemma heals_once_witness:
  "asks_in (ca_log (client_run sample_client_library no_pixels
      [Hears (GridDelta \<lparr>gd_term = 7, gd_seq = 1, gd_ops = []\<rparr>), Heals, Heals] sample_attachment))
     \<le> asks_in (ca_log sample_attachment) + 1"
  using heals_once [of "[Hears (GridDelta \<lparr>gd_term = 7, gd_seq = 1, gd_ops = []\<rparr>), Heals, Heals]"
      sample_client_library no_pixels sample_attachment] by (simp add: waits_def)

text \<open>C14. A picture survives the way: the messages the server cuts it into, with anything at all between
  them, and the one that places it, leave it in the mirror of its terminal with its pixels, at its place,
  and nothing of it behind.\<close>

theorem picture_arrives:
  assumes img: "tight img" and sent: "filter (about i) hs = map Hears (image_payload i img)"
    and order: "in_order (ca_terminals (client_run lib px hs a))" and held: "terminal t (client_run lib px hs a) \<noteq> None"
    and place: "\<bar>fst anchor\<bar> < 32768" "\<bar>snd anchor\<bar> < 32768" "0 \<le> width e" "width e < 65536" "0 \<le> height e" "height e < 65536"
  defines "b \<equiv> client_step lib px (Hears (place_of t i anchor e)) (client_run lib px hs a)"
  shows "\<exists>r q. terminal t b = Some r \<and> q \<in> set (mi_rasters (rmt_mirror r)) \<and> mr_wire_id q = i \<and>
       img_data (mr_image q) = img_data img \<and> img_width (mr_image q) = img_width img \<and>
       img_height (mr_image q) = img_height img \<and> mr_anchor q = anchor \<and> mr_extent q = e \<and>
     ca_completed b i = None \<and> ca_pending b i = None"
proof -
  let ?a = "client_run lib px hs a"
  have "entry i ?a = entry i (client_run lib px (map Hears (image_payload i img)) a)"
    using entry_filtered [OF refl, of i lib px hs a] sent by simp
  with payload_gathered [OF img, of lib px i a]
  have got: "ca_completed ?a i = Some (img\<lparr>img_object := cl_object lib\<rparr>)" "ca_pending ?a i = None"
    by (simp_all add: entry_def)
  obtain r where r: "terminal t ?a = Some r" using held by blast
  have signed: "sint (word_of_int n :: i16) = n" if "\<bar>n\<bar> < 32768" for n
    using that by (simp add: sint_sbintrunc' signed_take_bit_int_eq_self_iff abs_less_iff)
  have there: "(sint (word_of_int (fst anchor) :: i16), sint (word_of_int (snd anchor) :: i16)) = anchor"
    using place(1,2) by (simp add: signed)
  have size: "\<lparr>width = uint (word_of_int (max 0 (width e)) :: u16), height = uint (word_of_int (max 0 (height e)) :: u16)\<rparr> = e"
    using place(3-6) by (simp add: uint_word_of_int)
  have b: "b = on_terminal t (on_mirror (place_image (cl_slot lib) i (Some (img\<lparr>img_object := cl_object lib\<rparr>)) anchor e))
      (?a\<lparr>ca_completed := (ca_completed ?a)(i := None)\<rparr>)"
    using got(1) there size by (simp add: b_def client_handle_def place_of_def handle_image_place_def Let_def)
  have "terminal t b = Some (on_mirror (place_image (cl_slot lib) i (Some (img\<lparr>img_object := cl_object lib\<rparr>)) anchor e) r)"
    using order r unfolding b by (simp add: terminal_on_terminal) (simp add: terminal_def)
  moreover obtain q where "q \<in> set (mi_rasters (place_image (cl_slot lib) i (Some (img\<lparr>img_object := cl_object lib\<rparr>)) anchor e (rmt_mirror r)))"
    "mr_wire_id q = i" "mr_image q = img\<lparr>img_object := cl_object lib\<rparr>" "mr_anchor q = anchor" "mr_extent q = e"
    using placed_shown [of "cl_slot lib" i _ anchor e] by blast
  moreover have "ca_completed b i = None" "ca_pending b i = None" using got(2) by (simp_all add: b)
  ultimately show ?thesis by (intro exI [of _ "on_mirror (place_image (cl_slot lib) i
      (Some (img\<lparr>img_object := cl_object lib\<rparr>)) anchor e) r"] exI [of _ q]) simp
qed

lemma sample_picture_payload: "image_payload 9 sample_picture =
    [ImageAddBegin \<lparr>iab_id = 9, iab_width = 1, iab_height = 1\<rparr>,
     ImageChunk \<lparr>ic_id = 9, ic_seq = 0, ic_bytes = [1, 2, 3, 4]\<rparr>, ImageEnd 9]"
  by (simp add: image_payload_def sample_picture_def payload_bytes_of_def image_chunks.simps max_chunk_payload_bytes_def)

definition sample_arrival :: "happening list" where
  "sample_arrival = Hears sample_opened # map Hears (image_payload 9 sample_picture)"

lemma picture_arrives_witness:
  "\<exists>r q. terminal 7 (client_step sample_client_library no_pixels (Hears (place_of 7 9 (0, 0) \<lparr>width = 1, height = 1\<rparr>))
       (client_run sample_client_library no_pixels sample_arrival sample_attachment)) = Some r \<and>
     q \<in> set (mi_rasters (rmt_mirror r)) \<and> mr_wire_id q = 9 \<and> img_data (mr_image q) = [1, 2, 3, 4]"
proof -
  let ?a = "client_step sample_client_library no_pixels (Hears sample_opened) sample_attachment"
  have opened: "terminal 7 ?a \<noteq> None" "in_order (ca_terminals ?a)"
    by (simp_all add: client_handle_def sample_opened_def handle_term_opened_def sample_attachment_def attachment_new_def
        terminal_def ensure_terminal_def on_terminal_def Let_def)
  have kept: "ca_terminals (client_step sample_client_library no_pixels (Hears m) b) = ca_terminals b"
    if "m \<in> set (image_payload 9 sample_picture)" for m b
    using that by (auto simp: sample_picture_payload client_handle_def handle_image_begin_def handle_image_chunk_def
        handle_image_end_def Let_def split: option.split)
  have same: "ca_terminals (client_run sample_client_library no_pixels sample_arrival sample_attachment) = ca_terminals ?a"
    using kept by (simp add: sample_arrival_def client_run_def sample_picture_payload)
  have "filter (about 9) sample_arrival = map Hears (image_payload 9 sample_picture)"
    by (simp add: sample_arrival_def sample_picture_payload about_def speaks_of_def sample_opened_def)
  moreover have "tight sample_picture" by (simp add: tight_def sample_picture_def payload_bytes_of_def)
  ultimately show ?thesis
    using picture_arrives [of sample_picture 9 sample_arrival sample_client_library no_pixels sample_attachment 7 "(0, 0)"
        "\<lparr>width = 1, height = 1\<rparr>"] opened same
    by (fastforce simp: terminal_def sample_picture_def)
qed

text \<open>A view is told what the terminal's program has switched on: a mirror that shows what the server's
  emulator shows answers every mode, the mouse level, the keyboard flags, the cursor and the size as the
  emulator has them.\<close>

theorem status_reaches_view:
  assumes shown: "view_of (mi_state (rmt_mirror r)) = source_view src"
    and st: "src_status src = st"
    and levels: "st_mouse_tracking st = st_mouse_tracking st AND 3" "st_keyboard_flags st = st_keyboard_flags st AND 31"
    and cursor: "0 \<le> st_cursor_x st" "st_cursor_x st < 65536" "0 \<le> st_cursor_y st" "st_cursor_y st < 65536"
  shows "rst_cells (remote_status r) = st_cells st \<and>
     rst_bracketed_paste (remote_status r) = st_bracketed_paste st \<and>
     rst_application_cursor_keys (remote_status r) = st_application_cursor_keys st \<and>
     rst_focus_reporting (remote_status r) = st_focus_reporting st \<and>
     rst_alternate_buffer (remote_status r) = st_alternate_buffer st \<and>
     rst_alternate_scroll (remote_status r) = st_alternate_scroll st \<and>
     rst_mouse_reporting (remote_status r) = st_mouse_reporting st \<and>
     rst_mouse_encoding (remote_status r) = (if \<not> st_mouse_reporting st then No_Encoding else if st_mouse_sgr st then Sgr else X10) \<and>
     rst_mouse_tracking (remote_status r) = st_mouse_tracking st \<and>
     rst_keyboard_flags (remote_status r) = st_keyboard_flags st \<and>
     rst_cursor_x (remote_status r) = st_cursor_x st \<and> rst_cursor_y (remote_status r) = st_cursor_y st \<and>
     rst_cursor_visible (remote_status r) = st_cursor_visible st \<and> rst_cursor_blink (remote_status r) = st_cursor_blink st \<and>
     rst_cursor_shape (remote_status r) = st_cursor_shape st"
proof -
  from shown have state: "gs_cells (mi_state (rmt_mirror r)) = st_cells st" "gs_modes (mi_state (rmt_mirror r)) = modes_of st"
    "gs_cursor (mi_state (rmt_mirror r)) = cursor_of st"
    by (simp_all add: view_of_def source_view_def st)
  have told: "drop_bit 7 (modes_of st AND mouse_tracking_mask) = st_mouse_tracking st"
    "drop_bit 9 (modes_of st AND keyboard_flags_mask) = st_keyboard_flags st"
    using modes_told(8,9) [of st] levels by (simp_all only:)
  show ?thesis using cursor
    by (simp add: remote_status_def Let_def state modes_told(1-7) told encoding_of_def cursor_of_def uint_word_of_int
        del: One_nat_def drop_bit_and)
qed

definition sample_remote :: "nat remote_terminal" where
  "sample_remote = on_mirror (\<lambda>m. m\<lparr>mi_state := state_of (source_view (sample_source 65 66))\<rparr>) (remote_new 7 0)"

lemma status_reaches_view_witness:
  "rst_bracketed_paste (remote_status sample_remote) = st_bracketed_paste (src_status (sample_source 65 66)) \<and>
   rst_cells (remote_status sample_remote) = \<lparr>width = 2, height = 1\<rparr>"
proof -
  have "view_of (mi_state (rmt_mirror sample_remote)) = source_view (sample_source 65 66)"
    by (simp add: sample_remote_def view_of_def state_of_def)
  from status_reaches_view [OF this refl] show ?thesis by (simp add: sample_source_def sample_status_def)
qed




text \<open>A paste given up while the connection lives gives its credit back too early: what was on its way is
  still acknowledged, so a second paste puts four chunks on the way with none acknowledged.\<close>

theorem credit_given_back_early:
  "length (chunks_in (ca_log (client_run lib px
     [Pastes i (replicate 200000 0), Forgets_Windows, Pastes i (replicate 200000 0)] (attachment_new True profile)))) = 4"
proof -
  let ?bs = "replicate 200000 0 :: bytes"
  have cut: "length (cut_paste i n ?bs) = 4" for n
    by (simp add: cut_paste.simps [of i] paste_chunk_bytes_def)
  have pasted: "length (chunks_in (ca_log (paste i ?bs a))) = length (chunks_in (ca_log a)) + 2 \<and>
      ca_sends (paste i ?bs a)" if "ca_sends a" "ca_paste_queue a = []" "ca_in_flight a = 0" for a :: "'b attachment"
  proof -
    let ?b = "a\<lparr>ca_paste_queue := ca_paste_queue a @ cut_paste i (ca_next_seq a) ?bs,
                ca_next_seq := ca_next_seq a + of_nat (length (cut_paste i (ca_next_seq a) ?bs))\<rparr>"
    have b: "ca_sends ?b" "ca_in_flight ?b = 0" "length (all_chunks ?b) = length (chunks_in (ca_log a)) + 4"
      using that cut [of "ca_next_seq a"] by (simp_all add: all_chunks_def)
    have facts: "length (all_chunks (pump_paste ?b)) = length (chunks_in (ca_log a)) + 4" "ca_sends (pump_paste ?b)"
      "ca_in_flight (pump_paste ?b) \<le> 2" "ca_paste_queue (pump_paste ?b) = [] \<or> 2 \<le> ca_in_flight (pump_paste ?b)"
      "length (chunks_in (ca_log (pump_paste ?b))) = length (chunks_in (ca_log a)) + ca_in_flight (pump_paste ?b)"
      using pump_facts [OF b(1)] b(2,3) by (simp_all add: paste_credit_def)
    have "paste i ?bs a = pump_paste ?b" by (simp add: paste_def Let_def)
    with facts show ?thesis by (auto simp: all_chunks_def)
  qed
  have new: "ca_sends (attachment_new True profile)" "ca_paste_queue (attachment_new True profile) = []"
    "ca_in_flight (attachment_new True profile) = 0" "ca_log (attachment_new True profile) = []"
    by (simp_all add: attachment_new_def)
  let ?a = "windows_forgotten (paste i ?bs (attachment_new True profile))"
  have "ca_sends ?a" "ca_paste_queue ?a = []" "ca_in_flight ?a = 0" "length (chunks_in (ca_log ?a)) = 2"
    using pasted [OF new(1-3)] new(4) by (simp_all add: windows_forgotten_def abandon_paste_def)
  from pasted [OF this(1-3)] this(4) show ?thesis by (simp add: client_run_def)
qed

text \<open>A host that no longer knows its cell size is told the server again and again: while the size kept
  from before differs, every look at an unchanged screen sends another resize.\<close>

theorem unknown_pixels_resent:
  assumes "ca_attached a" and "ca_sends a" and "ca_cell_pixels a \<noteq> nowhere" and "0 < width desktop" and "0 < height desktop"
  shows "length (ca_log ((desktop_resized desktop nowhere ^^ n) a)) = length (ca_log a) + n"
proof -
  have one: "ca_attached (desktop_resized desktop nowhere b) \<and> ca_sends (desktop_resized desktop nowhere b) \<and>
      ca_cell_pixels (desktop_resized desktop nowhere b) = ca_cell_pixels b \<and>
      length (ca_log (desktop_resized desktop nowhere b)) = length (ca_log b) + 1"
    if "ca_attached b" "ca_sends b" "ca_cell_pixels b \<noteq> nowhere" for b :: "'a attachment"
    using that assms(4,5) by (auto simp: desktop_resized_def nowhere_def Let_def request_def tell_def)
  have "ca_attached ((desktop_resized desktop nowhere ^^ n) a) \<and> ca_sends ((desktop_resized desktop nowhere ^^ n) a) \<and>
      ca_cell_pixels ((desktop_resized desktop nowhere ^^ n) a) = ca_cell_pixels a \<and>
      length (ca_log ((desktop_resized desktop nowhere ^^ n) a)) = length (ca_log a) + n"
    using assms(1-3) one by (induction n) simp_all
  then show ?thesis by simp
qed

lemma unknown_pixels_resent_witness:
  "length (ca_log ((desktop_resized \<lparr>width = 80, height = 25\<rparr> nowhere ^^ 20)
     (sample_attachment\<lparr>ca_attached := True, ca_cell_pixels := \<lparr>width = 8, height = 16\<rparr>\<rparr>))) = 20"
  using unknown_pixels_resent [of "sample_attachment\<lparr>ca_attached := True, ca_cell_pixels := \<lparr>width = 8, height = 16\<rparr>\<rparr>"
      "\<lparr>width = 80, height = 25\<rparr>" 20] by (simp add: sample_attachment_def attachment_new_def nowhere_def)

end
