(* ===== verification/Keymap.thy ===== *)
theory Keymap
  imports Shell
begin

text \<open>
  The vocabulary of key bindings: \<^verbatim>\<open>src/src/common/keymap.cpp\<close> and its header. Names are looked up in
  the tables of the source; a chord has one spelling, and what a reader may write is parsed into it.

  The keys that have a name are ckVision's, and so are their names: the type \<open>'k\<close> of such keys and the
  two functions between keys and names are parameters.
\<close>

section \<open>Actions and contexts\<close>

datatype action =
    New_Terminal | Close_Terminal | Move_Terminal | Rename_Terminal | Print_Output | Printer_Settings
  | Next_Terminal | Previous_Terminal | Window_List | Zoom | Minimize | Move_Resize
  | Tile_Horizontally | Tile_Vertically | Tile_Grid | Cascade | Menu_Bar | Copy_Mode_Action | Paste_Action
  | Detach_Action | Sessions | New_Session_Action | Rename_Session | Kill_Session | Key_Reference | Settings_Action
  | Toggle_Status_Bar | Fit_Desktop | Show_Cpu_Usage | Show_Memory_Rss | Show_Memory_Real | About | Send_Prefix | Quit
  | Kill_Terminal | Show_Clock | Show_Date | Show_Date_Time

datatype key_context = In_Terminal | In_Desktop | In_Copy_Mode | In_Picker | In_Move_Resize

definition action_names :: "(bytes \<times> action) list" where
  "action_names = [
     (str ''new-terminal'', New_Terminal), (str ''close-terminal'', Close_Terminal), (str ''kill-terminal'', Kill_Terminal),
     (str ''move-terminal'', Move_Terminal), (str ''rename-terminal'', Rename_Terminal),
     (str ''print-output'', Print_Output), (str ''printer-settings'', Printer_Settings),
     (str ''next-terminal'', Next_Terminal), (str ''previous-terminal'', Previous_Terminal),
     (str ''window-list'', Window_List), (str ''zoom'', Zoom), (str ''minimize'', Minimize),
     (str ''move-resize'', Move_Resize), (str ''tile-horizontally'', Tile_Horizontally),
     (str ''tile-vertically'', Tile_Vertically), (str ''tile-grid'', Tile_Grid), (str ''cascade'', Cascade),
     (str ''menu-bar'', Menu_Bar), (str ''copy-mode'', Copy_Mode_Action), (str ''paste'', Paste_Action),
     (str ''detach'', Detach_Action), (str ''sessions'', Sessions), (str ''new-session'', New_Session_Action),
     (str ''rename-session'', Rename_Session), (str ''kill-session'', Kill_Session),
     (str ''key-reference'', Key_Reference), (str ''settings'', Settings_Action), (str ''status-bar'', Toggle_Status_Bar),
     (str ''fit-desktop'', Fit_Desktop), (str ''show-cpu'', Show_Cpu_Usage), (str ''show-memory-rss'', Show_Memory_Rss),
     (str ''show-memory-real'', Show_Memory_Real), (str ''show-clock'', Show_Clock), (str ''show-date'', Show_Date),
     (str ''show-date-time'', Show_Date_Time), (str ''about'', About), (str ''send-prefix'', Send_Prefix),
     (str ''quit'', Quit)]"

definition key_context_names :: "(bytes \<times> key_context) list" where
  "key_context_names = [(str ''terminal'', In_Terminal), (str ''desktop'', In_Desktop), (str ''copy-mode'', In_Copy_Mode),
     (str ''picker'', In_Picker), (str ''move-resize'', In_Move_Resize)]"

text \<open>The first row of a table that fits, read either way.\<close>

definition name_in :: "(bytes \<times> 'a) list \<Rightarrow> 'a \<Rightarrow> bytes" where
  "name_in table v = (case find (\<lambda>(_, w). w = v) table of None \<Rightarrow> [] | Some (name, _) \<Rightarrow> name)"

definition value_in :: "(bytes \<times> 'a) list \<Rightarrow> bytes \<Rightarrow> 'a option" where
  "value_in table name = map_option snd (find (\<lambda>(candidate, _). candidate = name) table)"

definition action_name :: "action \<Rightarrow> bytes" where
  "action_name = name_in action_names"

definition key_context_name :: "key_context \<Rightarrow> bytes" where
  "key_context_name = name_in key_context_names"

definition parse_action :: "bytes \<Rightarrow> action option" where
  "parse_action = value_in action_names"

definition parse_key_context :: "bytes \<Rightarrow> key_context option" where
  "parse_key_context = value_in key_context_names"

text \<open>A list of names with something between them.\<close>

definition joined :: "bytes \<Rightarrow> bytes list \<Rightarrow> bytes" where
  "joined between names = fold (\<lambda>name out. (if out = [] then [] else out @ between) @ name) names []"

definition action_name_list :: bytes where
  "action_name_list = joined (str '', '') (map fst action_names)"

definition key_context_name_list :: bytes where
  "key_context_name_list = joined (str '', '') (map fst key_context_names)"

section \<open>Chords\<close>

datatype modifier = Ctrl | Shift | Alt

datatype 'k key = No_Key | Char_Key | Named_Key 'k

record 'k chord =
  chord_key :: "'k key"
  chord_modifiers :: "modifier set"
  chord_text :: bytes

record 'k key_names =
  kn_name :: "'k \<Rightarrow> bytes"
  kn_from :: "bytes \<Rightarrow> 'k option"

definition is_printable_ascii :: "u8 \<Rightarrow> bool" where
  "is_printable_ascii c \<longleftrightarrow> c > 0x20 \<and> c < 0x7F"

definition lower_ascii :: "u8 \<Rightarrow> u8" where
  "lower_ascii c = (if c \<ge> 65 \<and> c \<le> 90 then c - 65 + 97 else c)"

definition upper_ascii :: "u8 \<Rightarrow> u8" where
  "upper_ascii c = (if c \<ge> 97 \<and> c \<le> 122 then c - 97 + 65 else c)"

text \<open>\<open>C-\<close>, \<open>S-\<close>, \<open>A-\<close> and \<open>M-\<close>.\<close>

definition modifier_of :: "u8 \<Rightarrow> modifier option" where
  "modifier_of c = (if c = 67 then Some Ctrl else if c = 83 then Some Shift else if c = 65 \<or> c = 77 then Some Alt else None)"

text \<open>The modifier prefixes of a chord, in any order and each at most once.\<close>

fun strip_modifiers :: "modifier set \<Rightarrow> bytes \<Rightarrow> (modifier set \<times> bytes) option" where
  "strip_modifiers ms (c # d # rest) =
     (if d \<noteq> 45 then Some (ms, c # d # rest)
      else case modifier_of c of
        None \<Rightarrow> Some (ms, c # d # rest)
      | Some m \<Rightarrow> if m \<in> ms then None else strip_modifiers (insert m ms) rest)"
| "strip_modifiers ms text = Some (ms, text)"

definition char_chord :: "modifier set \<Rightarrow> bytes \<Rightarrow> 'k chord" where
  "char_chord ms text = \<lparr>chord_key = Char_Key, chord_modifiers = ms, chord_text = text\<rparr>"

definition parse_chord :: "'k key_names \<Rightarrow> bytes \<Rightarrow> 'k chord option" where
  "parse_chord names text =
     (case strip_modifiers {} text of
       None \<Rightarrow> None
     | Some (ms, text) \<Rightarrow>
         if text = [] then None
         else if length text = 2 \<and> hd text = 94 \<and> is_printable_ascii (text ! 1)
         then (if ms \<noteq> {} then None else Some (char_chord {Ctrl} [lower_ascii (text ! 1)]))
         else if text = str ''Space'' then Some (char_chord ms [32])
         else case kn_from names text of
           Some k \<Rightarrow> Some \<lparr>chord_key = Named_Key k, chord_modifiers = ms, chord_text = []\<rparr>
         | None \<Rightarrow>
             if length text = 1 \<and> is_printable_ascii (hd text)
             then (if Shift \<in> ms then None
                   else Some (char_chord ms (if Ctrl \<in> ms then [lower_ascii (hd text)] else text)))
             else None)"

definition chord_spelling :: "'k key_names \<Rightarrow> 'k chord \<Rightarrow> bytes" where
  "chord_spelling names c =
     (case chord_key c of
       No_Key \<Rightarrow> []
     | _ \<Rightarrow>
         if chord_key c = Char_Key \<and> chord_modifiers c = {Ctrl} \<and> length (chord_text c) = 1 \<and> chord_text c \<noteq> [32]
         then [94, upper_ascii (hd (chord_text c))]
         else
           let spelling = (if Ctrl \<in> chord_modifiers c then str ''C-'' else []) @ (if Alt \<in> chord_modifiers c then str ''A-'' else [])
           in case chord_key c of
                Named_Key k \<Rightarrow> spelling @ (if Shift \<in> chord_modifiers c then str ''S-'' else []) @ kn_name names k
              | _ \<Rightarrow> spelling @ (if chord_text c = [32] then str ''Space'' else chord_text c))"

record bind_directive =
  bd_context :: key_context
  bd_chord :: bytes
  bd_action :: "action option"

section \<open>Names round\<close>

lemma str_eq [simp]: "str s = str t \<longleftrightarrow> s = t"
proof -
  have "inj (\<lambda>c. word_of_nat (of_char c) :: u8)"
  proof (rule injI)
    fix c d :: char
    assume "(word_of_nat (of_char c) :: u8) = word_of_nat (of_char d)"
    then have "unat (word_of_nat (of_char c) :: u8) = unat (word_of_nat (of_char d) :: u8)" by simp
    then show "c = d" by (simp add: unat_of_nat take_bit_eq_mod)
  qed
  then show ?thesis by (simp add: str_def inj_map_eq_map)
qed

lemma str_simps [simp]: "str [] = []" "str s = [] \<longleftrightarrow> s = []" "[] = str s \<longleftrightarrow> s = []" "length (str s) = length s"
  by (auto simp: str_def)

text \<open>A value of a table without double names is read back from its name.\<close>

lemma value_name:
  assumes "distinct (map fst table)" and "v \<in> snd ` set table"
  shows "value_in table (name_in table v) = Some v"
proof -
  obtain r where "find (\<lambda>(_, w). w = v) table = Some r"
    using assms(2) by (cases "find (\<lambda>(_, w). w = v) table") (auto simp: find_None_iff)
  moreover from this have "r \<in> set table" "snd r = v" by (auto simp: find_Some_iff in_set_conv_nth)
  ultimately obtain name where f: "find (\<lambda>(_, w). w = v) table = Some (name, v)" "(name, v) \<in> set table"
    by (cases r) auto
  have "find (\<lambda>(candidate, _). candidate = name) table = Some (name, v)"
  proof (cases "find (\<lambda>(candidate, _). candidate = name) table")
    case None
    then show ?thesis using f(2) by (auto simp: find_None_iff)
  next
    case (Some r)
    then have "r \<in> set table" "fst r = name" by (auto simp: find_Some_iff in_set_conv_nth)
    then have "(name, snd r) \<in> set table" by (metis prod.collapse)
    with f(2) have "snd r = v" using eq_key_imp_eq_value [OF assms(1)] by blast
    with Some \<open>fst r = name\<close> show ?thesis by (cases r) simp
  qed
  then show ?thesis using f(1) by (simp add: value_in_def name_in_def)
qed

text \<open>Every action and context has a name, and its name is read back as it.\<close>

lemma action_name_round: "parse_action (action_name a) = Some a"
  unfolding parse_action_def action_name_def
proof (rule value_name)
  show "distinct (map fst action_names)" by (simp add: action_names_def)
  show "a \<in> snd ` set action_names"
    unfolding action_names_def set_map [symmetric] list.map snd_conv by (cases a) simp_all
qed

lemma context_name_round: "parse_key_context (key_context_name c) = Some c"
  unfolding parse_key_context_def key_context_name_def
proof (rule value_name)
  show "distinct (map fst key_context_names)" by (simp add: key_context_names_def)
  show "c \<in> snd ` set key_context_names" by (cases c) (simp_all add: key_context_names_def)
qed

section \<open>Chords round\<close>

text \<open>What ckVision's names of keys have to be like: read back as their key, at least two characters long, and
  not to be taken for anything else the grammar knows.\<close>

definition sane_names :: "'k key_names \<Rightarrow> bool" where
  "sane_names names \<longleftrightarrow>
     (\<forall>k. kn_from names (kn_name names k) = Some k \<and> length (kn_name names k) \<ge> 2 \<and> hd (kn_name names k) \<noteq> 94 \<and>
        kn_name names k ! 1 \<noteq> 45 \<and> kn_name names k \<noteq> str ''Space'') \<and>
     (\<forall>text. length text \<le> 1 \<longrightarrow> kn_from names text = None)"

lemma unat_cases:
  "unat (lower_ascii c) = (if 65 \<le> unat c \<and> unat c \<le> 90 then unat c + 32 else unat c)"
  "unat (upper_ascii c) = (if 97 \<le> unat c \<and> unat c \<le> 122 then unat c - 32 else unat c)"
  "is_printable_ascii c \<longleftrightarrow> 32 < unat c \<and> unat c < 127"
  by (simp_all add: upper_ascii_def lower_ascii_def is_printable_ascii_def word_less_nat_alt word_le_nat_alt
      unat_plus_if' unat_sub_if')

lemma case_ascii:
  "is_printable_ascii (upper_ascii c) = is_printable_ascii c"
  "is_printable_ascii (lower_ascii c) = is_printable_ascii c"
  "lower_ascii (upper_ascii c) = lower_ascii c" "lower_ascii (lower_ascii c) = lower_ascii c"
  "lower_ascii c = 32 \<longleftrightarrow> c = 32"
  by (auto simp: unat_cases word_unat_eq_iff)

text \<open>What the grammar can make of a text: no chord has \<open>Shift\<close> on a character but the blank, a character
  held with \<open>Ctrl\<close> is in lower case.\<close>

definition writable :: "'k chord \<Rightarrow> bool" where
  "writable c \<longleftrightarrow>
     (case chord_key c of
       No_Key \<Rightarrow> False
     | Named_Key k \<Rightarrow> chord_text c = []
     | Char_Key \<Rightarrow> chord_text c = [32] \<or>
         (\<exists>x. chord_text c = [x] \<and> is_printable_ascii x \<and> Shift \<notin> chord_modifiers c \<and>
            (Ctrl \<in> chord_modifiers c \<longrightarrow> lower_ascii x = x)))"

lemma parsed_writable:
  assumes "parse_chord names text = Some c"
  shows "writable c"
proof -
  obtain ms t where t: "strip_modifiers {} text = Some (ms, t)"
    using assms by (cases "strip_modifiers {} text") (auto simp: parse_chord_def)
  show ?thesis
    using assms t
    by (auto simp: parse_chord_def writable_def char_chord_def case_ascii length_Suc_conv split: if_splits option.splits)
qed

lemma strip_plain: "length t \<le> 1 \<or> t ! 1 \<noteq> 45 \<Longrightarrow> strip_modifiers ms t = Some (ms, t)"
  by (cases "(ms, t)" rule: strip_modifiers.cases) auto

lemma strip_spelled:
  "strip_modifiers ms (str ''C-'' @ t) = (if Ctrl \<in> ms then None else strip_modifiers (insert Ctrl ms) t)"
  "strip_modifiers ms (str ''A-'' @ t) = (if Alt \<in> ms then None else strip_modifiers (insert Alt ms) t)"
  "strip_modifiers ms (str ''S-'' @ t) = (if Shift \<in> ms then None else strip_modifiers (insert Shift ms) t)"
  by (simp_all add: str_def modifier_of_def)

lemma strip_prefixes:
  assumes "length t \<le> 1 \<or> t ! 1 \<noteq> 45"
  shows "strip_modifiers {} ((if Ctrl \<in> ms then str ''C-'' else []) @ (if Alt \<in> ms then str ''A-'' else []) @
      (if Shift \<in> ms then str ''S-'' else []) @ t) = Some (ms, t)"
proof -
  have all: "ms = (if Ctrl \<in> ms then {Ctrl} else {}) \<union> (if Alt \<in> ms then {Alt} else {}) \<union> (if Shift \<in> ms then {Shift} else {})"
    (is "_ = ?all")
  proof (rule set_eqI)
    fix m show "m \<in> ms \<longleftrightarrow> m \<in> ?all" by (cases m) auto
  qed
  have "strip_modifiers {} ((if Ctrl \<in> ms then str ''C-'' else []) @ (if Alt \<in> ms then str ''A-'' else []) @
      (if Shift \<in> ms then str ''S-'' else []) @ t) = Some (?all, t)"
    by (auto simp: strip_spelled strip_plain [OF assms])
  then show ?thesis by (simp flip: all)
qed

text \<open>A chord is read back from its spelling, \<open>Shift\<close> with a blank excepted: that is spelled like the blank.\<close>

lemma spelling_round:
  assumes sane: "sane_names names" and c: "writable c" and plain: "\<not> (chord_text c = [32] \<and> Shift \<in> chord_modifiers c)"
  shows "parse_chord names (chord_spelling names c) = Some c"
proof (cases "chord_key c")
  case No_Key
  then show ?thesis using c by (simp add: writable_def)
next
  case (Named_Key k)
  let ?n = "kn_name names k"
  have n: "kn_from names ?n = Some k" "length ?n \<ge> 2" "hd ?n \<noteq> 94" "?n ! 1 \<noteq> 45" "?n \<noteq> str ''Space''"
    using sane by (simp_all add: sane_names_def)
  have "chord_spelling names c = (if Ctrl \<in> chord_modifiers c then str ''C-'' else []) @
      (if Alt \<in> chord_modifiers c then str ''A-'' else []) @ (if Shift \<in> chord_modifiers c then str ''S-'' else []) @ ?n"
    using Named_Key by (simp add: chord_spelling_def)
  with strip_prefixes [of ?n "chord_modifiers c"] n
  have "strip_modifiers {} (chord_spelling names c) = Some (chord_modifiers c, ?n)" by simp
  moreover have "chord_text c = []" using c Named_Key by (simp add: writable_def)
  moreover have "?n \<noteq> []" using n(2) by auto
  ultimately show ?thesis using n Named_Key by (simp add: parse_chord_def)
next
  case Char_Key
  have short: "kn_from names [y] = None" for y using sane by (simp add: sane_names_def)
  have shift: "Shift \<notin> chord_modifiers c" using c plain Char_Key by (auto simp: writable_def)
  show ?thesis
  proof (cases "chord_text c = [32]")
    case True
    have "chord_spelling names c = (if Ctrl \<in> chord_modifiers c then str ''C-'' else []) @
        (if Alt \<in> chord_modifiers c then str ''A-'' else []) @ (if Shift \<in> chord_modifiers c then str ''S-'' else []) @ str ''Space''"
      using Char_Key True shift by (simp add: chord_spelling_def)
    with strip_prefixes [of "str ''Space''" "chord_modifiers c"]
    have "strip_modifiers {} (chord_spelling names c) = Some (chord_modifiers c, str ''Space'')" by (simp add: str_def)
    then show ?thesis using Char_Key True by (simp add: parse_chord_def char_chord_def)
  next
    case False
    then obtain x where x: "chord_text c = [x]" "is_printable_ascii x" "Ctrl \<in> chord_modifiers c \<longrightarrow> lower_ascii x = x"
      using c Char_Key by (auto simp: writable_def)
    show ?thesis
    proof (cases "chord_modifiers c = {Ctrl}")
      case True
      have "chord_spelling names c = [94, upper_ascii x]" using True Char_Key x False by (simp add: chord_spelling_def)
      moreover have "strip_modifiers {} [94, upper_ascii x] = Some ({}, [94, upper_ascii x])" by (simp add: modifier_of_def)
      ultimately show ?thesis using True Char_Key x by (simp add: parse_chord_def char_chord_def case_ascii)
    next
      case nctrl: False
      have "chord_spelling names c = (if Ctrl \<in> chord_modifiers c then str ''C-'' else []) @
          (if Alt \<in> chord_modifiers c then str ''A-'' else []) @ (if Shift \<in> chord_modifiers c then str ''S-'' else []) @ [x]"
        using Char_Key False nctrl shift x by (simp add: chord_spelling_def)
      with strip_prefixes [of "[x]" "chord_modifiers c"]
      have "strip_modifiers {} (chord_spelling names c) = Some (chord_modifiers c, [x])" by simp
      moreover have "[x] \<noteq> str ''Space''" by (simp add: str_def)
      ultimately show ?thesis using Char_Key x shift short by (auto simp: parse_chord_def char_chord_def)
    qed
  qed
qed

lemma shifted_space: "chord_spelling names (char_chord {Shift} [32]) = str ''Space''"
  by (simp add: chord_spelling_def char_chord_def)

text \<open>What the spelling keeps of a chord: all of it but \<open>Shift\<close> on a blank.\<close>

definition spelled_chord :: "'k chord \<Rightarrow> 'k chord" where
  "spelled_chord c = (if chord_text c = [32] then c\<lparr>chord_modifiers := chord_modifiers c - {Shift}\<rparr> else c)"

text \<open>Whatever is parsed, its spelling is parsed too and spelled the same.\<close>

lemma spelling_read_back:
  assumes sane: "sane_names names" and c: "writable c"
  shows "parse_chord names (chord_spelling names c) = Some (spelled_chord c)"
proof (cases "chord_text c = [32] \<and> Shift \<in> chord_modifiers c")
  case True
  define d where "d = spelled_chord c"
  show ?thesis
  proof (cases "chord_key c")
    case Char_Key
    have "chord_modifiers c \<noteq> {Ctrl}" using True by auto
    then have same: "chord_spelling names d = chord_spelling names c"
      using Char_Key True by (simp add: chord_spelling_def d_def spelled_chord_def)
    have "writable d" "\<not> (chord_text d = [32] \<and> Shift \<in> chord_modifiers d)"
      using Char_Key True by (simp_all add: d_def writable_def spelled_chord_def)
    from spelling_round [OF sane this] same show ?thesis by (simp add: d_def)
  qed (use c True in \<open>simp_all add: writable_def\<close>)
next
  case False
  from spelling_round [OF sane c False] False show ?thesis by (auto simp: spelled_chord_def)
qed

lemma spelled_again:
  assumes "writable c"
  shows "chord_spelling names (spelled_chord c) = chord_spelling names c"
proof (cases "chord_text c = [32]")
  case True
  then have "chord_key c = Char_Key" using assms by (cases "chord_key c") (simp_all add: writable_def)
  then show ?thesis using True by (simp add: chord_spelling_def spelled_chord_def)
qed (simp add: spelled_chord_def)

lemma spelled_writable: "writable c \<Longrightarrow> writable (spelled_chord c)"
  by (auto simp: writable_def spelled_chord_def split: key.splits)

end
