(* ===== verification/Config.thy ===== *)
theory Config
  imports Keymap
begin

text \<open>
  The configuration file: \<^verbatim>\<open>src/src/common/config.cpp\<close> and its header. What a line means is decided
  once, for the reader and the writer; a file is read into settings and warnings, and a dialog's save
  rewrites one key in it. Opening and reading the file, and writing it atomically, are the system's and
  ckVision's: what they answer is an argument.
\<close>

section \<open>Words of a line\<close>

text \<open>The dash of the messages, in UTF-8, with its blanks.\<close>

definition dash :: bytes where
  "dash = [32, 0xE2, 0x80, 0x94, 32]"

definition is_space :: "u8 \<Rightarrow> bool" where
  "is_space c \<longleftrightarrow> c = 32 \<or> c = 9 \<or> c = 13"

definition trim :: "bytes \<Rightarrow> bytes" where
  "trim text = rev (dropWhile is_space (rev (dropWhile is_space text)))"

fun find_comment :: "bytes \<Rightarrow> nat option" where
  "find_comment [] = None"
| "find_comment [c] = (if c = 35 then Some 0 else None)"
| "find_comment (c # d # rest) =
     (if c = 92 \<and> d = 35 then map_option (\<lambda>n. n + 2) (find_comment rest)
      else if c = 35 then Some 0
      else map_option Suc (find_comment (d # rest)))"

fun unescape :: "bytes \<Rightarrow> bytes" where
  "unescape [] = []"
| "unescape [c] = [c]"
| "unescape (c # d # rest) = (if c = 92 \<and> d = 35 then 35 # unescape rest else c # unescape (d # rest))"

definition escape :: "bytes \<Rightarrow> bytes" where
  "escape value = concat (map (\<lambda>c. if c = 35 then [92, c] else [c]) value)"

definition is_blank :: "u8 \<Rightarrow> bool" where
  "is_blank c \<longleftrightarrow> c = 32 \<or> c = 9"

function split_words :: "bytes \<Rightarrow> bytes list" where
  "split_words text =
     (let rest = dropWhile is_blank text
      in if rest = [] then []
         else unescape (takeWhile (\<lambda>c. \<not> is_blank c) rest) # split_words (dropWhile (\<lambda>c. \<not> is_blank c) rest))"
  by pat_completeness auto

lemma dropWhile_shorter: "length (dropWhile P xs) \<le> length xs"
  by (induction xs) auto

termination split_words
proof (relation "measure length")
  fix line rest :: bytes
  assume rest: "rest = dropWhile is_blank line" "rest \<noteq> []"
  then obtain c cs where c: "rest = c # cs" by (meson neq_Nil_conv)
  with rest(1) have "\<not> is_blank c" by (metis hd_dropWhile list.distinct(1) list.sel(1))
  with c have "length (dropWhile (\<lambda>c. \<not> is_blank c) rest) \<le> length cs" by (simp add: dropWhile_shorter)
  also have "\<dots> < length rest" using c by simp
  also have "\<dots> \<le> length line" using rest(1) by (simp add: dropWhile_shorter)
  finally show "(dropWhile (\<lambda>c. \<not> is_blank c) rest, line) \<in> measure length" by simp
qed simp

declare split_words.simps [simp del]

definition starts_with_word :: "bytes \<Rightarrow> bytes \<Rightarrow> bool" where
  "starts_with_word body word \<longleftrightarrow>
     length body > length word \<and> take (length word) body = word \<and> is_blank (body ! length word)"

section \<open>What a line is\<close>

datatype parsed_line =
    Blank_Line
  | Comment_Line
  | Section_Line bytes
  | Assignment_Line (assigned_key: bytes) (assigned_value: bytes) (trailing_comment: bytes)
  | Directive_Line bytes
  | Malformed_Line

text \<open>A text up to its comment, and the comment.\<close>

definition before_comment :: "bytes \<Rightarrow> bytes" where
  "before_comment text = (case find_comment text of None \<Rightarrow> text | Some n \<Rightarrow> take n text)"

definition comment_of :: "bytes \<Rightarrow> bytes" where
  "comment_of text = (case find_comment text of None \<Rightarrow> [] | Some n \<Rightarrow> trim (drop n text))"

definition parse_line :: "bytes \<Rightarrow> parsed_line" where
  "parse_line line =
     (let body = trim line
      in if body = [] then Blank_Line
         else if hd body = 35 then Comment_Line
         else if starts_with_word body (str ''bind'') \<or> starts_with_word body (str ''unbind'')
         then Directive_Line (trim (before_comment body))
         else if hd body = 91
         then (if 93 \<notin> set body then Malformed_Line else Section_Line (trim (takeWhile (\<lambda>c. c \<noteq> 93) (tl body))))
         else if 61 \<notin> set body then Malformed_Line
         else
           let value = tl (dropWhile (\<lambda>c. c \<noteq> 61) body)
           in Assignment_Line (trim (takeWhile (\<lambda>c. c \<noteq> 61) body)) (trim (before_comment value)) (comment_of value))"

section \<open>Messages\<close>

definition warning :: "bytes \<Rightarrow> nat \<Rightarrow> bytes \<Rightarrow> bytes" where
  "warning path line_number text = path @ [58] @ decimal line_number @ str '': '' @ text"

definition file_warning :: "bytes \<Rightarrow> bytes \<Rightarrow> bytes" where
  "file_warning path text = path @ str '': '' @ text"

definition section_names :: "bytes list" where
  "section_names = [str ''general'', str ''terminal'', str ''printer'', str ''render'', str ''keys'']"

definition section_is_known :: "bytes \<Rightarrow> bool" where
  "section_is_known name \<longleftrightarrow> name \<in> set section_names"

definition section_name_list :: bytes where
  "section_name_list = joined (str '', '') section_names"

definition rejected :: "bytes \<Rightarrow> bytes \<Rightarrow> bytes \<Rightarrow> bytes \<Rightarrow> bytes" where
  "rejected key wanted written kept =
     key @ str '' wants '' @ wanted @ str '', not '' @ [39] @ written @ [39] @ dash @ str ''keeping '' @ kept"

definition enum_names :: "(bytes \<times> 'a) list \<Rightarrow> bytes" where
  "enum_names table = joined (str '' | '') (map fst table)"

section \<open>Settings\<close>

datatype theme = Dark | Light | Mono

datatype clock_mode = Clock_Seconds | Clock_Minutes | Clock_Off

datatype save_format = Save_Text | Save_Ansi

datatype clipboard_target = Osc52 | Pbcopy | Exec bytes

record 'k client_settings = settings +
  set_prefix :: "'k chord"
  set_audible_bell :: bool
  set_theme :: theme
  set_confirm_kill :: bool
  set_kill_grace_seconds :: int
  set_clock :: clock_mode
  set_resize_windows_to_fit :: bool
  set_show_cpu :: bool
  set_show_memory_rss :: bool
  set_show_memory_real :: bool
  set_clipboard :: "clipboard_target list"
  set_save_format :: save_format
  set_save_folder :: bytes
  set_save_ask_name :: bool
  set_binds :: "bind_directive list"

definition default_client_settings :: "'k client_settings" where
  "default_client_settings = settings.extend default_settings
     (client_settings.fields (char_chord {Ctrl} (str ''b'')) False Dark True 5 Clock_Seconds False False False False
        [Osc52, Pbcopy] Save_Text (str ''~/Documents'') True [])"

definition themes :: "(bytes \<times> theme) list" where
  "themes = [(str ''dark'', Dark), (str ''light'', Light), (str ''mono'', Mono)]"

definition clock_modes :: "(bytes \<times> clock_mode) list" where
  "clock_modes = [(str ''seconds'', Clock_Seconds), (str ''minutes'', Clock_Minutes), (str ''off'', Clock_Off)]"

definition exit_policies :: "(bytes \<times> exit_policy) list" where
  "exit_policies = [(str ''close'', Exit_Close), (str ''hold'', Exit_Hold), (str ''hold-on-error'', Exit_Hold_On_Error)]"

definition sixel_modes :: "(bytes \<times> sixel_mode) list" where
  "sixel_modes = [(str ''auto'', Sixel_Auto), (str ''off'', Sixel_Off)]"

definition capture_modes :: "(bytes \<times> capture_mode) list" where
  "capture_modes = [(str ''ask'', Ask), (str ''capture'', Capture), (str ''off'', Off)]"

definition desktop_policies :: "(bytes \<times> desktop_policy) list" where
  "desktop_policies = [(str ''fixed'', Fixed), (str ''fit-smallest'', Fit_Smallest), (str ''fit-latest'', Fit_Latest)]"

definition save_formats :: "(bytes \<times> save_format) list" where
  "save_formats = [(str ''txt'', Save_Text), (str ''ansi'', Save_Ansi)]"

definition bool_setting :: "bool \<Rightarrow> bytes" where
  "bool_setting v = (if v then str ''true'' else str ''false'')"

definition clock_setting :: "clock_mode \<Rightarrow> bytes" where
  "clock_setting = name_in clock_modes"

definition theme_setting :: "theme \<Rightarrow> bytes" where
  "theme_setting = name_in themes"

section \<open>Values\<close>

definition parse_bool :: "bytes \<Rightarrow> bool option" where
  "parse_bool text =
     (if trim text = str ''true'' then Some True else if trim text = str ''false'' then Some False else None)"

definition is_digit :: "u8 \<Rightarrow> bool" where
  "is_digit c \<longleftrightarrow> 48 \<le> c \<and> c \<le> 57"

definition digits_value :: "bytes \<Rightarrow> nat" where
  "digits_value ds = fold (\<lambda>c n. n * 10 + (unat c - 48)) ds 0"

text \<open>\<open>std::from_chars\<close> where it must take the whole text: digits alone for an unsigned type, and a minus sign
  before them for a signed one. What does not fit the type is an error.\<close>

definition whole_unsigned :: "bytes \<Rightarrow> nat option" where
  "whole_unsigned ds = (if ds \<noteq> [] \<and> list_all is_digit ds \<and> digits_value ds < 2 ^ 64 then Some (digits_value ds) else None)"

definition whole_int :: "bytes \<Rightarrow> int option" where
  "whole_int text =
     (let negative = (text \<noteq> [] \<and> hd text = 45);
          ds = (if negative then tl text else text);
          n = (if negative then - int (digits_value ds) else int (digits_value ds))
      in if ds \<noteq> [] \<and> list_all is_digit ds \<and> - (2 ^ 31) \<le> n \<and> n < 2 ^ 31 then Some n else None)"

definition parse_int_in_range :: "bytes \<Rightarrow> int \<Rightarrow> int \<Rightarrow> int option" where
  "parse_int_in_range text minimum maximum =
     (case whole_int (trim text) of
       None \<Rightarrow> None
     | Some n \<Rightarrow> if n < minimum \<or> n > maximum then None else Some n)"

definition byte_size_max :: nat where
  "byte_size_max = 1024 * 1024 * 1024"

definition parse_byte_size :: "bytes \<Rightarrow> nat option" where
  "parse_byte_size text =
     (let body = trim text
      in if body = [] then None
         else
           let multiplier = (if last body = 75 then 1024 else if last body = 77 then 1024 * 1024
                             else if last body = 71 then 1024 * 1024 * 1024 else 1);
               body = (if multiplier \<noteq> 1 then butlast body else body)
           in case whole_unsigned body of
                None \<Rightarrow> None
              | Some n \<Rightarrow> if n > byte_size_max div multiplier then None else Some (n * multiplier))"

definition parse_sixel_megapixels :: "bytes \<Rightarrow> int option" where
  "parse_sixel_megapixels text = parse_int_in_range text 1 4096"

definition parse_target :: "bytes \<Rightarrow> clipboard_target option" where
  "parse_target entry =
     (if entry = str ''osc52'' then Some Osc52
      else if entry = str ''pbcopy'' then Some Pbcopy
      else if take 5 entry = str ''exec:'' then
        (let command = trim (drop 5 entry) in if command = [] then None else Some (Exec command))
      else None)"

text \<open>The loop over a list with commas; it stops at the first entry that is no target.\<close>

function parse_targets :: "bytes \<Rightarrow> clipboard_target list option" where
  "parse_targets rest =
     (case parse_target (trim (takeWhile (\<lambda>c. c \<noteq> 44) rest)) of
       None \<Rightarrow> None
     | Some target \<Rightarrow>
         case dropWhile (\<lambda>c. c \<noteq> 44) rest of
           [] \<Rightarrow> Some [target]
         | comma # rest \<Rightarrow> map_option (Cons target) (parse_targets rest))"
  by pat_completeness auto

termination parse_targets
proof (relation "measure length")
  fix rest rest' :: bytes and target comma
  assume "dropWhile (\<lambda>c. c \<noteq> 44) rest = comma # rest'"
  then show "(rest', rest) \<in> measure length"
    using dropWhile_shorter [of "\<lambda>c. c \<noteq> 44" rest] by simp
qed simp

declare parse_targets.simps [simp del]

definition parse_clipboard_targets :: "bytes \<Rightarrow> clipboard_target list option" where
  "parse_clipboard_targets text = (if trim text = [] then None else parse_targets (trim text))"

section \<open>One assignment\<close>

datatype assignment_outcome = Applied | Refused bytes | Unknown_Key bytes

text \<open>A parsed value put in its place, or a refusal that names what stays in force.\<close>

definition assign :: "bytes \<Rightarrow> bytes \<Rightarrow> bytes \<Rightarrow> 'v option \<Rightarrow> bytes \<Rightarrow> ('v \<Rightarrow> 's) \<Rightarrow> 's \<Rightarrow> assignment_outcome \<times> 's" where
  "assign key written wanted parsed kept put st =
     (case parsed of Some v \<Rightarrow> (Applied, put v) | None \<Rightarrow> (Refused (rejected key wanted written kept), st))"

definition assign_bool :: "bytes \<Rightarrow> bytes \<Rightarrow> bytes \<Rightarrow> bool \<Rightarrow> (bool \<Rightarrow> 's) \<Rightarrow> 's \<Rightarrow> assignment_outcome \<times> 's" where
  "assign_bool key value written current put st =
     assign key written (str ''true or false'') (parse_bool value) (bool_setting current) put st"

definition range_text :: "bytes \<Rightarrow> int \<Rightarrow> int \<Rightarrow> bytes" where
  "range_text what minimum maximum = what @ str '' between '' @ decimal (nat minimum) @ str '' and '' @ decimal (nat maximum)"

definition assign_int ::
    "bytes \<Rightarrow> bytes \<Rightarrow> bytes \<Rightarrow> bytes \<Rightarrow> int \<Rightarrow> int \<Rightarrow> int \<Rightarrow> (int \<Rightarrow> 's) \<Rightarrow> 's \<Rightarrow> assignment_outcome \<times> 's" where
  "assign_int key value written what minimum maximum current put st =
     assign key written (range_text what minimum maximum) (parse_int_in_range value minimum maximum)
       (decimal (nat current)) put st"

definition assign_bytes :: "bytes \<Rightarrow> bytes \<Rightarrow> bytes \<Rightarrow> nat \<Rightarrow> (nat \<Rightarrow> 's) \<Rightarrow> 's \<Rightarrow> assignment_outcome \<times> 's" where
  "assign_bytes key value written current put st =
     assign key written (str ''a byte size such as 256K or 1M'') (parse_byte_size value)
       (decimal current @ str '' bytes'') put st"

definition assign_enum :: "bytes \<Rightarrow> bytes \<Rightarrow> bytes \<Rightarrow> (bytes \<times> 'v) list \<Rightarrow> 'v \<Rightarrow> ('v \<Rightarrow> 's) \<Rightarrow> 's \<Rightarrow> assignment_outcome \<times> 's" where
  "assign_enum key value written table current put st =
     assign key written (enum_names table) (value_in table value) (name_in table current) put st"

definition whole_number :: bytes where
  "whole_number = str ''a whole number''"

definition unknown_key :: "bytes \<Rightarrow> bytes \<Rightarrow> bytes" where
  "unknown_key section key =
     str ''unknown key '' @ [39] @ key @ [39] @
     (if section = [] then str '' outside any section'' else str '' in ['' @ section @ str '']'')"

definition apply_general :: "'k key_names \<Rightarrow> bytes \<Rightarrow> bytes \<Rightarrow> bytes \<Rightarrow> 'k client_settings \<Rightarrow>
    (assignment_outcome \<times> 'k client_settings) option" where
  "apply_general names key plain written st =
     (if key = str ''prefix'' then Some (assign key written (str ''a chord such as ^B, ^A, F12 or Esc'') (parse_chord names plain)
        (chord_spelling names (set_prefix st)) (\<lambda>v. st\<lparr>set_prefix := v\<rparr>) st)
      else if key = str ''shell'' then Some (Applied, st\<lparr>set_shell := (if plain = str ''$SHELL'' then [] else plain)\<rparr>)
      else if key = str ''login-shell'' then Some (assign_bool key plain written (set_login_shell st) (\<lambda>v. st\<lparr>set_login_shell := v\<rparr>) st)
      else if key = str ''scrollback'' then Some (assign_int key plain written whole_number 0 1000000 (set_scrollback st) (\<lambda>v. st\<lparr>set_scrollback := v\<rparr>) st)
      else if key = str ''max-terminals'' then Some (assign_int key plain written whole_number 1 4096 (set_max_terminals st) (\<lambda>v. st\<lparr>set_max_terminals := v\<rparr>) st)
      else if key = str ''theme'' then Some (assign_enum key plain written themes (set_theme st) (\<lambda>v. st\<lparr>set_theme := v\<rparr>) st)
      else if key = str ''on-exit'' then Some (assign_enum key plain written exit_policies (set_on_exit st) (\<lambda>v. st\<lparr>set_on_exit := v\<rparr>) st)
      else if key = str ''audible-bell'' then Some (assign_bool key plain written (set_audible_bell st) (\<lambda>v. st\<lparr>set_audible_bell := v\<rparr>) st)
      else if key = str ''confirm-kill'' then Some (assign_bool key plain written (set_confirm_kill st) (\<lambda>v. st\<lparr>set_confirm_kill := v\<rparr>) st)
      else if key = str ''kill-empty-session'' then Some (assign_bool key plain written (set_kill_empty_session st) (\<lambda>v. st\<lparr>set_kill_empty_session := v\<rparr>) st)
      else if key = str ''kill-grace-seconds'' then Some (assign_int key plain written (str ''a whole number of seconds'') 0 600 (set_kill_grace_seconds st) (\<lambda>v. st\<lparr>set_kill_grace_seconds := v\<rparr>) st)
      else if key = str ''clock'' then Some (assign_enum key plain written clock_modes (set_clock st) (\<lambda>v. st\<lparr>set_clock := v\<rparr>) st)
      else if key = str ''resize-windows-to-fit'' then Some (assign_bool key plain written (set_resize_windows_to_fit st) (\<lambda>v. st\<lparr>set_resize_windows_to_fit := v\<rparr>) st)
      else if key = str ''desktop-size'' then Some (assign_enum key plain written desktop_policies (set_desktop_size st) (\<lambda>v. st\<lparr>set_desktop_size := v\<rparr>) st)
      else if key = str ''show-cpu'' then Some (assign_bool key plain written (set_show_cpu st) (\<lambda>v. st\<lparr>set_show_cpu := v\<rparr>) st)
      else if key = str ''show-memory-rss'' then Some (assign_bool key plain written (set_show_memory_rss st) (\<lambda>v. st\<lparr>set_show_memory_rss := v\<rparr>) st)
      else if key = str ''show-memory-real'' then Some (assign_bool key plain written (set_show_memory_real st) (\<lambda>v. st\<lparr>set_show_memory_real := v\<rparr>) st)
      else None)"

definition apply_terminal :: "bytes \<Rightarrow> bytes \<Rightarrow> bytes \<Rightarrow> 'k client_settings \<Rightarrow>
    (assignment_outcome \<times> 'k client_settings) option" where
  "apply_terminal key plain written st =
     (if key = str ''term'' then Some (Applied, st\<lparr>set_term := (if plain = [] then str ''auto'' else plain)\<rparr>)
      else if key = str ''mouse'' then Some (assign_bool key plain written (set_mouse st) (\<lambda>v. st\<lparr>set_mouse := v\<rparr>) st)
      else if key = str ''alternate-scroll'' then Some (assign_bool key plain written (set_alternate_scroll st) (\<lambda>v. st\<lparr>set_alternate_scroll := v\<rparr>) st)
      else if key = str ''sixel'' then Some (assign_enum key plain written sixel_modes (set_sixel st) (\<lambda>v. st\<lparr>set_sixel := v\<rparr>) st)
      else if key = str ''sixel-max-megapixels'' then Some (assign key written (range_text (str ''a whole number of megapixels'') 1 4096)
        (parse_sixel_megapixels plain) (decimal (nat (set_sixel_max_megapixels st))) (\<lambda>v. st\<lparr>set_sixel_max_megapixels := v\<rparr>) st)
      else if key = str ''osc52'' then Some (assign_bool key plain written (set_osc52 st) (\<lambda>v. st\<lparr>set_osc52 := v\<rparr>) st)
      else if key = str ''clipboard'' then Some (assign key written (str ''a comma-separated list of osc52, pbcopy or exec:<command>'')
        (parse_clipboard_targets plain) (str ''the built-in order'') (\<lambda>v. st\<lparr>set_clipboard := v\<rparr>) st)
      else None)"

definition apply_printer :: "bytes \<Rightarrow> bytes \<Rightarrow> bytes \<Rightarrow> 'k client_settings \<Rightarrow>
    (assignment_outcome \<times> 'k client_settings) option" where
  "apply_printer key plain written st =
     (if key = str ''mode'' then Some (assign_enum key plain written capture_modes (set_printer_mode st) (\<lambda>v. st\<lparr>set_printer_mode := v\<rparr>) st)
      else if key = str ''ask-cache'' then Some (assign_bytes key plain written (set_ask_cache_bytes st) (\<lambda>v. st\<lparr>set_ask_cache_bytes := v\<rparr>) st)
      else if key = str ''spool-limit'' then Some (assign_bytes key plain written (set_spool_limit_bytes st) (\<lambda>v. st\<lparr>set_spool_limit_bytes := v\<rparr>) st)
      else if key = str ''save-format'' then Some (assign_enum key plain written save_formats (set_save_format st) (\<lambda>v. st\<lparr>set_save_format := v\<rparr>) st)
      else if key = str ''save-folder'' then Some (Applied, st\<lparr>set_save_folder := plain\<rparr>)
      else if key = str ''save-ask-name'' then Some (assign_bool key plain written (set_save_ask_name st) (\<lambda>v. st\<lparr>set_save_ask_name := v\<rparr>) st)
      else None)"

definition apply_render :: "bytes \<Rightarrow> bytes \<Rightarrow> bytes \<Rightarrow> 'k client_settings \<Rightarrow>
    (assignment_outcome \<times> 'k client_settings) option" where
  "apply_render key plain written st =
     (if key = str ''max-fps'' then Some (assign_int key plain written whole_number 1 240 (set_max_fps st) (\<lambda>v. st\<lparr>set_max_fps := v\<rparr>) st)
      else None)"

definition apply_assignment :: "'k key_names \<Rightarrow> bytes \<Rightarrow> bytes \<Rightarrow> bytes \<Rightarrow> 'k client_settings \<Rightarrow>
    assignment_outcome \<times> 'k client_settings" where
  "apply_assignment names section key value st =
     (case (if section = str ''general'' then apply_general names key (unescape value) value st
            else if section = str ''terminal'' then apply_terminal key (unescape value) value st
            else if section = str ''printer'' then apply_printer key (unescape value) value st
            else if section = str ''render'' then apply_render key (unescape value) value st
            else None) of
       Some result \<Rightarrow> result
     | None \<Rightarrow> (Unknown_Key (unknown_key section key), st))"

definition is_unknown :: "assignment_outcome \<Rightarrow> bool" where
  "is_unknown outcome \<longleftrightarrow> (case outcome of Unknown_Key _ \<Rightarrow> True | _ \<Rightarrow> False)"

definition section_that_knows :: "'k key_names \<Rightarrow> bytes \<Rightarrow> bytes \<Rightarrow> bytes option" where
  "section_that_knows names key written_in =
     find (\<lambda>candidate. candidate \<noteq> written_in \<and>
        \<not> is_unknown (fst (apply_assignment names candidate key [] default_client_settings))) section_names"

definition misplaced :: "bytes \<Rightarrow> bytes \<Rightarrow> bytes \<Rightarrow> bytes" where
  "misplaced key owner written_in =
     key @ str '' belongs in ['' @ owner @ str ''], not ['' @ written_in @ str '']'' @ dash @ str ''not obeyed; ['' @ owner
     @ str '']'' @ [39] @ str ''s value stands''"

section \<open>One directive\<close>

definition apply_directive :: "'k key_names \<Rightarrow> bytes \<Rightarrow> 'k client_settings \<Rightarrow> bytes option \<times> 'k client_settings" where
  "apply_directive names line st =
     (let words = split_words line
      in if words = [] then (Some (str ''not a bind or unbind line''), st)
         else
           let unbinding = (words ! 0 = str ''unbind'')
           in if length words \<noteq> (if unbinding then 3 else 4)
              then (Some (words ! 0 @ str '' wants '' @
                     (if unbinding then str ''a context and a chord: unbind <context> <chord>''
                      else str ''a context, a chord and an action: bind <context> <chord> <action>'')), st)
              else case parse_key_context (words ! 1) of
                None \<Rightarrow> (Some (str ''no such context '' @ [39] @ words ! 1 @ [39] @ dash @ str ''try one of '' @ key_context_name_list), st)
              | Some context \<Rightarrow>
                  case parse_chord names (words ! 2) of
                    None \<Rightarrow> (Some ([39] @ words ! 2 @ [39] @ str '' is not a chord'' @ dash @
                       str ''try a character, C-x, A-x, F1-F12, or a named key such as Enter, Esc, Space or Up''), st)
                  | Some c \<Rightarrow>
                      let bind = (\<lambda>a. st\<lparr>set_binds := set_binds st @
                            [\<lparr>bd_context = context, bd_chord = chord_spelling names c, bd_action = a\<rparr>]\<rparr>)
                      in if unbinding then (None, bind None)
                         else case parse_action (words ! 3) of
                           None \<Rightarrow> (Some (str ''no such action '' @ [39] @ words ! 3 @ [39] @ dash @ str ''try one of '' @ action_name_list), st)
                         | Some a \<Rightarrow> (None, bind (Some a)))"

section \<open>Reading a file\<close>

datatype read_outcome = Read_Lines "bytes list" | Absent | Unreadable bytes

record 'k loading =
  lo_settings :: "'k client_settings"
  lo_warnings :: "bytes list"
  lo_section :: bytes
  lo_known :: bool
  lo_assigned :: "(bytes \<times> bytes) list"

definition loading_start :: "'k loading" where
  "loading_start = \<lparr>lo_settings = default_client_settings, lo_warnings = [], lo_section = [], lo_known = True, lo_assigned = []\<rparr>"

definition warn :: "bytes \<Rightarrow> nat \<Rightarrow> bytes \<Rightarrow> 'k loading \<Rightarrow> 'k loading" where
  "warn path n text lo = lo\<lparr>lo_warnings := lo_warnings lo @ [warning path n text]\<rparr>"

definition load_section :: "bytes \<Rightarrow> nat \<Rightarrow> bytes \<Rightarrow> 'k loading \<Rightarrow> 'k loading" where
  "load_section path n section lo =
     (let lo = lo\<lparr>lo_section := section, lo_known := section_is_known section\<rparr>
      in if lo_known lo then lo
         else warn path n (str ''no such section '' @ [39] @ str ''['' @ section @ str '']'' @ [39] @ dash @ str ''try one of ''
                @ section_name_list @ str ''; nothing under this header was read'') lo)"

definition load_assignment :: "'k key_names \<Rightarrow> bytes \<Rightarrow> nat \<Rightarrow> bytes \<Rightarrow> bytes \<Rightarrow> 'k loading \<Rightarrow> 'k loading" where
  "load_assignment names path n key value lo =
     (if \<not> lo_known lo then lo
      else case apply_assignment names (lo_section lo) key value (lo_settings lo) of
        (outcome, st) \<Rightarrow>
          let lo = lo\<lparr>lo_settings := st\<rparr>
          in case outcome of
               Applied \<Rightarrow>
                 if (lo_section lo, key) \<in> set (lo_assigned lo)
                 then warn path n (key @ str '' is set again here'' @ dash @ str ''the earlier line in ['' @ lo_section lo
                        @ str ''] no longer applies'') lo
                 else lo\<lparr>lo_assigned := (lo_section lo, key) # lo_assigned lo\<rparr>
             | Refused message \<Rightarrow> warn path n message lo
             | Unknown_Key message \<Rightarrow>
                 case section_that_knows names key (lo_section lo) of
                   Some owner \<Rightarrow> warn path n (misplaced key owner (lo_section lo)) lo
                 | None \<Rightarrow> warn path n message lo)"

definition load_directive :: "'k key_names \<Rightarrow> bytes \<Rightarrow> nat \<Rightarrow> bytes \<Rightarrow> 'k loading \<Rightarrow> 'k loading" where
  "load_directive names path n directive lo =
     (if \<not> lo_known lo then lo
      else case apply_directive names directive (lo_settings lo) of
        (None, st) \<Rightarrow> lo\<lparr>lo_settings := st\<rparr>
      | (Some problem, st) \<Rightarrow> warn path n problem (lo\<lparr>lo_settings := st\<rparr>))"

definition load_line :: "'k key_names \<Rightarrow> bytes \<Rightarrow> nat \<times> bytes \<Rightarrow> 'k loading \<Rightarrow> 'k loading" where
  "load_line names path numbered lo =
     (case parse_line (snd numbered) of
       Blank_Line \<Rightarrow> lo
     | Comment_Line \<Rightarrow> lo
     | Section_Line section \<Rightarrow> load_section path (fst numbered) section lo
     | Malformed_Line \<Rightarrow> warn path (fst numbered) (str ''not a section header or key = value'') lo
     | Assignment_Line key value comment \<Rightarrow> load_assignment names path (fst numbered) key value lo
     | Directive_Line directive \<Rightarrow> load_directive names path (fst numbered) directive lo)"

definition load_lines :: "'k key_names \<Rightarrow> bytes \<Rightarrow> bytes list \<Rightarrow> 'k loading \<Rightarrow> 'k loading" where
  "load_lines names path lines lo = fold (load_line names path) (zip [1..<Suc (length lines)] lines) lo"

definition load_settings :: "'k key_names \<Rightarrow> bytes \<Rightarrow> read_outcome \<Rightarrow> 'k client_settings \<times> bytes list" where
  "load_settings names path outcome =
     (if path = [] then (default_client_settings, [])
      else case outcome of
        Absent \<Rightarrow> (default_client_settings, [])
      | Unreadable reason \<Rightarrow>
          (default_client_settings,
           [file_warning path (str ''could not be read ('' @ reason @ str '')'' @ dash @ str ''keeping the built-in settings'')])
      | Read_Lines lines \<Rightarrow>
          let lo = load_lines names path lines loading_start in (lo_settings lo, lo_warnings lo))"

section \<open>Saving one key\<close>

record save_pass =
  sp_lines :: "bytes list"
  sp_rewrites :: nat
  sp_insert :: nat
  sp_in :: bool
  sp_seen :: bool

definition save_step :: "bytes \<Rightarrow> bytes \<Rightarrow> bytes \<Rightarrow> bytes \<Rightarrow> save_pass \<Rightarrow> save_pass" where
  "save_step section key assignment line sp =
     (let i = length (sp_lines sp)
      in case parse_line line of
           Section_Line name \<Rightarrow>
             sp\<lparr>sp_lines := sp_lines sp @ [line], sp_in := (name = section), sp_seen := (sp_seen sp \<or> name = section),
                sp_insert := (if name = section then i + 1 else sp_insert sp)\<rparr>
         | parsed \<Rightarrow>
             if \<not> sp_in sp then sp\<lparr>sp_lines := sp_lines sp @ [line]\<rparr>
             else
               let sp = sp\<lparr>sp_insert := (if parsed \<noteq> Blank_Line then i + 1 else sp_insert sp)\<rparr>
               in case parsed of
                    Assignment_Line k v comment \<Rightarrow>
                      if k = key
                      then sp\<lparr>sp_rewrites := sp_rewrites sp + 1,
                              sp_lines := sp_lines sp @ [assignment @ (if comment = [] then [] else str ''  '' @ comment)]\<rparr>
                      else sp\<lparr>sp_lines := sp_lines sp @ [line]\<rparr>
                  | _ \<Rightarrow> sp\<lparr>sp_lines := sp_lines sp @ [line]\<rparr>)"

definition assignment_text :: "bytes \<Rightarrow> bytes \<Rightarrow> bytes" where
  "assignment_text key value = key @ str '' = '' @ escape value"

definition save_lines :: "bytes \<Rightarrow> bytes \<Rightarrow> bytes \<Rightarrow> bytes list \<Rightarrow> bytes list" where
  "save_lines section key value lines =
     (let assignment = assignment_text key value;
          sp = fold (save_step section key assignment) lines
                 \<lparr>sp_lines = [], sp_rewrites = 0, sp_insert = length lines + 1, sp_in = False, sp_seen = False\<rparr>;
          lines = sp_lines sp
      in if sp_rewrites sp \<noteq> 0 then lines
         else if sp_seen sp \<and> sp_insert sp \<le> length lines
         then take (sp_insert sp) lines @ [assignment] @ drop (sp_insert sp) lines
         else (if lines \<noteq> [] \<and> trim (last lines) \<noteq> [] then lines @ [[]] else lines) @ [[91] @ section @ [93], assignment])"

text \<open>\<open>std::getline\<close> over a text, and the lines written back.\<close>

function get_lines :: "bytes \<Rightarrow> bytes list" where
  "get_lines contents =
     (if contents = [] then []
      else takeWhile (\<lambda>c. c \<noteq> 10) contents # get_lines (drop 1 (dropWhile (\<lambda>c. c \<noteq> 10) contents)))"
  by pat_completeness auto

termination get_lines
proof (relation "measure length")
  fix contents :: bytes
  assume "contents \<noteq> []"
  then show "(drop 1 (dropWhile (\<lambda>c. c \<noteq> 10) contents), contents) \<in> measure length"
    using dropWhile_shorter [of "\<lambda>c. c \<noteq> 10" contents]
    by (cases contents) (auto simp: less_Suc_eq_le dest: order_trans [OF _ dropWhile_shorter])
qed simp

declare get_lines.simps [simp del]

definition put_lines :: "bytes list \<Rightarrow> bytes" where
  "put_lines lines = concat (map (\<lambda>line. line @ [10]) lines)"

text \<open>What the file system answers: the file and its fingerprint, if it can be read; whether it is there;
  whether its directory can be made; and whether the write, which is only to replace what was read, came
  through.\<close>

record 'f file_answers =
  fa_read :: "(bytes \<times> 'f) option"
  fa_exists :: bool
  fa_directory :: bool
  fa_written :: "bytes \<Rightarrow> 'f option \<Rightarrow> bool"

definition save_setting :: "'f file_answers \<Rightarrow> bytes \<Rightarrow> bytes \<Rightarrow> bytes \<Rightarrow> bytes \<Rightarrow> bool \<times> (bytes \<times> 'f option) option" where
  "save_setting fa path section key value =
     (if path = [] then (False, None)
      else if fa_read fa = None \<and> fa_exists fa then (False, None)
      else
        let lines = (case fa_read fa of None \<Rightarrow> [] | Some (contents, _) \<Rightarrow> get_lines contents);
            contents = put_lines (save_lines section key value lines);
            expected = map_option snd (fa_read fa)
        in if \<not> fa_directory fa then (False, None)
           else (fa_written fa contents expected, Some (contents, expected)))"

end
