(* ===== verification/Config_Facts.thy ===== *)
theory Config_Facts
  imports Config
begin

text \<open>
  What a dialog saves is what is read back: the one escape of the format is undone, a written line means
  the assignment it was written for, a save changes the value of its key and of no other, and so a setting
  loaded after a save is the one saved, the others what they were.
\<close>

section \<open>The escape\<close>

lemma escape_simps [simp]:
  "escape [] = []" "escape (c # cs) = (if c = 35 then [92, 35] else [c]) @ escape cs" "escape (cs @ ds) = escape cs @ escape ds"
  by (simp_all add: escape_def)

lemma escape_Nil [simp]: "escape cs = [] \<longleftrightarrow> cs = []"
  by (cases cs) simp_all

lemma escape_head: "escape cs = [] \<or> hd (escape cs) \<noteq> 35"
  by (cases cs) auto

lemma unescape_plain: "c \<noteq> 92 \<or> ds = [] \<or> hd ds \<noteq> 35 \<Longrightarrow> unescape (c # ds) = c # unescape ds"
  by (cases ds) auto

lemma unescape_escape: "unescape (escape value) = value"
proof (induction "value")
  case (Cons c cs)
  then show ?case using escape_head [of cs] by (auto simp: unescape_plain)
qed simp

lemma find_comment_plain:
  "c \<noteq> 35 \<Longrightarrow> c \<noteq> 92 \<or> ds = [] \<or> hd ds \<noteq> 35 \<Longrightarrow> find_comment (c # ds) = map_option Suc (find_comment ds)"
  by (cases ds) auto

lemma find_comment_escaped:
  "rest = [] \<or> hd rest \<noteq> 35 \<Longrightarrow>
     find_comment (escape value @ rest) = map_option (\<lambda>n. n + length (escape value)) (find_comment rest)"
proof (induction "value")
  case (Cons c cs)
  have head: "escape cs @ rest = [] \<or> hd (escape cs @ rest) \<noteq> 35"
    using escape_head [of cs] Cons.prems by (cases "escape cs") auto
  from Cons show ?case using head by (auto simp: find_comment_plain option.map_comp comp_def add.commute)
qed (simp add: option.map_ident)

section \<open>Trimming\<close>

definition bare :: "bytes \<Rightarrow> bool" where
  "bare text \<longleftrightarrow> text = [] \<or> \<not> is_space (hd text) \<and> \<not> is_space (last text)"

lemma dropWhile_spaces: "list_all P xs \<Longrightarrow> dropWhile P (xs @ ys) = dropWhile P ys"
  by (induction xs) auto

lemma trim_padded:
  assumes "list_all is_space before" and "list_all is_space after" and "bare text"
  shows "trim (before @ text @ after) = text"
proof (cases "text = []")
  case True
  show ?thesis using assms(1,2) True by (auto simp: trim_def list_all_iff dest: set_dropWhileD)
next
  case False
  have "dropWhile is_space (before @ text @ after) = text @ after"
    using assms(1,3) False by (simp add: dropWhile_spaces bare_def dropWhile_eq_self_iff)
  moreover have "dropWhile is_space (rev after @ rev text) = rev text"
    using assms(2,3) False by (subst dropWhile_spaces) (simp_all add: bare_def dropWhile_eq_self_iff hd_rev)
  ultimately show ?thesis by (simp add: trim_def)
qed

lemma trim_bare: "bare text \<Longrightarrow> trim text = text"
  using trim_padded [of "[]" "[]" "text"] by simp

lemma bare_trim: "bare (trim text)"
proof (cases "trim text = []")
  case False
  let ?d = "dropWhile is_space text"
  have d: "?d \<noteq> []"
  proof
    assume "?d = []"
    then have "trim text = []" unfolding trim_def by (simp only: rev.simps dropWhile.simps)
    with False show False by simp
  qed
  then have first: "\<not> is_space (hd ?d)" by (rule hd_dropWhile)
  have "\<not> is_space (hd (dropWhile is_space (rev ?d)))" using False by (intro hd_dropWhile) (auto simp: trim_def)
  then have "\<not> is_space (last (trim text))" using False by (simp add: trim_def last_rev)
  moreover have "hd (trim text) = hd ?d"
  proof -
    obtain ys where "rev ?d = takeWhile is_space (rev ?d) @ dropWhile is_space (rev ?d)" by simp
    then have "?d = trim text @ rev (takeWhile is_space (rev ?d))"
      by (metis rev_append rev_rev_ident takeWhile_dropWhile_id trim_def)
    then show ?thesis using False by (metis hd_append2)
  qed
  ultimately show ?thesis using first by (simp add: bare_def)
qed (simp add: bare_def)

lemma bare_escape: "bare value \<Longrightarrow> bare (escape value)"
proof (cases "value" rule: rev_cases)
  case (snoc cs c)
  assume "bare value"
  moreover have "last (escape value) = c" using snoc by simp
  moreover have "hd (escape value) = hd value \<or> hd (escape value) = 92" using snoc by (cases cs) auto
  ultimately show ?thesis using snoc by (auto simp: bare_def is_space_def)
qed simp

section \<open>What a written line means\<close>

definition key_ok :: "bytes \<Rightarrow> bool" where
  "key_ok key \<longleftrightarrow> key \<noteq> [] \<and> list_all (\<lambda>c. \<not> is_space c \<and> c \<noteq> 61) key \<and> hd key \<noteq> 35 \<and> hd key \<noteq> 91 \<and>
     key \<noteq> str ''bind'' \<and> key \<noteq> str ''unbind''"

definition note_ok :: "bytes \<Rightarrow> bool" where
  "note_ok note \<longleftrightarrow> bare note \<and> (note = [] \<or> hd note = 35)"

lemma not_directive:
  assumes "list_all (\<lambda>c. \<not> is_space c) key" and "key \<noteq> word" and "list_all (\<lambda>c. \<not> is_space c) word"
  shows "\<not> starts_with_word (key @ 32 # rest) word"
proof
  assume d: "starts_with_word (key @ 32 # rest) word"
  show False
  proof (cases "length key" "length word" rule: linorder_cases)
    case less
    with d have "word = key @ 32 # take (length word - length key - 1) rest"
      by (auto simp: starts_with_word_def take_Cons')
    then have "32 \<in> set word" by (metis in_set_conv_decomp)
    with assms(3) show False by (auto simp: is_space_def list_all_iff)
  next
    case equal
    with d assms(2) show False by (simp add: starts_with_word_def)
  next
    case greater
    with d have "is_blank (key ! length word)" by (simp add: starts_with_word_def nth_append)
    with greater assms(1) show False by (auto simp: list_all_length is_blank_def is_space_def)
  qed
qed

lemma parse_written:
  assumes kk: "key_ok key" and vv: "bare value" and nn: "note_ok note"
  shows "parse_line (assignment_text key value @ (if note = [] then [] else str ''  '' @ note)) =
    Assignment_Line key (escape value) note"
proof -
  let ?tail = "if note = [] then [] else str ''  '' @ note"
  let ?v = "32 # escape value @ ?tail"
  have line: "assignment_text key value @ ?tail = key @ 32 # 61 # ?v" by (simp add: assignment_text_def str_def)
  define body where "body = trim (key @ 32 # 61 # ?v)"
  have "\<exists>v. body = key @ 32 # 61 # v \<and> trim (before_comment v) = escape value \<and> comment_of v = note"
  proof (cases "escape value @ ?tail = []")
    case True
    then have "value = []" "note = []" by (auto split: if_splits)
    moreover have "bare (key @ [32, 61])" using kk by (cases key) (auto simp: key_ok_def bare_def is_space_def)
    then have "trim ([] @ (key @ [32, 61]) @ [32]) = key @ [32, 61]" by (intro trim_padded) (simp_all add: is_space_def)
    ultimately show ?thesis by (intro exI [of _ "[]"]) (simp add: body_def before_comment_def comment_of_def trim_def)
  next
    case False
    have "last ?v = last (escape value @ ?tail)" by (rule last_ConsR [OF False])
    moreover have "\<not> is_space (last (escape value @ ?tail))"
      using False vv nn bare_escape [OF vv] by (auto simp: bare_def note_ok_def)
    ultimately have "bare (key @ 32 # 61 # ?v)" using kk by (cases key) (auto simp: key_ok_def bare_def)
    then have body: "body = key @ 32 # 61 # ?v" by (simp add: body_def trim_bare)
    have "find_comment (32 # escape value @ ?tail) = (if note = [] then None else Some (length (escape value) + 3))"
    proof (cases "note = []")
      case True
      have "find_comment (escape value @ []) = None" by (subst find_comment_escaped) simp_all
      then show ?thesis using True escape_head [of "value"] by (subst find_comment_plain) auto
    next
      case no: False
      then obtain n where n: "note = 35 # n" using nn by (cases "note") (auto simp: note_ok_def)
      have "find_comment (35 # n) = Some 0" by (cases n) simp_all
      then have "find_comment (escape value @ str ''  '' @ note) = Some (length (escape value) + 2)"
        using n by (subst find_comment_escaped) (simp_all add: str_def find_comment_plain)
      moreover have "hd (escape value @ str ''  '' @ note) \<noteq> 35"
        using escape_head [of "value"] by (cases "escape value") (simp_all add: str_def)
      ultimately show ?thesis using no by (simp add: find_comment_plain)
    qed
    moreover have "take (length (escape value) + 3) (32 # escape value @ 32 # 32 # note) = 32 # escape value @ [32, 32]"
      "drop (length (escape value) + 3) (32 # escape value @ 32 # 32 # note) = note"
      by (simp_all add: numeral_3_eq_3)
    ultimately have "trim (before_comment ?v) = escape value" "comment_of ?v = note"
      using trim_padded [of "[32]" "str ''  ''" "escape value"] trim_padded [of "[32]" "[]" "escape value"]
        bare_escape [OF vv] nn
      by (auto simp: before_comment_def comment_of_def str_def is_space_def note_ok_def trim_bare trim_def [of "[]"])
    with body show ?thesis by blast
  qed
  then obtain v where v: "body = key @ 32 # 61 # v" "trim (before_comment v) = escape value" "comment_of v = note" by blast
  have plain: "list_all (\<lambda>c. \<not> is_space c) key" "list_all (\<lambda>c. c \<noteq> 61) key" "key \<noteq> []"
    using kk by (auto simp: key_ok_def list_all_iff)
  have "\<not> starts_with_word body (str ''bind'')" "\<not> starts_with_word body (str ''unbind'')"
    using not_directive [OF plain(1), of _ "61 # v"] kk by (simp_all add: v(1) key_ok_def str_def is_space_def)
  moreover have "takeWhile (\<lambda>c. c \<noteq> 61) body = key @ [32]" "dropWhile (\<lambda>c. c \<noteq> 61) body = 61 # v"
    using plain(2) by (auto simp: v(1) takeWhile_append dropWhile_append list_all_iff)
  moreover have "trim (key @ [32]) = key"
  proof -
    have "hd key \<in> set key" "last key \<in> set key" using plain(3) by simp_all
    then have "bare key" using plain(1) by (auto simp: bare_def list_all_iff)
    then show ?thesis using trim_padded [of "[]" "[32]" key] by (simp add: is_space_def)
  qed
  moreover have "hd body = hd key" using plain(3) by (simp add: v(1))
  ultimately show ?thesis
    using kk v plain(3) unfolding line parse_line_def Let_def body_def [symmetric] by (simp add: key_ok_def)
qed

lemma parse_header:
  assumes "bare section" and "section \<noteq> []" and "93 \<notin> set section"
  shows "parse_line ([91] @ section @ [93]) = Section_Line section"
proof -
  have "trim ([91] @ section @ [93]) = [91] @ section @ [93]" by (rule trim_bare) (simp add: bare_def is_space_def)
  moreover have "takeWhile (\<lambda>c. c \<noteq> 93) (section @ [93]) = section" using assms(3) by (simp add: takeWhile_append)
  ultimately show ?thesis using assms(1) by (simp add: parse_line_def starts_with_word_def trim_bare str_def)
qed

section \<open>What a file says\<close>

text \<open>Every assignment of a file with the section it stands in, in order, and the section at its end.\<close>

fun section_after :: "bytes \<Rightarrow> bytes list \<Rightarrow> bytes" where
  "section_after sec [] = sec"
| "section_after sec (line # lines) =
     section_after (case parse_line line of Section_Line name \<Rightarrow> name | _ \<Rightarrow> sec) lines"

fun readings :: "bytes \<Rightarrow> bytes list \<Rightarrow> ((bytes \<times> bytes) \<times> bytes) list" where
  "readings sec [] = []"
| "readings sec (line # lines) =
     (case parse_line line of
       Section_Line name \<Rightarrow> readings name lines
     | Assignment_Line key val comment \<Rightarrow> ((sec, key), val) # readings sec lines
     | _ \<Rightarrow> readings sec lines)"

lemma readings_append: "readings sec (xs @ ys) = readings sec xs @ readings (section_after sec xs) ys"
  by (induction xs arbitrary: sec) (auto split: parsed_line.split)

lemma section_after_append [simp]: "section_after sec (xs @ ys) = section_after (section_after sec xs) ys"
  by (induction xs arbitrary: sec) auto

definition at_key :: "bytes \<times> bytes \<Rightarrow> (bytes \<times> bytes) \<times> bytes \<Rightarrow> bool" where
  "at_key place r \<longleftrightarrow> fst r = place"

definition put_value :: "bytes \<times> bytes \<Rightarrow> bytes \<Rightarrow> (bytes \<times> bytes) \<times> bytes \<Rightarrow> (bytes \<times> bytes) \<times> bytes" where
  "put_value place val r = (if at_key place r then (place, val) else r)"

text \<open>One line of a save: what it becomes, and that nothing but the value of the key changes.\<close>

definition saved_line :: "bytes \<Rightarrow> bytes \<Rightarrow> bytes \<Rightarrow> bytes \<Rightarrow> bytes \<Rightarrow> bytes" where
  "saved_line section key assignment sec line =
     (case parse_line line of
       Assignment_Line k v comment \<Rightarrow>
         if sec = section \<and> k = key then assignment @ (if comment = [] then [] else str ''  '' @ comment) else line
     | _ \<Rightarrow> line)"

lemma note_ok_comment: "note_ok (comment_of val)"
proof (cases "find_comment val")
  case (Some n)
  have hash: "find_comment cs = Some n \<Longrightarrow> n < length cs \<and> cs ! n = 35" for cs n
    by (induction cs arbitrary: n rule: find_comment.induct) (auto split: if_splits)
  from hash [OF Some] have "hd (drop n val) = 35" "drop n val \<noteq> []" by (simp_all add: hd_drop_conv_nth)
  then obtain rest where "drop n val = 35 # rest" by (cases "drop n val") auto
  then have "trim (drop n val) = [] \<or> hd (trim (drop n val)) = 35"
    by (cases "rev (dropWhile is_space (rev rest @ [35]))")
      (auto simp: trim_def is_space_def dropWhile_append split: if_splits)
  then show ?thesis using Some bare_trim [of "drop n val"] by (simp add: note_ok_def comment_of_def)
qed (simp add: note_ok_def comment_of_def bare_def)

lemma parse_note: "parse_line line = Assignment_Line k v comment \<Longrightarrow> note_ok comment"
  by (auto simp: parse_line_def Let_def note_ok_comment split: if_splits)

lemma saved_reading:
  assumes "key_ok key" and "bare val"
  shows "readings sec [saved_line section key (assignment_text key val) sec line] =
      map (put_value (section, key) (escape val)) (readings sec [line])"
    and "section_after sec [saved_line section key (assignment_text key val) sec line] = section_after sec [line]"
  using parse_written [OF assms parse_note]
  by (auto simp: saved_line_def put_value_def at_key_def split: parsed_line.split)

text \<open>The pass over the lines. The place kept for a new line is one in the section.\<close>

definition save_inv :: "bytes \<Rightarrow> bytes \<Rightarrow> bytes \<Rightarrow> bytes list \<Rightarrow> save_pass \<Rightarrow> bool" where
  "save_inv section key val lines sp \<longleftrightarrow>
     readings [] (sp_lines sp) = map (put_value (section, key) (escape val)) (readings [] lines) \<and>
     section_after [] (sp_lines sp) = section_after [] lines \<and> length (sp_lines sp) = length lines \<and>
     sp_in sp = (section_after [] lines = section) \<and>
     sp_rewrites sp = length (filter (at_key (section, key)) (readings [] lines)) \<and>
     (sp_in sp \<longrightarrow> sp_seen sp) \<and>
     (sp_seen sp \<longrightarrow> sp_insert sp \<le> length (sp_lines sp) \<and> section_after [] (take (sp_insert sp) (sp_lines sp)) = section)"

lemma save_step_inv:
  assumes "key_ok key" and "bare val" and inv: "save_inv section key val lines sp" and "section \<noteq> []"
  shows "save_inv section key val (lines @ [line]) (save_step section key (assignment_text key val) line sp)"
proof -
  let ?sec = "section_after [] lines"
  let ?out = "saved_line section key (assignment_text key val) ?sec line"
  let ?sp = "save_step section key (assignment_text key val) line sp"
  have i: "readings [] (sp_lines sp) = map (put_value (section, key) (escape val)) (readings [] lines)"
    "section_after [] (sp_lines sp) = ?sec" "length (sp_lines sp) = length lines" "sp_in sp = (?sec = section)"
    "sp_rewrites sp = length (filter (at_key (section, key)) (readings [] lines))" "sp_in sp \<longrightarrow> sp_seen sp"
    "sp_seen sp \<longrightarrow> sp_insert sp \<le> length (sp_lines sp) \<and> section_after [] (take (sp_insert sp) (sp_lines sp)) = section"
    using inv [unfolded save_inv_def] by blast+
  have out: "sp_lines ?sp = sp_lines sp @ [?out]"
    using i(4) by (auto simp: save_step_def saved_line_def Let_def split: parsed_line.split)
  note reading = saved_reading [OF assms(1,2), of ?sec "section" line]
  have readings: "readings [] (sp_lines ?sp) = map (put_value (section, key) (escape val)) (readings [] (lines @ [line]))"
    using reading(1) i(1,2) by (simp only: out readings_append map_append)
  have after: "section_after [] (sp_lines ?sp) = section_after [] (lines @ [line])"
    using reading(2) i(2) by (simp only: out section_after_append)
  have flags: "sp_in ?sp = (section_after [] (lines @ [line]) = section)" "sp_in ?sp \<longrightarrow> sp_seen ?sp"
    using i(4,6) by (auto simp: save_step_def Let_def split: parsed_line.split)
  have count: "sp_rewrites ?sp = length (filter (at_key (section, key)) (readings [] (lines @ [line])))"
    using i(4,5) by (auto simp: save_step_def Let_def readings_append at_key_def split: parsed_line.split)
  have "sp_insert ?sp = length (sp_lines ?sp) \<and> sp_in ?sp \<or> sp_insert ?sp = sp_insert sp \<and> (sp_seen ?sp \<longrightarrow> sp_seen sp)"
    using out i(4,6) by (auto simp: save_step_def Let_def split: parsed_line.split)
  then have place: "sp_seen ?sp \<longrightarrow> sp_insert ?sp \<le> length (sp_lines ?sp) \<and> section_after [] (take (sp_insert ?sp) (sp_lines ?sp)) = section"
  proof
    assume "sp_insert ?sp = length (sp_lines ?sp) \<and> sp_in ?sp"
    then show ?thesis using flags(1) after by simp
  next
    assume "sp_insert ?sp = sp_insert sp \<and> (sp_seen ?sp \<longrightarrow> sp_seen sp)"
    then show ?thesis using i(7) by (auto simp: out)
  qed
  from readings after flags count place out i(3) show ?thesis by (simp add: save_inv_def)
qed

lemma save_pass_inv:
  assumes "key_ok key" and "bare val" and "section \<noteq> []"
  shows "save_inv section key val lines (fold (save_step section key (assignment_text key val)) lines
     \<lparr>sp_lines = [], sp_rewrites = 0, sp_insert = n, sp_in = False, sp_seen = False\<rparr>)"
proof (induction lines rule: rev_induct)
  case Nil
  show ?case using assms(3) by (simp add: save_inv_def)
next
  case (snoc line lines)
  from save_step_inv [OF assms(1,2) snoc assms(3)] show ?case by simp
qed

text \<open>After a save the key has its new value wherever it is set, it is set somewhere, and every other
  assignment of the file stands as it stood.\<close>

lemma save_lines_readings:
  fixes lines :: "bytes list"
  assumes "key_ok key" and "bare val" and sect: "section \<noteq> []" "bare section" "93 \<notin> set section"
  defines "old \<equiv> readings [] lines" and "new \<equiv> readings [] (save_lines section key val lines)"
  shows "filter (\<lambda>r. \<not> at_key (section, key) r) new = filter (\<lambda>r. \<not> at_key (section, key) r) old"
    and "\<exists>n > 0. filter (at_key (section, key)) new = replicate n ((section, key), escape val)"
proof -
  let ?p = "(section, key)" and ?a = "assignment_text key val"
  define sp where "sp = fold (save_step section key ?a) lines
     \<lparr>sp_lines = [], sp_rewrites = 0, sp_insert = length lines + 1, sp_in = False, sp_seen = False\<rparr>"
  have inv: "save_inv section key val lines sp" unfolding sp_def by (rule save_pass_inv [OF assms(1,2) sect(1)])
  then have i: "readings [] (sp_lines sp) = map (put_value ?p (escape val)) old"
    "sp_rewrites sp = length (filter (at_key ?p) old)"
    "sp_seen sp \<longrightarrow> section_after [] (take (sp_insert sp) (sp_lines sp)) = section"
    by (simp_all add: save_inv_def old_def)
  have others: "filter (\<lambda>r. \<not> at_key ?p r) (map (put_value ?p v) rs) = filter (\<lambda>r. \<not> at_key ?p r) rs" for v rs
    by (induction rs) (auto simp: put_value_def at_key_def)
  have own: "filter (at_key ?p) (map (put_value ?p v) rs) = replicate (length (filter (at_key ?p) rs)) (?p, v)" for v rs
    by (induction rs) (auto simp: put_value_def at_key_def)
  have line: "parse_line ?a = Assignment_Line key (escape val) []"
    using parse_written [OF assms(1,2), of "[]"] by (simp add: note_ok_def bare_def)
  have save: "save_lines section key val lines =
    (if sp_rewrites sp \<noteq> 0 then sp_lines sp
     else if sp_seen sp \<and> sp_insert sp \<le> length (sp_lines sp)
     then take (sp_insert sp) (sp_lines sp) @ [?a] @ drop (sp_insert sp) (sp_lines sp)
     else (if sp_lines sp \<noteq> [] \<and> trim (last (sp_lines sp)) \<noteq> [] then sp_lines sp @ [[]] else sp_lines sp) @ [[91] @ section @ [93], ?a])"
    unfolding save_lines_def Let_def sp_def by simp
  show "filter (\<lambda>r. \<not> at_key ?p r) new = filter (\<lambda>r. \<not> at_key ?p r) old"
    "\<exists>n > 0. filter (at_key ?p) new = replicate n (?p, escape val)"
  proof -
    consider (again) "sp_rewrites sp \<noteq> 0"
      | (inside) "sp_rewrites sp = 0" "sp_seen sp \<and> sp_insert sp \<le> length (sp_lines sp)"
      | (outside) "sp_rewrites sp = 0" "\<not> (sp_seen sp \<and> sp_insert sp \<le> length (sp_lines sp))"
      by blast
    then have "filter (\<lambda>r. \<not> at_key ?p r) new = filter (\<lambda>r. \<not> at_key ?p r) old \<and>
      (\<exists>n > 0. filter (at_key ?p) new = replicate n (?p, escape val))"
    proof cases
      case again
      then have "new = map (put_value ?p (escape val)) old" by (simp add: new_def save i(1))
      then show ?thesis using again i(2) by (auto simp: others own)
    next
      case inside
      let ?xs = "take (sp_insert sp) (sp_lines sp)" and ?ys = "drop (sp_insert sp) (sp_lines sp)"
      have all: "readings [] ?xs @ readings section ?ys = map (put_value ?p (escape val)) old"
        using i(1,3) inside by (metis append_take_drop_id readings_append)
      have "new = readings [] ?xs @ (?p, escape val) # readings section ?ys"
        using inside i(3) by (simp add: new_def save readings_append line)
      moreover have "filter (at_key ?p) (readings [] ?xs) = []" "filter (at_key ?p) (readings section ?ys) = []"
        using arg_cong [OF all, of "filter (at_key ?p)"] inside(1) i(2) by (simp_all add: own)
      moreover have "filter (\<lambda>r. \<not> at_key ?p r) (readings [] ?xs) @ filter (\<lambda>r. \<not> at_key ?p r) (readings section ?ys)
          = filter (\<lambda>r. \<not> at_key ?p r) old"
        using arg_cong [OF all, of "filter (\<lambda>r. \<not> at_key ?p r)"] by (simp add: others)
      ultimately show ?thesis by (intro conjI exI [of _ 1]) (simp_all add: at_key_def)
    next
      case outside
      have blank: "parse_line [] = Blank_Line" by (simp add: parse_line_def trim_def)
      have "new = readings [] (sp_lines sp) @ [(?p, escape val)]"
        using outside parse_header [OF sect(2,1,3)] by (auto simp: new_def save readings_append line blank)
      moreover have "filter (at_key ?p) (readings [] (sp_lines sp)) = []" using outside(1) i(1,2) by (simp add: own)
      ultimately have "filter (at_key ?p) new = [(?p, escape val)]" "filter (\<lambda>r. \<not> at_key ?p r) new = filter (\<lambda>r. \<not> at_key ?p r) old"
        using i(1) others by (simp_all add: at_key_def [of _ "(?p, escape val)"])
      then show ?thesis by (intro conjI exI [of _ 1]) simp_all
    qed
    then show "filter (\<lambda>r. \<not> at_key ?p r) new = filter (\<lambda>r. \<not> at_key ?p r) old"
      "\<exists>n > 0. filter (at_key ?p) new = replicate n (?p, escape val)" by blast+
  qed
qed

section \<open>A setting of the file\<close>

text \<open>
  One setting: how it is read from the settings, where it stands in the file, and what a value written
  there makes of it. An assignment elsewhere and a binding leave it alone. What follows holds of every
  setting for which the code keeps these laws.
\<close>

locale setting =
  fixes names :: "'k key_names"
    and get :: "'k client_settings \<Rightarrow> 'v"
    and place :: "bytes \<times> bytes"
    and takes :: "bytes \<Rightarrow> 'v \<Rightarrow> 'v"
  assumes own: "get (snd (apply_assignment names (fst place) (snd place) val st)) = takes (unescape val) (get st)"
    and other: "(sec, key) \<noteq> place \<Longrightarrow> get (snd (apply_assignment names sec key val st)) = get st"
    and binding: "get (snd (apply_directive names directive st)) = get st"
    and known: "section_is_known (fst place)"
begin

lemma get_warn [simp]: "lo_settings (warn path n what lo) = lo_settings lo" "lo_known (warn path n what lo) = lo_known lo"
  "lo_section (warn path n what lo) = lo_section lo"
  by (simp_all add: warn_def)

definition own_values :: "bytes \<Rightarrow> bytes list \<Rightarrow> bytes list" where
  "own_values sec lines = map snd (filter (at_key place) (readings sec lines))"

lemma load_assignment_simps:
  "lo_section (load_assignment names path n key val lo) = lo_section lo"
  "lo_known (load_assignment names path n key val lo) = lo_known lo"
  "lo_settings (load_assignment names path n key val lo) =
     (if lo_known lo then snd (apply_assignment names (lo_section lo) key val (lo_settings lo)) else lo_settings lo)"
  by (simp_all add: load_assignment_def Let_def split: prod.split assignment_outcome.split option.split)

lemma load_directive_simps:
  "lo_section (load_directive names path n directive lo) = lo_section lo"
  "lo_known (load_directive names path n directive lo) = lo_known lo"
  "get (lo_settings (load_directive names path n directive lo)) = get (lo_settings lo)"
  using binding [of directive "lo_settings lo"]
  by (auto simp: load_directive_def split: prod.split option.split)

text \<open>The settings after a line: the value it has for this setting, if it has one, and nothing else.\<close>

lemma load_line_facts:
  fixes path line :: bytes and n :: nat and lo :: "'k loading"
  assumes "section_is_known (lo_section lo) \<longrightarrow> lo_known lo"
  defines "z \<equiv> load_line names path (n, line) lo"
  shows "get (lo_settings z) = fold (\<lambda>val. takes (unescape val)) (own_values (lo_section lo) [line]) (get (lo_settings lo))"
    and "section_is_known (lo_section z) \<longrightarrow> lo_known z"
    and "lo_section z = section_after (lo_section lo) [line]"
proof -
  show "section_is_known (lo_section z) \<longrightarrow> lo_known z" "lo_section z = section_after (lo_section lo) [line]"
    using assms(1) unfolding z_def
    by (auto simp: load_line_def load_section_def Let_def load_assignment_simps load_directive_simps split: parsed_line.split)
  show "get (lo_settings z) = fold (\<lambda>val. takes (unescape val)) (own_values (lo_section lo) [line]) (get (lo_settings lo))"
  proof (cases "parse_line line")
    case (Assignment_Line key val comment)
    show ?thesis
    proof (cases "(lo_section lo, key) = place")
      case True
      then have "lo_known lo" using known assms(1) by auto
      then show ?thesis using Assignment_Line True own [of val "lo_settings lo"]
        by (auto simp: z_def load_line_def load_assignment_simps own_values_def at_key_def)
    next
      case False
      then show ?thesis using Assignment_Line other [OF False, of val "lo_settings lo"]
        by (simp add: z_def load_line_def load_assignment_simps own_values_def at_key_def)
    qed
  qed (simp_all add: z_def load_line_def load_section_def Let_def load_directive_simps own_values_def)
qed

lemma get_load_from:
  assumes "section_is_known (lo_section lo) \<longrightarrow> lo_known lo" and "length ns = length lines"
  shows "get (lo_settings (fold (load_line names path) (zip ns lines) lo)) =
    fold (\<lambda>val. takes (unescape val)) (own_values (lo_section lo) lines) (get (lo_settings lo))"
  using assms
proof (induction lines arbitrary: ns lo)
  case (Cons line lines)
  then obtain n ns' where ns: "ns = n # ns'" "length ns' = length lines" by (cases ns) auto
  have parts: "own_values sec (line # lines) = own_values sec [line] @ own_values (section_after sec [line]) lines" for sec
    using readings_append [of sec "[line]" lines] by (simp add: own_values_def)
  show ?case
    using Cons.IH [OF load_line_facts(2) [OF Cons.prems(1)] ns(2), of path n line]
      load_line_facts(1,3) [OF Cons.prems(1), of path n line]
    by (simp add: ns parts del: section_after.simps)
qed (simp add: own_values_def)

text \<open>A file's setting is what its own lines make of the default, in their order.\<close>

theorem get_load:
  assumes "path \<noteq> []"
  shows "get (fst (load_settings names path (Read_Lines lines))) =
    fold (\<lambda>val. takes (unescape val)) (own_values [] lines) (get default_client_settings)"
proof -
  have "\<not> section_is_known []" by (simp add: section_is_known_def section_names_def)
  then show ?thesis
    using get_load_from [of loading_start "[1..<Suc (length lines)]" lines path] assms
    by (simp add: load_settings_def Let_def load_lines_def loading_start_def del: upt_Suc)
qed

text \<open>After a save this setting is what the saved value makes of it, provided that does not depend on what it
  was; a save of another key leaves it as it would have been.\<close>

theorem saved_is_loaded:
  assumes "path \<noteq> []" and "key_ok (snd place)" and "bare val" and "fst place \<noteq> []" "bare (fst place)" "93 \<notin> set (fst place)"
    and takes: "\<And>old. takes val old = v"
  shows "get (fst (load_settings names path (Read_Lines (save_lines (fst place) (snd place) val lines)))) = v"
proof -
  obtain n where n: "n > 0" "filter (at_key place) (readings [] (save_lines (fst place) (snd place) val lines)) =
      replicate n (place, escape val)"
    using save_lines_readings(2) [OF assms(2-6), of lines] by auto
  then have "own_values [] (save_lines (fst place) (snd place) val lines) = replicate n (escape val)"
    by (simp add: own_values_def)
  moreover have "fold (\<lambda>val. takes (unescape val)) (replicate n (escape val)) old = v" for old
  proof -
    obtain m where m: "n = Suc m" using n(1) by (cases n) auto
    have "(takes val ^^ m) v = v" by (induction m) (simp_all add: takes)
    then show ?thesis by (simp add: m unescape_escape takes)
  qed
  ultimately show ?thesis by (simp add: get_load [OF assms(1)])
qed

theorem others_are_kept:
  assumes "path \<noteq> []" and "key_ok key" and "bare val" and "sec \<noteq> []" "bare sec" "93 \<notin> set sec" and other: "(sec, key) \<noteq> place"
  shows "get (fst (load_settings names path (Read_Lines (save_lines sec key val lines)))) =
    get (fst (load_settings names path (Read_Lines lines)))"
proof -
  have sub: "filter (at_key place) rs = filter (at_key place) (filter (\<lambda>r. \<not> at_key (sec, key) r) rs)" for rs
    using other by (auto simp: at_key_def intro!: filter_cong)
  have "own_values [] (save_lines sec key val lines) = own_values [] lines"
    unfolding own_values_def by (subst (1 2) sub) (simp only: save_lines_readings(1) [OF assms(2-6)])
  then show ?thesis by (simp add: get_load [OF assms(1)])
qed

end

end
