(* ===== verification/Settings_Dialog.thy ===== *)
theory Settings_Dialog
  imports Config_Facts
begin

text \<open>
  The settings a reader changes on the screen (\<^verbatim>\<open>src/src/client/client_app.cpp\<close>): each is put in force,
  and where it is another one than before its key is saved in the configuration file. That each of them
  is a setting of the file, in the sense of \<^verbatim>\<open>Config_Facts\<close>, is what makes it outlive the session.
\<close>

section \<open>The changes\<close>

datatype readout = Show_Cpu | Show_Rss | Show_Real

datatype change =
    Login_Shell bool
  | Kill_Grace int
  | Resize_To_Fit bool
  | Sixel_Megapixels int
  | Clock_Mode clock_mode
  | Theme_Choice theme
  | Printer_Always capture_mode

definition capture_setting :: "capture_mode \<Rightarrow> bytes" where
  "capture_setting mode = (case mode of Off \<Rightarrow> str ''off'' | Capture \<Rightarrow> str ''capture'' | Ask \<Rightarrow> str ''ask'')"

text \<open>What is put in force, and the section, key and text to save.\<close>

primrec put_in_force :: "change \<Rightarrow> 'k client_settings \<Rightarrow> 'k client_settings" where
  "put_in_force (Login_Shell b) st = st\<lparr>set_login_shell := b\<rparr>"
| "put_in_force (Kill_Grace n) st = st\<lparr>set_kill_grace_seconds := n\<rparr>"
| "put_in_force (Resize_To_Fit b) st = st\<lparr>set_resize_windows_to_fit := b\<rparr>"
| "put_in_force (Sixel_Megapixels n) st = st\<lparr>set_sixel_max_megapixels := n\<rparr>"
| "put_in_force (Clock_Mode m) st = st\<lparr>set_clock := m\<rparr>"
| "put_in_force (Theme_Choice t) st = st\<lparr>set_theme := t\<rparr>"
| "put_in_force (Printer_Always m) st = st\<lparr>set_printer_mode := m\<rparr>"

primrec written_as :: "change \<Rightarrow> bytes \<times> bytes \<times> bytes" where
  "written_as (Login_Shell b) = (str ''general'', str ''login-shell'', bool_setting b)"
| "written_as (Kill_Grace n) = (str ''general'', str ''kill-grace-seconds'', decimal (nat n))"
| "written_as (Resize_To_Fit b) = (str ''general'', str ''resize-windows-to-fit'', bool_setting b)"
| "written_as (Sixel_Megapixels n) = (str ''terminal'', str ''sixel-max-megapixels'', decimal (nat n))"
| "written_as (Clock_Mode m) = (str ''general'', str ''clock'', clock_setting m)"
| "written_as (Theme_Choice t) = (str ''general'', str ''theme'', theme_setting t)"
| "written_as (Printer_Always m) = (str ''printer'', str ''mode'', capture_setting m)"

text \<open>Whether a change is already in force; the printer's is written either way.\<close>

primrec in_force :: "change \<Rightarrow> 'k client_settings \<Rightarrow> bool" where
  "in_force (Login_Shell b) st = (set_login_shell st = b)"
| "in_force (Kill_Grace n) st = (set_kill_grace_seconds st = n)"
| "in_force (Resize_To_Fit b) st = (set_resize_windows_to_fit st = b)"
| "in_force (Sixel_Megapixels n) st = (set_sixel_max_megapixels st = n)"
| "in_force (Clock_Mode m) st = (set_clock st = m)"
| "in_force (Theme_Choice t) st = (set_theme st = t)"
| "in_force (Printer_Always m) st = (set_printer_mode st = m)"

definition apply_change :: "change \<Rightarrow> 'k client_settings \<Rightarrow> 'k client_settings \<times> (bytes \<times> bytes \<times> bytes) option" where
  "apply_change c st =
     (if (case c of Printer_Always _ \<Rightarrow> False | _ \<Rightarrow> in_force c st) then (st, None) else (put_in_force c st, Some (written_as c)))"

text \<open>A readout is turned over rather than set.\<close>

primrec readout_shown :: "readout \<Rightarrow> 'k client_settings \<Rightarrow> bool" where
  "readout_shown Show_Cpu st = set_show_cpu st"
| "readout_shown Show_Rss st = set_show_memory_rss st"
| "readout_shown Show_Real st = set_show_memory_real st"

primrec turn_readout :: "readout \<Rightarrow> 'k client_settings \<Rightarrow> 'k client_settings" where
  "turn_readout Show_Cpu st = st\<lparr>set_show_cpu := \<not> set_show_cpu st\<rparr>"
| "turn_readout Show_Rss st = st\<lparr>set_show_memory_rss := \<not> set_show_memory_rss st\<rparr>"
| "turn_readout Show_Real st = st\<lparr>set_show_memory_real := \<not> set_show_memory_real st\<rparr>"

primrec readout_key :: "readout \<Rightarrow> bytes" where
  "readout_key Show_Cpu = str ''show-cpu''"
| "readout_key Show_Rss = str ''show-memory-rss''"
| "readout_key Show_Real = str ''show-memory-real''"

definition toggle_stats_readout :: "readout \<Rightarrow> 'k client_settings \<Rightarrow> 'k client_settings \<times> (bytes \<times> bytes \<times> bytes)" where
  "toggle_stats_readout r st =
     (let st = turn_readout r st in (st, (str ''general'', readout_key r, bool_setting (readout_shown r st))))"

section \<open>Each is a setting of the file\<close>

definition takes :: "(bytes \<Rightarrow> 'v option) \<Rightarrow> bytes \<Rightarrow> 'v \<Rightarrow> 'v" where
  "takes parse val old = (case parse val of None \<Rightarrow> old | Some v \<Rightarrow> v)"

lemmas assign_defs = assign_def assign_bool_def assign_int_def assign_bytes_def assign_enum_def

text \<open>What leaves a reading alone, branch by branch.\<close>

definition leaves :: "('s \<Rightarrow> 'v) \<Rightarrow> 's \<Rightarrow> ('x \<times> 's) option \<Rightarrow> bool" where
  "leaves get st r \<longleftrightarrow> (case r of None \<Rightarrow> True | Some (_, st') \<Rightarrow> get st' = get st)"

lemma leaves_if: "(c \<Longrightarrow> leaves get st a) \<Longrightarrow> leaves get st b \<Longrightarrow> leaves get st (if c then a else b)"
  by simp

lemma leaves_simps:
  "leaves get st None" "leaves get st (Some (x, st')) = (get st' = get st)"
  "(\<And>v. get (put v) = get st) \<Longrightarrow> leaves get st (Some (assign key written wanted parsed kept put st))"
  "(\<And>v. get (putb v) = get st) \<Longrightarrow> leaves get st (Some (assign_bool key val written cb putb st))"
  "(\<And>v. get (puti v) = get st) \<Longrightarrow> leaves get st (Some (assign_int key val written what lo hi ci puti st))"
  "(\<And>v. get (putn v) = get st) \<Longrightarrow> leaves get st (Some (assign_bytes key val written cn putn st))"
  "(\<And>v. get (pute v) = get st) \<Longrightarrow> leaves get st (Some (assign_enum key val written tab ce pute st))"
  by (simp_all add: leaves_def assign_defs split: option.split)

lemmas leaves_intros = leaves_if leaves_simps(1) leaves_simps(3-7) leaves_simps(2) [THEN iffD2]

lemma leaves_assignment:
  assumes "sec = str ''general'' \<Longrightarrow> leaves get st (apply_general names key (unescape val) val st)"
    and "sec = str ''terminal'' \<Longrightarrow> leaves get st (apply_terminal key (unescape val) val st)"
    and "sec = str ''printer'' \<Longrightarrow> leaves get st (apply_printer key (unescape val) val st)"
    and "sec = str ''render'' \<Longrightarrow> leaves get st (apply_render key (unescape val) val st)"
  shows "get (snd (apply_assignment names sec key val st)) = get st"
  using assms by (auto simp: apply_assignment_def leaves_def split: option.split prod.split)

text \<open>A directive adds to the bindings and touches nothing else.\<close>

definition binds_only :: "'k client_settings \<Rightarrow> 'x \<times> 'k client_settings \<Rightarrow> bool" where
  "binds_only st r \<longleftrightarrow> (\<exists>bs. snd r = st\<lparr>set_binds := bs\<rparr>)"

lemma binds_only_intros:
  "binds_only st (x, st)" "binds_only st (x, st\<lparr>set_binds := bs\<rparr>)"
  "binds_only st a \<Longrightarrow> binds_only st b \<Longrightarrow> binds_only st (if c then a else b)"
  "binds_only st f \<Longrightarrow> (\<And>v. binds_only st (g v)) \<Longrightarrow> binds_only st (case opt of None \<Rightarrow> f | Some v \<Rightarrow> g v)"
proof -
  have "snd (x, st) = st\<lparr>set_binds := set_binds st\<rparr>" by simp
  then show "binds_only st (x, st)" unfolding binds_only_def by blast
qed (auto simp: binds_only_def split: option.split)

lemma directive_binds: "\<exists>bs. snd (apply_directive names directive st) = st\<lparr>set_binds := bs\<rparr>"
proof -
  have "binds_only st (apply_directive names directive st)"
    unfolding apply_directive_def Let_def by (intro binds_only_intros)
  then show ?thesis by (simp add: binds_only_def)
qed

lemma directive_leaves:
  "(\<And>bs. get (st\<lparr>set_binds := bs\<rparr>) = get st) \<Longrightarrow> get (snd (apply_directive names directive st)) = get st"
  using directive_binds [of names directive st] by auto

lemma general_known: "section_is_known (str ''general'')" "section_is_known (str ''terminal'')" "section_is_known (str ''printer'')"
  by (simp_all add: section_is_known_def section_names_def)

lemmas own_defs = apply_assignment_def apply_general_def apply_terminal_def apply_printer_def assign_defs takes_def

lemmas other_defs = apply_general_def apply_terminal_def apply_printer_def apply_render_def

lemma settings_own:
  "set_show_cpu (snd (apply_assignment names (str ''general'') (str ''show-cpu'') val st)) = takes parse_bool (unescape val) (set_show_cpu st)"
  "set_show_memory_rss (snd (apply_assignment names (str ''general'') (str ''show-memory-rss'') val st)) = takes parse_bool (unescape val) (set_show_memory_rss st)"
  "set_show_memory_real (snd (apply_assignment names (str ''general'') (str ''show-memory-real'') val st)) = takes parse_bool (unescape val) (set_show_memory_real st)"
  "set_login_shell (snd (apply_assignment names (str ''general'') (str ''login-shell'') val st)) = takes parse_bool (unescape val) (set_login_shell st)"
  "set_resize_windows_to_fit (snd (apply_assignment names (str ''general'') (str ''resize-windows-to-fit'') val st)) = takes parse_bool (unescape val) (set_resize_windows_to_fit st)"
  "set_kill_grace_seconds (snd (apply_assignment names (str ''general'') (str ''kill-grace-seconds'') val st)) = takes (\<lambda>val. parse_int_in_range val 0 600) (unescape val) (set_kill_grace_seconds st)"
  "set_clock (snd (apply_assignment names (str ''general'') (str ''clock'') val st)) = takes (value_in clock_modes) (unescape val) (set_clock st)"
  "set_theme (snd (apply_assignment names (str ''general'') (str ''theme'') val st)) = takes (value_in themes) (unescape val) (set_theme st)"
  "set_sixel_max_megapixels (snd (apply_assignment names (str ''terminal'') (str ''sixel-max-megapixels'') val st)) = takes parse_sixel_megapixels (unescape val) (set_sixel_max_megapixels st)"
  "set_printer_mode (snd (apply_assignment names (str ''printer'') (str ''mode'') val st)) = takes (value_in capture_modes) (unescape val) (set_printer_mode st)"
  by (simp_all add: own_defs split: option.split)

lemma settings_other:
  "(sec, key) \<noteq> (str ''general'', str ''show-cpu'') \<Longrightarrow> set_show_cpu (snd (apply_assignment names sec key val st)) = set_show_cpu st"
  "(sec, key) \<noteq> (str ''general'', str ''show-memory-rss'') \<Longrightarrow> set_show_memory_rss (snd (apply_assignment names sec key val st)) = set_show_memory_rss st"
  "(sec, key) \<noteq> (str ''general'', str ''show-memory-real'') \<Longrightarrow> set_show_memory_real (snd (apply_assignment names sec key val st)) = set_show_memory_real st"
  "(sec, key) \<noteq> (str ''general'', str ''login-shell'') \<Longrightarrow> set_login_shell (snd (apply_assignment names sec key val st)) = set_login_shell st"
  "(sec, key) \<noteq> (str ''general'', str ''resize-windows-to-fit'') \<Longrightarrow> set_resize_windows_to_fit (snd (apply_assignment names sec key val st)) = set_resize_windows_to_fit st"
  "(sec, key) \<noteq> (str ''general'', str ''kill-grace-seconds'') \<Longrightarrow> set_kill_grace_seconds (snd (apply_assignment names sec key val st)) = set_kill_grace_seconds st"
  "(sec, key) \<noteq> (str ''general'', str ''clock'') \<Longrightarrow> set_clock (snd (apply_assignment names sec key val st)) = set_clock st"
  "(sec, key) \<noteq> (str ''general'', str ''theme'') \<Longrightarrow> set_theme (snd (apply_assignment names sec key val st)) = set_theme st"
  "(sec, key) \<noteq> (str ''terminal'', str ''sixel-max-megapixels'') \<Longrightarrow> set_sixel_max_megapixels (snd (apply_assignment names sec key val st)) = set_sixel_max_megapixels st"
  "(sec, key) \<noteq> (str ''printer'', str ''mode'') \<Longrightarrow> set_printer_mode (snd (apply_assignment names sec key val st)) = set_printer_mode st"
  by (rule leaves_assignment; unfold other_defs; (intro leaves_intros; simp)+)+

interpretation cpu_setting: setting names set_show_cpu "(str ''general'', str ''show-cpu'')" "takes parse_bool" for names
  by unfold_locales (simp_all add: settings_own settings_other directive_leaves general_known)

interpretation rss_setting: setting names set_show_memory_rss "(str ''general'', str ''show-memory-rss'')" "takes parse_bool" for names
  by unfold_locales (simp_all add: settings_own settings_other directive_leaves general_known)

interpretation real_setting: setting names set_show_memory_real "(str ''general'', str ''show-memory-real'')" "takes parse_bool" for names
  by unfold_locales (simp_all add: settings_own settings_other directive_leaves general_known)

interpretation login_setting: setting names set_login_shell "(str ''general'', str ''login-shell'')" "takes parse_bool" for names
  by unfold_locales (simp_all add: settings_own settings_other directive_leaves general_known)

interpretation resize_setting: setting names set_resize_windows_to_fit "(str ''general'', str ''resize-windows-to-fit'')" "takes parse_bool" for names
  by unfold_locales (simp_all add: settings_own settings_other directive_leaves general_known)

interpretation grace_setting: setting names set_kill_grace_seconds "(str ''general'', str ''kill-grace-seconds'')" "takes (\<lambda>val. parse_int_in_range val 0 600)" for names
  by unfold_locales (simp_all add: settings_own settings_other directive_leaves general_known)

interpretation clock_setting: setting names set_clock "(str ''general'', str ''clock'')" "takes (value_in clock_modes)" for names
  by unfold_locales (simp_all add: settings_own settings_other directive_leaves general_known)

interpretation theme_setting: setting names set_theme "(str ''general'', str ''theme'')" "takes (value_in themes)" for names
  by unfold_locales (simp_all add: settings_own settings_other directive_leaves general_known)

interpretation sixel_setting: setting names set_sixel_max_megapixels "(str ''terminal'', str ''sixel-max-megapixels'')" "takes parse_sixel_megapixels" for names
  by unfold_locales (simp_all add: settings_own settings_other directive_leaves general_known)

interpretation printer_setting: setting names set_printer_mode "(str ''printer'', str ''mode'')" "takes (value_in capture_modes)" for names
  by unfold_locales (simp_all add: settings_own settings_other directive_leaves general_known)

section \<open>Numbers round\<close>

lemma digits_append: "digits_value (ds @ [c]) = digits_value ds * 10 + (unat c - 48)"
  by (simp add: digits_value_def)

lemma decimal_parsed: "digits_value (decimal n) = n \<and> list_all is_digit (decimal n) \<and> decimal n \<noteq> []"
proof (induction n rule: decimal.induct)
  case (1 n)
  have digit: "unat (word_of_nat (48 + d) :: u8) = 48 + d" if "d < 10" for d
    using unat_of_nat_len [of "48 + d", where 'a = 8] that by simp
  have dig: "is_digit (word_of_nat (48 + d))" if "d < 10" for d
    using digit [OF that] that by (simp add: is_digit_def word_le_nat_alt)
  show ?case
  proof (cases "n < 10")
    case True
    then show ?thesis using digit [OF True] dig [OF True] by (subst (1 2 3) decimal.simps) (simp add: digits_value_def)
  next
    case False
    have "n mod 10 < 10" by simp
    with 1 False digit [OF this] dig [OF this] show ?thesis
      by (subst (1 2 3) decimal.simps) (simp add: digits_append)
  qed
qed

lemma digit_not: "is_digit c \<Longrightarrow> \<not> is_space c \<and> c \<noteq> 45"
  by (auto simp: is_digit_def is_space_def)

lemma bare_digits: "list_all is_digit ds \<Longrightarrow> bare ds"
proof (cases "ds = []")
  case False
  assume "list_all is_digit ds"
  moreover have "hd ds \<in> set ds" "last ds \<in> set ds" using False by simp_all
  ultimately show ?thesis using digit_not by (auto simp: bare_def list_all_iff)
qed (simp add: bare_def)

lemma decimal_round:
  assumes "0 \<le> n" and "minimum \<le> n" and "n \<le> maximum" and "n < 2 ^ 31"
  shows "parse_int_in_range (decimal (nat n)) minimum maximum = Some n"
proof -
  have d: "digits_value (decimal (nat n)) = nat n" "list_all is_digit (decimal (nat n))" "decimal (nat n) \<noteq> []"
    using decimal_parsed by auto
  then have "is_digit (hd (decimal (nat n)))" by (cases "decimal (nat n)") auto
  then have "whole_int (decimal (nat n)) = Some n" using d digit_not assms by (auto simp: whole_int_def)
  then show ?thesis using assms by (simp add: parse_int_in_range_def trim_bare bare_digits d)
qed

section \<open>What is written\<close>

lemma spelled_back:
  "value_in clock_modes (clock_setting m) = Some m" "value_in themes (theme_setting t) = Some t"
  "value_in capture_modes (capture_setting c) = Some c" "parse_bool (bool_setting b) = Some b"
proof -
  show "value_in clock_modes (clock_setting m) = Some m"
    unfolding clock_setting_def by (rule value_name) (cases m; simp add: clock_modes_def)+
  show "value_in themes (theme_setting t) = Some t"
    unfolding theme_setting_def by (rule value_name) (cases t; simp add: themes_def)+
  show "value_in capture_modes (capture_setting c) = Some c"
    by (cases c) (simp_all add: capture_setting_def capture_modes_def value_in_def)
  show "parse_bool (bool_setting b) = Some b"
    by (simp add: parse_bool_def bool_setting_def trim_def str_def is_space_def)
qed

lemma bare_spelled: "bare (clock_setting m)" "bare (theme_setting t)" "bare (capture_setting c)" "bare (bool_setting b)"
proof -
  show "bare (clock_setting m)"
    by (cases m) (simp_all add: clock_setting_def name_in_def clock_modes_def bare_def str_def is_space_def)
  show "bare (theme_setting t)"
    by (cases t) (simp_all add: theme_setting_def name_in_def themes_def bare_def str_def is_space_def)
  show "bare (capture_setting c)" by (cases c) (simp_all add: capture_setting_def bare_def str_def is_space_def)
  show "bare (bool_setting b)" by (simp add: bool_setting_def bare_def str_def is_space_def)
qed

lemma dialog_keys_ok:
  "key_ok (fst (snd (written_as c)))" "fst (written_as c) \<noteq> []" "bare (fst (written_as c))" "93 \<notin> set (fst (written_as c))"
  by (cases c; simp add: key_ok_def bare_def str_def is_space_def)+

definition in_range :: "change \<Rightarrow> bool" where
  "in_range c \<longleftrightarrow> (case c of Kill_Grace n \<Rightarrow> 0 \<le> n \<and> n \<le> 600 | Sixel_Megapixels n \<Rightarrow> 1 \<le> n \<and> n \<le> 4096 | _ \<Rightarrow> True)"

lemma bare_written: "bare (snd (snd (written_as c)))"
  using decimal_parsed by (cases c) (simp_all add: bare_spelled bare_digits)

section \<open>The file as it is written\<close>

lemma get_put_lines: "\<forall>line \<in> set lines. 10 \<notin> set line \<Longrightarrow> get_lines (put_lines lines) = lines"
proof (induction lines)
  case (Cons line lines)
  then have "takeWhile (\<lambda>c. c \<noteq> 10) (line @ 10 # put_lines lines) = line"
    "dropWhile (\<lambda>c. c \<noteq> 10) (line @ 10 # put_lines lines) = 10 # put_lines lines"
    by (auto simp: takeWhile_append dropWhile_append)
  with Cons show ?case by (simp add: put_lines_def get_lines.simps [of "line @ 10 # _"])
qed (simp add: put_lines_def get_lines.simps)

lemma set_dropWhile: "set (dropWhile P cs) \<subseteq> set cs"
  by (auto dest: set_dropWhileD)

lemma set_trim: "set (trim cs) \<subseteq> set cs"
  unfolding trim_def set_rev using set_dropWhile [of is_space cs] set_dropWhile [of is_space "rev (dropWhile is_space cs)"] by auto

lemma get_lines_broken: "line \<in> set (get_lines contents) \<Longrightarrow> 10 \<notin> set line"
proof (induction contents rule: get_lines.induct)
  case (1 contents)
  show ?case
  proof (cases "contents = []")
    case False
    with 1(2) have "line = takeWhile (\<lambda>c. c \<noteq> 10) contents \<or> line \<in> set (get_lines (drop 1 (dropWhile (\<lambda>c. c \<noteq> 10) contents)))"
      by (subst (asm) get_lines.simps) auto
    with 1(1) [OF False] show ?thesis by (auto dest: set_takeWhileD)
  qed (use 1(2) in \<open>simp add: get_lines.simps\<close>)
qed

lemma set_escape: "set (escape cs) \<subseteq> insert 92 (set cs)"
  by (induction cs) auto

lemma comment_in_value: "set (comment_of val) \<subseteq> set val"
proof (cases "find_comment val")
  case (Some n)
  then show ?thesis using set_trim [of "drop n val"] set_drop_subset [of n val] by (auto simp: comment_of_def)
qed (simp add: comment_of_def)

lemma comment_in_line: "parse_line line = Assignment_Line k v comment \<Longrightarrow> set comment \<subseteq> set line"
proof -
  let ?rest = "dropWhile (\<lambda>c. c \<noteq> 61) (trim line)"
  assume "parse_line line = Assignment_Line k v comment"
  then have "comment = comment_of (tl ?rest) \<or> comment = comment_of (drop 1 ?rest)"
    by (auto simp: parse_line_def Let_def split: if_splits)
  moreover have set_tl: "set (tl xs) \<subseteq> set xs" for xs :: bytes by (cases xs) auto
  moreover have "set (tl ?rest) \<subseteq> set ?rest" by (rule set_tl)
  moreover have "set ?rest \<subseteq> set line" using set_dropWhile [of _ "trim line"] set_trim [of line] by blast
  ultimately show ?thesis using comment_in_value [of "tl ?rest"] by (auto simp: drop_Suc)
qed

lemma saved_unbroken:
  assumes "\<forall>line \<in> set lines. 10 \<notin> set line" and "10 \<notin> set sec" and "10 \<notin> set key" and "10 \<notin> set val"
  shows "\<forall>line \<in> set (save_lines sec key val lines). 10 \<notin> set line"
proof -
  let ?a = "assignment_text key val"
  have a: "10 \<notin> set ?a" using assms(3,4) set_escape [of val] by (auto simp: assignment_text_def str_def)
  have out: "10 \<notin> set (saved_line sec key ?a s line)" if "10 \<notin> set line" for s line
    using that a comment_in_line [of line] by (auto simp: saved_line_def str_def split: parsed_line.split)
  have step: "\<exists>s. sp_lines (save_step sec key ?a line sp) = sp_lines sp @ [saved_line sec key ?a s line]" for line sp
  proof (cases "sp_in sp")
    case True
    then show ?thesis
      by (intro exI [of _ sec]) (simp add: save_step_def saved_line_def Let_def split: parsed_line.split)
  next
    case False
    have "sec @ [0] \<noteq> sec" by simp
    with False show ?thesis
      by (intro exI [of _ "sec @ [0]"]) (simp add: save_step_def saved_line_def Let_def split: parsed_line.split)
  qed
  have pass: "\<forall>l \<in> set (sp_lines (fold (save_step sec key ?a) lines sp)). 10 \<notin> set l"
    if "\<forall>l \<in> set (sp_lines sp). 10 \<notin> set l" for sp
    using assms(1) that
  proof (induction lines arbitrary: sp)
    case (Cons line lines)
    obtain s where "sp_lines (save_step sec key ?a line sp) = sp_lines sp @ [saved_line sec key ?a s line]"
      using step by blast
    with Cons.prems(2) out [of line s] Cons.prems(1)
    have "\<forall>l \<in> set (sp_lines (save_step sec key ?a line sp)). 10 \<notin> set l" by simp
    from Cons.IH [OF _ this] Cons.prems(1) show ?case by simp
  qed simp
  let ?sp = "fold (save_step sec key ?a) lines
     \<lparr>sp_lines = [], sp_rewrites = 0, sp_insert = length lines + 1, sp_in = False, sp_seen = False\<rparr>"
  have "\<forall>l \<in> set (sp_lines ?sp). 10 \<notin> set l" by (rule pass) simp
  moreover have "set (save_lines sec key val lines) \<subseteq> set (sp_lines ?sp) \<union> {?a, [], [91] @ sec @ [93]}"
    unfolding save_lines_def Let_def using set_take_subset [of "sp_insert ?sp" "sp_lines ?sp"] set_drop_subset [of "sp_insert ?sp" "sp_lines ?sp"]
    by simp blast
  ultimately show ?thesis using a assms(2) by auto
qed

end
