(* ===== verification/Properties_Config.thy ===== *)
theory Properties_Config
  imports Settings_Dialog
begin

text \<open>
  What the configuration promises its reader: a setting changed in a dialog is the setting of the next
  session, a save disturbs no other, and a key that has been read is spelled so that it can be read again.
\<close>

section \<open>Saving and loading\<close>

text \<open>What the next session makes of what a save has written.\<close>

definition reloaded :: "'k key_names \<Rightarrow> bytes \<Rightarrow> bytes \<Rightarrow> 'k client_settings" where
  "reloaded names path contents = fst (load_settings names path (Read_Lines (get_lines contents)))"

text \<open>What the file says before the save, nothing where there is none.\<close>

definition lines_before :: "'f file_answers \<Rightarrow> bytes list" where
  "lines_before fa = (case fa_read fa of None \<Rightarrow> [] | Some (contents, _) \<Rightarrow> get_lines contents)"

lemma saved_contents:
  assumes "snd (save_setting fa path sec key val) = Some (contents, expected)"
  shows "contents = put_lines (save_lines sec key val (lines_before fa))" and "path \<noteq> []"
  using assms by (auto simp: save_setting_def lines_before_def Let_def split: if_splits)

lemma before_unbroken: "\<forall>line \<in> set (lines_before fa). 10 \<notin> set line"
  by (auto simp: lines_before_def get_lines_broken split: option.split prod.split)

lemma reloaded_saved:
  assumes "snd (save_setting fa path sec key val) = Some (contents, expected)"
    and "10 \<notin> set sec" and "10 \<notin> set key" and "10 \<notin> set val"
  shows "reloaded names path contents = fst (load_settings names path (Read_Lines (save_lines sec key val (lines_before fa))))"
  using saved_unbroken [OF before_unbroken assms(2-4), of fa]
  by (simp add: reloaded_def saved_contents(1) [OF assms(1)] get_put_lines)

lemma digits_unbroken: "10 \<notin> set (decimal n)"
  using decimal_parsed [of n] by (auto simp: list_all_iff is_digit_def)

lemma spelled_unbroken:
  "10 \<notin> set (clock_setting m)" "10 \<notin> set (theme_setting t)" "10 \<notin> set (capture_setting c)" "10 \<notin> set (bool_setting b)"
proof -
  show "10 \<notin> set (clock_setting m)" by (cases m) (simp_all add: clock_setting_def name_in_def clock_modes_def str_def)
  show "10 \<notin> set (theme_setting t)" by (cases t) (simp_all add: theme_setting_def name_in_def themes_def str_def)
  show "10 \<notin> set (capture_setting c)" by (cases c) (simp_all add: capture_setting_def str_def)
  show "10 \<notin> set (bool_setting b)" by (simp add: bool_setting_def str_def)
qed

lemma written_unbroken:
  "10 \<notin> set (fst (written_as c))" "10 \<notin> set (fst (snd (written_as c)))" "10 \<notin> set (snd (snd (written_as c)))"
proof -
  show "10 \<notin> set (fst (written_as c))" by (cases c) (simp_all add: str_def)
  show "10 \<notin> set (fst (snd (written_as c)))" by (cases c) (simp_all add: str_def)
  show "10 \<notin> set (snd (snd (written_as c)))" by (cases c) (simp_all add: spelled_unbroken digits_unbroken del: decimal.simps)
qed

text \<open>What a save is asked for by a change, and by a readout.\<close>

definition save_change :: "'f file_answers \<Rightarrow> bytes \<Rightarrow> bytes \<times> bytes \<times> bytes \<Rightarrow> bool \<times> (bytes \<times> 'f option) option" where
  "save_change fa path w = save_setting fa path (fst w) (fst (snd w)) (snd (snd w))"

lemma grace_round: "0 \<le> n \<Longrightarrow> n \<le> 600 \<Longrightarrow> takes (\<lambda>val. parse_int_in_range val 0 600) (decimal (nat n)) old = n"
  by (simp add: takes_def decimal_round)

lemma sixel_round: "1 \<le> n \<Longrightarrow> n \<le> 4096 \<Longrightarrow> takes parse_sixel_megapixels (decimal (nat n)) old = n"
  by (simp add: takes_def parse_sixel_megapixels_def decimal_round)

section \<open>The properties\<close>

text \<open>C8. A setting changed in a dialog outlives the session. Whatever the file said before (nothing, an older
  value, the key several times over, notes, bindings, lines with mistakes), once the change has been written
  the next session reads that very value, provided it is one the dialog lets through.
\<close>

theorem changed_setting_is_kept:
  assumes "in_range c" and "snd (save_change fa path (written_as c)) = Some (contents, expected)"
  shows "in_force c (reloaded names path contents)"
proof -
  note saved = assms(2) [unfolded save_change_def]
  note path = saved_contents(2) [OF saved]
  note fresh = reloaded_saved [OF saved written_unbroken, of names]
  note laws = path dialog_keys_ok(1) [of c] bare_written [of c] dialog_keys_ok(2-4) [of c]
  show ?thesis
  proof (cases c)
    case (Login_Shell b)
    then show ?thesis
      using login_setting.saved_is_loaded [where names = names and v = b and val = "bool_setting b"] laws fresh spelled_back(4) [of b] by (simp add: takes_def)
  next
    case (Kill_Grace n)
    then show ?thesis
      using grace_setting.saved_is_loaded [where names = names and v = n and val = "decimal (nat n)"] laws fresh assms(1)
      by (simp add: in_range_def grace_round del: decimal.simps)
  next
    case (Resize_To_Fit b)
    then show ?thesis
      using resize_setting.saved_is_loaded [where names = names and v = b and val = "bool_setting b"] laws fresh spelled_back(4) [of b] by (simp add: takes_def)
  next
    case (Sixel_Megapixels n)
    then show ?thesis
      using sixel_setting.saved_is_loaded [where names = names and v = n and val = "decimal (nat n)"] laws fresh assms(1)
      by (simp add: in_range_def sixel_round del: decimal.simps)
  next
    case (Clock_Mode m)
    then show ?thesis
      using clock_setting.saved_is_loaded [where names = names and v = m and val = "clock_setting m"] laws fresh spelled_back(1) [of m] by (simp add: takes_def)
  next
    case (Theme_Choice t)
    then show ?thesis
      using theme_setting.saved_is_loaded [where names = names and v = t and val = "theme_setting t"] laws fresh spelled_back(2) [of t] by (simp add: takes_def)
  next
    case (Printer_Always m)
    then show ?thesis
      using printer_setting.saved_is_loaded [where names = names and v = m and val = "capture_setting m"] laws fresh spelled_back(3) [of m] by (simp add: takes_def)
  qed
qed

text \<open>A small file and the answers of a file system that lets it be written.\<close>

definition sample_file :: "unit file_answers" where
  "sample_file = \<lparr>fa_read = Some (str ''[general]'' @ [10] @ str ''kill-grace-seconds = 9  # was five'' @ [10], ()),
     fa_exists = True, fa_directory = True, fa_written = (\<lambda>_ _. True)\<rparr>"

definition one_key :: "unit key_names" where
  "one_key = \<lparr>kn_name = (\<lambda>_. str ''Enter''), kn_from = (\<lambda>text. if text = str ''Enter'' then Some () else None)\<rparr>"

lemma one_key_sane: "sane_names one_key"
  by (auto simp: sane_names_def one_key_def) (simp_all add: str_def)

theorem changed_setting_is_kept_witness:
  "\<exists>contents. in_force (Kill_Grace 30) (reloaded one_key (str ''ckmux.conf'') contents) \<and>
     snd (save_change sample_file (str ''ckmux.conf'') (written_as (Kill_Grace 30))) = Some (contents, Some ())"
proof -
  obtain contents where c: "snd (save_change sample_file (str ''ckmux.conf'') (written_as (Kill_Grace 30))) = Some (contents, Some ())"
    by (simp add: save_change_def save_setting_def sample_file_def Let_def)
  moreover have "in_range (Kill_Grace 30)" by (simp add: in_range_def)
  ultimately show ?thesis using changed_setting_is_kept [OF _ c, of one_key] by blast
qed

definition key_of :: "change \<Rightarrow> bytes \<times> bytes" where
  "key_of c = (fst (written_as c), fst (snd (written_as c)))"

text \<open>C17. A save disturbs no other setting. Whatever a change writes, every setting of the dialogs that stands
  under another key is read by the next session as it would have been without the save.
\<close>

theorem save_disturbs_no_other:
  assumes "snd (save_change fa path (written_as c)) = Some (contents, expected)" and "key_of d \<noteq> key_of c"
  shows "in_force d (reloaded names path contents) = in_force d (reloaded names path (put_lines (lines_before fa)))"
proof -
  note saved = assms(1) [unfolded save_change_def]
  have before: "reloaded names path (put_lines (lines_before fa)) = fst (load_settings names path (Read_Lines (lines_before fa)))"
    by (simp add: reloaded_def get_put_lines before_unbroken)
  note fresh = reloaded_saved [OF saved written_unbroken, of names]
  note laws = saved_contents(2) [OF saved] dialog_keys_ok(1) bare_written dialog_keys_ok(2-4)
  note kept = login_setting.others_are_kept grace_setting.others_are_kept resize_setting.others_are_kept
    sixel_setting.others_are_kept clock_setting.others_are_kept theme_setting.others_are_kept printer_setting.others_are_kept
  note kept = kept [where names = names and sec = "fst (written_as c)" and key = "fst (snd (written_as c))"
      and val = "snd (snd (written_as c))" and lines = "lines_before fa", OF laws]
  have "(fst (written_as c), fst (snd (written_as c))) \<noteq> key_of d" using assms(2) by (auto simp: key_of_def)
  with kept show ?thesis by (cases d) (simp_all add: fresh before key_of_def)
qed

theorem save_disturbs_no_other_witness:
  "\<exists>contents. in_force (Kill_Grace 9) (reloaded one_key (str ''ckmux.conf'') contents) =
     in_force (Kill_Grace 9) (reloaded one_key (str ''ckmux.conf'') (put_lines (lines_before sample_file))) \<and>
     snd (save_change sample_file (str ''ckmux.conf'') (written_as (Theme_Choice Mono))) = Some (contents, Some ())"
proof -
  obtain contents where c: "snd (save_change sample_file (str ''ckmux.conf'') (written_as (Theme_Choice Mono))) = Some (contents, Some ())"
    by (simp add: save_change_def save_setting_def sample_file_def Let_def)
  moreover have "key_of (Kill_Grace 9) \<noteq> key_of (Theme_Choice Mono)" by (simp add: key_of_def)
  ultimately show ?thesis using save_disturbs_no_other [OF c, of "Kill_Grace 9" one_key] by blast
qed

text \<open>C18. A chord is read back from its spelling. Whatever text a reader bound a key with, the chord it was
  understood as is spelled so that reading the spelling gives that very chord; the blank held with Shift is the one
  exception, and even its spelling is stable.
\<close>

theorem chord_read_back:
  assumes "sane_names names" and "parse_chord names text = Some c"
  shows "parse_chord names (chord_spelling names c) = Some (spelled_chord c) \<and>
    chord_spelling names (spelled_chord c) = chord_spelling names c"
  using spelling_read_back [OF assms(1)] spelled_again parsed_writable [OF assms(2)] by blast+

theorem chord_read_back_witness:
  "parse_chord one_key (chord_spelling one_key (char_chord {Ctrl, Alt} [120])) = Some (char_chord {Ctrl, Alt} [120])"
proof -
  have "parse_chord one_key (str ''A-C-X'') = Some (char_chord {Ctrl, Alt} [120])"
    by (simp add: parse_chord_def str_def modifier_of_def one_key_def char_chord_def is_printable_ascii_def lower_ascii_def insert_commute)
  from chord_read_back [OF one_key_sane this] show ?thesis by (simp add: spelled_chord_def char_chord_def)
qed

section \<open>Whatever a file says\<close>

text \<open>What every reader of the settings relies on: numbers within their bounds, a prefix that can be written
  down, somewhere for the clipboard to go, and bindings whose chords the keymap can parse.\<close>

definition binding_ok :: "'k key_names \<Rightarrow> bind_directive \<Rightarrow> bool" where
  "binding_ok names b \<longleftrightarrow> (\<exists>c. parse_chord names (bd_chord b) = Some c \<and> chord_spelling names c = bd_chord b)"

definition settings_ok :: "'k key_names \<Rightarrow> 'k client_settings \<Rightarrow> bool" where
  "settings_ok names st \<longleftrightarrow>
     set_scrollback st \<in> {0..1000000} \<and> set_max_terminals st \<in> {1..4096} \<and> set_max_fps st \<in> {1..240} \<and>
     set_kill_grace_seconds st \<in> {0..600} \<and> set_sixel_max_megapixels st \<in> {1..4096} \<and>
     set_ask_cache_bytes st \<le> byte_size_max \<and> set_spool_limit_bytes st \<le> byte_size_max \<and>
     writable (set_prefix st) \<and> set_clipboard st \<noteq> [] \<and> list_all (binding_ok names) (set_binds st)"

definition keeps :: "('s \<Rightarrow> bool) \<Rightarrow> ('x \<times> 's) option \<Rightarrow> bool" where
  "keeps P r \<longleftrightarrow> (case r of None \<Rightarrow> True | Some (_, st) \<Rightarrow> P st)"

lemma keeps_intros:
  "keeps P None"
  "P st \<Longrightarrow> keeps P (Some (x, st))"
  "keeps P a \<Longrightarrow> keeps P b \<Longrightarrow> keeps P (if c then a else b)"
  "P st \<Longrightarrow> (\<And>v. parsed = Some v \<Longrightarrow> P (put v)) \<Longrightarrow> keeps P (Some (assign key written wanted parsed kept put st))"
  "P st \<Longrightarrow> (\<And>v. P (putb v)) \<Longrightarrow> keeps P (Some (assign_bool key val written cb putb st))"
  "P st \<Longrightarrow> (\<And>v. lo \<le> v \<Longrightarrow> v \<le> hi \<Longrightarrow> P (puti v)) \<Longrightarrow> keeps P (Some (assign_int key val written what lo hi ci puti st))"
  "P st \<Longrightarrow> (\<And>v. v \<le> byte_size_max \<Longrightarrow> P (putn v)) \<Longrightarrow> keeps P (Some (assign_bytes key val written cn putn st))"
  "P st \<Longrightarrow> (\<And>v. P (pute v)) \<Longrightarrow> keeps P (Some (assign_enum key val written tab ce pute st))"
proof -
  have int: "parse_int_in_range val lo hi = Some n \<Longrightarrow> lo \<le> n \<and> n \<le> hi" for n
    by (auto simp: parse_int_in_range_def split: option.splits if_splits)
  have size: "parse_byte_size val = Some n \<Longrightarrow> n \<le> byte_size_max" for n
    by (auto simp: parse_byte_size_def byte_size_max_def Let_def split: option.splits if_splits)
  show "P st \<Longrightarrow> (\<And>v. lo \<le> v \<Longrightarrow> v \<le> hi \<Longrightarrow> P (puti v)) \<Longrightarrow> keeps P (Some (assign_int key val written what lo hi ci puti st))"
    using int by (auto simp: keeps_def assign_defs split: option.split)
  show "P st \<Longrightarrow> (\<And>v. v \<le> byte_size_max \<Longrightarrow> P (putn v)) \<Longrightarrow> keeps P (Some (assign_bytes key val written cn putn st))"
    using size by (auto simp: keeps_def assign_defs split: option.split)
qed (auto simp: keeps_def assign_defs split: option.split)

lemma targets_some: "parse_targets rest = Some ts \<Longrightarrow> ts \<noteq> []"
  by (subst (asm) parse_targets.simps) (auto split: option.splits list.splits)

lemma assignment_keeps:
  assumes "settings_ok names st"
  shows "settings_ok names (snd (apply_assignment names sec key val st))"
proof -
  have general: "keeps (settings_ok names) (apply_general names key (unescape val) val st)"
    unfolding apply_general_def
    by (intro keeps_intros assms) (use assms in \<open>simp_all add: settings_ok_def parsed_writable\<close>)
  have terminal: "keeps (settings_ok names) (apply_terminal key (unescape val) val st)"
    unfolding apply_terminal_def
    by (intro keeps_intros assms)
      (use assms in \<open>auto simp: settings_ok_def parse_clipboard_targets_def parse_sixel_megapixels_def parse_int_in_range_def
         targets_some split: if_splits option.splits\<close>)
  have printer: "keeps (settings_ok names) (apply_printer key (unescape val) val st)"
    unfolding apply_printer_def
    by (intro keeps_intros assms) (use assms in \<open>simp_all add: settings_ok_def\<close>)
  have render: "keeps (settings_ok names) (apply_render key (unescape val) val st)"
    unfolding apply_render_def
    by (intro keeps_intros assms) (use assms in \<open>simp_all add: settings_ok_def\<close>)
  show ?thesis
    using general terminal printer render assms by (auto simp: apply_assignment_def keeps_def split: option.split prod.split)
qed

lemma split_words_binding:
  assumes "sane_names names" and "parse_chord names text = Some c"
  shows "binding_ok names \<lparr>bd_context = context, bd_chord = chord_spelling names c, bd_action = a\<rparr>"
  using spelling_read_back [OF assms(1) parsed_writable [OF assms(2)]] spelled_again [OF parsed_writable [OF assms(2)]]
  by (simp add: binding_ok_def)

lemma directive_keeps:
  assumes sane: "sane_names names" and ok: "settings_ok names st"
  shows "settings_ok names (snd (apply_directive names directive st))"
proof -
  have bound: "settings_ok names (st\<lparr>set_binds := set_binds st @
      [\<lparr>bd_context = context, bd_chord = chord_spelling names c, bd_action = a\<rparr>]\<rparr>)"
    if "parse_chord names text = Some c" for "text" c "context" a
    using ok split_words_binding [OF sane that] by (simp add: settings_ok_def)
  show ?thesis using ok by (auto simp: apply_directive_def Let_def bound split: option.split)
qed

lemma load_pieces:
  "lo_settings (warn path n what lo) = lo_settings lo"
  "lo_settings (load_section path n sec lo) = lo_settings lo"
  "lo_settings (load_directive names path n directive lo) =
     (if lo_known lo then snd (apply_directive names directive (lo_settings lo)) else lo_settings lo)"
  by (auto simp: warn_def load_section_def load_directive_def Let_def split: prod.split option.split)

lemma load_line_keeps:
  assumes "sane_names names" and "settings_ok names (lo_settings lo)"
  shows "settings_ok names (lo_settings (load_line names path numbered lo))"
  using assignment_keeps [OF assms(2)] directive_keeps [OF assms] assms(2)
  by (auto simp: load_line_def load_pieces login_setting.load_assignment_simps split: parsed_line.split)

lemma default_ok: "settings_ok names default_client_settings"
  by (simp add: settings_ok_def default_client_settings_def settings.defs client_settings.defs default_settings_def
      byte_size_max_def writable_def char_chord_def str_def is_printable_ascii_def lower_ascii_def)

text \<open>C16. Whatever a configuration file says, the settings are ones the rest of the program can work with: every
  number within the bounds its key documents, a prefix that can be spelled, a list of clipboard targets that is
  not empty, and no binding whose chord the keymap could not parse.
\<close>

theorem loaded_settings_ok:
  assumes "sane_names names"
  shows "settings_ok names (fst (load_settings names path outcome))"
proof -
  have pass: "settings_ok names (lo_settings (fold (load_line names path) numbered lo))"
    if "settings_ok names (lo_settings lo)" for numbered lo
    using that by (induction numbered arbitrary: lo) (simp_all add: load_line_keeps assms)
  show ?thesis
    by (auto simp: load_settings_def load_lines_def Let_def default_ok loading_start_def intro!: pass split: read_outcome.split)
qed

theorem loaded_settings_ok_witness:
  "settings_ok one_key (fst (load_settings one_key (str ''ckmux.conf'') (Read_Lines [str ''[general]'', str ''kill-grace-seconds = 9000'']))) \<and>
   set_kill_grace_seconds (default_client_settings :: unit client_settings) = 5"
  using loaded_settings_ok [OF one_key_sane]
  by (simp add: default_client_settings_def settings.defs client_settings.defs default_settings_def)

end
