(* ===== verification/Copy_Mode.thy ===== *)
theory Copy_Mode
  imports Remote_Terminal Shell
begin

text \<open>
  Copy mode (\<^verbatim>\<open>src/src/client/copy_mode.cpp\<close>): the history of a terminal as lines of graphemes, what a selection
  copies, the search, and the view that holds the keyboard while a reader moves through it. Drawing and the
  toolkit's bookkeeping (focus, repaint) are left out; the height of the view is what the toolkit gives it.
\<close>

type_synonym copy_line = "bytes list"
type_synonym point = "int \<times> int"

datatype selection_mode = Select_None | Select_Character | Select_Line | Select_Rectangular

section \<open>Text of a line\<close>

definition without_padding :: "('a \<Rightarrow> u8) \<Rightarrow> 'a list \<Rightarrow> 'a list" where
  "without_padding byte xs = rev (dropWhile (\<lambda>x. byte x = 32) (rev xs))"

definition line_text :: "copy_line \<Rightarrow> int \<Rightarrow> int \<Rightarrow> bytes" where
  "line_text line start stop =
     (let a = nat (max 0 start); b = nat (min stop (int (length line)))
      in without_padding id (concat (take (b - a) (drop a line))))"

definition folded_byte :: "u8 \<Rightarrow> u8" where
  "folded_byte c = (if 65 \<le> c \<and> c \<le> 90 then c - 65 + 97 else c)"

definition has_upper :: "bytes \<Rightarrow> bool" where
  "has_upper cs = list_ex (\<lambda>c. 65 \<le> c \<and> c \<le> 90) cs"

text \<open>Each byte of a line with the column it came from.\<close>

record searchable_line =
  sl_text :: bytes
  sl_columns :: "int list"

definition byte_columns :: "bool \<Rightarrow> copy_line \<Rightarrow> (u8 \<times> int) list" where
  "byte_columns caseless line =
     without_padding fst (concat (map (\<lambda>(column, grapheme).
        map (\<lambda>byte. (if caseless then folded_byte byte else byte, int column)) grapheme) (enumerate 0 line)))"

definition searchable :: "copy_line \<Rightarrow> bool \<Rightarrow> searchable_line" where
  "searchable line caseless =
     \<lparr>sl_text = map fst (byte_columns caseless line), sl_columns = map snd (byte_columns caseless line)\<rparr>"

section \<open>Finding\<close>

text \<open>\<open>std::string::find\<close> and \<open>rfind\<close> from a position.\<close>

definition matches_at :: "bytes \<Rightarrow> bytes \<Rightarrow> nat \<Rightarrow> bool" where
  "matches_at needle cs p \<longleftrightarrow> p + length needle \<le> length cs \<and> take (length needle) (drop p cs) = needle"

definition find_from :: "bytes \<Rightarrow> bytes \<Rightarrow> nat \<Rightarrow> nat option" where
  "find_from needle cs start = find (matches_at needle cs) [start..<Suc (length cs)]"

definition rfind_from :: "bytes \<Rightarrow> bytes \<Rightarrow> nat \<Rightarrow> nat option" where
  "rfind_from needle cs start = find (matches_at needle cs) (rev [0..<Suc (min start (length cs))])"

lemma find_Some_in: "find P xs = Some x \<Longrightarrow> x \<in> set xs \<and> P x"
  by (auto simp: find_Some_iff)

lemma find_from_bounds: "find_from needle cs start = Some p \<Longrightarrow> start \<le> p \<and> p \<le> length cs \<and> matches_at needle cs p"
  unfolding find_from_def by (drule find_Some_in) auto

lemma rfind_from_bounds: "rfind_from needle cs start = Some p \<Longrightarrow> p \<le> start \<and> p \<le> length cs \<and> matches_at needle cs p"
  unfolding rfind_from_def by (drule find_Some_in) auto

text \<open>The two loops of \<open>match_in\<close>, from where they look next.\<close>

function match_forwards :: "searchable_line \<Rightarrow> bytes \<Rightarrow> int \<Rightarrow> int \<Rightarrow> nat \<Rightarrow> int option" where
  "match_forwards line needle lowest highest start =
     (case find_from needle (sl_text line) start of
       None \<Rightarrow> None
     | Some at \<Rightarrow>
         let column = sl_columns line ! at
         in if column > highest then None
            else if column \<ge> lowest then Some column
            else match_forwards line needle lowest highest (at + 1))"
  by pat_completeness auto

termination match_forwards
  by (relation "measure (\<lambda>(line, _, _, _, start). Suc (length (sl_text line)) - start)") (auto dest: find_from_bounds)

function match_backwards :: "searchable_line \<Rightarrow> bytes \<Rightarrow> int \<Rightarrow> int \<Rightarrow> nat \<Rightarrow> int option" where
  "match_backwards line needle lowest highest start =
     (case rfind_from needle (sl_text line) start of
       None \<Rightarrow> None
     | Some at \<Rightarrow>
         let column = sl_columns line ! at
         in if column < lowest then None
            else if column \<le> highest then Some column
            else if at = 0 then None
            else match_backwards line needle lowest highest (at - 1))"
  by pat_completeness auto

termination match_backwards
  by (relation "measure (\<lambda>(_, _, _, _, start). start)") (auto dest: rfind_from_bounds)

declare match_forwards.simps [simp del] match_backwards.simps [simp del]

definition match_in :: "searchable_line \<Rightarrow> bytes \<Rightarrow> bool \<Rightarrow> int \<Rightarrow> int \<Rightarrow> int option" where
  "match_in line needle forwards lowest highest =
     (if highest < lowest \<or> needle = [] \<or> length needle > length (sl_text line) then None
      else if forwards then match_forwards line needle lowest highest 0
      else match_backwards line needle lowest highest (length (sl_text line)))"

definition clamped :: "int \<Rightarrow> int \<Rightarrow> int \<Rightarrow> int" where
  "clamped n lowest highest = (if n < lowest then lowest else if highest < n then highest else n)"

definition any_column :: int where
  "any_column = 2 ^ 31 - 1"

fun first_hit :: "('a \<Rightarrow> 'b option) \<Rightarrow> 'a list \<Rightarrow> 'b option" where
  "first_hit f [] = None"
| "first_hit f (x # xs) = (case f x of Some y \<Rightarrow> Some y | None \<Rightarrow> first_hit f xs)"

text \<open>The row a number of lines away, round the end.\<close>

definition row_after :: "bool \<Rightarrow> int \<Rightarrow> int \<Rightarrow> int \<Rightarrow> int" where
  "row_after forwards count row step =
     (if forwards then (row + step) mod count else ((row - step) mod count + count) mod count)"

definition find_match :: "copy_line list \<Rightarrow> bytes \<Rightarrow> point \<Rightarrow> bool \<Rightarrow> point option" where
  "find_match lines query start forwards =
     (if query = [] \<or> lines = [] then None
      else
        let count = int (length lines);
            row = clamped (snd start) 0 (count - 1);
            column = clamped (fst start) 0 (int (length (lines ! nat row)));
            caseless = (\<not> has_upper query);
            needle = (if caseless then map folded_byte query else query);
            begin_line = searchable (lines ! nat row) caseless
        in case (if forwards then match_in begin_line needle True (column + 1) any_column
                 else match_in begin_line needle False 0 (column - 1)) of
             Some hit \<Rightarrow> Some (hit, row)
           | None \<Rightarrow>
               case first_hit (\<lambda>step.
                      let at = row_after forwards count row (int step)
                      in map_option (\<lambda>hit. (hit, at)) (match_in (searchable (lines ! nat at) caseless) needle forwards 0 any_column))
                    [1..<length lines] of
                 Some p \<Rightarrow> Some p
               | None \<Rightarrow>
                   map_option (\<lambda>hit. (hit, row))
                     (if forwards then match_in begin_line needle True 0 column
                      else match_in begin_line needle False column any_column))"

section \<open>What is copied and pasted\<close>

text \<open>The rows of one of the two buffers; what marks the far half of a wide character is the library's.\<close>

definition copy_rows :: "(cell \<Rightarrow> bool) \<Rightarrow> nat \<Rightarrow> cell list \<Rightarrow> copy_line list" where
  "copy_rows far_half w cells =
     map (map (\<lambda>c. if far_half c then [] else grapheme c)) (rows_of w cells)"

definition compose_history :: "(cell \<Rightarrow> bool) \<Rightarrow> remote_snapshot \<Rightarrow> copy_line list" where
  "compose_history far_half snapshot =
     (let w = width (rst_cells (rsn_scalars snapshot))
      in if w \<le> 0 then [[[32]]]
         else
           let lines = copy_rows far_half (nat w) (rsn_scrollback snapshot) @ copy_rows far_half (nat w) (rsn_cells snapshot)
           in if lines = [] then [replicate (nat w) [32]] else lines)"

definition ordered :: "point \<Rightarrow> point \<Rightarrow> point \<times> point" where
  "ordered a b = (if snd a > snd b \<or> snd a = snd b \<and> fst a > fst b then (b, a) else (a, b))"

text \<open>What one row of a selection contributes, and the rows one below the other.\<close>

definition selected_row :: "copy_line list \<Rightarrow> selection_mode \<Rightarrow> point \<Rightarrow> point \<Rightarrow> int \<Rightarrow> bytes" where
  "selected_row lines mode anchor cursor row =
     (let (first, last) = ordered anchor cursor;
          line = lines ! nat row;
          w = int (length line)
      in case mode of
           Select_Character \<Rightarrow>
             line_text line (if row = snd first then fst first else 0) (if row = snd last then min w (fst last + 1) else w)
         | Select_Rectangular \<Rightarrow> line_text line (min (fst anchor) (fst cursor)) (min w (max (fst anchor) (fst cursor) + 1))
         | _ \<Rightarrow> line_text line 0 w)"

fun lines_joined :: "bytes list \<Rightarrow> bytes" where
  "lines_joined [] = []"
| "lines_joined [cs] = cs"
| "lines_joined (cs # rest) = cs @ 10 # lines_joined rest"

definition selected_text :: "copy_line list \<Rightarrow> selection_mode \<Rightarrow> point \<Rightarrow> point \<Rightarrow> bytes" where
  "selected_text lines mode anchor cursor =
     (if lines = [] \<or> mode = Select_None then []
      else
        let (first, last) = ordered anchor cursor;
            bottom_row = int (length lines) - 1;
            top = clamped (snd first) 0 bottom_row;
            bottom = clamped (snd last) 0 bottom_row
        in lines_joined (map (selected_row lines mode anchor cursor) [top..bottom]))"

definition paste_bytes :: "bytes \<Rightarrow> bool \<Rightarrow> bytes" where
  "paste_bytes cs bracketed =
     (if cs = [] then []
      else if \<not> bracketed then cs
      else 27 # str ''[200~'' @ cs @ 27 # str ''[201~'')"

section \<open>The view\<close>

datatype copy_told = Copied bytes | Left

record copy_view =
  cv_lines :: "copy_line list"
  cv_cursor :: point
  cv_anchor :: point
  cv_mode :: selection_mode
  cv_top :: int
  cv_prompt :: "bytes option"
  cv_forwards :: bool
  cv_query :: bytes
  cv_notice :: bytes
  cv_finished :: bool
  cv_height :: int
  cv_log :: "copy_told list"

text \<open>The height is the toolkit's; a view that has not been placed has none.\<close>

definition copy_view_new :: "copy_line list \<Rightarrow> int \<Rightarrow> copy_view" where
  "copy_view_new lines start_row =
     (let lines = (if lines = [] then [[]] else lines);
          y = clamped start_row 0 (int (length lines) - 1)
      in \<lparr>cv_lines = lines, cv_cursor = (0, y), cv_anchor = (0, y), cv_mode = Select_None, cv_top = y, cv_prompt = None,
          cv_forwards = True, cv_query = [], cv_notice = [], cv_finished = False, cv_height = 0, cv_log = []\<rparr>)"

definition visible_rows :: "copy_view \<Rightarrow> int" where
  "visible_rows v = max 1 (cv_height v - 1)"

definition last_row :: "copy_view \<Rightarrow> int" where
  "last_row v = int (length (cv_lines v)) - 1"

definition line_width :: "copy_view \<Rightarrow> int" where
  "line_width v = int (length (cv_lines v ! nat (snd (cv_cursor v))))"

definition scroll_into_view :: "copy_view \<Rightarrow> copy_view" where
  "scroll_into_view v =
     (let rows = visible_rows v;
          y = snd (cv_cursor v);
          top = clamped (cv_top v) 0 (max 0 (last_row v));
          top = (if y < top then y else top);
          top = (if y \<ge> top + rows then y - rows + 1 else top)
      in v\<lparr>cv_top := max 0 top\<rparr>)"

definition put_cursor :: "point \<Rightarrow> copy_view \<Rightarrow> copy_view" where
  "put_cursor p v = scroll_into_view (v\<lparr>cv_cursor := p\<rparr>)"

definition move_cursor :: "int \<Rightarrow> int \<Rightarrow> copy_view \<Rightarrow> copy_view" where
  "move_cursor rows columns v =
     (let (x, y) = cv_cursor v;
          y = clamped (y + rows) 0 (last_row v);
          w = int (length (cv_lines v ! nat y))
      in put_cursor (clamped (x + columns) 0 (max 0 (w - 1)), y) v)"

definition begin_selection :: "selection_mode \<Rightarrow> copy_view \<Rightarrow> copy_view" where
  "begin_selection mode v =
     (if cv_mode v = mode then v\<lparr>cv_mode := Select_None\<rparr> else v\<lparr>cv_mode := mode, cv_anchor := cv_cursor v\<rparr>)"

definition search_for :: "bool \<Rightarrow> copy_view \<Rightarrow> copy_view" where
  "search_for forwards v =
     (case find_match (cv_lines v) (cv_query v) (cv_cursor v) forwards of
       None \<Rightarrow> v\<lparr>cv_notice := str ''not found''\<rparr>
     | Some hit \<Rightarrow> put_cursor hit (v\<lparr>cv_notice := []\<rparr>))"

definition yank_and_exit :: "copy_view \<Rightarrow> copy_view" where
  "yank_and_exit v =
     (if cv_finished v then v
      else
        let marked = selected_text (cv_lines v) (cv_mode v) (cv_anchor v) (cv_cursor v);
            copied = (if marked = [] \<and> cv_mode v = Select_None
                      then selected_text (cv_lines v) Select_Line (cv_cursor v) (cv_cursor v) else marked)
        in v\<lparr>cv_finished := True, cv_log := cv_log v @ [Copied copied, Left]\<rparr>)"

definition finish :: "copy_view \<Rightarrow> copy_view" where
  "finish v = (if cv_finished v then v else v\<lparr>cv_finished := True, cv_log := cv_log v @ [Left]\<rparr>)"

text \<open>The keys copy mode knows; any other is \<open>Other_Key\<close>.\<close>

datatype copy_key =
    Escape_Key | Enter_Key | Backspace_Key | Up_Key | Down_Key | Left_Key | Right_Key
  | Page_Up_Key | Page_Down_Key | Home_Key | End_Key | Text_Key | Other_Key

definition prompt_key :: "copy_key \<Rightarrow> bytes \<Rightarrow> bool \<Rightarrow> bytes \<Rightarrow> copy_view \<Rightarrow> copy_view" where
  "prompt_key key character ctrl prompt v =
     (case key of
       Escape_Key \<Rightarrow> v\<lparr>cv_prompt := None\<rparr>
     | Enter_Key \<Rightarrow> search_for (cv_forwards v) (v\<lparr>cv_query := prompt, cv_prompt := None\<rparr>)
     | Backspace_Key \<Rightarrow> v\<lparr>cv_prompt := Some (butlast prompt)\<rparr>
     | Text_Key \<Rightarrow> if character \<noteq> [] \<and> \<not> ctrl then v\<lparr>cv_prompt := Some (prompt @ character)\<rparr> else v
     | _ \<Rightarrow> v)"

definition control_key :: "bytes \<Rightarrow> copy_view \<Rightarrow> copy_view" where
  "control_key character v =
     (if character = str ''v'' then begin_selection Select_Rectangular v
      else if character = str ''b'' then move_cursor (- visible_rows v) 0 v
      else if character = str ''f'' then move_cursor (visible_rows v) 0 v
      else v)"

definition vi_key :: "bytes \<Rightarrow> copy_view \<Rightarrow> copy_view" where
  "vi_key character v =
     (if character = str ''h'' then move_cursor 0 (- 1) v
      else if character = str ''l'' then move_cursor 0 1 v
      else if character = str ''k'' then move_cursor (- 1) 0 v
      else if character = str ''j'' then move_cursor 1 0 v
      else if character = str ''0'' then put_cursor (0, snd (cv_cursor v)) v
      else if character = str ''$'' then move_cursor 0 (line_width v) v
      else if character = str ''g'' then put_cursor (0, 0) v
      else if character = str ''G'' then put_cursor (0, last_row v) v
      else if character = str ''v'' then begin_selection Select_Character v
      else if character = str ''V'' then begin_selection Select_Line v
      else if character = str ''y'' then yank_and_exit v
      else if character = str ''q'' then finish v
      else if character = str ''/'' \<or> character = str ''?'' then
        v\<lparr>cv_forwards := (character = str ''/''), cv_prompt := Some []\<rparr>
      else if character = str ''n'' then search_for (cv_forwards v) v
      else if character = str ''N'' then search_for (\<not> cv_forwards v) v
      else v)"

definition on_key :: "bool \<Rightarrow> copy_key \<Rightarrow> bytes \<Rightarrow> bool \<Rightarrow> copy_view \<Rightarrow> bool \<times> copy_view" where
  "on_key released key character ctrl v =
     (if released then (False, v)
      else case cv_prompt v of
        Some prompt \<Rightarrow> (True, prompt_key key character ctrl prompt v)
      | None \<Rightarrow>
          let v = v\<lparr>cv_notice := []\<rparr>
          in (True,
              case key of
                Escape_Key \<Rightarrow> finish v
              | Enter_Key \<Rightarrow> yank_and_exit v
              | Up_Key \<Rightarrow> move_cursor (- 1) 0 v
              | Down_Key \<Rightarrow> move_cursor 1 0 v
              | Left_Key \<Rightarrow> move_cursor 0 (- 1) v
              | Right_Key \<Rightarrow> move_cursor 0 1 v
              | Page_Up_Key \<Rightarrow> move_cursor (- visible_rows v) 0 v
              | Page_Down_Key \<Rightarrow> move_cursor (visible_rows v) 0 v
              | Home_Key \<Rightarrow> put_cursor (0, snd (cv_cursor v)) v
              | End_Key \<Rightarrow> put_cursor (max 0 (line_width v - 1), snd (cv_cursor v)) v
              | Text_Key \<Rightarrow>
                  if character = [] then v else if ctrl then control_key character v else vi_key character v
              | _ \<Rightarrow> v))"

definition on_resized :: "int \<Rightarrow> copy_view \<Rightarrow> copy_view" where
  "on_resized tall v = scroll_into_view (v\<lparr>cv_height := tall\<rparr>)"

text \<open>The line at the foot of the view.\<close>

definition signed_text :: "int \<Rightarrow> bytes" where
  "signed_text n = (if n < 0 then 45 # decimal (nat (- n)) else decimal (nat n))"

definition status_text :: "copy_view \<Rightarrow> bytes" where
  "status_text v =
     str ''COPY'' @ str ''  '' @ signed_text (snd (cv_cursor v) - last_row v) @ str ''/'' @ decimal (length (cv_lines v))
     @ (case cv_mode v of Select_None \<Rightarrow> [] | Select_Character \<Rightarrow> str ''  [select]'' | Select_Line \<Rightarrow> str ''  [line]''
        | Select_Rectangular \<Rightarrow> str ''  [block]'')
     @ (case cv_prompt v of
          Some prompt \<Rightarrow> str ''  '' @ (if cv_forwards v then str ''/'' else str ''?'') @ prompt
        | None \<Rightarrow> if cv_query v \<noteq> [] then str ''  /'' @ cv_query v else [])
     @ (if cv_notice v \<noteq> [] then str ''  '' @ cv_notice v else [])"

text \<open>Whether a cell of the selection is drawn as selected.\<close>

definition marked :: "copy_view \<Rightarrow> point \<Rightarrow> bool" where
  "marked v p =
     (let (column, index) = p; (first, last) = ordered (cv_anchor v) (cv_cursor v)
      in (cv_mode v \<noteq> Select_None \<and> snd first \<le> index \<and> index \<le> snd last \<and>
          (case cv_mode v of
             Select_Line \<Rightarrow> True
           | Select_Rectangular \<Rightarrow>
               min (fst (cv_anchor v)) (fst (cv_cursor v)) \<le> column \<and> column \<le> max (fst (cv_anchor v)) (fst (cv_cursor v))
           | _ \<Rightarrow> (index > snd first \<or> column \<ge> fst first) \<and> (index < snd last \<or> column \<le> fst last)))
         \<or> p = cv_cursor v)"

section \<open>What can happen to a view\<close>

datatype copy_happening = Presses bool copy_key bytes bool | Is_Resized int

primrec copy_step :: "copy_happening \<Rightarrow> copy_view \<Rightarrow> copy_view" where
  "copy_step (Presses released key character ctrl) v = snd (on_key released key character ctrl v)"
| "copy_step (Is_Resized tall) v = on_resized tall v"

inductive copy_reachable :: "copy_line list \<Rightarrow> copy_view \<Rightarrow> bool" for lines where
  copy_started: "copy_reachable lines (copy_view_new lines row)"
| copy_stepped: "copy_reachable lines v \<Longrightarrow> copy_reachable lines (copy_step h v)"

inductive_cases copy_reachableE: "copy_reachable lines v"

end
