(* ===== verification/Copy_Facts.thy ===== *)
theory Copy_Facts
  imports Copy_Mode
begin

text \<open>
  The search of copy mode against what it is to find: where a query stands in a line, that the loops return the
  first or last such column of a window, and that the three passes of \<open>find_match\<close> visit the history
  in the reader's order, round its end.
\<close>

section \<open>The columns of a line\<close>

lemma without_padding_prefix: "\<exists>n. without_padding byte xs = take n xs"
proof -
  have "xs = rev (takeWhile P (rev xs) @ dropWhile P (rev xs))" for P by simp
  then have "xs = rev (dropWhile P (rev xs)) @ rev (takeWhile P (rev xs))" for P by (metis rev_append)
  then show ?thesis unfolding without_padding_def by (metis append_eq_conv_conj)
qed

definition tagged :: "(u8 \<Rightarrow> u8) \<Rightarrow> nat \<Rightarrow> copy_line \<Rightarrow> (u8 \<times> int) list" where
  "tagged f n line = concat (map (\<lambda>(column, grapheme). map (\<lambda>byte. (f byte, int column)) grapheme) (enumerate n line))"

lemma tagged_simps [simp]:
  "tagged f n [] = []" "tagged f n (g # line) = map (\<lambda>byte. (f byte, int n)) g @ tagged f (Suc n) line"
  by (simp_all add: tagged_def)

lemma tagged_inside: "c \<in> snd ` set (tagged f n line) \<Longrightarrow> int n \<le> c \<and> c < int n + int (length line)"
proof (induction line arbitrary: n)
  case (Cons g line)
  from Cons.prems consider "c = int n" | "c \<in> snd ` set (tagged f (Suc n) line)" by auto
  then show ?case
  proof cases
    case 2
    from Cons.IH [OF this] show ?thesis by simp
  qed simp
qed simp

lemma tagged_sorted: "sorted (map snd (tagged f n line))"
proof (induction line arbitrary: n)
  case (Cons g line)
  have "sorted (map snd (map (\<lambda>byte. (f byte, int n)) g))" by (induction g) simp_all
  moreover have "int n \<le> c" if "c \<in> snd ` set (tagged f (Suc n) line)" for c using tagged_inside [OF that] by simp
  ultimately show ?case using Cons by (auto simp: sorted_append)
qed simp

lemma sl_columns_facts:
  shows "sorted (sl_columns (searchable line caseless))"
    and "length (sl_columns (searchable line caseless)) = length (sl_text (searchable line caseless))"
    and "c \<in> set (sl_columns (searchable line caseless)) \<Longrightarrow> 0 \<le> c \<and> c < int (length line)"
proof -
  let ?all = "tagged (\<lambda>byte. if caseless then folded_byte byte else byte) 0 line"
  obtain n where n: "byte_columns caseless line = take n ?all"
    unfolding byte_columns_def tagged_def using without_padding_prefix by blast
  show "length (sl_columns (searchable line caseless)) = length (sl_text (searchable line caseless))" by (simp add: searchable_def)
  have columns: "sl_columns (searchable line caseless) = take n (map snd ?all)" by (simp add: searchable_def n take_map)
  show "sorted (sl_columns (searchable line caseless))" unfolding columns by (intro sorted_wrt_take tagged_sorted)
  show "0 \<le> c \<and> c < int (length line)" if "c \<in> set (sl_columns (searchable line caseless))"
  proof -
    have "c \<in> snd ` set ?all" using that unfolding columns by (auto dest: in_set_takeD)
    from tagged_inside [OF this] show ?thesis by simp
  qed
qed

section \<open>One line\<close>

definition stands_at :: "searchable_line \<Rightarrow> bytes \<Rightarrow> int \<Rightarrow> bool" where
  "stands_at line needle column \<longleftrightarrow> (\<exists>p < length (sl_text line). matches_at needle (sl_text line) p \<and> sl_columns line ! p = column)"

definition regular_line :: "searchable_line \<Rightarrow> bool" where
  "regular_line line \<longleftrightarrow> sorted (sl_columns line) \<and> length (sl_columns line) = length (sl_text line)"

lemma matches_inside: "needle \<noteq> [] \<Longrightarrow> matches_at needle cs p \<Longrightarrow> p < length cs"
  by (cases needle) (auto simp: matches_at_def)

lemma find_None_none: "find P xs = None \<Longrightarrow> x \<in> set xs \<Longrightarrow> \<not> P x"
  by (auto simp: find_None_iff)

lemma find_from_None: "find_from needle cs start = None \<Longrightarrow> start \<le> p \<Longrightarrow> p < length cs \<Longrightarrow> \<not> matches_at needle cs p"
  unfolding find_from_def by (drule find_None_none) auto

lemma rfind_from_None: "rfind_from needle cs start = None \<Longrightarrow> p \<le> start \<Longrightarrow> p < length cs \<Longrightarrow> \<not> matches_at needle cs p"
  unfolding rfind_from_def by (drule find_None_none) auto

lemma find_first: "find P xs = Some x \<Longrightarrow> \<exists>ys zs. xs = ys @ x # zs \<and> (\<forall>y \<in> set ys. \<not> P y)"
proof (induction xs)
  case (Cons z xs)
  show ?case
  proof (cases "P z")
    case True
    then show ?thesis using Cons.prems by (intro exI [of _ "[]"] exI [of _ xs]) simp
  next
    case False
    with Cons obtain ys zs where "xs = ys @ x # zs" "\<forall>y \<in> set ys. \<not> P y" by auto
    with False show ?thesis by (intro exI [of _ "z # ys"] exI [of _ zs]) simp
  qed
qed simp

lemma find_from_first: "find_from needle cs start = Some at \<Longrightarrow> start \<le> p \<Longrightarrow> p < at \<Longrightarrow> \<not> matches_at needle cs p"
proof -
  assume f: "find_from needle cs start = Some at" and p: "start \<le> p" "p < at"
  obtain ys zs where ys: "[start..<Suc (length cs)] = ys @ at # zs" "\<forall>y \<in> set ys. \<not> matches_at needle cs y"
    using find_first [OF f [unfolded find_from_def]] by blast
  have "p \<in> set ys"
  proof -
    have "sorted (ys @ at # zs)" unfolding ys(1) [symmetric] by (simp del: upt_Suc)
    moreover have "p \<in> set (ys @ at # zs)" using p find_from_bounds [OF f] unfolding ys(1) [symmetric] by auto
    ultimately show ?thesis using p(2) by (auto simp: sorted_append)
  qed
  with ys(2) show ?thesis by blast
qed

lemma rfind_from_last: "rfind_from needle cs start = Some at \<Longrightarrow> at < p \<Longrightarrow> p \<le> start \<Longrightarrow> p < length cs \<Longrightarrow> \<not> matches_at needle cs p"
proof -
  assume f: "rfind_from needle cs start = Some at" and p: "at < p" "p \<le> start" "p < length cs"
  obtain ys zs where ys: "rev [0..<Suc (min start (length cs))] = ys @ at # zs" "\<forall>y \<in> set ys. \<not> matches_at needle cs y"
    using find_first [OF f [unfolded rfind_from_def]] by blast
  have "p \<in> set ys"
  proof -
    have "sorted (rev (ys @ at # zs))" unfolding ys(1) [symmetric] by (simp del: upt_Suc)
    moreover have "p \<in> set (ys @ at # zs)" using p unfolding ys(1) [symmetric] by auto
    ultimately show ?thesis using p(1) by (auto simp: sorted_append)
  qed
  with ys(2) show ?thesis by blast
qed

lemma column_mono:
  "regular_line line \<Longrightarrow> p \<le> q \<Longrightarrow> q < length (sl_text line) \<Longrightarrow> sl_columns line ! p \<le> sl_columns line ! q"
  by (simp add: regular_line_def sorted_iff_nth_mono)

text \<open>What the forward loop returns from a start before which every match stands left of the window.\<close>

lemma match_forwards_spec:
  assumes "regular_line line" and "needle \<noteq> []"
    and "\<forall>p < start. matches_at needle (sl_text line) p \<longrightarrow> sl_columns line ! p < lowest"
  shows "case match_forwards line needle lowest highest start of
      None \<Rightarrow> \<forall>c. stands_at line needle c \<longrightarrow> c < lowest \<or> highest < c
    | Some c \<Rightarrow> stands_at line needle c \<and> lowest \<le> c \<and> c \<le> highest \<and> (\<forall>d. stands_at line needle d \<longrightarrow> d < lowest \<or> c \<le> d)"
  using assms
proof (induction line needle lowest highest start rule: match_forwards.induct)
  case (1 line needle lowest highest start)
  show ?case
  proof (cases "find_from needle (sl_text line) start")
    case None
    then have "match_forwards line needle lowest highest start = None" by (subst match_forwards.simps) simp
    then show ?thesis using find_from_None [OF None] 1(4) by (auto simp: stands_at_def) (metis not_le_imp_less)
  next
    case (Some at)
    let ?c = "sl_columns line ! at"
    have at: "matches_at needle (sl_text line) at" "at < length (sl_text line)"
      using find_from_bounds [OF Some] matches_inside [OF 1(3)] by blast+
    have before: "sl_columns line ! p < lowest \<or> at \<le> p" if "matches_at needle (sl_text line) p" for p
      using find_from_first [OF Some, of p] 1(4) that by (meson not_le_imp_less)
    have later: "d < lowest \<or> ?c \<le> d" if "stands_at line needle d" for d
      using that before column_mono [OF 1(2)] by (fastforce simp: stands_at_def)
    have here: "stands_at line needle ?c" using at by (auto simp: stands_at_def)
    consider (past) "?c > highest" | (hit) "?c \<le> highest" "?c \<ge> lowest" | (left) "?c \<le> highest" "?c < lowest" by linarith
    then show ?thesis
    proof cases
      case past
      then have "match_forwards line needle lowest highest start = None" by (subst match_forwards.simps) (simp add: Some)
      then show ?thesis using later past by fastforce
    next
      case hit
      then have "match_forwards line needle lowest highest start = Some ?c" by (subst match_forwards.simps) (simp add: Some)
      then show ?thesis using later here hit by simp
    next
      case left
      then have next_one: "match_forwards line needle lowest highest start = match_forwards line needle lowest highest (at + 1)"
        by (subst match_forwards.simps) (simp add: Some)
      have "\<forall>p < at + 1. matches_at needle (sl_text line) p \<longrightarrow> sl_columns line ! p < lowest"
        using before left(2) by (metis Suc_eq_plus1 le_antisym less_Suc_eq_le)
      with 1(1) [OF Some refl _ _ 1(2,3)] left show ?thesis unfolding next_one by simp
    qed
  qed
qed

text \<open>The backward loop, from a start behind which every match stands right of the window.\<close>

lemma match_backwards_spec:
  assumes "regular_line line" and "needle \<noteq> []"
    and "\<forall>p > start. p < length (sl_text line) \<longrightarrow> matches_at needle (sl_text line) p \<longrightarrow> highest < sl_columns line ! p"
  shows "case match_backwards line needle lowest highest start of
      None \<Rightarrow> \<forall>c. stands_at line needle c \<longrightarrow> c < lowest \<or> highest < c
    | Some c \<Rightarrow> stands_at line needle c \<and> lowest \<le> c \<and> c \<le> highest \<and> (\<forall>d. stands_at line needle d \<longrightarrow> d \<le> c \<or> highest < d)"
  using assms
proof (induction line needle lowest highest start rule: match_backwards.induct)
  case (1 line needle lowest highest start)
  show ?case
  proof (cases "rfind_from needle (sl_text line) start")
    case None
    then have "match_backwards line needle lowest highest start = None" by (subst match_backwards.simps) simp
    then show ?thesis using rfind_from_None [OF None] 1(4) by (auto simp: stands_at_def) (metis not_le_imp_less)
  next
    case (Some at)
    let ?c = "sl_columns line ! at"
    have at: "matches_at needle (sl_text line) at" "at < length (sl_text line)"
      using rfind_from_bounds [OF Some] matches_inside [OF 1(3)] by blast+
    have behind: "highest < sl_columns line ! p \<or> p \<le> at" if "matches_at needle (sl_text line) p" "p < length (sl_text line)" for p
      using rfind_from_last [OF Some, of p] 1(4) that by (meson not_le_imp_less)
    have later: "d \<le> ?c \<or> highest < d" if "stands_at line needle d" for d
      using that behind column_mono [OF 1(2) _ at(2)] by (fastforce simp: stands_at_def)
    have here: "stands_at line needle ?c" using at by (auto simp: stands_at_def)
    consider (past) "?c < lowest" | (hit) "?c \<le> highest" "?c \<ge> lowest" | (left) "highest < ?c" "lowest \<le> ?c" by linarith
    then show ?thesis
    proof cases
      case past
      then have "match_backwards line needle lowest highest start = None" by (subst match_backwards.simps) (simp add: Some)
      then show ?thesis using later past by fastforce
    next
      case hit
      then have "match_backwards line needle lowest highest start = Some ?c" by (subst match_backwards.simps) (simp add: Some)
      then show ?thesis using later here hit by simp
    next
      case left
      show ?thesis
      proof (cases "at = 0")
        case True
        then have "match_backwards line needle lowest highest start = None" using left by (subst match_backwards.simps) (simp add: Some)
        moreover have "highest < d" if "stands_at line needle d" for d
          using that behind left True by (fastforce simp: stands_at_def)
        ultimately show ?thesis by simp
      next
        case False
        then have next_one: "match_backwards line needle lowest highest start = match_backwards line needle lowest highest (at - 1)"
          using left by (subst match_backwards.simps) (simp add: Some)
        have "highest < sl_columns line ! p" if "p > at - 1" "p < length (sl_text line)" "matches_at needle (sl_text line) p" for p
          using behind [OF that(3,2)] that(1) left(1) False by (metis Suc_pred' le_antisym less_eq_Suc_le not_gr_zero)
        with 1(1) [OF Some refl _ _ False 1(2,3)] left show ?thesis unfolding next_one by simp
      qed
    qed
  qed
qed

lemma match_in_spec:
  assumes "regular_line line" and "needle \<noteq> []"
  shows "case match_in line needle forwards lowest highest of
      None \<Rightarrow> \<forall>c. stands_at line needle c \<longrightarrow> c < lowest \<or> highest < c
    | Some c \<Rightarrow> stands_at line needle c \<and> lowest \<le> c \<and> c \<le> highest \<and>
        (\<forall>d. stands_at line needle d \<and> lowest \<le> d \<and> d \<le> highest \<longrightarrow> (if forwards then c \<le> d else d \<le> c))"
proof (cases "highest < lowest \<or> needle = [] \<or> length needle > length (sl_text line)")
  case True
  have "\<not> stands_at line needle c" if "length needle > length (sl_text line)" for c
    using that by (auto simp: stands_at_def matches_at_def)
  then show ?thesis using True assms(2) by (auto simp: match_in_def)
next
  case False
  show ?thesis
  proof (cases forwards)
    case True
    then show ?thesis using match_forwards_spec [OF assms, of 0 lowest highest] False
      by (auto simp: match_in_def split: option.splits)
  next
    case rear: False
    then show ?thesis using match_backwards_spec [OF assms, of "length (sl_text line)" highest lowest] False
      by (auto simp: match_in_def split: option.splits)
  qed
qed

lemma searchable_regular [simp]: "regular_line (searchable line caseless)"
  by (simp add: regular_line_def sl_columns_facts)

lemma stands_inside: "stands_at (searchable line caseless) needle c \<Longrightarrow> 0 \<le> c \<and> c < int (length line)"
  using sl_columns_facts(2) [of line caseless] sl_columns_facts(3) [of c line caseless] by (auto simp: stands_at_def)

section \<open>Round the history\<close>

definition sought :: "bytes \<Rightarrow> bytes" where
  "sought query = (if has_upper query then query else map folded_byte query)"

text \<open>Where a query stands in a history: at the column of one of its lines, whatever the case of the letters
  unless the reader typed a capital.\<close>

definition stands :: "copy_line list \<Rightarrow> bytes \<Rightarrow> point \<Rightarrow> bool" where
  "stands lines query p \<longleftrightarrow> 0 \<le> snd p \<and> snd p < int (length lines) \<and>
     stands_at (searchable (lines ! nat (snd p)) (\<not> has_upper query)) (sought query) (fst p)"

text \<open>How far a place is from where the search begins, in the reader's direction: so many lines, then so many
  columns; what stands on the side the search began past comes last of all.\<close>

definition turns :: "bool \<Rightarrow> copy_line list \<Rightarrow> point \<Rightarrow> point \<Rightarrow> int \<times> int" where
  "turns forwards lines start p =
     (let count = int (length lines);
          row = clamped (snd start) 0 (count - 1);
          column = clamped (fst start) 0 (int (length (lines ! nat row)));
          ahead = (if forwards then column < fst p else fst p < column);
          rows = (if snd p = row then (if ahead then 0 else count)
                  else if forwards then (snd p - row) mod count else (row - snd p) mod count)
      in (rows, if forwards then fst p else - fst p))"

definition no_further :: "int \<times> int \<Rightarrow> int \<times> int \<Rightarrow> bool" where
  "no_further a b \<longleftrightarrow> fst a < fst b \<or> fst a = fst b \<and> snd a \<le> snd b"

lemma first_hit_Some:
  "first_hit f xs = Some y \<Longrightarrow> \<exists>ys x zs. xs = ys @ x # zs \<and> f x = Some y \<and> (\<forall>z \<in> set ys. f z = None)"
proof (induction xs)
  case (Cons x xs)
  show ?case
  proof (cases "f x")
    case None
    with Cons obtain ys x' zs where "xs = ys @ x' # zs" "f x' = Some y" "\<forall>z \<in> set ys. f z = None" by auto
    with None show ?thesis by (intro exI [of _ "x # ys"] exI [of _ x'] exI [of _ zs]) simp
  next
    case (Some z)
    then show ?thesis using Cons.prems by (intro exI [of _ "[]"] exI [of _ x] exI [of _ xs]) simp
  qed
qed simp

lemma first_hit_None: "first_hit f xs = None \<Longrightarrow> x \<in> set xs \<Longrightarrow> f x = None"
  by (induction xs) (auto split: option.splits)

lemma first_hit_upt:
  assumes "first_hit f [m..<n] = Some y"
  shows "\<exists>k. m \<le> k \<and> k < n \<and> f k = Some y \<and> (\<forall>j. m \<le> j \<and> j < k \<longrightarrow> f j = None)"
proof -
  obtain ys k zs where k: "[m..<n] = ys @ k # zs" "f k = Some y" "\<forall>z \<in> set ys. f z = None"
    using first_hit_Some [OF assms] by blast
  have "sorted [m..<n]" by simp
  then have all: "set [m..<n] = set ys \<union> insert k (set zs)" "sorted (ys @ k # zs)" unfolding k(1) by auto
  then have "m \<le> k \<and> k < n" by auto
  moreover have "f j = None" if "m \<le> j" "j < k" for j
  proof -
    have "j \<in> set [m..<n]" using that calculation by simp
    with all that k(3) show ?thesis by (auto simp: sorted_append)
  qed
  ultimately show ?thesis using k(2) by blast
qed

text \<open>Going round: the rows met step by step are all the others, each once.\<close>

definition rows_away :: "bool \<Rightarrow> int \<Rightarrow> int \<Rightarrow> int \<Rightarrow> int" where
  "rows_away forwards count row r = (if forwards then (r - row) mod count else (row - r) mod count)"

lemma difference_mod:
  fixes a b count :: int
  assumes "0 \<le> a" "a < count" "0 \<le> b" "b < count"
  shows "(a - b) mod count = (if b \<le> a then a - b else a - b + count)"
proof (cases "b \<le> a")
  case False
  have "(a - b) mod count = (a - b + count) mod count" by simp
  also have "\<dots> = a - b + count" using assms False by (intro mod_pos_pos_trivial) auto
  finally show ?thesis using False by simp
qed (use assms in simp)

lemma row_after_away:
  assumes "0 \<le> row" "row < count" "0 \<le> r" "r < count" "r \<noteq> row"
  shows "1 \<le> rows_away forwards count row r" "rows_away forwards count row r < count"
    "row_after forwards count row (rows_away forwards count row r) = r"
  using assms difference_mod [of r count row] difference_mod [of row count r]
  by (auto simp: rows_away_def row_after_def)

lemma away_row_after:
  assumes "0 \<le> row" "row < count" "1 \<le> k" "k < count"
  shows "0 \<le> row_after forwards count row k" "row_after forwards count row k < count"
    "row_after forwards count row k \<noteq> row" "rows_away forwards count row (row_after forwards count row k) = k"
proof -
  have fw: "(row + k) mod count = (if row + k < count then row + k else row + k - count)"
    using assms mod_pos_pos_trivial [of "row + k - count" count] by (auto simp: mod_pos_pos_trivial)
  have bw: "((row - k) mod count + count) mod count = (if k \<le> row then row - k else row - k + count)"
    using assms difference_mod [of row count k] by simp
  let ?r = "row_after forwards count row k"
  have r: "?r = (if forwards then if row + k < count then row + k else row + k - count else if k \<le> row then row - k else row - k + count)"
    by (simp add: row_after_def fw bw del: mod_add_self2 mod_mod_trivial)
  then show range: "0 \<le> ?r" "?r < count" "?r \<noteq> row" using assms by (auto split: if_splits)
  show "rows_away forwards count row ?r = k"
    unfolding rows_away_def using difference_mod [OF range(1,2) assms(1,2)] difference_mod [OF assms(1,2) range(1,2)] assms r
    by (auto split: if_splits)
qed

lemma find_match_spec:
  assumes short: "\<forall>line \<in> set lines. int (length line) \<le> any_column" and query: "query \<noteq> []"
  shows "case find_match lines query start forwards of
      None \<Rightarrow> \<forall>p. \<not> stands lines query p
    | Some p \<Rightarrow> stands lines query p \<and>
        (\<forall>q. stands lines query q \<longrightarrow> no_further (turns forwards lines start p) (turns forwards lines start q))"
proof (cases "lines = []")
  case True
  then show ?thesis by (simp add: find_match_def stands_def)
next
  case False
  define count where "count = int (length lines)"
  define row where "row = clamped (snd start) 0 (count - 1)"
  define column where "column = clamped (fst start) 0 (int (length (lines ! nat row)))"
  define line where "line r = searchable (lines ! nat r) (\<not> has_upper query)" for r
  define here where "here r c \<longleftrightarrow> stands_at (line r) (sought query) c" for r c
  have count: "0 < count" using False by (simp add: count_def)
  have row: "0 \<le> row" "row < count" using count by (auto simp: row_def clamped_def)
  have column: "0 \<le> column" by (simp add: column_def clamped_def)
  have needle: "sought query \<noteq> []" using query by (simp add: sought_def)
  have stands: "stands lines query q \<longleftrightarrow> 0 \<le> snd q \<and> snd q < count \<and> here (snd q) (fst q)" for q
    by (simp add: stands_def here_def line_def count_def)
  have bounds: "0 \<le> c \<and> c \<le> any_column" if "here r c" "0 \<le> r" "r < count" for r c
    using stands_inside [OF that(1) [unfolded here_def line_def]] short that(2,3) count_def
    by (fastforce dest!: bspec [of _ _ "lines ! nat r"])
  have turns: "turns forwards lines start q =
      (if snd q = row then if (if forwards then column < fst q else fst q < column) then 0 else count
       else rows_away forwards count row (snd q), if forwards then fst q else - fst q)" for q
    by (simp add: turns_def Let_def rows_away_def flip: count_def row_def column_def)
  define first where "first = (if forwards then match_in (line row) (sought query) True (column + 1) any_column
      else match_in (line row) (sought query) False 0 (column - 1))"
  define step where "step k = (let at = row_after forwards count row (int k)
      in map_option (\<lambda>hit. (hit, at)) (match_in (line at) (sought query) forwards 0 any_column))" for k
  define final where "final = (if forwards then match_in (line row) (sought query) True 0 column
      else match_in (line row) (sought query) False column any_column)"
  have found: "find_match lines query start forwards =
      (case first of Some hit \<Rightarrow> Some (hit, row)
       | None \<Rightarrow> case first_hit step [1..<length lines] of Some p \<Rightarrow> Some p | None \<Rightarrow> map_option (\<lambda>hit. (hit, row)) final)"
    using False query
    unfolding find_match_def Let_def first_def step_def final_def line_def sought_def count_def row_def column_def
    by (simp del: upt_Suc)
  have regular: "regular_line (line r)" for r by (simp add: line_def)
  have spec: "case match_in (line r) (sought query) onwards lowest highest of
      None \<Rightarrow> \<forall>c. here r c \<longrightarrow> c < lowest \<or> highest < c
    | Some c \<Rightarrow> here r c \<and> lowest \<le> c \<and> c \<le> highest \<and>
        (\<forall>d. here r d \<and> lowest \<le> d \<and> d \<le> highest \<longrightarrow> (if onwards then c \<le> d else d \<le> c))" for r onwards lowest highest
    unfolding here_def by (rule match_in_spec [OF regular needle])
  have first_spec: "case first of None \<Rightarrow> \<forall>c. here row c \<longrightarrow> \<not> (if forwards then column < c else c < column)
      | Some c \<Rightarrow> here row c \<and> (if forwards then column < c else c < column) \<and>
          (\<forall>d. here row d \<and> (if forwards then column < d else d < column) \<longrightarrow> (if forwards then c \<le> d else d \<le> c))"
    using spec [where r = row and onwards = True and lowest = "column + 1" and highest = any_column] spec [where r = row and onwards = False and lowest = 0 and highest = "column - 1"] bounds [OF _ row]
    by (fastforce simp: first_def split: option.splits)
  have final_spec: "case final of None \<Rightarrow> \<forall>c. here row c \<longrightarrow> (if forwards then column < c else c < column)
      | Some c \<Rightarrow> here row c \<and> \<not> (if forwards then column < c else c < column) \<and>
          (\<forall>d. here row d \<and> \<not> (if forwards then column < d else d < column) \<longrightarrow> (if forwards then c \<le> d else d \<le> c))"
    using spec [where r = row and onwards = True and lowest = 0 and highest = column] spec [where r = row and onwards = False and lowest = column and highest = any_column] bounds [OF _ row]
    by (fastforce simp: final_def not_less split: option.splits)
  have step_spec: "case step k of None \<Rightarrow> \<forall>c. \<not> here (row_after forwards count row (int k)) c
      | Some p \<Rightarrow> snd p = row_after forwards count row (int k) \<and> here (snd p) (fst p) \<and>
          (\<forall>d. here (snd p) d \<longrightarrow> (if forwards then fst p \<le> d else d \<le> fst p))" if "1 \<le> k" "k < length lines" for k
  proof -
    let ?r = "row_after forwards count row (int k)"
    have "0 \<le> ?r" "?r < count" using away_row_after [OF row, of "int k" forwards] that by (simp_all add: count_def)
    note bounds [OF _ this]
    with spec [where r = ?r and onwards = forwards and lowest = 0 and highest = any_column] show ?thesis by (fastforce simp: step_def Let_def split: option.splits)
  qed
  show ?thesis
  proof (cases first)
    case (Some c)
    have "no_further (turns forwards lines start (c, row)) (turns forwards lines start q)" if "stands lines query q" for q
      using that first_spec Some row_after_away(1) [OF row, of "snd q" forwards] count
      by (auto simp: turns no_further_def stands)
    with first_spec Some row show ?thesis by (simp add: found stands)
  next
    case None
    note behind = first_spec [unfolded None option.case]
    show ?thesis
    proof (cases "first_hit step [1..<length lines]")
      case (Some p)
      from first_hit_upt [OF Some] obtain k where k: "1 \<le> k" "k < length lines" "step k = Some p"
        and before: "\<forall>j. 1 \<le> j \<and> j < k \<longrightarrow> step j = None" by blast
      note p = step_spec [OF k(1,2), unfolded k(3) option.case]
      have away: "0 \<le> snd p" "snd p < count" "snd p \<noteq> row" "rows_away forwards count row (snd p) = int k"
        using away_row_after [OF row, of "int k" forwards] k(1,2) p by (simp_all add: count_def)
      have "no_further (turns forwards lines start p) (turns forwards lines start q)" if q: "stands lines query q" for q
      proof (cases "snd q = row")
        case True
        then show ?thesis using q behind away k(2) by (simp add: turns no_further_def stands count_def)
      next
        case False
        let ?j = "rows_away forwards count row (snd q)"
        have j: "1 \<le> ?j" "?j < count" "row_after forwards count row ?j = snd q"
          using row_after_away [OF row _ _ False] q by (simp_all add: stands)
        have "\<not> ?j < int k"
        proof
          assume less: "?j < int k"
          have "1 \<le> nat ?j" "nat ?j < k" "nat ?j < length lines" using j less k(2) by simp_all
          then show False using step_spec [of "nat ?j"] before j q by (simp add: stands)
        qed
        moreover have "snd q = snd p" if "?j = int k" using that j(3) p by simp
        ultimately show ?thesis using p q away False by (auto simp: turns no_further_def stands)
      qed
      moreover have "stands lines query p" using p away by (auto simp: stands)
      ultimately show ?thesis using Some None by (simp add: found)
    next
      case nowhere: None
      have only: "snd q = row" if q: "stands lines query q" for q
      proof (rule ccontr)
        assume other: "snd q \<noteq> row"
        let ?j = "rows_away forwards count row (snd q)"
        have j: "1 \<le> ?j" "?j < count" "row_after forwards count row ?j = snd q"
          using row_after_away [OF row _ _ other] q by (simp_all add: stands)
        have k: "1 \<le> nat ?j" "nat ?j < length lines" using j by (simp_all add: count_def)
        have "step (nat ?j) = None" by (rule first_hit_None [OF nowhere]) (use k in simp)
        with step_spec [OF k] j q show False by (simp add: stands)
      qed
      show ?thesis
      proof (cases final)
        case None
        with final_spec behind have "\<not> here row c" for c by (auto split: if_splits)
        then have "\<not> stands lines query q" for q using only [of q] stands [of q] by metis
        then show ?thesis using \<open>first = None\<close> nowhere None by (simp add: found)
      next
        case (Some c)
        have "no_further (turns forwards lines start (c, row)) (turns forwards lines start q)" if "stands lines query q" for q
          using that final_spec Some behind only [OF that] by (auto simp: turns no_further_def stands split: if_splits)
        with final_spec Some row \<open>first = None\<close> nowhere show ?thesis by (simp add: found stands)
      qed
    qed
  qed
qed

section \<open>The view stays where its lines are\<close>

lemma clamped_bounds: "lowest \<le> highest \<Longrightarrow> lowest \<le> clamped n lowest highest \<and> clamped n lowest highest \<le> highest"
  by (simp add: clamped_def)

definition on_line :: "copy_line list \<Rightarrow> point \<Rightarrow> bool" where
  "on_line lines p \<longleftrightarrow> 0 \<le> snd p \<and> snd p < int (length lines) \<and> 0 \<le> fst p \<and>
     fst p \<le> max 0 (int (length (lines ! nat (snd p))) - 1)"

definition on_screen :: "copy_view \<Rightarrow> bool" where
  "on_screen v \<longleftrightarrow> 0 \<le> cv_top v \<and> cv_top v \<le> snd (cv_cursor v) \<and> snd (cv_cursor v) < cv_top v + visible_rows v"

text \<open>A view that was given no lines has one, an empty one.\<close>

definition document :: "copy_line list \<Rightarrow> copy_line list" where
  "document lines = (if lines = [] then [[]] else lines)"

definition told_once :: "bool \<Rightarrow> copy_told list \<Rightarrow> bool" where
  "told_once finished log \<longleftrightarrow> (if finished then log = [Left] \<or> (\<exists>cs. log = [Copied cs, Left]) else log = [])"

definition kept_inside :: "copy_line list \<Rightarrow> copy_view \<Rightarrow> bool" where
  "kept_inside lines v \<longleftrightarrow> cv_lines v = document lines \<and> on_line (document lines) (cv_cursor v) \<and>
     on_line (document lines) (cv_anchor v) \<and> told_once (cv_finished v) (cv_log v)"

definition copy_sound :: "copy_line list \<Rightarrow> copy_view \<Rightarrow> bool" where
  "copy_sound lines v \<longleftrightarrow> kept_inside lines v \<and> on_screen v"

lemma document_some [simp]: "document lines \<noteq> []"
  by (simp add: document_def)

lemma kept_inside_update [simp]:
  "kept_inside lines (v\<lparr>cv_top := t\<rparr>) = kept_inside lines v" "kept_inside lines (v\<lparr>cv_notice := n\<rparr>) = kept_inside lines v"
  "kept_inside lines (v\<lparr>cv_prompt := q\<rparr>) = kept_inside lines v" "kept_inside lines (v\<lparr>cv_query := n\<rparr>) = kept_inside lines v"
  "kept_inside lines (v\<lparr>cv_forwards := f\<rparr>) = kept_inside lines v" "kept_inside lines (v\<lparr>cv_mode := m\<rparr>) = kept_inside lines v"
  "kept_inside lines (v\<lparr>cv_height := h\<rparr>) = kept_inside lines v"
  by (simp_all add: kept_inside_def)

lemma on_screen_update [simp]:
  "on_screen (v\<lparr>cv_notice := n\<rparr>) = on_screen v" "on_screen (v\<lparr>cv_prompt := q\<rparr>) = on_screen v"
  "on_screen (v\<lparr>cv_query := n\<rparr>) = on_screen v" "on_screen (v\<lparr>cv_forwards := f\<rparr>) = on_screen v"
  "on_screen (v\<lparr>cv_mode := m\<rparr>) = on_screen v" "on_screen (v\<lparr>cv_anchor := p\<rparr>) = on_screen v"
  "on_screen (v\<lparr>cv_finished := b\<rparr>) = on_screen v" "on_screen (v\<lparr>cv_log := l\<rparr>) = on_screen v"
  by (simp_all add: on_screen_def visible_rows_def)

lemma copy_sound_update [simp]:
  "copy_sound lines (v\<lparr>cv_notice := n\<rparr>) = copy_sound lines v" "copy_sound lines (v\<lparr>cv_prompt := q\<rparr>) = copy_sound lines v"
  "copy_sound lines (v\<lparr>cv_query := n\<rparr>) = copy_sound lines v" "copy_sound lines (v\<lparr>cv_forwards := f\<rparr>) = copy_sound lines v"
  by (simp_all add: copy_sound_def)

text \<open>Scrolling brings the cursor on the screen from anywhere.\<close>

lemma scrolled: "0 \<le> snd (cv_cursor v) \<Longrightarrow> on_screen (scroll_into_view v)"
proof -
  have "1 \<le> visible_rows v" by (simp add: visible_rows_def)
  moreover have "visible_rows (v\<lparr>cv_top := t\<rparr>) = visible_rows v" for t by (simp add: visible_rows_def)
  moreover assume "0 \<le> snd (cv_cursor v)"
  ultimately show ?thesis by (auto simp: on_screen_def scroll_into_view_def Let_def clamped_def)
qed

lemma scroll_sound: "kept_inside lines v \<Longrightarrow> copy_sound lines (scroll_into_view v)"
proof -
  assume v: "kept_inside lines v"
  then have "0 \<le> snd (cv_cursor v)" by (simp add: kept_inside_def on_line_def)
  from scrolled [OF this] v show ?thesis by (simp add: copy_sound_def scroll_into_view_def Let_def)
qed

lemma put_sound: "copy_sound lines v \<Longrightarrow> on_line (document lines) p \<Longrightarrow> copy_sound lines (put_cursor p v)"
  unfolding put_cursor_def by (rule scroll_sound) (simp add: copy_sound_def kept_inside_def)

lemma sound_lines: "copy_sound lines v \<Longrightarrow> cv_lines v = document lines" "copy_sound lines v \<Longrightarrow> on_line (document lines) (cv_cursor v)"
  by (simp_all add: copy_sound_def kept_inside_def)

lemma last_row_sound: "copy_sound lines v \<Longrightarrow> 0 \<le> last_row v \<and> last_row v = int (length (document lines)) - 1"
  using sound_lines(1) [of lines v] by (simp add: last_row_def Suc_le_eq)

lemma on_lineI:
  "0 \<le> y \<Longrightarrow> y \<le> int (length lines) - 1 \<Longrightarrow> 0 \<le> x \<Longrightarrow> x \<le> max 0 (int (length (lines ! nat y)) - 1) \<Longrightarrow> on_line lines (x, y)"
  by (simp add: on_line_def)

lemma move_sound: "copy_sound lines v \<Longrightarrow> copy_sound lines (move_cursor rows columns v)"
proof -
  assume v: "copy_sound lines v"
  let ?y = "clamped (snd (cv_cursor v) + rows) 0 (last_row v)"
  let ?w = "int (length (document lines ! nat ?y))"
  have "on_line (document lines) (clamped (fst (cv_cursor v) + columns) 0 (max 0 (?w - 1)), ?y)"
    using clamped_bounds [of 0 "last_row v"] clamped_bounds [of 0 "max 0 (?w - 1)"] last_row_sound [OF v]
    by (intro on_lineI) auto
  from put_sound [OF v this] show ?thesis
    by (simp add: move_cursor_def Let_def case_prod_beta sound_lines(1) [OF v])
qed

lemma select_sound: "copy_sound lines v \<Longrightarrow> copy_sound lines (begin_selection mode v)"
  by (simp add: begin_selection_def copy_sound_def kept_inside_def)

lemma stands_on_line: "stands lines query p \<Longrightarrow> on_line lines p"
  using stands_inside by (fastforce simp: stands_def on_line_def)

lemma leave_sound: "copy_sound lines v \<Longrightarrow> copy_sound lines (finish v)" "copy_sound lines v \<Longrightarrow> copy_sound lines (yank_and_exit v)"
  by (simp_all add: finish_def yank_and_exit_def Let_def copy_sound_def kept_inside_def told_once_def)

text \<open>A search goes to a place where the query stands, so on a line.\<close>

lemma match_in_inside:
  assumes "match_in (searchable line caseless) needle onwards lowest highest = Some c"
  shows "0 \<le> c \<and> c < int (length line)"
proof -
  have "needle \<noteq> []" using assms by (auto simp: match_in_def)
  have "stands_at (searchable line caseless) needle c"
    using match_in_spec [OF searchable_regular \<open>needle \<noteq> []\<close>, where line1 = line and caseless1 = caseless and
        forwards = onwards and lowest = lowest and highest = highest] assms by simp
  from stands_inside [OF this] show ?thesis .
qed

lemma match_on_line:
  assumes "match_in (searchable (lines ! nat r) caseless) needle onwards lowest highest = Some c"
    and "0 \<le> r" "r < int (length lines)"
  shows "on_line lines (c, r)"
  using match_in_inside [OF assms(1)] assms(2,3) by (auto simp: on_line_def)

lemma find_match_on_line:
  assumes "find_match lines query start forwards = Some p"
  shows "on_line lines p"
proof -
  have some: "lines \<noteq> []" "query \<noteq> []" using assms by (auto simp: find_match_def)
  let ?row = "clamped (snd start) 0 (int (length lines) - 1)"
  have row: "0 \<le> ?row" "?row < int (length lines)"
    using clamped_bounds [of 0 "int (length lines) - 1" "snd start"] some(1) by (simp_all add: Suc_le_eq)
  have after: "0 \<le> row_after onwards (int (length lines)) r k" "row_after onwards (int (length lines)) r k < int (length lines)" for onwards r k
    using some(1) by (simp_all add: row_after_def)
  have round: "on_line lines p" if "first_hit (\<lambda>k. let at = row_after forwards (int (length lines)) ?row (int k)
      in map_option (\<lambda>hit. (hit, at)) (match_in (searchable (lines ! nat at) caseless) needle forwards 0 any_column)) ks = Some p" for caseless needle ks
    using first_hit_Some [OF that] match_on_line [OF _ after] by (auto simp: Let_def)
  show ?thesis
    using assms some match_on_line [OF _ row] round
    unfolding find_match_def Let_def by (auto split: option.splits if_splits)
qed

lemma search_sound: "copy_sound lines v \<Longrightarrow> copy_sound lines (search_for onwards v)"
proof (cases "find_match (cv_lines v) (cv_query v) (cv_cursor v) onwards")
  case (Some p)
  assume v: "copy_sound lines v"
  from find_match_on_line [OF Some] have "on_line (document lines) p" by (simp add: sound_lines(1) [OF v])
  then show ?thesis using v by (simp add: search_for_def Some put_sound)
qed (simp add: search_for_def)

lemma edge_on_line:
  assumes "copy_sound lines v"
  shows "on_line (document lines) (0, snd (cv_cursor v))" "on_line (document lines) (0, 0)" "on_line (document lines) (0, last_row v)"
    "on_line (document lines) (max 0 (line_width v - 1), snd (cv_cursor v))"
  using sound_lines [OF assms] last_row_sound [OF assms] by (auto simp: on_line_def line_width_def Suc_le_eq)

lemmas copy_steps_sound = move_sound select_sound leave_sound search_sound edge_on_line

lemma on_key_sound: "copy_sound lines v \<Longrightarrow> copy_sound lines (snd (on_key released key character ctrl v))"
proof -
  assume v: "copy_sound lines v"
  have vi: "copy_sound lines (vi_key character u)" if "copy_sound lines u" for u
    using that unfolding vi_key_def by (simp add: copy_steps_sound put_sound)
  have control: "copy_sound lines (control_key character u)" if "copy_sound lines u" for u
    using that by (simp add: control_key_def copy_steps_sound)
  have typed: "copy_sound lines (prompt_key key character ctrl prompt v)" for prompt
    using v by (cases key) (simp_all add: prompt_key_def search_sound)
  have notice: "copy_sound lines (v\<lparr>cv_notice := []\<rparr>)" using v by simp
  show ?thesis
    using v typed vi [OF notice] control [OF notice] copy_steps_sound [OF notice] put_sound [OF notice]
    by (cases key) (simp_all add: on_key_def Let_def split: option.split)
qed

lemma new_sound: "copy_sound lines (copy_view_new lines row)"
proof -
  have "0 \<le> clamped row 0 (int (length (document lines)) - 1)" "clamped row 0 (int (length (document lines)) - 1) \<le> int (length (document lines)) - 1"
    using clamped_bounds [of 0 "int (length (document lines)) - 1" row] document_some [of lines] by (simp_all add: Suc_le_eq)
  then show ?thesis
    by (simp add: copy_view_new_def Let_def copy_sound_def kept_inside_def on_line_def on_screen_def visible_rows_def told_once_def
        flip: document_def)
qed

lemma resized_sound: "copy_sound lines v \<Longrightarrow> copy_sound lines (on_resized tall v)"
  unfolding on_resized_def by (rule scroll_sound) (simp add: copy_sound_def)

lemma copy_step_sound: "copy_sound lines v \<Longrightarrow> copy_sound lines (copy_step h v)"
  by (cases h) (simp_all add: on_key_sound resized_sound)

lemma copy_reachable_sound: "copy_reachable lines v \<Longrightarrow> copy_sound lines v"
  by (induction rule: copy_reachable.induct) (simp_all add: new_sound copy_step_sound)

section \<open>What is copied\<close>

lemma ordered_sym: "ordered a b = ordered b a"
  by (cases a; cases b) (auto simp: ordered_def)

lemma selected_either_way: "selected_text lines mode a b = selected_text lines mode b a"
proof -
  have "selected_row lines mode a b = selected_row lines mode b a"
    by (rule ext) (simp add: selected_row_def ordered_sym [of a b] min.commute max.commute cong: selection_mode.case_cong)
  then show ?thesis by (simp add: selected_text_def ordered_sym [of a b])
qed

text \<open>The text of a row without what a terminal pads it with.\<close>

definition row_text :: "(cell \<Rightarrow> bool) \<Rightarrow> cell list \<Rightarrow> bytes" where
  "row_text far_half row = without_padding id (concat (map (\<lambda>c. if far_half c then [] else grapheme c) row))"

lemma whole_line: "line_text line 0 (int (length line)) = without_padding id (concat line)"
  by (simp add: line_text_def)

lemma map_upto_nth: "map f [0..int (length xs) - 1] = map (\<lambda>k. f (int k)) [0..<length xs]"
  by (rule nth_equalityI) (simp_all add: nth_upto)

lemma all_lines_selected:
  assumes "lines \<noteq> []" and "snd a \<le> 0" and "int (length lines) - 1 \<le> snd b" and "snd a < snd b \<or> fst a \<le> fst b"
  shows "selected_text lines Select_Line a b = lines_joined (map (without_padding id \<circ> concat) lines)"
proof -
  have n: "0 \<le> int (length lines) - 1" using assms(1) by (simp add: Suc_le_eq)
  have "snd a \<le> snd b" using assms(2,3) n by linarith
  then have "ordered a b = (a, b)" using assms(4) by (auto simp: ordered_def)
  have edge: "clamped m 0 k = 0" "clamped p 0 k = k" if "m \<le> 0" "k \<le> p" "0 \<le> k" for m p k :: int
    using that by (simp_all add: clamped_def)
  have "clamped (snd a) 0 (int (length lines) - 1) = 0" "clamped (snd b) 0 (int (length lines) - 1) = int (length lines) - 1"
    by (rule edge [OF assms(2,3) n])+
  with \<open>ordered a b = (a, b)\<close> have "selected_text lines Select_Line a b = lines_joined (map (selected_row lines Select_Line a b) [0..int (length lines) - 1])"
    using assms(1) by (simp add: selected_text_def Let_def)
  also have "map (selected_row lines Select_Line a b) [0..int (length lines) - 1] = map (without_padding id \<circ> concat) lines"
    unfolding map_upto_nth by (rule nth_equalityI) (simp_all add: selected_row_def case_prod_beta Let_def whole_line)
  finally show ?thesis .
qed

end
