(* ===== verification/Properties_Copy.thy ===== *)
theory Properties_Copy
  imports Copy_Facts Samples
begin

text \<open>
  What copy mode promises its reader: a search goes to the next place there is, the cursor is always on a line and on
  the screen, and what is yanked is the text of the terminal.
\<close>

section \<open>A small history\<close>

definition sample_history :: "copy_line list" where
  "sample_history = [[[97], [98], [32]], [[66], [97], [98]], [[99], [32], [32]]]"

lemma short_sample: "\<forall>line \<in> set sample_history. int (length line) \<le> any_column"
  by (simp add: sample_history_def any_column_def)

section \<open>The properties\<close>

text \<open>C19. A search goes to the nearest place. It finds nothing only where the query stands nowhere in the history; else
  it goes to the place that is the fewest lines, then the fewest columns away in the reader's direction, round the end of
  the history and back to the far side of its own line last, letters in either case unless a capital was typed.\<close>

theorem search_goes_to_nearest:
  assumes "\<forall>line \<in> set lines. int (length line) \<le> any_column" and "query \<noteq> []"
  shows "(find_match lines query start forwards = None \<longleftrightarrow> (\<forall>p. \<not> stands lines query p)) \<and>
     (\<forall>p. find_match lines query start forwards = Some p \<longrightarrow> stands lines query p \<and>
        (\<forall>q. stands lines query q \<longrightarrow> no_further (turns forwards lines start p) (turns forwards lines start q)))"
  using find_match_spec [OF assms, where start = start and forwards = forwards]
  by (cases "find_match lines query start forwards") auto

lemma search_goes_to_nearest_witness:
  "stands sample_history [98] (1, 0) \<and>
   no_further (turns True sample_history (0, 0) (1, 0)) (turns True sample_history (0, 0) (0, 1))"
proof -
  have found: "find_match sample_history [98] (0, 0) True = Some (1, 0)"
    by (simp add: find_match_def sample_history_def Let_def clamped_def has_upper_def match_in_def searchable_def byte_columns_def
        without_padding_def folded_byte_def match_forwards.simps find_from_def matches_at_def any_column_def)
  have "stands sample_history [98] (0, 1)"
    by (simp add: stands_def stands_at_def sought_def has_upper_def sample_history_def searchable_def byte_columns_def
        without_padding_def folded_byte_def matches_at_def)
      (rule exI [of _ 0], simp)
  with search_goes_to_nearest [OF short_sample, of "[98]" "(0, 0)" True] found show ?thesis by simp
qed

text \<open>C20. Whatever keys are pressed and however the view is resized, the cursor and the mark are on a line of the history,
  the cursor is on the screen, and the reader leaves at most once, having copied at most once, never after leaving.\<close>

theorem cursor_stays_on_screen:
  assumes "copy_reachable lines v"
  shows "cv_lines v = document lines \<and> on_line (cv_lines v) (cv_cursor v) \<and> on_line (cv_lines v) (cv_anchor v) \<and> on_screen v \<and>
     told_once (cv_finished v) (cv_log v)"
  using copy_reachable_sound [OF assms] by (simp add: copy_sound_def kept_inside_def)

lemma cursor_stays_on_screen_witness:
  "on_screen (copy_step (Presses False Down_Key [] False) (copy_view_new sample_history 0)) \<and>
   on_line sample_history (cv_cursor (copy_step (Presses False Down_Key [] False) (copy_view_new sample_history 0)))"
proof -
  have "copy_reachable sample_history (copy_step (Presses False Down_Key [] False) (copy_view_new sample_history 0))"
    by (intro copy_stepped copy_started)
  moreover have "document sample_history = sample_history" by (simp add: document_def sample_history_def)
  ultimately show ?thesis using cursor_stays_on_screen [of sample_history] by metis
qed

text \<open>C21. What is yanked is the text of the terminal: lines marked from the top of the history to its foot, whichever
  way the reader went, give every row of the history and then of the screen, one line each, no character twice and
  none of the blanks a row is padded with.\<close>

theorem whole_history_yanked:
  fixes snapshot :: remote_snapshot and far_half :: "cell \<Rightarrow> bool"
  defines "w \<equiv> nat (width (rst_cells (rsn_scalars snapshot)))" and "lines \<equiv> compose_history far_half snapshot"
  assumes "0 < w" and rows: "rows_of w (rsn_scrollback snapshot) @ rows_of w (rsn_cells snapshot) \<noteq> []"
    and span: "snd a \<le> 0" "int (length lines) - 1 \<le> snd b" "snd a < snd b \<or> fst a \<le> fst b"
  shows "selected_text lines Select_Line a b = selected_text lines Select_Line b a \<and>
     selected_text lines Select_Line a b =
       lines_joined (map (row_text far_half) (rows_of w (rsn_scrollback snapshot) @ rows_of w (rsn_cells snapshot)))"
proof -
  have "0 < width (rst_cells (rsn_scalars snapshot))" using assms(3) by (simp add: w_def)
  then have lines: "lines = copy_rows far_half w (rsn_scrollback snapshot) @ copy_rows far_half w (rsn_cells snapshot)"
    using rows by (simp add: lines_def compose_history_def copy_rows_def w_def Let_def)
  with rows have "lines \<noteq> []" by (simp add: copy_rows_def)
  from all_lines_selected [OF this span]
  have "selected_text lines Select_Line a b = lines_joined (map (without_padding id \<circ> concat) lines)" .
  also have "map (without_padding id \<circ> concat) lines =
      map (row_text far_half) (rows_of w (rsn_scrollback snapshot) @ rows_of w (rsn_cells snapshot))"
    by (simp add: lines copy_rows_def row_text_def comp_def)
  finally show ?thesis using selected_either_way by blast
qed

text \<open>Two rows, the second with a wide character in two cells.\<close>

definition sample_snapshot :: remote_snapshot where
  "sample_snapshot = (remote_snapshot True True (remote_new 7 (0 :: nat)))
     \<lparr>rsn_scalars := (rsn_scalars (remote_snapshot True True (remote_new 7 (0 :: nat))))\<lparr>rst_cells := \<lparr>width = 2, height = 1\<rparr>\<rparr>,
      rsn_scrollback := [letter 65, letter 32], rsn_cells := [letter 66, letter 67]\<rparr>"

lemma whole_history_yanked_witness:
  "selected_text (compose_history (\<lambda>c. c = letter 67) sample_snapshot) Select_Line (0, 0) (1, 1) = [65, 10, 66]"
proof -
  have rows: "rows_of 2 [letter 65, letter 32] = [[letter 65, letter 32]]" "rows_of 2 [letter 66, letter 67] = [[letter 66, letter 67]]"
    by (simp_all add: rows_of_def)
  have "compose_history (\<lambda>c. c = letter 67) sample_snapshot = [[[65], [32]], [[66], []]]"
    by (simp add: compose_history_def sample_snapshot_def copy_rows_def rows Let_def)
  with conjunct2 [OF whole_history_yanked [of sample_snapshot "(0, 0)" "\<lambda>c. c = letter 67" "(1, 1)"]] show ?thesis
    by (simp add: sample_snapshot_def rows row_text_def without_padding_def)
qed

end
