(* ===== verification/Key_Table.thy ===== *)
theory Key_Table
  imports Keymap
begin

text \<open>
  How a command is reached through the prefix: the table of bindings with a reader's directives applied
  (\<^verbatim>\<open>src/src/client/commands.cpp\<close>), the overlay that holds the keyboard between the prefix and the next key
  (\<^verbatim>\<open>src/src/client/prefix_overlay.cpp\<close>), what ckmux's client makes of that key
  (\<open>arm_prefix\<close> and \<open>resolve_prefix\<close> of \<^verbatim>\<open>src/src/client/client_app.cpp\<close>) and the printed table
  (\<^verbatim>\<open>src/src/client/key_reference.cpp\<close>).

  The number a registry gives a command is the library's: a type \<open>'i\<close>, \<open>None\<close> for the invalid one. The
  library's own commands are known by the names of its constants.
\<close>

section \<open>The table\<close>

datatype standard_command =
    Std_Cascade | Std_Menu | Std_Minimize | Std_Next_Window | Std_Previous_Window | Std_Quit | Std_Tile_Grid | Std_Tile_Horizontally | Std_Tile_Vertically | Std_Window_List | Std_Zoom

datatype command_key = Own bytes | Standard standard_command

record 'i key_binding =
  kb_chord :: bytes
  kb_key :: command_key
  kb_title :: bytes
  kb_hint :: bytes
  kb_priority :: int
  kb_action :: "action option"
  kb_command :: "'i option"
  kb_default :: bytes

type_synonym 'i bindings = "'i key_binding list"

definition ellipsis :: bytes where
  "ellipsis = [0xE2, 0x80, 0xA6]"

definition long_dash :: bytes where
  "long_dash = [0xE2, 0x80, 0x94]"

definition key_row :: "bytes \<Rightarrow> command_key \<Rightarrow> bytes \<Rightarrow> bytes \<Rightarrow> int \<Rightarrow> action option \<Rightarrow> 'i key_binding" where
  "key_row c command title hint priority act =
     \<lparr>kb_chord = c, kb_key = command, kb_title = title, kb_hint = hint, kb_priority = priority, kb_action = act,
      kb_command = None, kb_default = []\<rparr>"

definition default_bindings :: "'i key_binding list" where
  "default_bindings = [
     key_row (str ''c'') (Own (str ''ckmux.terminal.new'')) (str ''&New Terminal'') (str ''new term'') 90 (Some New_Terminal),
     key_row (str ''x'') (Own (str ''ckmux.terminal.close'')) (str ''&Close Terminal'') (str ''close term'') 40 (Some Close_Terminal),
     key_row (str '''') (Own (str ''ckmux.terminal.kill'')) (str ''&Kill Terminal'') (str ''kill term'') 0 (Some Kill_Terminal),
     key_row (str ''.'') (Own (str ''ckmux.terminal.move-session'')) (str ''&Move to Session'' @ ellipsis) (str ''move to session'') 0 (Some Move_Terminal),
     key_row (str '','') (Own (str ''ckmux.terminal.rename'')) (str ''&Rename Terminal'' @ ellipsis) (str ''rename term'') 0 (Some Rename_Terminal),
     key_row (str ''P'') (Own (str ''ckmux.terminal.print-output'')) (str ''&Print Output'' @ ellipsis) (str ''print'') 0 (Some Print_Output),
     key_row (str '''') (Own (str ''ckmux.terminal.printer-settings'')) (str ''Printer &Settings'' @ ellipsis) (str ''printer'') 0 (Some Printer_Settings),
     key_row (str ''n'') (Standard Std_Next_Window) (str ''Ne&xt Terminal'') (str ''next'') 70 (Some Next_Terminal),
     key_row (str ''p'') (Standard Std_Previous_Window) (str ''&Previous Terminal'') (str ''prev'') 60 (Some Previous_Terminal),
     key_row (str ''1-9'') (Own (str ''ckmux.terminal.focus-by-number'')) (str ''Focus Terminal by Number'') (str ''focus n'') 0 (None),
     key_row (str ''w'') (Standard Std_Window_List) (str ''&Window List'' @ ellipsis) (str ''windows'') 30 (Some Window_List),
     key_row (str ''z'') (Standard Std_Zoom) (str ''&Zoom'') (str ''zoom'') 20 (Some Zoom),
     key_row (str ''_'') (Standard Std_Minimize) (str ''Mi&nimize'') (str ''minimize'') 0 (Some Minimize),
     key_row (str ''M'') (Own (str ''ckmux.window.move-resize'')) (str ''&Move / Resize'') (str ''move/size'') 0 (Some Move_Resize),
     key_row (str ''h'') (Standard Std_Tile_Horizontally) (str ''Tile &Horizontally'') (str ''tile rows'') 0 (Some Tile_Horizontally),
     key_row (str ''v'') (Standard Std_Tile_Vertically) (str ''Tile &Vertically'') (str ''tile columns'') 0 (Some Tile_Vertically),
     key_row (str ''g'') (Standard Std_Tile_Grid) (str ''Tile &Grid'') (str ''tile grid'') 0 (Some Tile_Grid),
     key_row (str ''T'') (Standard Std_Cascade) (str ''C&ascade'') (str ''cascade'') 0 (Some Cascade),
     key_row (str ''m'') (Standard Std_Menu) (str ''&Menu Bar'') (str ''menu'') 95 (Some Menu_Bar),
     key_row (str ''['') (Own (str ''ckmux.terminal.copy-mode'')) (str ''Cop&y Mode'') (str ''copy'') 45 (Some Copy_Mode_Action),
     key_row (str '']'') (Own (str ''ckmux.terminal.paste'')) (str ''Past&e'') (str ''paste'') 25 (Some Paste_Action),
     key_row (str '''') (Own (str ''ckmux.terminal.send-prefix'')) (str ''&Send Prefix to Program'') (str ''send prefix'') 0 (Some Send_Prefix),
     key_row (str ''d'') (Own (str ''ckmux.session.detach'')) (str ''&Detach'') (str ''detach'') 80 (Some Detach_Action),
     key_row (str ''s'') (Own (str ''ckmux.session.list'')) (str ''&Sessions'' @ ellipsis) (str ''sessions'') 0 (Some Sessions),
     key_row (str ''S'') (Own (str ''ckmux.session.new'')) (str ''&New Session'' @ ellipsis) (str ''new session'') 0 (Some New_Session_Action),
     key_row (str ''R'') (Own (str ''ckmux.session.rename'')) (str ''&Rename Session'' @ ellipsis) (str ''rename'') 0 (Some Rename_Session),
     key_row (str ''K'') (Own (str ''ckmux.session.kill'')) (str ''&End Session'' @ ellipsis) (str ''end session'') 0 (Some Kill_Session),
     key_row (str ''?'') (Own (str ''ckmux.help.keys'')) (str ''&Keys'' @ ellipsis) (str ''keys'') 50 (Some Key_Reference),
     key_row (str ''q'') (Standard Std_Quit) (str ''&Quit ckmux'') (str ''quit'') 10 (Some Quit),
     key_row (str '''') (Own (str ''ckmux.settings'')) (str ''&Settings'' @ ellipsis) (str ''settings'') 0 (Some Settings_Action),
     key_row (str ''b'') (Own (str ''ckmux.window.status-bar'')) (str ''&Status Bar'') (str ''status bar'') 0 (Some Toggle_Status_Bar),
     key_row (str '''') (Own (str ''ckmux.session.fit-desktop'')) (str ''&Fit Desktop to This Screen'') (str ''fit desktop'') 0 (Some Fit_Desktop),
     key_row (str '''') (Own (str ''ckmux.view.show-cpu'')) (str ''Show &CPU Usage'') (str ''cpu'') 0 (Some Show_Cpu_Usage),
     key_row (str '''') (Own (str ''ckmux.view.show-memory-rss'')) (str ''Show Memory Usage (&RSS)'') (str ''rss'') 0 (Some Show_Memory_Rss),
     key_row (str '''') (Own (str ''ckmux.view.show-memory-real'')) (str ''Show Memory Usage (R&eal)'') (str ''real'') 0 (Some Show_Memory_Real),
     key_row (str ''t'') (Own (str ''ckmux.view.clock'')) (str ''Show &Time'') (str ''clock'') 0 (Some Show_Clock),
     key_row (str '''') (Own (str ''ckmux.view.date'')) (str ''Show &Date'') (str ''date'') 0 (Some Show_Date),
     key_row (str '''') (Own (str ''ckmux.view.date-time'')) (str ''Show Date &and Time'') (str ''date+time'') 0 (Some Show_Date_Time),
     key_row (str '''') (Own (str ''ckmux.help.about'')) (str ''&About ckmux'' @ ellipsis) (str ''about'') 0 (Some About)]"

fun command_for_action :: "action \<Rightarrow> command_key" where
  "command_for_action New_Terminal = Own (str ''ckmux.terminal.new'')"
| "command_for_action Close_Terminal = Own (str ''ckmux.terminal.close'')"
| "command_for_action Kill_Terminal = Own (str ''ckmux.terminal.kill'')"
| "command_for_action Move_Terminal = Own (str ''ckmux.terminal.move-session'')"
| "command_for_action Rename_Terminal = Own (str ''ckmux.terminal.rename'')"
| "command_for_action Print_Output = Own (str ''ckmux.terminal.print-output'')"
| "command_for_action Printer_Settings = Own (str ''ckmux.terminal.printer-settings'')"
| "command_for_action Next_Terminal = Standard Std_Next_Window"
| "command_for_action Previous_Terminal = Standard Std_Previous_Window"
| "command_for_action Window_List = Standard Std_Window_List"
| "command_for_action Zoom = Standard Std_Zoom"
| "command_for_action Minimize = Standard Std_Minimize"
| "command_for_action Move_Resize = Own (str ''ckmux.window.move-resize'')"
| "command_for_action Tile_Horizontally = Standard Std_Tile_Horizontally"
| "command_for_action Tile_Vertically = Standard Std_Tile_Vertically"
| "command_for_action Tile_Grid = Standard Std_Tile_Grid"
| "command_for_action Cascade = Standard Std_Cascade"
| "command_for_action Menu_Bar = Standard Std_Menu"
| "command_for_action Copy_Mode_Action = Own (str ''ckmux.terminal.copy-mode'')"
| "command_for_action Paste_Action = Own (str ''ckmux.terminal.paste'')"
| "command_for_action Detach_Action = Own (str ''ckmux.session.detach'')"
| "command_for_action Sessions = Own (str ''ckmux.session.list'')"
| "command_for_action New_Session_Action = Own (str ''ckmux.session.new'')"
| "command_for_action Rename_Session = Own (str ''ckmux.session.rename'')"
| "command_for_action Kill_Session = Own (str ''ckmux.session.kill'')"
| "command_for_action Key_Reference = Own (str ''ckmux.help.keys'')"
| "command_for_action Settings_Action = Own (str ''ckmux.settings'')"
| "command_for_action Toggle_Status_Bar = Own (str ''ckmux.window.status-bar'')"
| "command_for_action Fit_Desktop = Own (str ''ckmux.session.fit-desktop'')"
| "command_for_action Show_Cpu_Usage = Own (str ''ckmux.view.show-cpu'')"
| "command_for_action Show_Memory_Rss = Own (str ''ckmux.view.show-memory-rss'')"
| "command_for_action Show_Memory_Real = Own (str ''ckmux.view.show-memory-real'')"
| "command_for_action Show_Clock = Own (str ''ckmux.view.clock'')"
| "command_for_action Show_Date = Own (str ''ckmux.view.date'')"
| "command_for_action Show_Date_Time = Own (str ''ckmux.view.date-time'')"
| "command_for_action About = Own (str ''ckmux.help.about'')"
| "command_for_action Send_Prefix = Own (str ''ckmux.terminal.send-prefix'')"
| "command_for_action Quit = Standard Std_Quit"

definition new_bindings :: "'i bindings" where
  "new_bindings = map (\<lambda>b. b\<lparr>kb_default := kb_chord b\<rparr>) default_bindings"

definition resolve_commands :: "(command_key \<Rightarrow> 'i option) \<Rightarrow> 'i bindings \<Rightarrow> 'i bindings" where
  "resolve_commands id_for bindings = map (\<lambda>b. b\<lparr>kb_command := id_for (kb_key b)\<rparr>) bindings"

section \<open>What a reader binds\<close>

definition digit_chord :: "bytes \<Rightarrow> nat" where
  "digit_chord c = (if length c \<noteq> 1 \<or> hd c < 49 \<or> hd c > 57 then 0 else unat (hd c) - 48)"

text \<open>The row of an action, by its place.\<close>

definition row_for :: "action \<Rightarrow> 'i bindings \<Rightarrow> nat option" where
  "row_for a bindings = find (\<lambda>i. kb_action (bindings ! i) = Some a) [0..<length bindings]"

definition give_chord :: "nat \<Rightarrow> bytes \<Rightarrow> 'i bindings \<Rightarrow> 'i bindings" where
  "give_chord i c bindings = bindings[i := (bindings ! i)\<lparr>kb_chord := c\<rparr>]"

definition free_chord :: "bytes \<Rightarrow> 'i bindings \<Rightarrow> 'i bindings" where
  "free_chord c bindings = map (\<lambda>b. if kb_chord b = c then b\<lparr>kb_chord := []\<rparr> else b) bindings"

definition apply_bind :: "bind_directive \<Rightarrow> 'i bindings \<times> bytes list \<Rightarrow> 'i bindings \<times> bytes list" where
  "apply_bind d = (\<lambda>(bindings, problems).
     if bd_context d \<noteq> In_Terminal then
       (bindings, problems @ [str ''bind '' @ key_context_name (bd_context d) @ str '' '' @ bd_chord d @ str '': the ''
          @ key_context_name (bd_context d) @ str '' context has no keys yet '' @ long_dash
          @ str '' only '' @ [39] @ str ''terminal'' @ [39] @ str '' bindings are honoured today''])
     else if digit_chord (bd_chord d) \<noteq> 0 then
       (bindings, problems @ [str ''bind terminal '' @ bd_chord d
          @ str '': the digits 1-9 focus a terminal by number and cannot be rebound''])
     else
       let bindings = free_chord (bd_chord d) bindings
       in case bd_action d of
            None \<Rightarrow> (bindings, problems)
          | Some a \<Rightarrow>
              (case row_for a bindings of
                 None \<Rightarrow> (bindings, problems @ [str ''bind terminal '' @ bd_chord d @ str '' '' @ action_name a
                           @ str '': ckmux has no such command''])
               | Some i \<Rightarrow> (give_chord i (bd_chord d) bindings, problems)))"

definition apply_binds :: "bind_directive list \<Rightarrow> 'i bindings \<times> bytes list \<Rightarrow> 'i bindings \<times> bytes list" where
  "apply_binds = fold apply_bind"

definition set_default_chord :: "action \<Rightarrow> bytes \<Rightarrow> 'i bindings \<Rightarrow> 'i bindings" where
  "set_default_chord a c bindings =
     (case row_for a bindings of
        None \<Rightarrow> bindings
      | Some i \<Rightarrow>
          if c = [] then bindings
          else let bindings = free_chord c bindings
               in bindings[i := (bindings ! i)\<lparr>kb_chord := c, kb_default := c\<rparr>])"

definition find_binding :: "bytes \<Rightarrow> 'i bindings \<Rightarrow> 'i key_binding option" where
  "find_binding c bindings =
     (if c = [] \<or> digit_chord c \<noteq> 0 then None else find (\<lambda>b. kb_chord b = c) bindings)"

text \<open>Which bindings a surface advertises.\<close>

datatype hint_context = Hints_Terminal | Hints_Desktop | Hints_Prefix

definition footer :: "hint_context \<Rightarrow> 'i bindings \<Rightarrow> 'i bindings" where
  "footer ctx bindings =
     (let chosen = filter (\<lambda>b. kb_chord b \<noteq> [] \<and> (ctx = Hints_Prefix \<or> kb_priority b > 0)) bindings
      in if ctx = Hints_Prefix then chosen else sort_key (\<lambda>b. - kb_priority b) chosen)"

definition prefix_label :: "'k key_names \<Rightarrow> 'k chord \<Rightarrow> bytes" where
  "prefix_label names prefix = chord_spelling names prefix"

definition binding_label :: "'k key_names \<Rightarrow> 'k chord \<Rightarrow> 'i key_binding \<Rightarrow> bytes" where
  "binding_label names prefix b = (if kb_chord b = [] then [] else chord_spelling names prefix @ str '' '' @ kb_chord b)"

text \<open>What a client starts with.\<close>

definition startup_bindings :: "'k key_names \<Rightarrow> 'k chord \<Rightarrow> bind_directive list \<Rightarrow> bytes list \<Rightarrow> 'i bindings \<times> bytes list" where
  "startup_bindings names prefix directives warnings =
     apply_binds directives (set_default_chord Send_Prefix (chord_spelling names prefix) new_bindings, warnings)"

section \<open>The prefix\<close>

text \<open>What the next key after the prefix leads to, and what the client was told to do, in order.\<close>

datatype 'i prefix_told =
    Keyboard_To_Overlay | Keyboard_To_Terminal | Focus_Number nat | Execute "'i option" | Overlay_Gone

record overlay =
  ov_expanded :: bool
  ov_finished :: bool

record 'i prefix_state =
  px_overlay :: "overlay option"
  px_timer :: bool
  px_posted :: "bytes list"
  px_log :: "'i prefix_told list"

definition prefix_idle :: "'i prefix_state" where
  "prefix_idle = \<lparr>px_overlay = None, px_timer = False, px_posted = [], px_log = []\<rparr>"

definition told_next :: "'i prefix_told \<Rightarrow> 'i prefix_state \<Rightarrow> 'i prefix_state" where
  "told_next x p = p\<lparr>px_log := px_log p @ [x]\<rparr>"

definition overlay_rows :: "'i bindings \<Rightarrow> (bytes \<times> bytes) list" where
  "overlay_rows bindings = map (\<lambda>b. (kb_chord b, kb_hint b)) (footer Hints_Prefix bindings)"

definition arm_prefix :: "'i prefix_state \<Rightarrow> 'i prefix_state" where
  "arm_prefix p =
     (if px_overlay p \<noteq> None then p
      else told_next Keyboard_To_Overlay (p\<lparr>px_overlay := Some \<lparr>ov_expanded = False, ov_finished = False\<rparr>, px_timer := True\<rparr>))"

definition expand :: "overlay \<Rightarrow> overlay" where
  "expand v = (if ov_expanded v \<or> ov_finished v then v else v\<lparr>ov_expanded := True\<rparr>)"

text \<open>The timer of \<open>arm_prefix\<close> runs out.\<close>

definition which_key_due :: "'i prefix_state \<Rightarrow> 'i prefix_state" where
  "which_key_due p =
     (if \<not> px_timer p then p else p\<lparr>px_timer := False, px_overlay := map_option expand (px_overlay p)\<rparr>)"

definition overlay_finish :: "bytes \<Rightarrow> 'i prefix_state \<Rightarrow> 'i prefix_state" where
  "overlay_finish c p =
     (case px_overlay p of
        None \<Rightarrow> p
      | Some v \<Rightarrow>
          if ov_finished v then p
          else p\<lparr>px_overlay := Some (v\<lparr>ov_finished := True\<rparr>), px_posted := px_posted p @ [c]\<rparr>)"

definition overlay_key :: "'k key_names \<Rightarrow> 'k \<Rightarrow> bool \<Rightarrow> 'k chord \<Rightarrow> 'i prefix_state \<Rightarrow> bool \<times> 'i prefix_state" where
  "overlay_key names escape released c p =
     (if released then (False, p)
      else (True, overlay_finish (if chord_key c = Named_Key escape then [] else chord_spelling names c) p))"

definition dismiss_prefix_overlay :: "'i prefix_state \<Rightarrow> 'i prefix_state" where
  "dismiss_prefix_overlay p =
     (let p = p\<lparr>px_timer := False\<rparr>
      in if px_overlay p = None then p else told_next Overlay_Gone (p\<lparr>px_overlay := None\<rparr>))"

definition resolve_prefix :: "'i bindings \<Rightarrow> bytes \<Rightarrow> 'i prefix_state \<Rightarrow> 'i prefix_state" where
  "resolve_prefix bindings c p =
     (let p = told_next Keyboard_To_Terminal (dismiss_prefix_overlay p)
      in if c = [] then p
         else if digit_chord c \<noteq> 0 then told_next Keyboard_To_Terminal (told_next (Focus_Number (digit_chord c)) p)
         else case find_binding c bindings of
                None \<Rightarrow> p
              | Some b \<Rightarrow> told_next (Execute (kb_command b)) p)"

text \<open>What can happen: the prefix is pressed, a key reaches the overlay, its timer runs out, and what was
  posted is carried out.\<close>

datatype 'k prefix_happening = Prefix_Pressed | Overlay_Key bool "'k chord" | Which_Key_Due | Posted_Runs

fun prefix_step :: "'k key_names \<Rightarrow> 'k \<Rightarrow> 'i bindings \<Rightarrow> 'k prefix_happening \<Rightarrow> 'i prefix_state \<Rightarrow> 'i prefix_state" where
  "prefix_step names escape bindings Prefix_Pressed p = arm_prefix p"
| "prefix_step names escape bindings (Overlay_Key released c) p =
     (if px_overlay p = None then p else snd (overlay_key names escape released c p))"
| "prefix_step names escape bindings Which_Key_Due p = which_key_due p"
| "prefix_step names escape bindings Posted_Runs p =
     (case px_posted p of
        [] \<Rightarrow> p
      | c # rest \<Rightarrow> resolve_prefix bindings c (p\<lparr>px_posted := rest\<rparr>))"

definition prefix_run :: "'k key_names \<Rightarrow> 'k \<Rightarrow> 'i bindings \<Rightarrow> 'k prefix_happening list \<Rightarrow> 'i prefix_state \<Rightarrow> 'i prefix_state" where
  "prefix_run names escape bindings = fold (prefix_step names escape bindings)"

section \<open>The printed table\<close>

fun plain_title :: "bytes \<Rightarrow> bytes" where
  "plain_title [] = []"
| "plain_title (c # cs) =
     (if c = 38 then plain_title cs
      else if take 3 (c # cs) = ellipsis then str ''...'' @ plain_title (drop 2 cs)
      else c # plain_title cs)"

definition markdown_text :: "bytes \<Rightarrow> bytes" where
  "markdown_text cs = concat (map (\<lambda>c. if c = 124 \<or> c = 96 then [92, c] else [c]) cs)"

definition roff_text :: "bytes \<Rightarrow> bytes" where
  "roff_text cs = concat (map (\<lambda>c.
     if c = 92 then [92, 92] else if c = 45 then [92, 45] else if c = 34 then 92 # str ''(dq'' else [c]) cs)"

definition reached_by :: "'k key_names \<Rightarrow> 'k chord \<Rightarrow> 'i key_binding \<Rightarrow> bytes" where
  "reached_by names prefix b = (if kb_chord b = [] then str ''Menu only'' else binding_label names prefix b)"

definition markdown_row :: "'k key_names \<Rightarrow> 'k chord \<Rightarrow> 'i key_binding \<Rightarrow> bytes" where
  "markdown_row names prefix b =
     str ''| `'' @ markdown_text (reached_by names prefix b) @ str ''` | '' @ markdown_text (plain_title (kb_title b)) @ str '' | ''
     @ (case kb_action b of Some a \<Rightarrow> str ''`'' @ markdown_text (action_name a) @ str ''`'' | None \<Rightarrow> long_dash)
     @ str '' |'' @ [10]"

definition roff_row :: "'k key_names \<Rightarrow> 'k chord \<Rightarrow> 'i key_binding \<Rightarrow> bytes" where
  "roff_row names prefix b =
     str ''.TP'' @ [10] @ str ''.B '' @ [34] @ roff_text (reached_by names prefix b) @ [34, 10]
     @ roff_text (plain_title (kb_title b))
     @ (case kb_action b of
          Some a \<Rightarrow> str '' (configuration action '' @ 92 # str ''fB'' @ roff_text (action_name a) @ 92 # str ''fR)''
        | None \<Rightarrow> [])
     @ [10]"

definition documented_defaults :: "'k key_names \<Rightarrow> 'k chord \<Rightarrow> 'i bindings" where
  "documented_defaults names prefix = set_default_chord Send_Prefix (chord_spelling names prefix) new_bindings"

end
