(* ===== verification/Key_Facts.thy ===== *)
theory Key_Facts
  imports Key_Table
begin

text \<open>
  Facts of the key table: the directives move chords between rows and do nothing else, each action can be
  followed on its own, and no chord ever stands on two rows. Facts of the prefix: one press, one answer.
\<close>

section \<open>The rows stay\<close>

text \<open>What a row is, apart from the chord it is reached by.\<close>

definition row_identity :: "'i key_binding \<Rightarrow> command_key \<times> bytes \<times> bytes \<times> int \<times> action option" where
  "row_identity b = (kb_key b, kb_title b, kb_hint b, kb_priority b, kb_action b)"

definition same_rows :: "'i bindings \<Rightarrow> 'i bindings \<Rightarrow> bool" where
  "same_rows bs cs \<longleftrightarrow> map row_identity bs = map row_identity cs"

text \<open>No chord on two rows, the digits on none but where the prefix put them.\<close>

definition unambiguous :: "'i bindings \<Rightarrow> bool" where
  "unambiguous bs \<longleftrightarrow>
     (\<forall>i j. i < length bs \<longrightarrow> j < length bs \<longrightarrow> kb_chord (bs ! i) = kb_chord (bs ! j) \<longrightarrow> kb_chord (bs ! i) \<noteq> [] \<longrightarrow> i = j)"

lemma same_rows_refl [simp]: "same_rows bs bs"
  by (simp add: same_rows_def)

lemma same_rows_trans: "same_rows bs cs \<Longrightarrow> same_rows cs ds \<Longrightarrow> same_rows bs ds"
  by (simp add: same_rows_def)

lemma row_identity_chord [simp]:
  "row_identity (b\<lparr>kb_chord := c\<rparr>) = row_identity b" "row_identity (b\<lparr>kb_default := c\<rparr>) = row_identity b"
  by (simp_all add: row_identity_def)

lemma same_rows_free: "same_rows (free_chord c bs) bs"
  by (simp add: same_rows_def free_chord_def comp_def)

lemma same_rows_update: "row_identity b = row_identity (bs ! i) \<Longrightarrow> same_rows (bs[i := b]) bs"
  unfolding same_rows_def by (cases "i < length bs") (simp_all add: map_update list_update_same_conv list_update_beyond)

lemma same_rows_nth:
  assumes "same_rows bs cs"
  shows "length bs = length cs" and "i < length bs \<Longrightarrow> row_identity (bs ! i) = row_identity (cs ! i)"
  using assms unfolding same_rows_def by (metis length_map, metis length_map nth_map)

lemma same_rows_action: "same_rows bs cs \<Longrightarrow> i < length bs \<Longrightarrow> kb_action (bs ! i) = kb_action (cs ! i) \<and> kb_key (bs ! i) = kb_key (cs ! i)"
  by (drule same_rows_nth(2)) (auto simp: row_identity_def)

lemma same_rows_row_for:
  assumes "same_rows bs cs"
  shows "row_for a bs = row_for a cs"
proof -
  have "find (\<lambda>i. kb_action (bs ! i) = Some a) [0..<length cs] = find (\<lambda>i. kb_action (cs ! i) = Some a) [0..<length cs]"
    using same_rows_action [OF assms] same_rows_nth(1) [OF assms] by (intro find_cong) simp_all
  then show ?thesis using same_rows_nth(1) [OF assms] by (simp add: row_for_def)
qed

lemma row_for_Some: "row_for a bs = Some i \<Longrightarrow> i < length bs \<and> kb_action (bs ! i) = Some a"
  by (auto simp: row_for_def find_Some_iff)

section \<open>No chord on two rows\<close>

lemma free_chord_nth: "i < length bs \<Longrightarrow> kb_chord (free_chord c bs ! i) = (if kb_chord (bs ! i) = c then [] else kb_chord (bs ! i))"
  by (simp add: free_chord_def)

lemma length_free [simp]: "length (free_chord c bs) = length bs"
  by (simp add: free_chord_def)

lemma unambiguous_free: "unambiguous bs \<Longrightarrow> unambiguous (free_chord c bs)"
  by (auto simp: unambiguous_def free_chord_nth split: if_splits)

text \<open>A chord that is free may be given to a row.\<close>

lemma unambiguous_give:
  assumes "unambiguous bs" and "kb_chord b = c"
  shows "unambiguous ((free_chord c bs)[i := b])"
proof (cases "i < length bs")
  case True
  then have "kb_chord ((free_chord c bs)[i := b] ! j) = (if j = i then c else kb_chord (free_chord c bs ! j))" for j
    using assms(2) by (simp add: nth_list_update)
  then show ?thesis using assms(1) by (auto simp: unambiguous_def free_chord_nth split: if_splits)
next
  case False
  then show ?thesis using unambiguous_free [OF assms(1)] by (simp add: list_update_beyond)
qed

lemma apply_bind_rows: "same_rows (fst (apply_bind d (bs, ps))) bs"
proof -
  have give: "same_rows (give_chord i c (free_chord c bs)) bs" for i c
    unfolding give_chord_def by (rule same_rows_trans [OF same_rows_update same_rows_free]) simp
  show ?thesis by (simp add: apply_bind_def Let_def same_rows_free give split: option.split)
qed

lemma apply_bind_unambiguous: "unambiguous bs \<Longrightarrow> unambiguous (fst (apply_bind d (bs, ps)))"
  by (simp add: apply_bind_def Let_def unambiguous_free give_chord_def unambiguous_give split: option.split)

lemma apply_binds_keeps: "same_rows (fst (apply_binds ds s)) (fst s)" "unambiguous (fst s) \<Longrightarrow> unambiguous (fst (apply_binds ds s))"
proof -
  have "same_rows (fst (fold apply_bind ds s)) (fst s) \<and> (unambiguous (fst s) \<longrightarrow> unambiguous (fst (fold apply_bind ds s)))"
  proof (induction ds arbitrary: s)
    case (Cons d ds)
    obtain bs ps where s: "s = (bs, ps)" by (cases s)
    from Cons [of "apply_bind d s"] apply_bind_rows [of d bs ps] apply_bind_unambiguous [of bs d ps] show ?case
      by (auto simp: s intro: same_rows_trans)
  qed simp
  then show "same_rows (fst (apply_binds ds s)) (fst s)" "unambiguous (fst s) \<Longrightarrow> unambiguous (fst (apply_binds ds s))"
    by (simp_all add: apply_binds_def)
qed

lemma default_chord_keeps: "same_rows (set_default_chord a c bs) bs" "unambiguous bs \<Longrightarrow> unambiguous (set_default_chord a c bs)"
proof -
  have "same_rows ((free_chord c bs)[i := (free_chord c bs ! i)\<lparr>kb_chord := c, kb_default := c\<rparr>]) bs" for i
    by (rule same_rows_trans [OF same_rows_update same_rows_free]) simp
  then show "same_rows (set_default_chord a c bs) bs" by (simp add: set_default_chord_def Let_def split: option.split)
  show "unambiguous bs \<Longrightarrow> unambiguous (set_default_chord a c bs)"
    by (simp add: set_default_chord_def Let_def unambiguous_give split: option.split)
qed

section \<open>The table of the program\<close>

text \<open>A table is unambiguous where its chords, the empty ones apart, are distinct.\<close>

lemma unambiguousI: "distinct (filter (\<lambda>c. c \<noteq> []) (map kb_chord bs)) \<Longrightarrow> unambiguous bs"
proof (induction bs)
  case (Cons b bs)
  then have rest: "unambiguous bs" by (auto split: if_splits)
  have new: "kb_chord b \<noteq> [] \<longrightarrow> (\<forall>i < length bs. kb_chord (bs ! i) \<noteq> kb_chord b)"
    using Cons.prems by (simp split: if_splits) (metis image_eqI nth_mem)
  show ?case
    unfolding unambiguous_def
  proof (intro allI impI)
    fix i j assume "i < length (b # bs)" "j < length (b # bs)" "kb_chord ((b # bs) ! i) = kb_chord ((b # bs) ! j)"
      "kb_chord ((b # bs) ! i) \<noteq> []"
    then show "i = j" using rest new by (cases i; cases j) (auto simp: unambiguous_def)
  qed
qed (simp add: unambiguous_def)

lemma new_chords: "map kb_chord (new_bindings :: 'i bindings) = map kb_chord (default_bindings :: 'i bindings)"
  by (simp add: new_bindings_def comp_def)

lemma new_unambiguous: "unambiguous (new_bindings :: 'i bindings)"
proof (rule unambiguousI)
  show "distinct (filter (\<lambda>c. c \<noteq> []) (map kb_chord (new_bindings :: 'i bindings)))"
    unfolding new_chords by (simp add: default_bindings_def key_row_def)
qed

text \<open>Each action has one row, and its row is the command that carries it out.\<close>

lemma new_rows: "same_rows (new_bindings :: 'i bindings) default_bindings"
  by (simp add: same_rows_def new_bindings_def comp_def)

lemma default_actions: "distinct (map kb_action default_bindings)"
  by (simp add: default_bindings_def key_row_def)

lemma default_commands: "\<forall>b \<in> set default_bindings. \<forall>a. kb_action b = Some a \<longrightarrow> kb_key b = command_for_action a"
  by (simp add: default_bindings_def key_row_def)

lemma default_complete: "Some a \<in> set (map kb_action default_bindings)"
  by (cases a) (simp_all add: default_bindings_def key_row_def)

text \<open>What a client starts with is the table of the program, and unambiguous.\<close>

lemma startup_sound:
  fixes names :: "'k key_names" and prefix :: "'k chord"
  shows "same_rows (fst (startup_bindings names prefix directives warnings) :: 'i bindings) default_bindings"
    and "unambiguous (fst (startup_bindings names prefix directives warnings) :: 'i bindings)"
proof -
  let ?seeded = "set_default_chord Send_Prefix (chord_spelling names prefix) (new_bindings :: 'i bindings)"
  have seeded: "same_rows ?seeded default_bindings" "unambiguous ?seeded"
    by (rule same_rows_trans [OF default_chord_keeps(1) new_rows], rule default_chord_keeps(2) [OF new_unambiguous])
  have "unambiguous (fst (apply_binds directives (?seeded, warnings)))" by (rule apply_binds_keeps(2)) (simp add: seeded)
  then show "unambiguous (fst (startup_bindings names prefix directives warnings) :: 'i bindings)"
    by (simp add: startup_bindings_def)
  have "same_rows (fst (apply_binds directives (?seeded, warnings))) ?seeded"
    using apply_binds_keeps(1) [of directives "(?seeded, warnings)"] by simp
  then show "same_rows (fst (startup_bindings names prefix directives warnings) :: 'i bindings) default_bindings"
    unfolding startup_bindings_def by (rule same_rows_trans [OF _ seeded(1)])
qed

section \<open>One action on its own\<close>

definition chord_of :: "action \<Rightarrow> 'i bindings \<Rightarrow> bytes" where
  "chord_of a bs = (case row_for a bs of None \<Rightarrow> [] | Some i \<Rightarrow> kb_chord (bs ! i))"

definition honoured :: "bind_directive \<Rightarrow> bool" where
  "honoured d \<longleftrightarrow> bd_context d = In_Terminal \<and> digit_chord (bd_chord d) = 0"

text \<open>What one directive does to the chord of one action: it takes it, gives it, or has nothing to do with it.\<close>

definition traced :: "action \<Rightarrow> bind_directive \<Rightarrow> bytes \<Rightarrow> bytes" where
  "traced a d c =
     (if \<not> honoured d then c
      else if bd_action d = Some a then bd_chord d
      else if c = bd_chord d then [] else c)"

definition complete :: "'i bindings \<Rightarrow> bool" where
  "complete bs \<longleftrightarrow> (\<forall>a. row_for a bs \<noteq> None)"

lemma complete_same: "same_rows bs cs \<Longrightarrow> complete bs = complete cs"
  by (simp add: complete_def same_rows_row_for)

lemma new_complete: "complete (new_bindings :: 'i bindings)"
proof -
  have "row_for a (default_bindings :: 'i bindings) \<noteq> None" for a
  proof -
    obtain i where "i < length (default_bindings :: 'i bindings)" "kb_action ((default_bindings :: 'i bindings) ! i) = Some a"
      using default_complete [of a] by (metis (no_types, lifting) in_set_conv_nth length_map nth_map)
    then show ?thesis by (auto simp: row_for_def find_None_iff)
  qed
  then show ?thesis by (subst complete_same [OF new_rows]) (simp add: complete_def)
qed

lemma chord_of_free: "complete bs \<Longrightarrow> chord_of a (free_chord c bs) = (if chord_of a bs = c then [] else chord_of a bs)"
  by (auto simp: chord_of_def complete_def same_rows_row_for [OF same_rows_free] free_chord_nth dest: row_for_Some
      split: option.split)

lemma chord_of_give:
  assumes "row_for b bs = Some i"
  shows "chord_of a (give_chord i c bs) = (if a = b then c else chord_of a bs)"
proof -
  have same: "row_for a (give_chord i c bs) = row_for a bs"
    unfolding give_chord_def by (rule same_rows_row_for [OF same_rows_update]) simp
  show ?thesis
  proof (cases "row_for a bs")
    case None
    then show ?thesis using assms same by (auto simp: chord_of_def)
  next
    case (Some j)
    with row_for_Some [OF this] row_for_Some [OF assms] same assms show ?thesis
      by (auto simp: chord_of_def give_chord_def nth_list_update)
  qed
qed

lemma chord_of_apply:
  assumes "complete bs"
  shows "chord_of a (fst (apply_bind d (bs, ps))) = traced a d (chord_of a bs)"
proof -
  have free: "complete (free_chord (bd_chord d) bs)" using assms complete_same [OF same_rows_free] by blast
  show ?thesis
  proof (cases "bd_action d")
    case None
    then show ?thesis using assms by (simp add: apply_bind_def traced_def honoured_def Let_def chord_of_free)
  next
    case (Some b)
    obtain i where "row_for b (free_chord (bd_chord d) bs) = Some i" using free unfolding complete_def by (metis not_None_eq)
    with Some assms show ?thesis
      by (simp add: apply_bind_def traced_def honoured_def Let_def chord_of_free chord_of_give)
  qed
qed

lemma chord_of_applied:
  "complete (fst s) \<Longrightarrow> chord_of a (fst (apply_binds ds s)) = fold (traced a) ds (chord_of a (fst s))"
  unfolding apply_binds_def
proof (induction ds arbitrary: s)
  case (Cons d ds)
  obtain bs ps where s: "s = (bs, ps)" by (cases s)
  have "complete (fst (apply_bind d s))" using Cons.prems complete_same [OF apply_bind_rows] by (auto simp: s)
  from Cons.IH [OF this] show ?case using Cons.prems by (simp add: s chord_of_apply)
qed simp

lemma chord_of_seeded:
  assumes "complete bs" and "c \<noteq> []"
  shows "chord_of a (set_default_chord b c bs) = (if a = b then c else if chord_of a bs = c then [] else chord_of a bs)"
proof -
  obtain i where i: "row_for b bs = Some i" using assms(1) by (auto simp: complete_def)
  then have free: "row_for b (free_chord c bs) = Some i" by (simp add: same_rows_row_for [OF same_rows_free])
  have "chord_of a (set_default_chord b c bs) = chord_of a (give_chord i c (free_chord c bs))"
  proof -
    have "same_rows (set_default_chord b c bs) (give_chord i c (free_chord c bs))"
      using assms(2) i unfolding give_chord_def same_rows_def set_default_chord_def by (simp add: Let_def map_update)
    then have "row_for a (set_default_chord b c bs) = row_for a (give_chord i c (free_chord c bs))" by (rule same_rows_row_for)
    moreover have "kb_chord (set_default_chord b c bs ! j) = kb_chord (give_chord i c (free_chord c bs) ! j)" if "j < length bs" for j
      using assms(2) i that by (cases "j = i") (simp_all add: set_default_chord_def give_chord_def Let_def)
    moreover have "j < length bs" if "row_for a (give_chord i c (free_chord c bs)) = Some j" for j
      using row_for_Some [OF that] by (simp add: give_chord_def)
    ultimately show ?thesis by (auto simp: chord_of_def split: option.split)
  qed
  also have "\<dots> = (if a = b then c else chord_of a (free_chord c bs))" by (rule chord_of_give [OF free])
  finally show ?thesis by (simp add: chord_of_free [OF assms(1)])
qed

text \<open>In an unambiguous table a chord finds the row that shows it.\<close>

lemma find_binding_row:
  assumes "unambiguous bs" and "b \<in> set bs" and "kb_chord b \<noteq> []" and "digit_chord (kb_chord b) = 0"
  shows "find_binding (kb_chord b) bs = Some b"
proof -
  obtain i where i: "i < length bs" "bs ! i = b" using assms(2) by (auto simp: in_set_conv_nth)
  have "find (\<lambda>x. kb_chord x = kb_chord b) bs = Some b"
    unfolding find_Some_iff
  proof (intro exI [of _ i] conjI allI impI)
    fix j assume "j < i"
    then show "kb_chord (bs ! j) \<noteq> kb_chord b" using assms(1, 3) i unfolding unambiguous_def by (metis less_not_refl order.strict_trans)
  qed (use i in simp_all)
  then show ?thesis using assms(3, 4) by (simp add: find_binding_def)
qed

text \<open>What a client starts with, action by action; and the row that is found by the chord of an action.\<close>

definition given_chord :: "'k key_names \<Rightarrow> 'k chord \<Rightarrow> bind_directive list \<Rightarrow> action \<Rightarrow> bytes" where
  "given_chord names prefix directives a =
     (let c = chord_of a (new_bindings :: unit bindings)
      in fold (traced a) directives
           (if a = Send_Prefix then chord_spelling names prefix else if c = chord_spelling names prefix then [] else c))"

lemma row_for_nat: "row_for a bs = find (\<lambda>i. map kb_action bs ! i = Some a) [0..<length (map kb_action bs)]"
  unfolding row_for_def length_map by (rule find_cong) simp_all

lemma chord_of_new: "chord_of a (new_bindings :: 'i bindings) = chord_of a (new_bindings :: unit bindings)"
proof -
  have actions: "map kb_action (new_bindings :: 'i bindings) = map kb_action (new_bindings :: unit bindings)"
    by (simp add: new_bindings_def default_bindings_def key_row_def)
  have chords: "map kb_chord (new_bindings :: 'i bindings) = map kb_chord (new_bindings :: unit bindings)"
    by (simp add: new_bindings_def default_bindings_def key_row_def)
  have row: "row_for a (new_bindings :: 'i bindings) = row_for a (new_bindings :: unit bindings)"
    unfolding row_for_nat actions ..
  show ?thesis
  proof (cases "row_for a (new_bindings :: unit bindings)")
    case None
    then show ?thesis using row by (simp add: chord_of_def)
  next
    case (Some i)
    then have "i < length (new_bindings :: 'i bindings)" "i < length (new_bindings :: unit bindings)"
      using row row_for_Some [of a "new_bindings :: 'i bindings"] row_for_Some [of a "new_bindings :: unit bindings"] by auto
    then have "kb_chord ((new_bindings :: 'i bindings) ! i) = kb_chord ((new_bindings :: unit bindings) ! i)"
      using chords by (metis nth_map)
    then show ?thesis using row Some by (simp add: chord_of_def)
  qed
qed

lemma chord_of_startup:
  assumes "chord_spelling names prefix \<noteq> []"
  shows "chord_of a (fst (startup_bindings names prefix directives warnings) :: 'i bindings) = given_chord names prefix directives a"
proof -
  let ?seeded = "set_default_chord Send_Prefix (chord_spelling names prefix) (new_bindings :: 'i bindings)"
  have "complete ?seeded" using new_complete complete_same [OF default_chord_keeps(1)] by blast
  then show ?thesis
    using chord_of_applied [of "(?seeded, warnings)" a directives]
    by (simp add: startup_bindings_def given_chord_def chord_of_seeded [OF new_complete assms]
        chord_of_new [where ?'i = 'i] Let_def)
qed

lemma startup_finds:
  fixes names :: "'k key_names" and prefix :: "'k chord" and directives :: "bind_directive list" and warnings :: "bytes list"
  defines "bindings \<equiv> fst (startup_bindings names prefix directives warnings) :: 'i bindings"
  assumes "chord_of a bindings = c" and "c \<noteq> []" and "digit_chord c = 0"
  shows "\<exists>b \<in> set bindings. find_binding c bindings = Some b \<and> kb_chord b = c \<and> kb_action b = Some a \<and> kb_key b = command_for_action a"
proof -
  obtain i where i: "row_for a bindings = Some i" "kb_chord (bindings ! i) = c"
    using assms(2, 3) by (cases "row_for a bindings") (auto simp: chord_of_def)
  have rows: "same_rows bindings default_bindings" and "unambiguous bindings" unfolding bindings_def by (rule startup_sound)+
  moreover note row = row_for_Some [OF i(1)]
  ultimately have "find_binding c bindings = Some (bindings ! i)"
    using find_binding_row [of bindings "bindings ! i"] i(2) assms(3, 4) by (simp add: nth_mem)
  moreover have "kb_key (bindings ! i) = command_for_action a"
  proof -
    have "kb_action ((default_bindings :: 'i bindings) ! i) = Some a" "kb_key (bindings ! i) = kb_key ((default_bindings :: 'i bindings) ! i)"
      using same_rows_action [OF rows, of i] row by auto
    moreover have "(default_bindings :: 'i bindings) ! i \<in> set default_bindings" using row same_rows_nth(1) [OF rows] by simp
    ultimately show ?thesis using default_commands by metis
  qed
  ultimately show ?thesis using row i(2) nth_mem by blast
qed

section \<open>One press, one answer\<close>

definition answers :: "'i prefix_told list \<Rightarrow> nat" where
  "answers told = length (filter (\<lambda>x. case x of Focus_Number _ \<Rightarrow> True | Execute _ \<Rightarrow> True | _ \<Rightarrow> False) told)"

definition presses :: "'i prefix_told list \<Rightarrow> nat" where
  "presses told = length (filter (\<lambda>x. x = Keyboard_To_Overlay) told)"

text \<open>A chord is on its way just while the overlay has heard its key, and every press is answered at most once.\<close>

definition prefix_sound :: "'i prefix_state \<Rightarrow> bool" where
  "prefix_sound p \<longleftrightarrow>
     length (px_posted p) = (case px_overlay p of Some v \<Rightarrow> (if ov_finished v then 1 else 0) | None \<Rightarrow> 0) \<and>
     answers (px_log p) + (if px_overlay p = None then 0 else 1) \<le> presses (px_log p) \<and>
     (px_overlay p = None \<longrightarrow> \<not> px_timer p)"

lemma counts_append [simp]: "answers (xs @ ys) = answers xs + answers ys" "presses (xs @ ys) = presses xs + presses ys"
  by (simp_all add: answers_def presses_def)

lemma counts_Cons [simp]:
  "answers [] = 0" "presses [] = 0"
  "answers (Keyboard_To_Overlay # xs) = answers xs" "presses (Keyboard_To_Overlay # xs) = Suc (presses xs)"
  "answers (Keyboard_To_Terminal # xs) = answers xs" "presses (Keyboard_To_Terminal # xs) = presses xs"
  "answers (Overlay_Gone # xs) = answers xs" "presses (Overlay_Gone # xs) = presses xs"
  "answers (Focus_Number n # xs) = Suc (answers xs)" "presses (Focus_Number n # xs) = presses xs"
  "answers (Execute c # xs) = Suc (answers xs)" "presses (Execute c # xs) = presses xs"
  by (simp_all add: answers_def presses_def)

lemma resolve_sound:
  assumes "px_posted p = c # rest" and "prefix_sound p"
  shows "prefix_sound (resolve_prefix bindings c (p\<lparr>px_posted := rest\<rparr>))"
proof -
  obtain v where "px_overlay p = Some v" "rest = []"
    using assms by (cases "px_overlay p") (auto simp: prefix_sound_def split: if_splits)
  moreover have "answers (px_log p) + 1 \<le> presses (px_log p)" using assms(2) calculation(1) by (simp add: prefix_sound_def)
  ultimately show ?thesis
    by (cases "find_binding c bindings")
      (simp_all add: prefix_sound_def resolve_prefix_def dismiss_prefix_overlay_def told_next_def Let_def)
qed

lemma prefix_step_sound: "prefix_sound p \<Longrightarrow> prefix_sound (prefix_step names escape bindings h p)"
proof (cases h)
  case Posted_Runs
  assume "prefix_sound p"
  then show ?thesis by (cases "px_posted p") (simp_all add: Posted_Runs resolve_sound)
next
  case (Overlay_Key released c)
  assume "prefix_sound p"
  then show ?thesis
    by (auto simp: Overlay_Key prefix_sound_def overlay_key_def overlay_finish_def split: option.split)
next
  case Which_Key_Due
  assume "prefix_sound p"
  then show ?thesis
    by (auto simp: Which_Key_Due prefix_sound_def which_key_due_def expand_def split: option.split)
next
  case Prefix_Pressed
  assume "prefix_sound p"
  then show ?thesis by (auto simp: Prefix_Pressed prefix_sound_def arm_prefix_def told_next_def)
qed

lemma prefix_run_sound: "prefix_sound p \<Longrightarrow> prefix_sound (prefix_run names escape bindings hs p)"
  unfolding prefix_run_def by (induction hs arbitrary: p) (simp_all add: prefix_step_sound)

lemma idle_sound: "prefix_sound prefix_idle"
  by (simp add: prefix_sound_def prefix_idle_def answers_def presses_def)

end
