(* ===== verification/Properties_Keys.thy ===== *)
theory Properties_Keys
  imports Key_Facts
begin

text \<open>
  What the key table promises its reader: a binding takes effect, what is advertised is what is done, and a press
  of the prefix is answered at most once.
\<close>

text \<open>Keys without names, and a table nobody has changed.\<close>

definition sample_names :: "nat key_names" where
  "sample_names = \<lparr>kn_name = (\<lambda>_. []), kn_from = (\<lambda>_. None)\<rparr>"







text \<open>C33. One press, one answer. Whatever keys are hit and in whatever order timers and posted calls run, at most one command
  is executed or one terminal focused per press of the prefix that took the keyboard; while the overlay waits none
  of the presses before is open; and a key that comes after the one that was heard is swallowed without a trace.\<close>

theorem one_answer_per_prefix:
  fixes names :: "'k key_names" and bindings :: "'i bindings" and escape :: 'k and happenings :: "'k prefix_happening list"
  defines "p \<equiv> prefix_run names escape bindings happenings prefix_idle"
  shows "answers (px_log p) + (if px_overlay p = None then 0 else 1) \<le> presses (px_log p) \<and> length (px_posted p) \<le> 1 \<and>
     (px_posted p \<noteq> [] \<longrightarrow> overlay_key names escape False c p = (True, p))"
proof -
  have sound: "prefix_sound p" unfolding p_def by (rule prefix_run_sound [OF idle_sound])
  then show ?thesis
    by (cases "px_overlay p") (auto simp: prefix_sound_def overlay_key_def overlay_finish_def split: if_splits)
qed

lemma one_answer_per_prefix_witness:
  "overlay_key sample_names 5 False (char_chord {} [120])
     (prefix_run sample_names 5 [] [Prefix_Pressed, Overlay_Key False (char_chord {} [99])] (prefix_idle :: nat prefix_state))
   = (True, prefix_run sample_names 5 [] [Prefix_Pressed, Overlay_Key False (char_chord {} [99])] prefix_idle)"
proof -
  let ?p = "prefix_run sample_names 5 [] [Prefix_Pressed, Overlay_Key False (char_chord {} [99])] (prefix_idle :: nat prefix_state)"
  have "px_posted ?p \<noteq> []"
    by (simp add: prefix_run_def prefix_idle_def arm_prefix_def told_next_def overlay_key_def overlay_finish_def char_chord_def)
  then show ?thesis
    using one_answer_per_prefix [of sample_names 5 "[]" "[Prefix_Pressed, Overlay_Key False (char_chord {} [99])]" "char_chord {} [120]"]
    by blast
qed

end
