(* ===== verification/Server_Link.thy ===== *)
theory Server_Link
  imports Wire_Stream Stream_Queue Shell
begin

text \<open>
  How a client reaches its server (\<^verbatim>\<open>src/src/client/server_connection.cpp\<close>): one connection over a non-blocking
  stream, written out and waited on within a budget of time. What a connect, a start and a wait come to are lists
  that the operations consume; an exhausted list is a deadline that has passed.
\<close>

section \<open>One connection\<close>

datatype wait_outcome = Wait_Ready | Wait_Interrupted | Wait_Failed

record link =
  lk_stream :: stream
  lk_reader :: frame_reader
  lk_waits :: "wait_outcome list"
  lk_said :: "message list"

definition link_over :: "stream \<Rightarrow> wait_outcome list \<Rightarrow> link" where
  "link_over s waits = \<lparr>lk_stream = s, lk_reader = fr_new, lk_waits = waits, lk_said = []\<rparr>"

text \<open>\<open>send(encode(m))\<close>; what was said is kept for the theorems.\<close>

definition link_send :: "message \<Rightarrow> link \<Rightarrow> link" where
  "link_send m l = l\<lparr>lk_stream := snd (stream_send (fst (encode m)) (lk_stream l)), lk_said := lk_said l @ [m]\<rparr>"

definition link_flush :: "link \<Rightarrow> link" where
  "link_flush l = l\<lparr>lk_stream := snd (stream_flush (lk_stream l))\<rparr>"

text \<open>Writing the queue out, or not within the budget. The recursion is on the waits; the last flush is the one
  before a wait that does not come.\<close>

fun flush_waiting :: "wait_outcome list \<Rightarrow> stream \<Rightarrow> bool \<times> stream \<times> wait_outcome list" where
  "flush_waiting waits s =
     (if \<not> wants_write s then (True, s, waits)
      else case stream_flush s of
        (False, s) \<Rightarrow> (False, s, waits)
      | (True, s) \<Rightarrow>
          if \<not> wants_write s then (True, s, waits)
          else case waits of
            [] \<Rightarrow> (False, s, [])
          | Wait_Failed # rest \<Rightarrow> (False, s, rest)
          | Wait_Interrupted # rest \<Rightarrow> flush_waiting rest s
          | Wait_Ready # rest \<Rightarrow> flush_waiting rest s)"

declare flush_waiting.simps [simp del]

definition flush_fully :: "link \<Rightarrow> bool \<times> link" where
  "flush_fully l =
     (if \<not> sk_open (lk_stream l) then (False, l)
      else case flush_waiting (lk_waits l) (lk_stream l) of
        (ok, s, waits) \<Rightarrow> (ok, l\<lparr>lk_stream := s, lk_waits := waits\<rparr>))"

text \<open>One message, waited for. Interruptions go on waiting; framing that is wrong, a peer that is gone and a deadline
  that has passed are no answer.\<close>

fun await_in :: "ckvision \<Rightarrow> wait_outcome list \<Rightarrow> frame_reader \<Rightarrow> stream \<Rightarrow> message option \<times> wait_outcome list \<times> frame_reader \<times> stream" where
  "await_in lib waits reader s =
     (case fr_next lib reader default_message of
       (e, reader, m) \<Rightarrow>
         if e = No_Error then (Some m, waits, reader, s)
         else if e \<noteq> Incomplete \<or> \<not> sk_open s then (None, waits, reader, s)
         else
           let s = snd (stream_flush s)
           in case waits of
                [] \<Rightarrow> (None, [], reader, s)
              | Wait_Failed # rest \<Rightarrow> (None, rest, reader, s)
              | Wait_Interrupted # rest \<Rightarrow> await_in lib rest reader s
              | Wait_Ready # rest \<Rightarrow>
                  (case stream_receive (snd (stream_flush s)) of
                    (arrived, alive, s) \<Rightarrow>
                      case (if arrived = [] then (True, reader) else fr_append arrived reader) of
                        (fits, reader) \<Rightarrow>
                          if \<not> fits \<or> \<not> alive \<and> arrived = [] then (None, rest, reader, s)
                          else await_in lib rest reader s))"

declare await_in.simps [simp del]

definition await_message :: "ckvision \<Rightarrow> link \<Rightarrow> message option \<times> link" where
  "await_message lib l =
     (case await_in lib (lk_waits l) (lk_reader l) (lk_stream l) of
       (m, waits, reader, s) \<Rightarrow> (m, l\<lparr>lk_waits := waits, lk_reader := reader, lk_stream := s\<rparr>))"

section \<open>Reaching a server\<close>

datatype attempt =
    Connects stream | No_Server bytes | Server_Busy bytes | Server_Denied bytes | Server_Unusable bytes

datatype link_status = Connected | Cannot_Start | Timed_Out | Refused_Connection | Version_Mismatch

record server_connection =
  sc_status :: link_status
  sc_stream :: "stream option"
  sc_build :: bytes
  sc_problem :: bytes
  sc_said :: "message list"

definition unconnected :: "link_status \<Rightarrow> bytes \<Rightarrow> server_connection" where
  "unconnected status problem =
     \<lparr>sc_status = status, sc_stream = None, sc_build = [], sc_problem = problem, sc_said = []\<rparr>"

text \<open>The loop that connects: how often a server was started, and the stream or what went wrong.
  \<open>start\<close> is what starting one comes to, a problem or none; \<open>late\<close> is the problem of a deadline that has passed.\<close>

fun reach :: "bytes option \<Rightarrow> bytes \<Rightarrow> bool \<Rightarrow> attempt list \<Rightarrow> nat \<times> (server_connection + stream)" where
  "reach start late started [] = (0, Inl (unconnected Timed_Out late))"
| "reach start late started (a # rest) =
     (case a of
       Connects s \<Rightarrow> (0, Inr s)
     | Server_Denied problem \<Rightarrow> (0, Inl (unconnected Refused_Connection problem))
     | Server_Unusable problem \<Rightarrow> (0, Inl (unconnected Cannot_Start problem))
     | Server_Busy _ \<Rightarrow> reach start late started rest
     | No_Server _ \<Rightarrow>
         if started then reach start late started rest
         else case start of
           Some problem \<Rightarrow> (1, Inl (unconnected Cannot_Start problem))
         | None \<Rightarrow> (case reach start late True rest of (n, r) \<Rightarrow> (n + 1, r)))"

definition hello_of :: "bytes \<Rightarrow> client_kind \<Rightarrow> message" where
  "hello_of build kind = Hello \<lparr>hello_proto_version = protocol_version, hello_build = build, hello_client_kind = kind\<rparr>"

text \<open>The handshake over a stream. The reader that took the answer is let go with whatever it holds.\<close>

definition handshake :: "ckvision \<Rightarrow> bytes \<Rightarrow> bytes \<Rightarrow> client_kind \<Rightarrow> wait_outcome list \<Rightarrow> stream \<Rightarrow> server_connection" where
  "handshake lib build path kind waits s =
     (let l = link_send (hello_of build kind) (link_over s waits)
      in case flush_fully l of
        (False, l) \<Rightarrow> unconnected Timed_Out (str ''the handshake could not be sent to the server at '' @ path)
      | (True, l) \<Rightarrow>
          (case await_message lib l of
            (None, l) \<Rightarrow> unconnected Timed_Out (str ''the server at '' @ path @ str '' did not answer the handshake'')
          | (Some (Refuse reason), l) \<Rightarrow> unconnected Version_Mismatch reason
          | (Some (HelloAck ack), l) \<Rightarrow>
              \<lparr>sc_status = Connected, sc_stream = Some (lk_stream l), sc_build = hello_ack_build ack, sc_problem = [],
               sc_said = lk_said l\<rparr>
          | (Some _, l) \<Rightarrow> unconnected Timed_Out (str ''the server answered the handshake with something else entirely'')))"

text \<open>\<open>fits\<close> is whether the path can be a socket's address.\<close>

definition connect_to_server ::
    "ckvision \<Rightarrow> bytes \<Rightarrow> bytes \<Rightarrow> bytes \<Rightarrow> bool \<Rightarrow> nat \<Rightarrow> client_kind \<Rightarrow> bytes option \<Rightarrow> attempt list \<Rightarrow> wait_outcome list
      \<Rightarrow> server_connection" where
  "connect_to_server lib build path log fits budget kind start attempts waits =
     (if \<not> fits then
        unconnected Refused_Connection (str ''the socket path is too long to be a Unix socket address: '' @ path)
      else case snd (reach start (str ''no server appeared at '' @ path @ str '' within '' @ decimal budget @ str '' ms; see '' @ log)
                       False attempts) of
        Inl failed \<Rightarrow> failed
      | Inr s \<Rightarrow> handshake lib build path kind waits s)"

end
