(* ===== verification/Command_Line.thy ===== *)
theory Command_Line
  imports Server_Link Config
begin

text \<open>
  What is typed at the shell: the words of a subcommand (\<^verbatim>\<open>src/src/client/cli.cpp\<close>), the conversation each of
  them has with a server, and what \<^verbatim>\<open>src/src/main.cpp\<close> makes of a command line. A run ends with an exit code, what was
  printed on the two outputs, and what was said to the server.
\<close>

section \<open>The words\<close>

definition subcommands :: "bytes list" where
  "subcommands = [str ''ls'', str ''new'', str ''attach'', str ''kill-session'', str ''check-config'']"

definition is_cli_subcommand :: "bytes \<Rightarrow> bool" where
  "is_cli_subcommand word \<longleftrightarrow> word \<in> set subcommands"

record cli_request =
  cr_subcommand :: bytes
  cr_name :: bytes
  cr_command :: bytes
  cr_problem :: bytes
  cr_usage :: bytes
  cr_share :: bool
  cr_watch :: bool
  cr_adopt_size :: bool

definition blank_request :: cli_request where
  "blank_request = \<lparr>cr_subcommand = [], cr_name = [], cr_command = [], cr_problem = [], cr_usage = [], cr_share = False,
     cr_watch = False, cr_adopt_size = False\<rparr>"

definition request_ok :: "cli_request \<Rightarrow> bool" where
  "request_ok r \<longleftrightarrow> cr_problem r = []"

definition quoted :: "bytes \<Rightarrow> bytes" where
  "quoted word = 96 # word @ [96]"

text \<open>The words of a command with blanks between them.\<close>

fun spaced :: "bytes list \<Rightarrow> bytes" where
  "spaced [] = []"
| "spaced [w] = w"
| "spaced (w # ws) = w @ 32 # spaced ws"

fun parse_new :: "bytes list \<Rightarrow> cli_request \<Rightarrow> cli_request" where
  "parse_new [] r = r"
| "parse_new (word # rest) r =
     (if word = str ''-s'' \<or> word = str ''--session'' then
        (case rest of
          [] \<Rightarrow> r\<lparr>cr_problem := quoted word @ str '' needs a session name after it''\<rparr>
        | name # rest \<Rightarrow> parse_new rest (r\<lparr>cr_name := name\<rparr>))
      else r\<lparr>cr_command := cr_command r @ spaced (word # rest)\<rparr>)"

fun parse_attach :: "bytes list \<Rightarrow> cli_request \<Rightarrow> cli_request" where
  "parse_attach [] r =
     (if cr_name r = [] then r\<lparr>cr_problem := quoted (str ''attach'') @ str '' needs the session to act on''\<rparr> else r)"
| "parse_attach (word # rest) r =
     (if word = str ''--share'' then parse_attach rest (r\<lparr>cr_share := True\<rparr>)
      else if word = str ''--watch'' then parse_attach rest (r\<lparr>cr_watch := True, cr_share := True\<rparr>)
      else if word = str ''--adopt-size'' then parse_attach rest (r\<lparr>cr_adopt_size := True\<rparr>)
      else if take 2 word = str ''--'' then
        r\<lparr>cr_problem := quoted (str ''attach'') @ str '' has no '' @ quoted word @ str '' flag''\<rparr>
      else if cr_name r \<noteq> [] then r\<lparr>cr_problem := quoted (str ''attach'') @ str '' takes one session, not several''\<rparr>
      else parse_attach rest (r\<lparr>cr_name := word\<rparr>))"

definition parse_kill_session :: "bytes list \<Rightarrow> cli_request \<Rightarrow> cli_request" where
  "parse_kill_session words r =
     (case words of
       [] \<Rightarrow> r\<lparr>cr_problem := quoted (str ''kill-session'') @ str '' needs the session to act on''\<rparr>
     | [name] \<Rightarrow> r\<lparr>cr_name := name\<rparr>
     | _ \<Rightarrow> r\<lparr>cr_problem := quoted (str ''kill-session'') @ str '' takes one session, not several''\<rparr>)"

definition parse_cli :: "bytes list \<Rightarrow> cli_request" where
  "parse_cli arguments =
     (case arguments of
       [] \<Rightarrow> blank_request
     | word # rest \<Rightarrow>
         let r = blank_request\<lparr>cr_subcommand := word\<rparr>
         in if word = str ''ls'' \<or> word = str ''check-config'' then
              (if rest \<noteq> [] then r\<lparr>cr_problem := quoted word @ str '' takes no arguments'', cr_usage := str ''ckmux '' @ word\<rparr>
               else r)
            else if word = str ''new'' then
              parse_new rest (r\<lparr>cr_usage := str ''ckmux new [-s <name>] [command...]''\<rparr>)
            else if word = str ''attach'' then
              parse_attach rest (r\<lparr>cr_usage := str ''ckmux attach [--share] [--watch] [--adopt-size] <name|id>''\<rparr>)
            else if word = str ''kill-session'' then
              parse_kill_session rest (r\<lparr>cr_usage := str ''ckmux kill-session <name|id>''\<rparr>)
            else r\<lparr>cr_subcommand := []\<rparr>)"

section \<open>Which session is meant\<close>

text \<open>\<open>std::strtoull\<close> of digits: what does not fit is the largest number.\<close>

definition strtoull :: "bytes \<Rightarrow> u64" where
  "strtoull ds = word_of_nat (min (digits_value ds) (2 ^ 64 - 1))"

text \<open>Whether the name is ambiguous, and the id it stands for: a name first, then a number as an id.\<close>

definition resolve_session :: "session_info list \<Rightarrow> bytes \<Rightarrow> bool \<times> u64" where
  "resolve_session sessions what =
     (case filter (\<lambda>info. si_name info = what) sessions of
       [info] \<Rightarrow> (False, si_id info)
     | info # _ \<Rightarrow> (True, 0)
     | [] \<Rightarrow>
         if what \<noteq> [] \<and> list_all is_digit what
         then (False, case find (\<lambda>info. si_id info = strtoull what) sessions of Some info \<Rightarrow> si_id info | None \<Rightarrow> 0)
         else (False, 0))"

section \<open>Conversations\<close>

record run_result =
  rr_code :: int
  rr_out :: bytes
  rr_err :: bytes
  rr_said :: "message list"

definition ended :: "int \<Rightarrow> bytes \<Rightarrow> bytes \<Rightarrow> message list \<Rightarrow> run_result" where
  "ended code out err said = \<lparr>rr_code = code, rr_out = out, rr_err = err, rr_said = said\<rparr>"

definition complaint :: "bytes \<Rightarrow> bytes" where
  "complaint what = str ''ckmux: '' @ what @ [10]"

text \<open>A server that is already there, or what was complained of. Whatever but a refusal answers the handshake will do.\<close>

definition connect_without_starting ::
    "ckvision \<Rightarrow> bytes \<Rightarrow> bytes \<Rightarrow> attempt \<Rightarrow> wait_outcome list \<Rightarrow> (bytes \<times> message list) + link" where
  "connect_without_starting lib build path attempt waits =
     (case attempt of
       No_Server _ \<Rightarrow> Inl (complaint (str ''no server is running at '' @ path), [])
     | Server_Busy problem \<Rightarrow> Inl (complaint problem, [])
     | Server_Denied problem \<Rightarrow> Inl (complaint problem, [])
     | Server_Unusable problem \<Rightarrow> Inl (complaint problem, [])
     | Connects s \<Rightarrow>
         (case await_message lib (link_flush (link_send (hello_of build Cli) (link_over s waits))) of
           (None, l) \<Rightarrow> Inl (complaint (str ''the server did not answer the handshake''), lk_said l)
         | (Some (Refuse reason), l) \<Rightarrow> Inl (complaint reason, lk_said l)
         | (Some _, l) \<Rightarrow> Inr l))"

definition ask_for_sessions :: "ckvision \<Rightarrow> link \<Rightarrow> (bytes \<times> message list) + (session_info list \<times> link)" where
  "ask_for_sessions lib l =
     (case await_message lib (link_flush (link_send ListSessions l)) of
       (None, l) \<Rightarrow> Inl (complaint (str ''the server did not answer''), lk_said l)
     | (Some (SessionList sessions), l) \<Rightarrow> Inr (sessions, l)
     | (Some _, l) \<Rightarrow> Inl (complaint (str ''the server answered something other than a session list''), lk_said l))"

definition session_line :: "session_info \<Rightarrow> bytes" where
  "session_line info =
     si_name info @ str '': '' @ decimal (unat (si_terminals info)) @ str '' terminal'' @ (if si_terminals info = 1 then [] else str ''s'')
     @ (if si_attached info \<noteq> 0 then str '', attached'' else []) @ str '' (id '' @ decimal (unat (si_id info)) @ str '')'' @ [10]"

definition run_ls :: "ckvision \<Rightarrow> bytes \<Rightarrow> bytes \<Rightarrow> attempt \<Rightarrow> wait_outcome list \<Rightarrow> run_result" where
  "run_ls lib build path attempt waits =
     (case connect_without_starting lib build path attempt waits of
       Inl (err, said) \<Rightarrow> ended 1 [] err said
     | Inr l \<Rightarrow>
         (case ask_for_sessions lib l of
           Inl (err, said) \<Rightarrow> ended 1 [] err said
         | Inr (sessions, l) \<Rightarrow>
             ended 0 (if sessions = [] then str ''no sessions'' @ [10] else concat (map session_line sessions)) [] (lk_said l)))"

text \<open>The first of the sessions with the highest id.\<close>

fun newest :: "session_info \<Rightarrow> session_info list \<Rightarrow> session_info" where
  "newest best [] = best"
| "newest best (info # rest) = newest (if si_id info > si_id best then info else best) rest"

definition run_new ::
    "ckvision \<Rightarrow> server_connection \<Rightarrow> wait_outcome list \<Rightarrow> cli_request \<Rightarrow> run_result" where
  "run_new lib connection waits request =
     (case sc_stream connection of
       None \<Rightarrow> ended 1 [] (complaint (sc_problem connection)) (sc_said connection)
     | Some s \<Rightarrow>
         (case await_message lib (link_flush (link_send (NewSession
                 \<lparr>ns_name = cr_name request, ns_spawn_first = 1, ns_command = cr_command request\<rparr>) (link_over s waits))) of
           (None, l) \<Rightarrow> ended 1 [] (complaint (str ''the server did not confirm the new session'')) (sc_said connection @ lk_said l)
         | (Some (Error e), l) \<Rightarrow> ended 1 [] (complaint (err_human e)) (sc_said connection @ lk_said l)
         | (Some (SessionList (info # rest)), l) \<Rightarrow>
             ended 0 (si_name (newest info (info # rest)) @ [10]) [] (sc_said connection @ lk_said l)
         | (Some _, l) \<Rightarrow> ended 1 [] (complaint (str ''the server did not confirm the new session'')) (sc_said connection @ lk_said l)))"

text \<open>What a target that is none is told.\<close>

definition target_problem :: "bool \<Rightarrow> bytes \<Rightarrow> bytes" where
  "target_problem ambiguous name =
     (if ambiguous then
        complaint (str ''more than one session is called '' @ 34 # name @ 34 # str ''; name it by id instead ('' @ quoted (str ''ckmux ls'') @ str '' prints them)'')
      else complaint (str ''no session called '' @ 34 # name @ [34]))"

text \<open>Lists are waited for until the session is in none of them. Each turn spends a message; \<open>turns\<close> is as many as
  can come.\<close>

fun await_removal :: "ckvision \<Rightarrow> u64 \<Rightarrow> nat \<Rightarrow> link \<Rightarrow> run_result option" where
  "await_removal lib target 0 l = None"
| "await_removal lib target (Suc turns) l =
     (case await_message lib l of
       (None, l) \<Rightarrow> Some (ended 1 [] (complaint (str ''the server did not confirm the kill'')) (lk_said l))
     | (Some (Error e), l) \<Rightarrow> Some (ended 1 [] (complaint (err_human e)) (lk_said l))
     | (Some (SessionList sessions), l) \<Rightarrow>
         if list_ex (\<lambda>info. si_id info = target) sessions then await_removal lib target turns l
         else Some (ended 0 [] [] (lk_said l))
     | (Some _, l) \<Rightarrow> await_removal lib target turns l)"

definition coming_bytes :: "stream \<Rightarrow> nat" where
  "coming_bytes s = (\<Sum>a\<leftarrow>sk_incoming s. case a of Read_Bytes bs \<Rightarrow> length bs | _ \<Rightarrow> 0)"

definition link_turns :: "link \<Rightarrow> nat" where
  "link_turns l = length (fr_pending (lk_reader l)) + coming_bytes (lk_stream l)"

definition run_kill_session :: "ckvision \<Rightarrow> bytes \<Rightarrow> bytes \<Rightarrow> attempt \<Rightarrow> wait_outcome list \<Rightarrow> cli_request \<Rightarrow> run_result option" where
  "run_kill_session lib build path attempt waits request =
     (case connect_without_starting lib build path attempt waits of
       Inl (err, said) \<Rightarrow> Some (ended 1 [] err said)
     | Inr l \<Rightarrow>
         (case ask_for_sessions lib l of
           Inl (err, said) \<Rightarrow> Some (ended 1 [] err said)
         | Inr (sessions, l) \<Rightarrow>
             (case resolve_session sessions (cr_name request) of
               (ambiguous, target) \<Rightarrow>
                 if ambiguous \<or> target = 0 then Some (ended 1 [] (target_problem ambiguous (cr_name request)) (lk_said l))
                 else
                   let l = link_flush (link_send (KillSession \<lparr>ks_session = target, ks_force = 1, ks_grace_seconds = 5\<rparr>) l)
                   in await_removal lib target (Suc (link_turns l)) l)))"

text \<open>The session to attach to, 0 for none, and what was complained of.\<close>

definition resolve_attach_target :: "ckvision \<Rightarrow> bytes \<Rightarrow> bytes \<Rightarrow> attempt \<Rightarrow> wait_outcome list \<Rightarrow> cli_request \<Rightarrow> u64 \<times> bytes" where
  "resolve_attach_target lib build path attempt waits request =
     (case connect_without_starting lib build path attempt waits of
       Inl (err, _) \<Rightarrow> (0, err)
     | Inr l \<Rightarrow>
         (case ask_for_sessions lib l of
           Inl (err, _) \<Rightarrow> (0, err)
         | Inr (sessions, _) \<Rightarrow>
             (case resolve_session sessions (cr_name request) of
               (ambiguous, target) \<Rightarrow>
                 if ambiguous then (0, target_problem True (cr_name request))
                 else (target, if target = 0 then target_problem False (cr_name request) else []))))"

definition keys_not_honoured_yet :: "bytes list" where
  "keys_not_honoured_yet = map (\<lambda>key. str ''[printer] '' @ str key @ str '' (PRINT-1'' @ [0xE2, 0x80, 0xA6] @ str ''6)'')
     [''ask-cache'', ''save-format'', ''save-folder'', ''save-ask-name'']"

definition run_check_config :: "'k key_names \<Rightarrow> bytes \<Rightarrow> read_outcome \<Rightarrow> run_result" where
  "run_check_config names config outcome =
     (let warnings = snd (load_settings names config outcome);
          listed = (\<lambda>lines. concat (map (\<lambda>line. str ''  '' @ line @ [10]) lines))
      in ended (if warnings = [] then 0 else 1)
           (config @ [10] @ (if warnings = [] then str ''  no problems'' @ [10] else listed warnings)
            @ (if keys_not_honoured_yet = [] then []
               else 10 # str ''Read, but not yet honoured by any landed package:'' @ [10] @ listed keys_not_honoured_yet))
           [] [])"

text \<open>\<open>kill-server\<close> asks a server of any version; what it answers last is waited for and ignored.\<close>

definition kill_server :: "ckvision \<Rightarrow> bytes \<Rightarrow> bytes \<Rightarrow> attempt \<Rightarrow> wait_outcome list \<Rightarrow> run_result" where
  "kill_server lib build path attempt waits =
     (case attempt of
       No_Server _ \<Rightarrow> ended 1 [] (complaint (str ''no server is running at '' @ path)) []
     | Server_Busy problem \<Rightarrow> ended 1 [] (complaint problem) []
     | Server_Denied problem \<Rightarrow> ended 1 [] (complaint problem) []
     | Server_Unusable problem \<Rightarrow> ended 1 [] (complaint problem) []
     | Connects s \<Rightarrow>
         (case await_message lib (link_send (hello_of build Cli) (link_over s waits)) of
           (None, l) \<Rightarrow> ended 1 [] (complaint (str ''the server did not answer the handshake'')) (lk_said l)
         | (Some answer, l) \<Rightarrow>
             let l = snd (await_message lib (link_flush (link_send KillServer l)))
             in ended 0 [] (case answer of Refuse reason \<Rightarrow> complaint reason | _ \<Rightarrow> []) (lk_said l)))"

section \<open>The command line\<close>

text \<open>What is to be done about the words after the program's name.\<close>

datatype entry =
    Print_Appendix bool
  | Serve "bytes option" bool
  | Kill_The_Server
  | Print_Help
  | Print_Version
  | Give_Up bytes
  | Run_Subcommand cli_request
  | Attach_To cli_request attach_mode bool
  | Start_Client

definition run_entry :: "bytes list \<Rightarrow> entry" where
  "run_entry words =
     (case words of
       [] \<Rightarrow> Start_Client
     | word # rest \<Rightarrow>
         if words = [str ''--internal-key-appendix=markdown''] then Print_Appendix True
         else if words = [str ''--internal-key-appendix=roff''] then Print_Appendix False
         else if word = str ''--server'' then
           Serve (case rest of [] \<Rightarrow> None | path # _ \<Rightarrow> Some path) (str ''--foreground'' \<in> set (drop 1 rest))
         else if word = str ''kill-server'' then Kill_The_Server
         else if word \<in> {str ''--help'', str ''-h'', str ''help''} then Print_Help
         else if word \<in> {str ''--version'', str ''-V''} then Print_Version
         else if is_cli_subcommand word then
           (let request = parse_cli words
            in if \<not> request_ok request
               then Give_Up (complaint (cr_problem request) @ str ''Usage: '' @ cr_usage request @ [10])
               else if cr_subcommand request = str ''attach''
               then Attach_To request (if cr_watch request then Watch else if cr_share request then Join else Take_Over)
                      (cr_adopt_size request)
               else Run_Subcommand request)
         else if word \<noteq> [] then
           Give_Up (complaint (quoted word @ str '' is not a subcommand this build has yet.'')
             @ quoted (str ''ckmux --help'') @ str '' lists what is.'' @ [10])
         else Start_Client)"

end
