(* ===== verification/Link_Facts.thy ===== *)
theory Link_Facts
  imports Command_Line
begin

text \<open>
  Facts of one connection: writing leaves what is to be read alone, every message that is heard uses up bytes, and
  messages sent over any chunking of the stream are heard one by one, in order.
\<close>

section \<open>Writing and reading apart\<close>

lemma write_loop_reading: "sk_incoming (snd (write_loop as s)) = sk_incoming s \<and> sk_open (snd (write_loop as s)) = sk_open s"
  by (induction as s rule: write_loop.induct) (auto simp: wrote_def Let_def split: write_answer.split)

lemma stream_flush_reading [simp]:
  "sk_incoming (snd (stream_flush s)) = sk_incoming s" "sk_open (snd (stream_flush s)) = sk_open s"
proof -
  obtain ok t where w: "write_loop (sk_answers s) s = (ok, t)" by force
  with write_loop_reading [of "sk_answers s" s] have "sk_incoming t = sk_incoming s" "sk_open t = sk_open s" by simp_all
  then show "sk_incoming (snd (stream_flush s)) = sk_incoming s" "sk_open (snd (stream_flush s)) = sk_open s"
    by (auto simp: stream_flush_def w reclaim_def split: bool.split)
qed

lemma stream_send_reading [simp]:
  "sk_incoming (snd (stream_send bs s)) = sk_incoming s" "sk_open (snd (stream_send bs s)) = sk_open s"
proof -
  obtain ok t where f: "stream_flush (s\<lparr>sk_pending := sk_pending s @ bs\<rparr>) = (ok, t)" by force
  with stream_flush_reading [of "s\<lparr>sk_pending := sk_pending s @ bs\<rparr>"]
  have "sk_incoming t = sk_incoming s" "sk_open t = sk_open s" by simp_all
  then show "sk_incoming (snd (stream_send bs s)) = sk_incoming s" "sk_open (snd (stream_send bs s)) = sk_open s"
    by (auto simp: stream_send_def f split: bool.split)
qed

section \<open>Hearing uses up bytes\<close>

definition coming :: "read_answer list \<Rightarrow> nat" where
  "coming as = (\<Sum>a\<leftarrow>as. case a of Read_Bytes bs \<Rightarrow> length bs | _ \<Rightarrow> 0)"

lemma coming_simps [simp]:
  "coming [] = 0" "coming (Read_Bytes bs # as) = length bs + coming as" "coming (Read_Closed # as) = coming as"
  "coming (Read_Interrupted # as) = coming as" "coming (Read_Blocks # as) = coming as" "coming (Read_Error # as) = coming as"
  by (simp_all add: coming_def)

lemma coming_bytes_alt: "coming_bytes s = coming (sk_incoming s)"
  by (simp add: coming_bytes_def coming_def)

lemma read_loop_spends: "read_loop budget as into = (bs, alive, rest) \<Longrightarrow> length bs + coming rest \<le> length into + coming as"
proof (induction budget as into arbitrary: bs alive rest rule: read_loop.induct)
  case (2 budget a as into)
  have cut: "n \<le> length got \<Longrightarrow>
      length (into @ take n got) + coming (if n < length got then Read_Bytes (drop n got) # as else as)
        = length into + coming (Read_Bytes got # as)" for n got
    by (simp add: min_def)
  show ?case
  proof (cases "budget = 0")
    case True
    then show ?thesis using 2(3) by auto
  next
    case False
    show ?thesis
    proof (cases a)
      case (Read_Bytes got)
      let ?n = "min (length got) (min budget (64 * 1024))"
      show ?thesis
      proof (cases "?n = 0")
        case True
        then show ?thesis using 2(3) False Read_Bytes by (auto simp: Let_def)
      next
        case some: False
        let ?left = "if ?n < length got then Read_Bytes (drop ?n got) # as else as"
        have "read_loop (budget - ?n) ?left (into @ take ?n got) = (bs, alive, rest)"
          using 2(3) unfolding Read_Bytes
          by (simp only: read_loop.simps if_not_P [OF False] read_answer.case Let_def if_not_P [OF some])
        from 2(1) [OF False Read_Bytes refl some this]
        have "length bs + coming rest \<le> length (into @ take ?n got) + coming ?left" .
        also have "\<dots> = length into + coming (a # as)" unfolding Read_Bytes by (rule cut) simp
        finally show ?thesis .
      qed
    next
      case Read_Interrupted
      then show ?thesis using 2(2) [OF False Read_Interrupted] 2(3) False by simp
    next
      case Read_Closed
      then show ?thesis using 2(3) False by auto
    next
      case Read_Blocks
      then show ?thesis using 2(3) False by auto
    next
      case Read_Error
      then show ?thesis using 2(3) False by auto
    qed
  qed
qed simp

lemma receive_spends:
  "stream_receive s = (bs, alive, t) \<Longrightarrow> length bs + coming (sk_incoming t) \<le> coming (sk_incoming s) \<and> (sk_open s \<longrightarrow> sk_open t)"
  using read_loop_spends [of "1024 * 1024" "sk_incoming s" "[]"]
  by (fastforce simp: stream_receive_def split: if_splits prod.splits)

lemma fr_append_buffered: "fr_append bs fr = (ok, fr') \<Longrightarrow> fr_buffered fr' \<le> fr_buffered fr + length bs"
  by (auto simp: fr_append_cases fr_buffered_pending fr_compact_pending split: if_splits) (simp add: fr_pending_def)

lemma fr_next_buffered: "fr_next lib fr m0 = (e, fr', m) \<Longrightarrow> fr_buffered fr' \<le> fr_buffered fr"
  by (cases "e = No_Error") (auto dest: fr_next_shrinks, auto simp: fr_next_def Let_def split: prod.splits if_splits)

lemma await_spends:
  "await_in lib waits reader s = (m, waits', reader', s') \<Longrightarrow>
     fr_buffered reader' + coming (sk_incoming s') + (if m = None then 0 else 1) \<le> fr_buffered reader + coming (sk_incoming s)"
proof (induction waits arbitrary: reader s)
  case Nil
  obtain e r1 m1 where n: "fr_next lib reader default_message = (e, r1, m1)" by (metis prod_cases3)
  have "e = No_Error \<Longrightarrow> fr_buffered r1 < fr_buffered reader" using fr_next_shrinks n by metis
  then show ?case using Nil n fr_next_buffered [OF n]
    by (subst (asm) await_in.simps) (auto simp: Let_def split: if_splits)
next
  case (Cons w rest)
  obtain e r1 m1 where n: "fr_next lib reader default_message = (e, r1, m1)" by (metis prod_cases3)
  note less = fr_next_buffered [OF n]
  have shrinks: "e = No_Error \<Longrightarrow> fr_buffered r1 < fr_buffered reader" using fr_next_shrinks n by metis
  show ?case
  proof (cases "e = No_Error \<or> e \<noteq> Incomplete \<or> \<not> sk_open s")
    case True
    then show ?thesis using Cons.prems n less shrinks
      by (subst (asm) await_in.simps) (auto simp: Let_def split: if_splits)
  next
    case wait: False
    show ?thesis
    proof (cases w)
      case Wait_Failed
      then show ?thesis using Cons.prems n wait less by (subst (asm) await_in.simps) (auto simp: Let_def)
    next
      case Wait_Interrupted
      have "await_in lib rest r1 (snd (stream_flush s)) = (m, waits', reader', s')"
        using Cons.prems n wait Wait_Interrupted by (subst (asm) await_in.simps) (auto simp: Let_def)
      from Cons.IH [OF this] less show ?thesis by simp
    next
      case Wait_Ready
      let ?s = "snd (stream_flush (snd (stream_flush s)))"
      obtain bs alive t where r: "stream_receive ?s = (bs, alive, t)" by (metis prod_cases3)
      obtain fits r2 where a: "(if bs = [] then (True, r1) else fr_append bs r1) = (fits, r2)" by force
      have b: "fr_buffered r2 \<le> fr_buffered r1 + length bs" using a fr_append_buffered [of bs r1] by (auto split: if_splits)
      have c: "length bs + coming (sk_incoming t) \<le> coming (sk_incoming s)" using receive_spends [OF r] by simp
      have step: "await_in lib (w # rest) reader s =
          (if \<not> fits \<or> \<not> alive \<and> bs = [] then (None, rest, r2, t) else await_in lib rest r2 t)"
        using n wait Wait_Ready r a by (subst await_in.simps) (simp add: Let_def)
      show ?thesis
      proof (cases "\<not> fits \<or> \<not> alive \<and> bs = []")
        case True
        then show ?thesis using Cons.prems step b c less by auto
      next
        case False
        have "await_in lib rest r2 t = (m, waits', reader', s')" using Cons.prems unfolding step by (simp only: if_not_P [OF False])
        from Cons.IH [OF this] b c less show ?thesis by simp
      qed
    qed
  qed
qed

text \<open>A kill that has been asked for comes to an end.\<close>

lemma await_link_spends:
  "await_message lib l = (m, l') \<Longrightarrow>
     fr_buffered (lk_reader l') + coming (sk_incoming (lk_stream l')) + (if m = None then 0 else 1)
       \<le> fr_buffered (lk_reader l) + coming (sk_incoming (lk_stream l)) \<and> lk_said l' = lk_said l"
  by (auto simp: await_message_def dest!: await_spends split: prod.splits)

lemma link_turns_alt: "link_turns l = fr_buffered (lk_reader l) + coming (sk_incoming (lk_stream l))"
  by (simp add: link_turns_def fr_buffered_pending coming_bytes_alt)

lemma await_removal_ends:
  "link_turns l < turns \<Longrightarrow>
     \<exists>r. await_removal lib target turns l = Some r \<and> rr_said r = lk_said l \<and> (rr_code r = 0 \<or> rr_code r = 1)"
proof (induction turns arbitrary: l)
  case (Suc turns)
  obtain m l' where a: "await_message lib l = (m, l')" by force
  note spends = await_link_spends [OF a]
  show ?case
  proof (cases m)
    case None
    then show ?thesis using a spends by (simp add: ended_def)
  next
    case (Some answer)
    then have less: "link_turns l' < turns" and said: "lk_said l' = lk_said l"
      using spends Suc.prems by (simp_all add: link_turns_alt)
    from Suc.IH [OF less] said a Some show ?thesis
      by (cases answer) (simp_all add: ended_def)
  qed
qed simp

text \<open>So many messages one after the other.\<close>

fun hear :: "ckvision \<Rightarrow> nat \<Rightarrow> link \<Rightarrow> message option list \<times> link" where
  "hear lib 0 l = ([], l)"
| "hear lib (Suc n) l = (case await_message lib l of (m, l) \<Rightarrow> case hear lib n l of (ms, l) \<Rightarrow> (m # ms, l))"

lemma hear_Suc: "await_message lib l = (m, l') \<Longrightarrow> fst (hear lib (Suc n) l) = m # fst (hear lib n l')"
  by (simp add: case_prod_unfold)

text \<open>It reports success only on a list without the session, the last message it hears.\<close>

lemma await_removal_true:
  assumes "await_removal lib target turns l = Some r" and "rr_code r = 0"
  shows "\<exists>n gone. fst (hear lib (Suc n) l) ! n = Some (SessionList gone) \<and> target \<notin> si_id ` set gone"
  using assms
proof (induction turns arbitrary: l)
  case (Suc turns)
  obtain m l' where a: "await_message lib l = (m, l')" by force
  show ?case
  proof (cases m)
    case None
    then show ?thesis using Suc.prems a by (auto simp: ended_def)
  next
    case (Some answer)
    show ?thesis
    proof (cases "\<exists>sessions. answer = SessionList sessions \<and> target \<notin> si_id ` set sessions")
      case True
      then obtain sessions where "answer = SessionList sessions" "target \<notin> si_id ` set sessions" by blast
      then show ?thesis using hear_Suc [OF a, of 0] Some by (intro exI [of _ 0] exI [of _ sessions]) simp
    next
      case False
      then have "await_removal lib target turns l' = Some r"
        using Suc.prems a Some by (cases answer) (auto simp: ended_def list_ex_iff split: if_splits)
      from Suc.IH [OF this Suc.prems(2)] obtain n gone where
        n: "fst (hear lib (Suc n) l') ! n = Some (SessionList gone)" "target \<notin> si_id ` set gone" by blast
      then have "fst (hear lib (Suc (Suc n)) l) ! Suc n = Some (SessionList gone)"
        using hear_Suc [OF a, of "Suc n"] by (simp del: hear.simps)
      then show ?thesis using n(2) by blast
    qed
  qed
qed simp

section \<open>Names and ids\<close>

lemma resolve_by_name:
  assumes "distinct (map si_name sessions)" and "info \<in> set sessions"
  shows "resolve_session sessions (si_name info) = (False, si_id info)"
proof -
  have "filter (\<lambda>i. si_name i = si_name info) sessions = [info]"
    using assms
  proof (induction sessions)
    case (Cons x xs)
    have none: "filter (\<lambda>i. si_name i = si_name x) xs = []" if "si_name x \<notin> si_name ` set xs"
      using that by (metis (mono_tags, lifting) filter_False image_eqI)
    show ?case
    proof (cases "x = info")
      case True
      then show ?thesis using Cons.prems(1) none by simp
    next
      case False
      then have "info \<in> set xs" using Cons.prems(2) by simp
      moreover from this have "si_name x \<noteq> si_name info" using Cons.prems(1) by auto
      ultimately show ?thesis using Cons.IH Cons.prems(1) by simp
    qed
  qed simp
  then show ?thesis by (simp add: resolve_session_def)
qed

lemma strtoull_decimal: "n < 2 ^ 64 \<Longrightarrow> digits_value ds = n \<Longrightarrow> strtoull ds = word_of_nat n"
  by (simp add: strtoull_def min_def)

lemma resolve_by_id:
  assumes "distinct (map si_id sessions)" and "info \<in> set sessions"
    and "digits_value ds = unat (si_id info)" and "list_all is_digit ds" and "ds \<noteq> []" and "ds \<notin> si_name ` set sessions"
  shows "resolve_session sessions ds = (False, si_id info)"
proof -
  have num: "strtoull ds = si_id info" using strtoull_decimal [OF _ assms(3)] unsigned_less [of "si_id info"] by simp
  have "filter (\<lambda>i. si_name i = ds) sessions = []" using assms(6) by (auto simp: filter_empty_conv)
  moreover have "\<exists>i. find (\<lambda>i. si_id i = si_id info) sessions = Some i \<and> si_id i = si_id info"
    using assms(2) by (cases "find (\<lambda>i. si_id i = si_id info) sessions") (auto simp: find_None_iff find_Some_iff)
  ultimately show ?thesis using assms(4, 5) num by (auto simp: resolve_session_def)
qed

text \<open>What is resolved is a session that was listed, under the name or the number that was typed.\<close>

lemma resolved_is_listed:
  assumes "resolve_session sessions what = (ambiguous, target)" and "target \<noteq> 0"
  shows "\<not> ambiguous \<and> (\<exists>info \<in> set sessions. si_id info = target \<and>
     (si_name info = what \<or> what \<notin> si_name ` set sessions \<and> list_all is_digit what \<and> target = strtoull what))"
proof -
  let ?named = "filter (\<lambda>i. si_name i = what) sessions"
  consider (none) "?named = []" | (one) i where "?named = [i]" | (more) i j rest where "?named = i # j # rest"
    by (metis list.exhaust)
  then show ?thesis
  proof cases
    case none
    then have "what \<notin> si_name ` set sessions" by (auto simp: filter_empty_conv)
    with none assms show ?thesis
      by (auto simp: resolve_session_def find_Some_iff split: if_splits option.splits)
  next
    case one
    then have "i \<in> set ?named" by (simp only: list.set insertI1)
    then have "i \<in> set sessions" "si_name i = what" by simp_all
    with one assms show ?thesis by (auto simp: resolve_session_def)
  next
    case more
    with assms show ?thesis by (simp add: resolve_session_def)
  qed
qed

section \<open>Messages are heard in order\<close>

text \<open>A stream of frames as the kernel hands it over, chunk by chunk.\<close>

definition delivered :: "bytes list \<Rightarrow> read_answer list" where
  "delivered chunks = concat (map (\<lambda>c. [Read_Bytes c, Read_Blocks]) chunks)"

lemma delivered_simps [simp]:
  "delivered [] = []" "delivered (c # cs) = Read_Bytes c # Read_Blocks # delivered cs"
  by (simp_all add: delivered_def)

definition ready_waits :: "wait_outcome list \<Rightarrow> nat" where
  "ready_waits waits = length (filter (\<lambda>w. w = Wait_Ready) waits)"

text \<open>What is still to be heard: part of it in the reader, part of it on the way, and waits enough to fetch it.\<close>

definition to_hear :: "ckvision \<Rightarrow> message list \<Rightarrow> bytes list \<Rightarrow> read_answer list \<Rightarrow> wait_outcome list \<Rightarrow> frame_reader \<Rightarrow> stream \<Rightarrow> bool" where
  "to_hear lib ms chunks later waits reader s \<longleftrightarrow>
     list_all (sendable lib) ms \<and> fr_wf reader \<and> fr_pending reader @ concat chunks = concat (map frame_of ms) \<and>
     length (concat (map frame_of ms)) \<le> max_buffered \<and> sk_open s \<and> sk_incoming s = delivered chunks @ later \<and>
     (\<forall>c \<in> set chunks. c \<noteq> [] \<and> length c \<le> 64 * 1024) \<and> Wait_Failed \<notin> set waits \<and> length chunks \<le> ready_waits waits"

lemma receive_chunk:
  assumes "sk_open s" and "sk_incoming s = Read_Bytes c # Read_Blocks # rest" and "c \<noteq> []" and "length c \<le> 64 * 1024"
  shows "stream_receive s = (c, True, s\<lparr>sk_incoming := rest\<rparr>)"
proof -
  have n: "min (length c) (min (1024 * 1024) (64 * 1024)) = length c" using assms(4) by simp
  have "read_loop (1024 * 1024) (Read_Bytes c # Read_Blocks # rest) [] = read_loop (1024 * 1024 - length c) (Read_Blocks # rest) c"
    using assms(3) by (simp only: read_loop.simps read_answer.case Let_def n) simp
  also have "\<dots> = (c, True, rest)" using assms(4) by simp
  finally show ?thesis using assms by (simp add: stream_receive_def)
qed

lemma next_frame:
  assumes "sendable lib m" and "fr_wf reader" and "fr_pending reader = frame_of m @ rest"
  shows "\<exists>reader'. fr_next lib reader default_message = (No_Error, reader', m) \<and> fr_wf reader' \<and> fr_pending reader' = rest"
proof -
  obtain e reader' m' where n: "fr_next lib reader default_message = (e, reader', m')" by (metis prod_cases3)
  from fr_next_pending [OF n assms(2)] decode_frame [OF assms(1), of rest default_message] assms(3) n show ?thesis by auto
qed

lemma next_waits:
  assumes "sendable lib m" and "fr_wf reader" and "frame_of m = fr_pending reader @ b" and "b \<noteq> []"
  shows "\<exists>reader'. fr_next lib reader default_message = (Incomplete, reader', default_message) \<and> fr_wf reader' \<and>
     fr_pending reader' = fr_pending reader"
proof -
  obtain e reader' m' where n: "fr_next lib reader default_message = (e, reader', m')" by (metis prod_cases3)
  from fr_next_pending [OF n assms(2)] decode_part [OF assms(1, 3, 4), of default_message] n show ?thesis by auto
qed

lemma await_hears:
  "to_hear lib (m # ms) chunks later waits reader s \<Longrightarrow>
     \<exists>waits' chunks' reader' s'. await_in lib waits reader s = (Some m, waits', reader', s') \<and>
       to_hear lib ms chunks' later waits' reader' s'"
proof (induction waits arbitrary: chunks reader s)
  case Nil
  then have none: "chunks = []" and pending: "fr_pending reader = frame_of m @ concat (map frame_of ms)"
    by (auto simp: to_hear_def ready_waits_def)
  from next_frame [OF _ _ pending, of lib] Nil obtain reader' where
    "fr_next lib reader default_message = (No_Error, reader', m)" "fr_wf reader'" "fr_pending reader' = concat (map frame_of ms)"
    by (auto simp: to_hear_def)
  then have "await_in lib [] reader s = (Some m, [], reader', s) \<and> to_hear lib ms [] later [] reader' s"
    using Nil none by (subst await_in.simps) (auto simp: to_hear_def ready_waits_def)
  then show ?case by blast
next
  case (Cons w rest)
  have sends: "sendable lib m" and wf: "fr_wf reader" and all: "fr_pending reader @ concat chunks = frame_of m @ concat (map frame_of ms)"
    using Cons.prems by (auto simp: to_hear_def)
  show ?case
  proof (cases "length (frame_of m) \<le> length (fr_pending reader)")
    case True
    then obtain more where more: "fr_pending reader = frame_of m @ more"
      using all by (metis append_eq_append_conv_if append_take_drop_id)
    from next_frame [OF sends wf more] obtain reader' where
      r: "fr_next lib reader default_message = (No_Error, reader', m)" "fr_wf reader'" "fr_pending reader' = more" by blast
    then have "await_in lib (w # rest) reader s = (Some m, w # rest, reader', s)" by (subst await_in.simps) simp
    moreover have "to_hear lib ms chunks later (w # rest) reader' s" using Cons.prems r all more by (auto simp: to_hear_def)
    ultimately show ?thesis by blast
  next
    case False
    then have "\<exists>b. frame_of m = fr_pending reader @ b" using all unfolding append_eq_append_conv2 by (elim exE disjE conjE) (simp, metis)
    then obtain b where b: "frame_of m = fr_pending reader @ b" "b \<noteq> []" using False by (metis append_Nil2 order_refl)
    from next_waits [OF sends wf b] obtain r1 where
      r1: "fr_next lib reader default_message = (Incomplete, r1, default_message)" "fr_wf r1" "fr_pending r1 = fr_pending reader"
      by blast
    have on: "sk_open s" using Cons.prems by (simp add: to_hear_def)
    show ?thesis
    proof (cases w)
      case Wait_Failed
      then show ?thesis using Cons.prems by (simp add: to_hear_def)
    next
      case Wait_Interrupted
      have "to_hear lib (m # ms) chunks later rest r1 (snd (stream_flush s))"
        using Cons.prems r1 Wait_Interrupted by (auto simp: to_hear_def ready_waits_def)
      from Cons.IH [OF this] r1 on Wait_Interrupted show ?thesis by (subst await_in.simps) (simp add: Let_def)
    next
      case Wait_Ready
      obtain c cs where chunks: "chunks = c # cs" using all b by (cases chunks) auto
      let ?s = "snd (stream_flush (snd (stream_flush s)))"
      have got: "stream_receive ?s = (c, True, ?s\<lparr>sk_incoming := delivered cs @ later\<rparr>)"
        using Cons.prems chunks by (intro receive_chunk) (simp_all add: to_hear_def)
      have fits: "length (fr_pending r1) + length c \<le> max_buffered"
      proof -
        have "length (fr_pending reader @ concat chunks) \<le> max_buffered" using Cons.prems by (simp add: to_hear_def)
        then show ?thesis using r1(3) chunks by simp
      qed
      obtain r2 where r2: "fr_append c r1 = (True, r2)" using fits by (simp add: fr_append_cases)
      have "to_hear lib (m # ms) cs later rest r2 (?s\<lparr>sk_incoming := delivered cs @ later\<rparr>)"
        using Cons.prems r1 chunks Wait_Ready fr_append_pending [OF r2] fr_append_wf [OF r1(2) r2]
        by (auto simp: to_hear_def ready_waits_def)
      from Cons.IH [OF this] r1 on Wait_Ready got r2 Cons.prems chunks show ?thesis
        by (subst await_in.simps) (simp add: Let_def to_hear_def)
    qed
  qed
qed

lemma hear_all:
  "to_hear lib ms chunks later (lk_waits l) (lk_reader l) (lk_stream l) \<Longrightarrow> fst (hear lib (length ms) l) = map Some ms"
proof (induction ms arbitrary: chunks l)
  case (Cons m ms)
  from await_hears [OF Cons.prems] obtain waits' chunks' reader' s' where
    a: "await_in lib (lk_waits l) (lk_reader l) (lk_stream l) = (Some m, waits', reader', s')"
    and rest: "to_hear lib ms chunks' later waits' reader' s'" by blast
  have "fst (hear lib (length ms) (l\<lparr>lk_waits := waits', lk_reader := reader', lk_stream := s'\<rparr>)) = map Some ms"
    by (rule Cons.IH [of chunks']) (simp add: rest)
  then show ?case by (simp add: await_message_def a case_prod_unfold)
qed simp

section \<open>What comes with the answer to the handshake\<close>

lemma send_written:
  assumes "sk_open s" "\<not> sk_failed s" "sk_pending s = []" "sk_sent s = 0" "sk_answers s = Wrote n # as" "length bs \<le> n" "bs \<noteq> []"
  shows "\<not> wants_write (snd (stream_send bs s)) \<and> sk_incoming (snd (stream_send bs s)) = sk_incoming s \<and> sk_open (snd (stream_send bs s))"
proof -
  have "write_loop (sk_answers s) (s\<lparr>sk_pending := bs\<rparr>) = write_loop as (wrote (length bs) (s\<lparr>sk_pending := bs\<rparr>))"
    using assms by (simp add: Let_def min_def)
  also have "fst \<dots> \<and> sk_sent (snd \<dots>) = length bs \<and> sk_pending (snd \<dots>) = bs"
    using assms by (cases as) (simp_all add: wrote_def)
  finally have w: "fst (write_loop (sk_answers s) (s\<lparr>sk_pending := bs\<rparr>)) \<and>
      sk_sent (snd (write_loop (sk_answers s) (s\<lparr>sk_pending := bs\<rparr>))) = length bs \<and>
      sk_pending (snd (write_loop (sk_answers s) (s\<lparr>sk_pending := bs\<rparr>))) = bs" .
  obtain t where t: "write_loop (sk_answers s) (s\<lparr>sk_pending := bs\<rparr>) = (True, t)" "sk_sent t = length bs" "sk_pending t = bs"
    using w by (cases "write_loop (sk_answers s) (s\<lparr>sk_pending := bs\<rparr>)") auto
  have "stream_flush (s\<lparr>sk_pending := bs\<rparr>) = (True, t\<lparr>sk_pending := [], sk_sent := 0\<rparr>)"
    using assms t by (simp add: stream_flush_def reclaim_def)
  then have "snd (stream_send bs s) = t\<lparr>sk_pending := [], sk_sent := 0\<rparr>" using assms by (simp add: stream_send_def)
  then show ?thesis using assms(1) stream_send_reading [of bs s] by (simp add: wants_write_def queued_def)
qed

lemma handshake_drops:
  assumes "sendable lib (HelloAck ack)" and "length (frame_of (HelloAck ack) @ extra) \<le> 64 * 1024"
    and "sk_open s" "\<not> sk_failed s" "sk_pending s = []" "sk_sent s = 0" "sk_answers s = Wrote n # as"
    and "length (frame_of (hello_of build kind)) \<le> n" "frame_of (hello_of build kind) \<noteq> []"
    and "sk_incoming s = Read_Bytes (frame_of (HelloAck ack) @ extra) # Read_Blocks # later"
  shows "sc_status (handshake lib build path kind (Wait_Ready # waits) s) = Connected \<and>
     map_option sk_incoming (sc_stream (handshake lib build path kind (Wait_Ready # waits) s)) = Some later"
proof -
  let ?c = "frame_of (HelloAck ack) @ extra"
  let ?t = "snd (stream_send (frame_of (hello_of build kind)) s)"
  have t: "\<not> wants_write ?t" "sk_incoming ?t = Read_Bytes ?c # Read_Blocks # later" "sk_open ?t"
    using send_written [OF assms(3-9)] assms(10) by simp_all
  let ?u = "snd (stream_flush (snd (stream_flush ?t)))"
  have got: "stream_receive ?u = (?c, True, ?u\<lparr>sk_incoming := later\<rparr>)"
    using t assms(2) frame_of_not_Nil [OF assms(1)] by (intro receive_chunk) simp_all
  have quiet: "fst (fr_next lib fr_new default_message) = Incomplete"
    and empty: "fst (snd (fr_next lib fr_new default_message)) = fr_new"
    by (simp_all add: fr_next_def fr_new_def decode_short header_bytes_def)
  obtain m0 where n0: "fr_next lib fr_new default_message = (Incomplete, fr_new, m0)"
    using quiet empty by (metis prod.collapse)
  have "length ?c \<le> max_buffered"
    using assms(2) by (simp add: max_buffered_def max_snapshot_payload_bytes_def)
  then obtain r where r: "fr_append ?c fr_new = (True, r)" by (simp add: fr_append_cases fr_new_pending)
  have r': "fr_pending r = ?c" "fr_wf r" using fr_append_pending [OF r] fr_append_wf [OF fr_new_wf r] fr_new_pending by simp_all
  from next_frame [OF assms(1) r'(2) r'(1)] obtain r2 where n1: "fr_next lib r default_message = (No_Error, r2, HelloAck ack)" by blast
  have "await_in lib (Wait_Ready # waits) fr_new ?t = (Some (HelloAck ack), waits, r2, ?u\<lparr>sk_incoming := later\<rparr>)"
    using n0 t(3) got r n1 frame_of_not_Nil [OF assms(1)]
    by (subst await_in.simps) (simp add: Let_def, subst await_in.simps, simp)
  then have "await_message lib (link_send (hello_of build kind) (link_over s (Wait_Ready # waits))) =
      (Some (HelloAck ack), (link_send (hello_of build kind) (link_over s (Wait_Ready # waits)))
        \<lparr>lk_waits := waits, lk_reader := r2, lk_stream := ?u\<lparr>sk_incoming := later\<rparr>\<rparr>)"
    by (simp add: await_message_def link_send_def link_over_def frame_of_def)
  moreover have "flush_fully (link_send (hello_of build kind) (link_over s (Wait_Ready # waits))) =
      (True, link_send (hello_of build kind) (link_over s (Wait_Ready # waits)))"
    using t(1, 3) by (simp add: flush_fully_def flush_waiting.simps link_send_def link_over_def frame_of_def)
  ultimately show ?thesis by (simp add: handshake_def Let_def)
qed

section \<open>The words of an attach\<close>

definition attach_flags :: "bytes set" where
  "attach_flags = {str ''--share'', str ''--watch'', str ''--adopt-size''}"

definition plain_words :: "bytes list \<Rightarrow> bytes list" where
  "plain_words ws = filter (\<lambda>w. w \<notin> attach_flags) ws"

definition well_put :: "bytes list \<Rightarrow> bytes \<Rightarrow> bool" where
  "well_put ws name \<longleftrightarrow>
     (if name = [] then length (plain_words ws) = 1 else plain_words ws = []) \<and> (\<forall>w \<in> set (plain_words ws). take 2 w \<noteq> str ''--'')"

definition put_together :: "bytes list \<Rightarrow> cli_request \<Rightarrow> cli_request" where
  "put_together ws r =
     r\<lparr>cr_name := (if cr_name r = [] then hd (plain_words ws) else cr_name r),
       cr_share := (cr_share r \<or> str ''--share'' \<in> set ws \<or> str ''--watch'' \<in> set ws),
       cr_watch := (cr_watch r \<or> str ''--watch'' \<in> set ws), cr_adopt_size := (cr_adopt_size r \<or> str ''--adopt-size'' \<in> set ws)\<rparr>"

lemma quoted_simps [simp]: "quoted w \<noteq> []" "[] \<noteq> quoted w"
  by (simp_all add: quoted_def)

lemma flag_words:
  "plain_words (str ''--share'' # ws) = plain_words ws" "plain_words (str ''--watch'' # ws) = plain_words ws"
  "plain_words (str ''--adopt-size'' # ws) = plain_words ws" "w \<notin> attach_flags \<Longrightarrow> plain_words (w # ws) = w # plain_words ws"
  "plain_words [] = []"
  by (simp_all add: plain_words_def attach_flags_def)

lemma attach_parsed:
  assumes "[] \<notin> set ws" and "cr_problem r = []"
  shows "(cr_problem (parse_attach ws r) = [] \<longleftrightarrow> well_put ws (cr_name r)) \<and>
     (well_put ws (cr_name r) \<longrightarrow> parse_attach ws r = put_together ws r)"
  using assms
proof (induction ws arbitrary: r)
  case Nil
  then show ?case by (simp add: well_put_def flag_words put_together_def)
next
  case (Cons w ws)
  note IH = Cons.IH [rotated]
  consider (share) "w = str ''--share''" | (watch) "w = str ''--watch''" | (adopt) "w = str ''--adopt-size''" | (plain) "w \<notin> attach_flags"
    by (auto simp: attach_flags_def)
  then show ?case
  proof cases
    case share
    then show ?thesis using IH [of "r\<lparr>cr_share := True\<rparr>"] Cons.prems by (simp add: well_put_def flag_words put_together_def)
  next
    case watch
    then show ?thesis using IH [of "r\<lparr>cr_watch := True, cr_share := True\<rparr>"] Cons.prems
      by (simp add: well_put_def flag_words put_together_def)
  next
    case adopt
    then show ?thesis using IH [of "r\<lparr>cr_adopt_size := True\<rparr>"] Cons.prems by (simp add: well_put_def flag_words put_together_def)
  next
    case plain
    then have no: "w \<noteq> str ''--share''" "w \<noteq> str ''--watch''" "w \<noteq> str ''--adopt-size''" by (auto simp: attach_flags_def)
    have step: "parse_attach (w # ws) r =
       (if take 2 w = str ''--'' then r\<lparr>cr_problem := quoted (str ''attach'') @ str '' has no '' @ quoted w @ str '' flag''\<rparr>
        else if cr_name r \<noteq> [] then r\<lparr>cr_problem := quoted (str ''attach'') @ str '' takes one session, not several''\<rparr>
        else parse_attach ws (r\<lparr>cr_name := w\<rparr>))"
      using no by (simp del: str_eq)
    show ?thesis
    proof (cases "take 2 w = str ''--'' \<or> cr_name r \<noteq> []")
      case True
      then show ?thesis using plain step by (auto simp: well_put_def flag_words)
    next
      case False
      then have "parse_attach (w # ws) r = parse_attach ws (r\<lparr>cr_name := w\<rparr>)" using step by simp
      moreover have "well_put (w # ws) (cr_name r) \<longleftrightarrow> well_put ws w"
        using False plain Cons.prems(1) by (simp add: well_put_def flag_words) (auto simp: length_Suc_conv)
      moreover have "put_together (w # ws) r = put_together ws (r\<lparr>cr_name := w\<rparr>)"
        using False plain no Cons.prems(1) by (auto simp: put_together_def flag_words)
      ultimately show ?thesis using IH [of "r\<lparr>cr_name := w\<rparr>"] Cons.prems by simp
    qed
  qed
qed

section \<open>The newest session\<close>

lemma newest_keeps: "\<forall>i \<in> set infos. si_id i \<le> si_id best \<Longrightarrow> newest best infos = best"
  by (induction infos) (simp_all add: not_less [symmetric])

lemma newest_is_last: "\<forall>i \<in> set (best # infos). si_id i < si_id new \<Longrightarrow> newest best (infos @ [new]) = new"
  by (induction infos arbitrary: best) auto

end
