(* ===== verification/Properties_Command.thy ===== *)
theory Properties_Command
  imports Link_Facts Settings_Dialog Server_Facts Samples
begin

text \<open>
  What the shell may rely on: what \<open>ckmux ls\<close> prints can be typed again, a kill reports what has become of the session,
  \<open>ckmux new\<close> prints the session it made, and messages are heard in order however the stream is cut.
\<close>

section \<open>Names and numbers\<close>


text \<open>A session that is called like the number of another is the one that is meant.\<close>

definition listed :: "u64 \<Rightarrow> bytes \<Rightarrow> session_info" where
  "listed ident name = \<lparr>si_id = ident, si_name = name, si_terminals = 1, si_attached = 0, si_created = 0, si_last_attached = 0\<rparr>"


section \<open>Killing and making\<close>

text \<open>A server nobody has asked for anything.\<close>

definition young_one :: "bytes server" where
  "young_one = server_new default_settings [] 0"

definition kill_asked :: "u64 \<Rightarrow> message" where
  "kill_asked target = KillSession \<lparr>ks_session = target, ks_force = 1, ks_grace_seconds = 5\<rparr>"

text \<open>What is said before anything is killed: nothing, the greeting, or the greeting and the question for a list.\<close>

lemma said_connecting:
  "connect_without_starting lib build path attempt waits = Inl (err, said) \<Longrightarrow> said = [] \<or> said = [hello_of build Cli]"
  "connect_without_starting lib build path attempt waits = Inr l \<Longrightarrow> lk_said l = [hello_of build Cli]"
  by (auto simp: connect_without_starting_def link_send_def link_flush_def link_over_def await_message_def
      split: attempt.splits prod.splits option.splits message.splits)

lemma said_asking:
  "ask_for_sessions lib l = Inl (err, said) \<Longrightarrow> said = lk_said l @ [ListSessions]"
  "ask_for_sessions lib l = Inr (sessions, l') \<Longrightarrow> lk_said l' = lk_said l @ [ListSessions]"
  by (auto simp: ask_for_sessions_def link_send_def link_flush_def await_message_def
      split: prod.splits option.splits message.splits)

text \<open>C34. A kill is asked of one session at most, and reported as done only when it is. Before the server has said
  which sessions there are, nothing is asked; then at most the end of the one session the words stand for, and nothing
  where they stand for none or for several. Success is reported only on a list that session is missing from, which came in
  after it was asked for. That holds of whatever finite number of bytes the server sends, and the program ends with them
  (a server that keeps on sending it other things within its ten seconds each keeps it waiting).\<close>

theorem kill_tells_the_truth:
  "\<exists>r. run_kill_session lib build path attempt waits request = Some r \<and>
     (rr_code r = 1 \<and> (rr_said r = [] \<or> rr_said r = [hello_of build Cli] \<or> rr_said r = [hello_of build Cli, ListSessions]) \<or>
      (\<exists>l sessions l' target.
          connect_without_starting lib build path attempt waits = Inr l \<and> ask_for_sessions lib l = Inr (sessions, l') \<and>
          resolve_session sessions (cr_name request) = (False, target) \<and> target \<noteq> 0 \<and>
          rr_said r = [hello_of build Cli, ListSessions, kill_asked target] \<and>
          (rr_code r = 1 \<or>
           rr_code r = 0 \<and>
            (\<exists>n gone. fst (hear lib (Suc n) (link_flush (link_send (kill_asked target) l'))) ! n = Some (SessionList gone) \<and>
               target \<notin> si_id ` set gone))))"
proof (cases "connect_without_starting lib build path attempt waits")
  case (Inl failed)
  obtain err said where f: "failed = (err, said)" by force
  show ?thesis using Inl said_connecting(1) [OF Inl [unfolded f]] f by (auto simp: run_kill_session_def ended_def)
next
  case connected: (Inr l)
  note said = said_connecting(2) [OF connected]
  show ?thesis
  proof (cases "ask_for_sessions lib l")
    case (Inl failed)
    obtain err told where f: "failed = (err, told)" by force
    show ?thesis using connected said Inl said_asking(1) [OF Inl [unfolded f]] f by (simp add: run_kill_session_def ended_def)
  next
    case (Inr answer)
    then obtain sessions l' where asked: "ask_for_sessions lib l = Inr (sessions, l')" by (cases answer) auto
    have said': "lk_said l' = [hello_of build Cli, ListSessions]" using said_asking(2) [OF asked] said by simp
    obtain ambiguous target where t: "resolve_session sessions (cr_name request) = (ambiguous, target)" by force
    show ?thesis
    proof (cases "ambiguous \<or> target = 0")
      case True
      then show ?thesis using connected asked t said' by (simp add: run_kill_session_def ended_def)
    next
      case False
      let ?l = "link_flush (link_send (kill_asked target) l')"
      obtain r where r: "await_removal lib target (Suc (link_turns ?l)) ?l = Some r" "rr_said r = lk_said ?l" "rr_code r = 0 \<or> rr_code r = 1"
        using await_removal_ends [OF lessI, where l = ?l and lib = lib and target = target] by blast
      have "run_kill_session lib build path attempt waits request = Some r"
        using connected asked t False r(1) by (simp add: run_kill_session_def kill_asked_def Let_def)
      moreover have "rr_said r = [hello_of build Cli, ListSessions, kill_asked target]"
        using r(2) said' by (simp add: link_flush_def link_send_def)
      moreover have "rr_code r = 1 \<or> rr_code r = 0 \<and>
          (\<exists>n gone. fst (hear lib (Suc n) ?l) ! n = Some (SessionList gone) \<and> target \<notin> si_id ` set gone)"
        using r(3) await_removal_true [OF r(1)] by blast
      moreover have "resolve_session sessions (cr_name request) = (False, target)" "target \<noteq> 0" using t False by simp_all
      ultimately show ?thesis using connected asked by (intro exI [of _ r] conjI disjI2) (assumption | blast)+
    qed
  qed
qed

text \<open>A server that answers and does what it was asked.\<close>

lemma message_heard:
  assumes "to_hear lib (m # ms) chunks later (lk_waits l) (lk_reader l) (lk_stream l)"
  shows "\<exists>l' chunks'. await_message lib l = (Some m, l') \<and> to_hear lib ms chunks' later (lk_waits l') (lk_reader l') (lk_stream l')"
  using await_hears [OF assms] by (force simp: await_message_def)

lemma still_to_hear:
  "to_hear lib ms chunks later (lk_waits l) (lk_reader l) (lk_stream l) \<Longrightarrow>
     to_hear lib ms chunks later (lk_waits (link_flush (link_send m l))) (lk_reader (link_flush (link_send m l)))
       (lk_stream (link_flush (link_send m l)))"
  by (simp add: to_hear_def link_flush_def link_send_def)

lemma obeyed:
  assumes hear: "to_hear lib [HelloAck ack, SessionList sessions, SessionList gone] chunks later waits fr_new s"
    and "resolve_session sessions (cr_name request) = (False, target)" "target \<noteq> 0" "target \<notin> si_id ` set gone"
  shows "\<exists>r. run_kill_session lib build path (Connects s) waits request = Some r \<and> rr_code r = 0"
proof -
  let ?l = "link_flush (link_send (hello_of build Cli) (link_over s waits))"
  have "to_hear lib [HelloAck ack, SessionList sessions, SessionList gone] chunks later (lk_waits ?l) (lk_reader ?l) (lk_stream ?l)"
    by (rule still_to_hear) (use hear in \<open>simp add: link_over_def\<close>)
  from message_heard [OF this] obtain l cs where l: "await_message lib ?l = (Some (HelloAck ack), l)"
    "to_hear lib [SessionList sessions, SessionList gone] cs later (lk_waits l) (lk_reader l) (lk_stream l)" by blast
  from message_heard [OF still_to_hear [OF l(2)], of ListSessions] obtain l' cs' where
    l': "await_message lib (link_flush (link_send ListSessions l)) = (Some (SessionList sessions), l')"
      "to_hear lib [SessionList gone] cs' later (lk_waits l') (lk_reader l') (lk_stream l')" by blast
  from message_heard [OF still_to_hear [OF l'(2)], of "kill_asked target"] obtain l'' where
    "await_message lib (link_flush (link_send (kill_asked target) l')) = (Some (SessionList gone), l'')" by blast
  moreover have "\<not> list_ex (\<lambda>info. si_id info = target) gone" using assms(4) by (auto simp: list_ex_iff)
  ultimately show ?thesis
    using l(1) l'(1) assms(2, 3)
    by (simp add: run_kill_session_def connect_without_starting_def ask_for_sessions_def kill_asked_def ended_def Let_def)
qed

definition greeting :: message where
  "greeting = HelloAck \<lparr>hello_ack_proto_version = 4, hello_ack_build = []\<rparr>"

lemma lists_sendable:
  "sendable sample_library greeting" "sendable sample_library (SessionList [listed 3 (str ''work'')])" "sendable sample_library (SessionList [])"
  "length (frame_of greeting) = 14" "length (frame_of (SessionList [listed 3 (str ''work'')])) \<le> 100" "length (frame_of (SessionList [])) \<le> 100"
  by (simp_all add: greeting_def sendable_def frame_of_def encode_alt payload_of_def payload_cap_def max_payload_bytes_def emits
      w_hello_ack_def wf_hello_ack_def w_session_info_def wf_session_info_def listed_def str_def header_bytes_def)

definition obedient_stream :: stream where
  "obedient_stream = stream_new [] (delivered [frame_of greeting, frame_of (SessionList [listed 3 (str ''work'')]), frame_of (SessionList [])])"

lemma obedient_heard:
  "to_hear sample_library [greeting, SessionList [listed 3 (str ''work'')], SessionList []]
     [frame_of greeting, frame_of (SessionList [listed 3 (str ''work'')]), frame_of (SessionList [])] []
     [Wait_Ready, Wait_Ready, Wait_Ready] fr_new obedient_stream"
  using lists_sendable frame_of_not_Nil [of sample_library] fr_new_wf fr_new_pending
  by (simp add: to_hear_def obedient_stream_def stream_new_def ready_waits_def max_buffered_def header_bytes_def max_snapshot_payload_bytes_def)

lemma kill_tells_the_truth_witness:
  "\<exists>r. run_kill_session sample_library [] [] (Connects obedient_stream) [Wait_Ready, Wait_Ready, Wait_Ready]
       (blank_request\<lparr>cr_name := str ''work''\<rparr>) = Some r \<and> rr_code r = 0 \<and>
     (\<exists>target. rr_said r = [hello_of [] Cli, ListSessions, kill_asked target])"
proof -
  have "resolve_session [listed 3 (str ''work'')] (str ''work'') = (False, 3)" by (simp add: resolve_session_def listed_def)
  with obeyed [OF obedient_heard [unfolded greeting_def], of "blank_request\<lparr>cr_name := str ''work''\<rparr>" 3 "[]" "[]"]
    kill_tells_the_truth [of sample_library "[]" "[]" "Connects obedient_stream" "[Wait_Ready, Wait_Ready, Wait_Ready]"
      "blank_request\<lparr>cr_name := str ''work''\<rparr>"]
  show ?thesis by (auto simp: greeting_def)
qed

text \<open>C35. \<open>ckmux new\<close> prints the session it made. In every state a server can reach, the newest of the list it sends after
  making a session is that session, under the name that was asked for, or the one the server gave it.\<close>

theorem new_prints_what_it_made:
  assumes "server_reachable em s" and "create_session name s = (ident, s')"
    and "map (session_info_of s') (sv_sessions s') = info # rest"
  shows "si_id (newest info (info # rest)) = ident \<and>
     si_name (newest info (info # rest)) = (if name = [] then next_session_name s else name)"
proof -
  have ids: "below (sv_next_session s) (map se_id (sv_sessions s))"
    using server_reachable_sound [OF assms(1)] by (simp add: sound_but_def)
  define se where "se = \<lparr>se_id = sv_next_session s, se_name = (if name = [] then next_session_name s else name),
    se_terminals = [], se_last_focused = 0, se_desktop = no_extent, se_printer = no_override\<rparr>"
  have se: "ident = sv_next_session s" "se_id se = ident" "se_name se = (if name = [] then next_session_name s else name)"
    "sv_sessions s' = sv_sessions s @ [se]"
    using assms(2) by (auto simp: create_session_def se_def Let_def)
  let ?new = "session_info_of s' se"
  have all: "info # rest = map (session_info_of s') (sv_sessions s) @ [?new]" using assms(3) se(4) by simp
  have less: "\<forall>i \<in> set (map (session_info_of s') (sv_sessions s)). si_id i < si_id ?new"
    using ids se by (auto simp: below_def session_info_of_def)
  have "newest info (info # rest) = ?new"
  proof (cases "map (session_info_of s') (sv_sessions s)")
    case Nil
    then show ?thesis using all by simp
  next
    case (Cons first more)
    then have "info = first" "rest = more @ [?new]" using all by simp_all
    moreover have "newest first (first # more @ [?new]) = ?new"
      using newest_is_last [of first "first # more" ?new] less Cons by simp
    ultimately show ?thesis by simp
  qed
  then show ?thesis using se by (simp add: session_info_of_def)
qed

lemma new_prints_what_it_made_witness:
  "si_name (newest (session_info_of (snd (create_session (str ''work'') young_one)) (last (sv_sessions (snd (create_session (str ''work'') young_one)))))
     [session_info_of (snd (create_session (str ''work'') young_one)) (last (sv_sessions (snd (create_session (str ''work'') young_one))))])
     = str ''work''"
proof -
  have reached: "server_reachable em young_one" for em unfolding young_one_def by (rule server_started)
  have one: "map (session_info_of (snd (create_session (str ''work'') young_one))) (sv_sessions (snd (create_session (str ''work'') young_one)))
      = [session_info_of (snd (create_session (str ''work'') young_one)) (last (sv_sessions (snd (create_session (str ''work'') young_one))))]"
    by (simp add: create_session_def young_one_def server_new_def Let_def)
  show ?thesis
    using conjunct2 [OF new_prints_what_it_made [OF reached prod.collapse [symmetric] one]] by simp
qed

section \<open>Words and messages\<close>

text \<open>C36. An attach is what its words say, if none of them is empty. The line is taken just when there is one word that
  is not a flag of attach and that word does not begin like a flag; it means that session, watched or shared or taken
  over, with the screen's size or without. The flags may stand anywhere and any number of times, behind the
  session too, although the comment in the parser says that nothing comes after it.\<close>

theorem attach_means_its_words:
  assumes "[] \<notin> set ws"
  shows "run_entry (str ''attach'' # ws) =
     (if length (plain_words ws) = 1 \<and> take 2 (hd (plain_words ws)) \<noteq> str ''--'' then
        Attach_To (parse_cli (str ''attach'' # ws))
          (if str ''--watch'' \<in> set ws then Watch else if str ''--share'' \<in> set ws then Join else Take_Over)
          (str ''--adopt-size'' \<in> set ws)
      else Give_Up (complaint (cr_problem (parse_cli (str ''attach'' # ws))) @ str ''Usage: ''
             @ str ''ckmux attach [--share] [--watch] [--adopt-size] <name|id>'' @ [10])) \<and>
     (length (plain_words ws) = 1 \<and> take 2 (hd (plain_words ws)) \<noteq> str ''--'' \<longrightarrow>
        cr_name (parse_cli (str ''attach'' # ws)) = hd (plain_words ws))"
proof -
  let ?r = "blank_request\<lparr>cr_subcommand := str ''attach'', cr_usage := str ''ckmux attach [--share] [--watch] [--adopt-size] <name|id>''\<rparr>"
  have parsed: "parse_cli (str ''attach'' # ws) = parse_attach ws ?r" by (simp add: parse_cli_def)
  have kept: "cr_subcommand (parse_attach ws r) = cr_subcommand r \<and> cr_usage (parse_attach ws r) = cr_usage r" for r
    by (induction ws r rule: parse_attach.induct) auto
  have put: "well_put ws (cr_name ?r) \<longleftrightarrow> length (plain_words ws) = 1 \<and> take 2 (hd (plain_words ws)) \<noteq> str ''--''"
    by (auto simp: well_put_def blank_request_def length_Suc_conv)
  have entry: "run_entry (str ''attach'' # ws) =
      (let request = parse_cli (str ''attach'' # ws)
       in if \<not> request_ok request then Give_Up (complaint (cr_problem request) @ str ''Usage: '' @ cr_usage request @ [10])
          else Attach_To request (if cr_watch request then Watch else if cr_share request then Join else Take_Over)
                 (cr_adopt_size request))"
    using kept [of ?r] by (simp add: run_entry_def is_cli_subcommand_def subcommands_def parsed Let_def)
  from attach_parsed [OF assms, of ?r] put kept [of ?r] entry parsed show ?thesis
    by (auto simp: request_ok_def put_together_def blank_request_def Let_def)
qed

lemma attach_means_its_words_witness:
  "\<exists>request. run_entry [str ''attach'', str ''--adopt-size'', str ''work'', str ''--watch''] = Attach_To request Watch True"
proof -
  have "plain_words [str ''--adopt-size'', str ''work'', str ''--watch''] = [str ''work'']"
    by (simp add: plain_words_def attach_flags_def)
  then show ?thesis
    using attach_means_its_words [of "[str ''--adopt-size'', str ''work'', str ''--watch'']"]
    by simp (simp add: str_def)
qed

text \<open>A flag behind the session is obeyed.\<close>

lemma flag_behind_session_obeyed:
  "\<exists>request. run_entry [str ''attach'', str ''work'', str ''--watch''] = Attach_To request Watch False"
  by (simp add: run_entry_def is_cli_subcommand_def subcommands_def parse_cli_def blank_request_def request_ok_def str_def Let_def)

text \<open>Messages are heard in order. Frames that arrive over a connection, cut into chunks anywhere and with signals in
  between, are heard one after the other as the messages that were sent, as long as there is time for as many
  waits as chunks.\<close>

theorem heard_in_order:
  assumes "list_all (sendable lib) ms" and "concat chunks = concat (map frame_of ms)"
    and "length (concat (map frame_of ms)) \<le> max_buffered" and "\<forall>c \<in> set chunks. c \<noteq> [] \<and> length c \<le> 64 * 1024"
    and "sk_open s" and "sk_incoming s = delivered chunks @ later"
    and "Wait_Failed \<notin> set waits" and "length chunks \<le> ready_waits waits"
  shows "fst (hear lib (length ms) (link_over s waits)) = map Some ms"
  using assms fr_new_wf fr_new_pending
  by (intro hear_all [where chunks = chunks and later = later]) (auto simp: to_hear_def link_over_def)

lemma short_frames:
  "sendable sample_library ListSessions" "sendable sample_library KillServer"
  "sendable sample_library (HelloAck \<lparr>hello_ack_proto_version = 4, hello_ack_build = []\<rparr>)"
  "length (frame_of ListSessions) = 8" "length (frame_of KillServer) = 8"
  "length (frame_of (HelloAck \<lparr>hello_ack_proto_version = 4, hello_ack_build = []\<rparr>)) = 14"
  "frame_of (hello_of [] Cli) \<noteq> []"
  by (simp_all add: sendable_def frame_of_def encode_alt payload_of_def payload_cap_def max_payload_bytes_def emits hello_of_def
      w_hello_ack_def wf_hello_ack_def w_hello_def w_client_kind_def header_bytes_def)

lemma heard_in_order_witness:
  "fst (hear sample_library 2 (link_over (stream_new []
       (delivered [take 3 (frame_of ListSessions), drop 3 (frame_of ListSessions) @ frame_of KillServer]))
     [Wait_Interrupted, Wait_Ready, Wait_Interrupted, Wait_Ready])) = [Some ListSessions, Some KillServer]"
proof -
  let ?chunks = "[take 3 (frame_of ListSessions), drop 3 (frame_of ListSessions) @ frame_of KillServer]"
  have "concat ?chunks = concat (map frame_of [ListSessions, KillServer])" by simp
  moreover have "length (concat (map frame_of [ListSessions, KillServer])) \<le> max_buffered"
    by (simp add: short_frames max_buffered_def header_bytes_def max_snapshot_payload_bytes_def)
  moreover have "\<forall>c \<in> set ?chunks. c \<noteq> [] \<and> length c \<le> 64 * 1024" using short_frames by auto
  ultimately show ?thesis
    using heard_in_order [of sample_library "[ListSessions, KillServer]" ?chunks "stream_new [] (delivered ?chunks)" "[]"
        "[Wait_Interrupted, Wait_Ready, Wait_Interrupted, Wait_Ready]"] short_frames
    by (simp add: stream_new_def ready_waits_def numeral_2_eq_2)
qed

text \<open>C38. What comes with the answer to the handshake is lost. A frame behind the server's \<open>HelloAck\<close> in the same read stays
  in the reader of the handshake, which is let go: the connection is reported as made, and what it hands on is to be
  read from behind that frame on.\<close>

theorem handshake_drops_what_follows:
  assumes "sendable lib (HelloAck ack)" and "length (frame_of (HelloAck ack) @ extra) \<le> 64 * 1024"
    and "s = stream_new (Wrote n # as) (Read_Bytes (frame_of (HelloAck ack) @ extra) # Read_Blocks # later)"
    and "length (frame_of (hello_of build kind)) \<le> n" "frame_of (hello_of build kind) \<noteq> []"
  shows "sc_status (handshake lib build path kind (Wait_Ready # waits) s) = Connected \<and>
     map_option sk_incoming (sc_stream (handshake lib build path kind (Wait_Ready # waits) s)) = Some later"
  using assms by (intro handshake_drops [where n = n and as = as and extra = extra]) (simp_all add: stream_new_def)

lemma handshake_drops_what_follows_witness:
  "map_option sk_incoming (sc_stream (handshake sample_library [] [] Cli [Wait_Ready]
     (stream_new [Wrote (length (frame_of (hello_of [] Cli)))]
       [Read_Bytes (frame_of (HelloAck \<lparr>hello_ack_proto_version = 4, hello_ack_build = []\<rparr>) @ frame_of ListSessions), Read_Blocks])))
   = Some []"
proof -
  have "length (frame_of (HelloAck \<lparr>hello_ack_proto_version = 4, hello_ack_build = []\<rparr>) @ frame_of ListSessions) \<le> 64 * 1024"
    by (simp add: short_frames)
  from conjunct2 [OF handshake_drops_what_follows [OF short_frames(3) this refl order_refl short_frames(7)]] show ?thesis .
qed

end
