(* ===== verification/Process_Tree.thy ===== *)
theory Process_Tree
  imports Stats Shell Config
begin

text \<open>
  The processes under a terminal (\<^verbatim>\<open>src/src/platform/process_stats.cpp\<close>, as it is built for Linux): the walk from a root
  through a table of parents, the two files of \<^verbatim>\<open>/proc\<close> a process is read from, and the sum over a tree; and how a
  window states what came of it (\<^verbatim>\<open>src/src/client/stats_format.cpp\<close>). What the files of a process say is an argument.
\<close>

section \<open>The walk\<close>

record table_entry =
  te_pid :: int
  te_ppid :: int

text \<open>The children a table has of a process, in its order.\<close>

definition children_of :: "table_entry list \<Rightarrow> int \<Rightarrow> int list" where
  "children_of entries pid = map te_pid (filter (\<lambda>e. te_ppid e = pid) entries)"

text \<open>Each process is visited once: what is new goes to the back of the frontier.\<close>

definition visit :: "int list \<Rightarrow> int list \<times> int list \<Rightarrow> int list \<times> int list" where
  "visit children vf =
     fold (\<lambda>child (visited, frontier). if child \<in> set visited then (visited, frontier) else (child # visited, frontier @ [child]))
       children vf"

definition unvisited :: "table_entry list \<Rightarrow> int list \<Rightarrow> int set" where
  "unvisited entries visited = te_pid ` set entries - set visited"

lemma visit_spends:
  "set children \<subseteq> te_pid ` set entries \<Longrightarrow>
     length (snd (visit children (v, f))) + 2 * card (unvisited entries (fst (visit children (v, f))))
       \<le> length f + 2 * card (unvisited entries v)"
proof (induction children arbitrary: v f)
  case (Cons c cs)
  show ?case
  proof (cases "c \<in> set v")
    case True
    then show ?thesis using Cons by (simp add: visit_def)
  next
    case False
    then have "c \<in> unvisited entries v" using Cons.prems by (auto simp: unvisited_def)
    moreover have "unvisited entries (c # v) = unvisited entries v - {c}" by (auto simp: unvisited_def)
    moreover have "finite (unvisited entries v)" by (simp add: unvisited_def)
    ultimately have "card (unvisited entries v) = Suc (card (unvisited entries (c # v)))" by (metis card.remove)
    with Cons.IH [of "c # v" "f @ [c]"] Cons.prems False show ?thesis by (simp add: visit_def)
  qed
qed (simp add: visit_def)

function walk :: "table_entry list \<Rightarrow> int list \<Rightarrow> int list \<Rightarrow> int list \<Rightarrow> int list" where
  "walk entries visited frontier result =
     (if frontier = [] then result
      else case visit (children_of entries (last frontier)) (visited, butlast frontier) of
        (visited, frontier') \<Rightarrow> walk entries visited frontier' (result @ [last frontier]))"
  by pat_completeness auto

termination walk
proof (relation "measure (\<lambda>(entries, visited, frontier, result). length frontier + 2 * card (unvisited entries visited))", goal_cases)
  case 1
  show ?case by simp
next
  case (2 entries visited frontier result v f)
  have "set (children_of entries (last frontier)) \<subseteq> te_pid ` set entries" by (auto simp: children_of_def)
  from visit_spends [OF this, of visited "butlast frontier"] 2(2)
  have "length f + 2 * card (unvisited entries v) \<le> length (butlast frontier) + 2 * card (unvisited entries visited)"
    by (metis fst_conv snd_conv)
  then show ?case using 2(1) by (cases frontier rule: rev_cases) auto
qed

declare walk.simps [simp del]

definition tree_of :: "table_entry list \<Rightarrow> int \<Rightarrow> int list" where
  "tree_of entries root =
     (if \<not> list_ex (\<lambda>e. te_pid e = root) entries then [] else walk entries [root] [root] [])"

section \<open>The files of a process\<close>

record proc_stat_fields =
  ps_pid :: int
  ps_ppid :: int
  ps_utime :: u64
  ps_stime :: u64
  ps_rss :: u64
  ps_valid :: bool

definition no_fields :: proc_stat_fields where
  "no_fields = \<lparr>ps_pid = -1, ps_ppid = -1, ps_utime = 0, ps_stime = 0, ps_rss = 0, ps_valid = False\<rparr>"

text \<open>\<open>std::from_chars\<close> of a signed number from the front of a text; whatever follows is left.\<close>

definition number_in_front :: "nat \<Rightarrow> bytes \<Rightarrow> int option" where
  "number_in_front bits text =
     (let negative = (text \<noteq> [] \<and> hd text = 45);
          ds = takeWhile is_digit (if negative then tl text else text);
          n = (if negative then - int (digits_value ds) else int (digits_value ds))
      in if ds \<noteq> [] \<and> - (2 ^ (bits - 1)) \<le> n \<and> n < 2 ^ (bits - 1) then Some n else None)"

text \<open>Of an unsigned number, the whole token or nothing.\<close>

definition parse_u64 :: "bytes \<Rightarrow> u64 option" where
  "parse_u64 token = map_option word_of_nat (whole_unsigned token)"

text \<open>Words between blanks and line ends.\<close>

definition is_gap :: "u8 \<Rightarrow> bool" where
  "is_gap c \<longleftrightarrow> c = 32 \<or> c = 10"

function words_of :: "bytes \<Rightarrow> bytes list" where
  "words_of text =
     (let rest = dropWhile is_gap text
      in if rest = [] then []
         else takeWhile (\<lambda>c. \<not> is_gap c) rest # words_of (dropWhile (\<lambda>c. \<not> is_gap c) rest))"
  by pat_completeness auto

termination words_of
proof (relation "measure length")
  fix cs rest :: bytes
  assume rest: "rest = dropWhile is_gap cs" "rest \<noteq> []"
  have first: "\<not> is_gap (hd rest)" using rest hd_dropWhile by blast
  have "length (dropWhile (\<lambda>c. \<not> is_gap c) rest) < length rest"
    using rest(2) first by (cases rest) (simp_all add: length_dropWhile_le le_imp_less_Suc)
  also have "\<dots> \<le> length cs" using rest(1) by (simp add: length_dropWhile_le)
  finally show "(dropWhile (\<lambda>c. \<not> is_gap c) rest, cs) \<in> measure length" by simp
qed simp

declare words_of.simps [simp del]

text \<open>What is in front of the first opening and behind the last closing parenthesis, unless the name between them is not
  closed.\<close>

definition around_name :: "bytes \<Rightarrow> (bytes \<times> bytes) option" where
  "around_name text =
     (let front = takeWhile (\<lambda>c. c \<noteq> 40) text;
          behind = rev (takeWhile (\<lambda>c. c \<noteq> 41) (rev text))
      in if 40 \<notin> set text \<or> 41 \<notin> set text \<or> length text - length behind - 1 < length front then None
         else Some (front, behind))"

definition parse_proc_stat :: "bytes \<Rightarrow> proc_stat_fields" where
  "parse_proc_stat text =
     (case around_name text of
       None \<Rightarrow> no_fields
     | Some (front, behind) \<Rightarrow>
         (case number_in_front 32 front of
           None \<Rightarrow> no_fields
         | Some pid \<Rightarrow>
             let tail = words_of behind
             in if pid \<le> 0 \<or> length tail \<le> 21 then no_fields
                else case parse_u64 (tail ! 1) of
                  None \<Rightarrow> no_fields
                | Some ppid \<Rightarrow>
                    (case parse_u64 (tail ! 11) of
                      None \<Rightarrow> no_fields
                    | Some utime \<Rightarrow>
                        (case parse_u64 (tail ! 12) of
                          None \<Rightarrow> no_fields\<lparr>ps_utime := utime\<rparr>
                        | Some stime \<Rightarrow>
                            (case parse_u64 (tail ! 21) of
                              None \<Rightarrow> no_fields\<lparr>ps_utime := utime, ps_stime := stime\<rparr>
                            | Some rss \<Rightarrow>
                                \<lparr>ps_pid = pid, ps_ppid = sint (ucast ppid :: 32 word), ps_utime = utime, ps_stime = stime,
                                 ps_rss = rss, ps_valid = True\<rparr>)))))"

text \<open>Lines of a text; one that is not ended counts, nothing behind the last end does not.\<close>

fun lines_of :: "bytes \<Rightarrow> bytes list" where
  "lines_of [] = []"
| "lines_of (c # cs) = (if c = 10 then [] # lines_of cs else case lines_of cs of [] \<Rightarrow> [[c]] | l # ls \<Rightarrow> (c # l) # ls)"

definition pss_of_line :: "bytes \<Rightarrow> int" where
  "pss_of_line line =
     (case number_in_front 64 (dropWhile (\<lambda>c. c = 32 \<or> c = 9) (drop 4 line)) of None \<Rightarrow> -1 | Some kilobytes \<Rightarrow> kilobytes * 1024)"

definition parse_smaps_rollup_pss :: "bytes \<Rightarrow> int" where
  "parse_smaps_rollup_pss text =
     (case find (\<lambda>line. length line > 4 \<and> take 4 line = str ''Pss:'') (lines_of text) of
       None \<Rightarrow> -1
     | Some line \<Rightarrow> pss_of_line line)"

definition ticks_to_nanos :: "u64 \<Rightarrow> u64 \<Rightarrow> u64" where
  "ticks_to_nanos ticks_per_second ticks =
     (ticks div ticks_per_second) * 1000000000 + (ticks mod ticks_per_second) * 1000000000 div ticks_per_second"

section \<open>Samples\<close>

record process_sample =
  sm_cpu_nanos :: u64
  sm_rss :: u64
  sm_real :: u64
  sm_has_real :: bool
  sm_alive :: bool

definition no_sample :: process_sample where
  "no_sample = \<lparr>sm_cpu_nanos = 0, sm_rss = 0, sm_real = 0, sm_has_real = False, sm_alive = False\<rparr>"

text \<open>The two files of a process, where they can be read, and what the system says of its clock and its pages.\<close>

record machine =
  mc_stat :: "int \<Rightarrow> bytes option"
  mc_smaps :: "int \<Rightarrow> bytes option"
  mc_ticks_per_second :: u64
  mc_page_bytes :: u64

definition sample_process :: "machine \<Rightarrow> int \<Rightarrow> process_sample" where
  "sample_process mc identity =
     (if identity \<le> 0 \<or> identity > 2 ^ 31 - 1 then no_sample
      else case mc_stat mc identity of
        None \<Rightarrow> no_sample
      | Some text \<Rightarrow>
          let fields = parse_proc_stat text
          in if \<not> ps_valid fields then no_sample
             else
               let sample = no_sample\<lparr>sm_cpu_nanos := ticks_to_nanos (mc_ticks_per_second mc) (ps_utime fields + ps_stime fields),
                              sm_rss := ps_rss fields * mc_page_bytes mc\<rparr>;
                   sample = (case mc_smaps mc identity of
                       None \<Rightarrow> sample
                     | Some text \<Rightarrow>
                         (let pss = parse_smaps_rollup_pss text
                          in if pss \<ge> 0 then sample\<lparr>sm_real := word_of_int pss, sm_has_real := True\<rparr> else sample))
               in sample\<lparr>sm_alive := True\<rparr>)"

text \<open>\<open>ProcessTable::snapshot\<close>: the directory's names that start with a digit, and of those the files that can be read.\<close>

definition table_snapshot :: "(bytes \<times> bytes option) list \<Rightarrow> table_entry list" where
  "table_snapshot directory =
     List.map_filter (\<lambda>(name, stat).
       if name = [] \<or> \<not> is_digit (hd name) then None
       else case stat of
         None \<Rightarrow> None
       | Some text \<Rightarrow>
           (let fields = parse_proc_stat text
            in if ps_valid fields then Some \<lparr>te_pid = ps_pid fields, te_ppid = ps_ppid fields\<rparr> else None)) directory"

record tree_sample =
  ts_cpu_nanos :: u64
  ts_rss :: u64
  ts_real :: u64
  ts_has_real :: bool
  ts_count :: nat

definition add_sample :: "process_sample \<Rightarrow> tree_sample \<Rightarrow> tree_sample" where
  "add_sample sample acc =
     (if \<not> sm_alive sample then acc
      else
        let acc = acc\<lparr>ts_cpu_nanos := ts_cpu_nanos acc + sm_cpu_nanos sample, ts_rss := ts_rss acc + sm_rss sample\<rparr>;
            acc = (if sm_has_real sample then acc\<lparr>ts_real := ts_real acc + sm_real sample, ts_has_real := True\<rparr> else acc)
        in acc\<lparr>ts_count := ts_count acc + 1\<rparr>)"

definition sample_tree :: "machine \<Rightarrow> table_entry list \<Rightarrow> int \<Rightarrow> tree_sample" where
  "sample_tree mc table root =
     fold (\<lambda>pid. add_sample (sample_process mc pid)) (tree_of table root)
       \<lparr>ts_cpu_nanos = 0, ts_rss = 0, ts_real = 0, ts_has_real = False, ts_count = 0\<rparr>"

text \<open>What a terminal's processes use; \<open>base\<close> is the library's record with its defaults. Reading a process is supported on
  Linux, so the table is taken once for all terminals.\<close>

definition sample_terminal :: "machine \<Rightarrow> process_resources \<Rightarrow> table_entry list \<Rightarrow> int \<Rightarrow> process_resources \<times> u64 option" where
  "sample_terminal mc base table root =
     (if root < 0 then (base\<lparr>pr_state := Res_Gone\<rparr>, None)
      else
        let sample = sample_tree mc table root
        in if ts_count sample = 0 then (base\<lparr>pr_state := Res_Gone\<rparr>, None)
           else (base\<lparr>pr_state := Res_Available, pr_live := word_of_nat (ts_count sample), pr_cpu_nanos := Some (ts_cpu_nanos sample),
                      pr_rss := Some (ts_rss sample)\<rparr>,
                 if ts_has_real sample then Some (ts_real sample) else None))"

section \<open>What a window states\<close>

record stats_toggles =
  tg_cpu :: bool
  tg_rss :: bool
  tg_real :: bool

definition format_cpu_permille :: "u32 \<Rightarrow> bytes" where
  "format_cpu_permille permille = decimal (unat (permille div 10 + (if permille mod 10 \<ge> 5 then 1 else 0))) @ [37]"

text \<open>The parts of a line with a dot between them. How a number of bytes is written, in floating point, is a
  parameter.\<close>

definition with_dots :: "bytes list \<Rightarrow> bytes" where
  "with_dots parts = fold (\<lambda>part line. (if line = [] then [] else line @ [32, 0xC2, 0xB7, 32]) @ part) parts []"

definition stats_footer :: "(u64 \<Rightarrow> bytes) \<Rightarrow> term_stats \<Rightarrow> stats_toggles \<Rightarrow> bytes" where
  "stats_footer format_bytes stats toggles =
     (if tst_state stats = Stats_Gone \<or> \<not> (tg_cpu toggles \<or> tg_rss toggles \<or> tg_real toggles) then []
      else if tst_state stats = Stats_Failed \<or> tst_state stats = Stats_Unsupported then
        (if tst_system_error stats = 0 then str ''Stats unavailable''
         else str ''Stats unavailable (error '' @ decimal (unat (tst_system_error stats)) @ str '')'')
      else with_dots
        ((if tg_cpu toggles then
            [if tst_flags stats AND flag_has_cpu \<noteq> 0 then str ''CPU '' @ format_cpu_permille (tst_cpu_permille stats) else str ''CPU ?'']
          else [])
         @ (if tg_rss toggles then
            [if tst_flags stats AND flag_has_rss \<noteq> 0 then str ''RSS '' @ format_bytes (tst_rss_bytes stats) else str ''RSS ?'']
          else [])
         @ (if tg_real toggles \<and> tst_flags stats AND flag_has_real \<noteq> 0 then
            [(if tst_real_kind stats = Private_Resident then str ''Private RSS '' else str ''Real '') @ format_bytes (tst_real_bytes stats)]
          else [])
         @ (if tst_state stats = Stats_Partial then [str ''partial''] else [])))"

definition capability_grace_nanos :: int where
  "capability_grace_nanos = 250000000"

definition first_terminal_may_open :: "bool \<Rightarrow> int \<Rightarrow> bool" where
  "first_terminal_may_open answered waited_nanos \<longleftrightarrow> answered \<or> waited_nanos \<ge> capability_grace_nanos"

end
