(* ===== verification/Properties_Processes.thy ===== *)
theory Properties_Processes
  imports Process_Tree Settings_Dialog
begin

text \<open>
  What a terminal's processes use is counted over every process of its tree, each once, whatever loops a table read in
  the middle of changes holds; and a process is read right from its file, whatever it calls itself.
\<close>

section \<open>The tree\<close>

text \<open>Whatever is reached from a process by the table's parents.\<close>

definition parenthood :: "table_entry list \<Rightarrow> (int \<times> int) set" where
  "parenthood entries = (\<lambda>e. (te_ppid e, te_pid e)) ` set entries"

definition descendants :: "table_entry list \<Rightarrow> int \<Rightarrow> int set" where
  "descendants entries root = {pid. (root, pid) \<in> (parenthood entries)\<^sup>*}"

lemma children_set: "set (children_of entries pid) = {c. (pid, c) \<in> parenthood entries}"
  by (auto simp: children_of_def parenthood_def)

lemma visit_result:
  "\<exists>new. visit cs (v, f) = (rev new @ v, f @ new) \<and> set new = set cs - set v \<and> distinct new"
proof (induction cs arbitrary: v f)
  case (Cons c cs)
  show ?case
  proof (cases "c \<in> set v")
    case True
    then show ?thesis using Cons [of v f] by (auto simp: visit_def)
  next
    case False
    from Cons [of "c # v" "f @ [c]"] obtain new where
      "visit cs (c # v, f @ [c]) = (rev new @ c # v, (f @ [c]) @ new)" "set new = set cs - set (c # v)" "distinct new" by blast
    then have "visit (c # cs) (v, f) = (rev (c # new) @ v, f @ (c # new)) \<and> set (c # new) = set (c # cs) - set v \<and> distinct (c # new)"
      using False by (auto simp: visit_def)
    then show ?thesis by blast
  qed
qed (simp add: visit_def)

text \<open>Of the walk: what was visited is what is done and what is to do, all of it below the root, and what is done has all
  its children visited.\<close>

definition walking :: "table_entry list \<Rightarrow> int \<Rightarrow> int list \<Rightarrow> int list \<Rightarrow> int list \<Rightarrow> bool" where
  "walking entries root visited frontier result \<longleftrightarrow>
     set visited = set result \<union> set frontier \<and> distinct (result @ frontier) \<and> root \<in> set visited \<and>
     set visited \<subseteq> descendants entries root \<and> (\<forall>pid \<in> set result. set (children_of entries pid) \<subseteq> set visited)"

lemma walk_done:
  "walking entries root visited frontier result \<Longrightarrow>
     set (walk entries visited frontier result) = descendants entries root \<and> distinct (walk entries visited frontier result)"
proof (induction entries visited frontier result rule: walk.induct)
  case (1 entries visited frontier result)
  show ?case
  proof (cases "frontier = []")
    case True
    have "pid \<in> set visited" if "(root, pid) \<in> (parenthood entries)\<^sup>*" for pid
      using that
    proof (induction rule: rtrancl_induct)
      case base
      then show ?case using 1(2) unfolding walking_def by blast
    next
      case (step p c)
      then show ?case using 1(2) True by (auto simp: walking_def children_set)
    qed
    then have "set result = descendants entries root" using 1(2) True by (auto simp: walking_def descendants_def)
    then show ?thesis using 1(2) True by (subst (1 2) walk.simps) (simp add: walking_def)
  next
    case False
    let ?p = "last frontier"
    obtain new where new: "visit (children_of entries ?p) (visited, butlast frontier) = (rev new @ visited, butlast frontier @ new)"
      "set new = set (children_of entries ?p) - set visited" "distinct new"
      using visit_result by blast
    have f: "frontier = butlast frontier @ [?p]" using False by simp
    have below: "?p \<in> descendants entries root" using 1(2) False by (auto simp: walking_def)
    then have "set (children_of entries ?p) \<subseteq> descendants entries root"
      by (auto simp: descendants_def children_set intro: rtrancl_into_rtrancl)
    moreover have parts: "set visited = set result \<union> set (butlast frontier) \<union> {?p}" "distinct (result @ butlast frontier @ [?p])"
      using 1(2) f unfolding walking_def by (metis Un_assoc set_append list.set(1) list.simps(15), metis)
    ultimately have "walking entries root (rev new @ visited) (butlast frontier @ new) (result @ [?p])"
      unfolding walking_def
    proof (intro conjI ballI)
      show "set (rev new @ visited) = set (result @ [?p]) \<union> set (butlast frontier @ new)" using parts(1) by auto
      show "distinct ((result @ [?p]) @ butlast frontier @ new)" using parts new(2, 3) by auto
      have "root \<in> set visited" using 1(2) unfolding walking_def by blast
      then show "root \<in> set (rev new @ visited)" by simp
      show "set (rev new @ visited) \<subseteq> descendants entries root"
        using 1(2) new(2) \<open>set (children_of entries ?p) \<subseteq> descendants entries root\<close> by (auto simp: walking_def)
      show "set (children_of entries pid) \<subseteq> set (rev new @ visited)" if "pid \<in> set (result @ [?p])" for pid
      proof -
        have "set (rev new @ visited) = set (children_of entries ?p) \<union> set visited" using new(2) by auto
        moreover have "\<forall>q \<in> set result. set (children_of entries q) \<subseteq> set visited" using 1(2) unfolding walking_def by blast
        ultimately show ?thesis using that by auto
      qed
    qed
    from 1(1) [OF False new(1) [symmetric] this] show ?thesis
      using False new(1) by (subst (1 2) walk.simps) simp
  qed
qed

lemma tree_of_root: "\<exists>e \<in> set entries. te_pid e = root \<Longrightarrow> set (tree_of entries root) = descendants entries root \<and> distinct (tree_of entries root)"
  unfolding tree_of_def
  by (simp add: list_ex_iff) (rule walk_done, simp add: walking_def descendants_def)

text \<open>The sum over a list of processes.\<close>

lemma sampled:
  "ts_count (fold (\<lambda>pid. add_sample (sample_process mc pid)) pids acc) =
     ts_count acc + length (filter (\<lambda>pid. sm_alive (sample_process mc pid)) pids) \<and>
   ts_rss (fold (\<lambda>pid. add_sample (sample_process mc pid)) pids acc) =
     ts_rss acc + (\<Sum>pid\<leftarrow>filter (\<lambda>pid. sm_alive (sample_process mc pid)) pids. sm_rss (sample_process mc pid)) \<and>
   ts_cpu_nanos (fold (\<lambda>pid. add_sample (sample_process mc pid)) pids acc) =
     ts_cpu_nanos acc + (\<Sum>pid\<leftarrow>filter (\<lambda>pid. sm_alive (sample_process mc pid)) pids. sm_cpu_nanos (sample_process mc pid))"
  by (induction pids arbitrary: acc) (simp_all add: add_sample_def Let_def ac_simps)

text \<open>C39. Every process is counted once. The walk through a table ends, loops and all, and what is stated of a terminal is
  the sum over its root and everything below it that is alive, no process twice and none left out.\<close>

theorem processes_counted_once:
  fixes table :: "table_entry list" and mc :: machine
  assumes "\<exists>e \<in> set table. te_pid e = root"
  defines "living \<equiv> {pid \<in> descendants table root. sm_alive (sample_process mc pid)}"
  shows "distinct (tree_of table root) \<and> set (tree_of table root) = descendants table root \<and>
     ts_count (sample_tree mc table root) = card living \<and>
     ts_rss (sample_tree mc table root) = (\<Sum>pid \<in> living. sm_rss (sample_process mc pid)) \<and>
     ts_cpu_nanos (sample_tree mc table root) = (\<Sum>pid \<in> living. sm_cpu_nanos (sample_process mc pid))"
proof -
  note tree = tree_of_root [OF assms(1)]
  let ?alive = "filter (\<lambda>pid. sm_alive (sample_process mc pid)) (tree_of table root)"
  have alive: "distinct ?alive" "set ?alive = living" using tree by (auto simp: living_def)
  then have "length ?alive = card living" by (metis distinct_card)
  moreover have "(\<Sum>pid\<leftarrow>?alive. f pid) = (\<Sum>pid \<in> living. f pid)" for f :: "int \<Rightarrow> u64"
    using sum_list_distinct_conv_sum_set [OF alive(1), of f] alive(2) by simp
  ultimately show ?thesis using tree sampled by (simp add: sample_tree_def)
qed

text \<open>A table in which two processes are each other's parents.\<close>

definition looping_table :: "table_entry list" where
  "looping_table = [\<lparr>te_pid = 7, te_ppid = 9\<rparr>, \<lparr>te_pid = 9, te_ppid = 7\<rparr>, \<lparr>te_pid = 11, te_ppid = 9\<rparr>, \<lparr>te_pid = 4, te_ppid = 1\<rparr>]"

lemma processes_counted_once_witness:
  "set (tree_of looping_table 7) = descendants looping_table 7 \<and> 11 \<in> set (tree_of looping_table 7)"
proof -
  have "set (tree_of looping_table 7) = descendants looping_table 7"
    using processes_counted_once [of looping_table 7] by (simp add: looping_table_def)
  moreover have "(7, 9) \<in> parenthood looping_table" "(9, 11) \<in> parenthood looping_table"
    by (auto simp: parenthood_def looping_table_def)
  then have "11 \<in> descendants looping_table 7" unfolding descendants_def by (simp add: converse_rtrancl_into_rtrancl)
  ultimately show ?thesis by blast
qed

section \<open>The file of a process\<close>

lemma words_of_word:
  assumes "w \<noteq> []" and "\<forall>c \<in> set w. \<not> is_gap c"
  shows "words_of (w @ 32 # rest) = w # words_of rest" and "words_of w = [w]" and "words_of (32 # rest) = words_of rest"
    and "words_of (w @ [10]) = [w]"
proof -
  have front: "dropWhile is_gap (w @ more) = w @ more" for more using assms by (cases w) auto
  have skip: "words_of (32 # rest) = words_of rest" for rest
    by (subst (1 2) words_of.simps) (simp add: is_gap_def)
  have none: "words_of [] = []" "words_of [10] = []" by (simp_all add: words_of.simps [of "[]"] words_of.simps [of "[10]"] is_gap_def)
  have cut: "takeWhile (\<lambda>c. \<not> is_gap c) (w @ c # more) = w \<and> dropWhile (\<lambda>c. \<not> is_gap c) (w @ c # more) = c # more"
    if "is_gap c" for c more
    using assms(2) that by (simp add: takeWhile_append2 dropWhile_append2)
  show "words_of (32 # rest) = words_of rest" by (rule skip)
  show "words_of (w @ 32 # rest) = w # words_of rest"
    using cut [of 32 rest] front [of "32 # rest"] assms(1) skip
    by (subst words_of.simps) (simp add: Let_def is_gap_def)
  have "takeWhile (\<lambda>c. \<not> is_gap c) w = w" "dropWhile (\<lambda>c. \<not> is_gap c) w = []" using assms(2) by (simp_all add: takeWhile_eq_all_conv)
  then show "words_of w = [w]" using front [of "[]"] assms(1) none by (subst words_of.simps) (simp only: Let_def append_Nil2 if_False)
  show "words_of (w @ [10]) = [w]"
    using cut [of 10 "[]"] front [of "[10]"] assms(1) none by (subst words_of.simps) (simp add: Let_def is_gap_def)
qed

fun blank_between :: "bytes list \<Rightarrow> bytes" where
  "blank_between [] = []"
| "blank_between [w] = w"
| "blank_between (w # ws) = w @ 32 # blank_between ws"

lemma words_of_line:
  "ws \<noteq> [] \<Longrightarrow> \<forall>w \<in> set ws. w \<noteq> [] \<and> (\<forall>c \<in> set w. \<not> is_gap c) \<Longrightarrow> words_of (blank_between ws @ [10]) = ws"
  by (induction ws rule: blank_between.induct) (simp_all add: words_of_word)

lemma front_number: "0 < n \<Longrightarrow> n < 2 ^ 31 \<Longrightarrow> number_in_front 32 (decimal n @ [32]) = Some (int n)"
proof -
  assume n: "0 < n" "n < 2 ^ 31"
  have d: "digits_value (decimal n) = n" "list_all is_digit (decimal n)" "decimal n \<noteq> []" using decimal_parsed [of n] by simp_all
  have "takeWhile is_digit (decimal n @ [32]) = decimal n"
    using d(2) by (simp add: takeWhile_append2 list_all_iff is_digit_def)
  moreover have "hd (decimal n @ [32]) \<noteq> 45"
    using d(2, 3) by (cases "decimal n") (auto simp: is_digit_def)
  ultimately show ?thesis using n d by (simp add: number_in_front_def Let_def)
qed

lemma whole_number_back: "n < 2 ^ 64 \<Longrightarrow> parse_u64 (decimal n) = Some (word_of_nat n)"
  using decimal_parsed [of n] by (simp add: parse_u64_def whole_unsigned_def)

text \<open>What the kernel writes of a process: its number, its name between parentheses, and the words behind them.\<close>

definition stat_text :: "nat \<Rightarrow> bytes \<Rightarrow> bytes list \<Rightarrow> bytes" where
  "stat_text pid name ws = decimal pid @ [32, 40] @ name @ [41, 32] @ blank_between ws @ [10]"

lemma blank_between_free: "\<forall>w \<in> set ws. d \<notin> set w \<Longrightarrow> d \<noteq> 32 \<Longrightarrow> d \<notin> set (blank_between ws)"
  by (induction ws rule: blank_between.induct) simp_all

lemma around_stat:
  assumes "\<forall>w \<in> set ws. 41 \<notin> set w"
  shows "around_name (stat_text pid name ws) = Some (decimal pid @ [32], 32 # blank_between ws @ [10])"
proof -
  have digits: "\<forall>c \<in> set (decimal pid). c \<noteq> 40" using decimal_parsed [of pid] by (auto simp: list_all_iff is_digit_def)
  have front: "takeWhile (\<lambda>c. c \<noteq> 40) (stat_text pid name ws) = decimal pid @ [32]"
    using digits takeWhile_append2 [of "decimal pid @ [32]" "\<lambda>c. c \<noteq> 40" "40 # name @ [41, 32] @ blank_between ws @ [10]"]
    by (simp add: stat_text_def)
  have free: "c \<noteq> 41" if "c \<in> set (rev (32 # blank_between ws @ [10]))" for c
    using that blank_between_free [OF assms] by auto
  from takeWhile_append2 [where P = "\<lambda>c. c \<noteq> 41" and xs = "rev (32 # blank_between ws @ [10])", OF free, where ys = "41 # rev (decimal pid @ [32, 40] @ name)"]
  have behind: "takeWhile (\<lambda>c. c \<noteq> 41) (rev (stat_text pid name ws)) = rev (32 # blank_between ws @ [10])"
    by (simp add: stat_text_def)
  have "40 \<in> set (stat_text pid name ws)" "41 \<in> set (stat_text pid name ws)" by (simp_all add: stat_text_def)
  moreover have "\<not> length (stat_text pid name ws) - length (32 # blank_between ws @ [10]) - 1 < length (decimal pid @ [32])"
    by (simp add: stat_text_def)
  ultimately show ?thesis unfolding around_name_def Let_def front behind by simp
qed

text \<open>C40. A process is read from its file, whatever it calls itself. Parentheses, blanks and line ends in the name of a
  program do not move the fields: number, parent, times and pages are those the kernel wrote.\<close>

theorem stat_read_back:
  assumes "0 < pid" "pid < 2 ^ 31" "ppid < 2 ^ 31" "utime < 2 ^ 64" "stime < 2 ^ 64" "rss < 2 ^ 64"
    and "22 \<le> length ws" and "\<forall>w \<in> set ws. w \<noteq> [] \<and> (\<forall>c \<in> set w. \<not> is_gap c) \<and> 41 \<notin> set w"
    and "ws ! 1 = decimal ppid" "ws ! 11 = decimal utime" "ws ! 12 = decimal stime" "ws ! 21 = decimal rss"
  shows "parse_proc_stat (stat_text pid name ws) =
     \<lparr>ps_pid = int pid, ps_ppid = int ppid, ps_utime = word_of_nat utime, ps_stime = word_of_nat stime,
      ps_rss = word_of_nat rss, ps_valid = True\<rparr>"
proof -
  have "ws \<noteq> []" using assms(7) by auto
  then have words: "words_of (32 # blank_between ws @ [10]) = ws"
    using words_of_line [of ws] words_of_word(3) [of "[0]" "blank_between ws @ [10]"] assms(8) by (simp add: is_gap_def)
  have "sint (ucast (word_of_nat ppid :: u64) :: 32 word) = int ppid"
  proof -
    have "ucast (word_of_nat ppid :: u64) = (word_of_nat ppid :: 32 word)"
      using unat_of_nat_len [of ppid, where 'a = 64] assms(3) of_nat_unat [of "word_of_nat ppid :: u64", where 'a = "32 word"] by simp
    then show ?thesis using assms(3) by (simp add: signed_of_nat signed_take_bit_int_eq_self)
  qed
  then show ?thesis
    using around_stat [of ws pid name] assms words
    by (simp add: parse_proc_stat_def front_number whole_number_back Let_def)
qed

text \<open>A program that calls itself by two parentheses, a blank and a line end.\<close>

definition sample_words :: "nat \<Rightarrow> bytes list" where
  "sample_words n = [83] # map decimal [3..<n]"

lemma sample_word: "3 + k < n \<Longrightarrow> sample_words n ! Suc k = decimal (3 + k)"
  by (simp add: sample_words_def)

lemma sample_word_plain: "\<forall>w \<in> set (sample_words n). w \<noteq> [] \<and> (\<forall>c \<in> set w. \<not> is_gap c) \<and> 41 \<notin> set w"
proof -
  have "decimal n \<noteq> [] \<and> (\<forall>c \<in> set (decimal n). \<not> is_gap c) \<and> 41 \<notin> set (decimal n)" for n
    using decimal_parsed [of n] by (auto simp: list_all_iff is_digit_def is_gap_def)
  then show ?thesis by (auto simp: sample_words_def is_gap_def)
qed

lemma stat_read_back_witness:
  "parse_proc_stat (stat_text 7 [41, 32, 10, 40] (sample_words 24)) =
     \<lparr>ps_pid = 7, ps_ppid = 3, ps_utime = 13, ps_stime = 14, ps_rss = 23, ps_valid = True\<rparr>"
proof -
  have "sample_words 24 ! 1 = decimal 3" "sample_words 24 ! 11 = decimal 13" "sample_words 24 ! 12 = decimal 14"
    "sample_words 24 ! 21 = decimal 23"
    using sample_word [of 0 24] sample_word [of 10 24] sample_word [of 11 24] sample_word [of 20 24] by (simp_all add: numeral_eq_Suc)
  moreover have "22 \<le> length (sample_words 24)" by (simp add: sample_words_def)
  ultimately have "parse_proc_stat (stat_text 7 [41, 32, 10, 40] (sample_words 24)) =
     \<lparr>ps_pid = int 7, ps_ppid = int 3, ps_utime = word_of_nat 13, ps_stime = word_of_nat 14, ps_rss = word_of_nat 23, ps_valid = True\<rparr>"
    using sample_word_plain by (intro stat_read_back) simp_all
  then show ?thesis by simp
qed

section \<open>Ticks\<close>

text \<open>Processor time in ticks is turned into nanoseconds exactly: taking whole seconds first loses nothing, and nothing
  wraps as long as the result fits, although the ticks times a thousand million would not.\<close>

theorem ticks_exact:
  fixes per_second ticks :: u64
  assumes "0 < per_second" "unat per_second * 1000000000 < 2 ^ 64" "unat ticks * 1000000000 div unat per_second < 2 ^ 64"
  shows "unat (ticks_to_nanos per_second ticks) = unat ticks * 1000000000 div unat per_second"
proof -
  define t r where "t = unat ticks" and "r = unat per_second"
  have r: "0 < r" using assms(1) by (simp add: r_def word_less_nat_alt)
  have sum: "t div r * 1000000000 + t mod r * 1000000000 div r = t * 1000000000 div r"
  proof -
    have "t mod r * 1000000000 + (t div r * 1000000000) * r = (t div r * r + t mod r) * 1000000000" by (simp only: algebra_simps)
    then have "t * 1000000000 = t mod r * 1000000000 + (t div r * 1000000000) * r" by simp
    moreover have "(t mod r * 1000000000 + (t div r * 1000000000) * r) div r = t div r * 1000000000 + t mod r * 1000000000 div r"
      using r by (intro div_mult_self1) simp
    ultimately show ?thesis by (simp only:)
  qed
  have whole: "unat ((ticks div per_second) * 1000000000) = t div r * 1000000000"
  proof -
    have "t div r * 1000000000 < 2 ^ 64" using sum assms(3) by (simp add: t_def r_def)
    then show ?thesis by (simp add: unat_word_ariths unat_div t_def r_def)
  qed
  have part: "unat ((ticks mod per_second) * 1000000000 div per_second) = t mod r * 1000000000 div r"
  proof -
    have "t mod r * 1000000000 \<le> r * 1000000000" using r by (intro mult_le_mono1) (simp add: less_imp_le)
    then have "t mod r * 1000000000 < 2 ^ 64" using assms(2) by (simp add: r_def)
    then have "unat ((ticks mod per_second) * 1000000000) = t mod r * 1000000000"
      by (simp add: unat_word_ariths unat_mod t_def r_def)
    then show ?thesis by (simp only: unat_div r_def)
  qed
  show ?thesis
    using sum whole part assms(3) unfolding ticks_to_nanos_def by (simp add: unat_word_ariths t_def r_def)
qed

text \<open>As many ticks as would not fit if they were multiplied first.\<close>

lemma ticks_exact_witness:
  "unat (ticks_to_nanos 100 123456789012) = 1234567890120000000 \<and> \<not> unat (123456789012 :: u64) * 1000000000 < 2 ^ 64"
  using ticks_exact [of 100 123456789012] by simp

end
