(* ===== verification/Spec2Isabelle.thy ===== *)
theory Spec2Isabelle
  imports Properties_Wire Properties_Grid Properties_Sharing Properties_Server Properties_Client Properties_Config Properties_Copy
    Properties_Keys Properties_Command Properties_Processes
begin

text \<open>
  A verification of ckmux, a terminal multiplexer: a server keeps terminals running, clients attach to
  it over a socket and mirror what it shows. The sources are under \<^verbatim>\<open>src/src/\<close>; every path below
  is relative to it.

  \<^bold>\<open>The program.\<close> A server owns terminals (a child process behind an emulator of the ckVision library),
  sorts them into sessions and serves clients. Per terminal a differ compares what the emulator shows with
  what its readers are believed to hold, and says the difference as a grid delta; a client's mirror applies it,
  or notices that it missed one and asks for a snapshot. Everything between the two is a message of
  one protocol, cut into frames and put through a queue per connection. The client keeps a mirror per
  terminal, dresses it as a terminal of the toolkit and lets windows type, paste and resize through it. What
  a reader prefers is a text file, loaded once and rewritten key by key.

  \<^bold>\<open>The protocol\<close> (\<^verbatim>\<open>common/proto.cpp\<close>, \<^verbatim>\<open>common/proto.hpp\<close>).
  \<^item> \<^verbatim>\<open>Wire_Bytes\<close>: \<open>Writer\<close> and \<open>Reader\<close>, two byte machines whose failure sticks; a reader is a state monad, and
    \<open>regular\<close>, \<open>careful\<close> are what every writer and reader of the catalogue is proved to be.
  \<^item> \<^verbatim>\<open>Wire_Types\<close>, \<^verbatim>\<open>Wire_Messages\<close>: enumerations, cells, structures and the 55 messages with their \<open>write\<close> and
    \<open>read\<close>, in the order of the catalogue; \<open>wf_message\<close> says which values a message can carry.
  \<^item> \<^verbatim>\<open>Wire_Frame\<close>, \<^verbatim>\<open>Wire_Stream\<close>: \<open>encode\<close>, \<open>decode\<close>, \<open>FrameReader\<close> and the receiving loop; a stream cut anywhere.
  \<^item> \<^verbatim>\<open>Wire_Convert\<close>: rectangles, run-length encoding, the sizes of snapshots.
  \<^item> \<^verbatim>\<open>Properties_Wire\<close>: round trips, safety on hostile bytes, bounds of the buffer, exactness of the sizes.

  \<^bold>\<open>Mirroring\<close> (\<^verbatim>\<open>common/grid_delta.cpp\<close>, \<^verbatim>\<open>server/diff_engine.cpp\<close>, \<^verbatim>\<open>client/mirror.cpp\<close>).
  \<^item> \<^verbatim>\<open>Grid\<close>: the state of a mirror, \<open>apply_delta\<close> and the flat history buffer with its moving offset;
    \<open>history\<close> is the abstraction of the buffer to a list of lines.
  \<^item> \<^verbatim>\<open>Diff\<close>, \<^verbatim>\<open>Diff_Correct\<close>: the diff (row hashes, the search for a scroll, the partition of a row into spans) and the
    proof that applying it gives the new screen, whatever hashes collide.
  \<^item> \<^verbatim>\<open>Differ\<close>, \<^verbatim>\<open>Mirror\<close>, \<^verbatim>\<open>Sync\<close>: the two sides and, as an inductive relation \<open>reachable\<close>, the link between the differ and
    the one reader it counts for: ticks, losses, snapshots in any order, with \<open>link_inv\<close> their invariant.
  \<^item> \<^verbatim>\<open>Delta_Wire\<close>, \<^verbatim>\<open>Sharing\<close>: the same differ with any number of readers and with \<open>encode\<close> and \<open>decode\<close> between them
    (\<open>sharing_reachable\<close>). \<open>sg_counted\<close> are the readers the count is for: all of them until a snapshot is taken, then
    the one it was taken for. Each of these and the differ is a link (\<open>side\<close>), so the lemmas of \<^verbatim>\<open>Sync\<close> carry over.
  \<^item> \<^verbatim>\<open>Properties_Grid\<close>, \<^verbatim>\<open>Properties_Sync\<close>, \<^verbatim>\<open>Properties_Sharing\<close>: correctness of diff, repaint and history; a snapshot heals;
    a reader the count is for is shown what a tick says, is never silently behind and refuses what follows a loss; and
    what two readers of one terminal do to each other, for a reader the count is not for can be left behind.

  \<^bold>\<open>The server\<close> (\<^verbatim>\<open>server/server.cpp\<close>, \<^verbatim>\<open>server/terminals.cpp\<close>, \<^verbatim>\<open>common/stats.cpp\<close>, \<^verbatim>\<open>common/shell.cpp\<close>, \<open>Stream\<close> of
  \<^verbatim>\<open>platform/socket.cpp\<close>).
  \<^item> \<^verbatim>\<open>Stats\<close>, \<^verbatim>\<open>Shell\<close>, \<^verbatim>\<open>Stream_Queue\<close>, \<^verbatim>\<open>Terminals\<close>, \<^verbatim>\<open>Terminals_Pass\<close>: samples, which shell is run, the queue of a
    connection, the table of terminals.
  \<^item> \<^verbatim>\<open>Server_State\<close>, \<^verbatim>\<open>Server_Send\<close>, \<^verbatim>\<open>Server_Sessions\<close>, \<^verbatim>\<open>Server_Screens\<close>, \<^verbatim>\<open>Server_Tick\<close>, \<^verbatim>\<open>Server_Handle\<close>: the state, the
    circle of sending, dropping and pasting, sessions, screens and debts of pictures, the two clocks, and every
    request. \<open>handle\<close> takes any message, \<open>react\<close> anything that can happen, and \<open>server_reachable\<close> is their closure.
  \<^item> \<^verbatim>\<open>Server_Frame\<close>, \<^verbatim>\<open>Server_Sound\<close>, \<^verbatim>\<open>Server_Sound_Handlers\<close>, \<^verbatim>\<open>Server_Facts\<close>: what sending cannot touch, the
    invariant and its preservation operation by operation, facts of single operations.
  \<^item> \<^verbatim>\<open>Properties_Server\<close>: the invariant of every reachable server, watchers and strangers change nothing, the order
    and the emptying of a queue, how a close by force ends, the budget of a snapshot, and four defects.

  \<^bold>\<open>The client\<close> (\<^verbatim>\<open>client/server_session.cpp\<close>, \<^verbatim>\<open>client/remote_terminal.cpp\<close>).
  \<^item> \<^verbatim>\<open>Ordered_Map\<close>: the table behind \<open>std::map\<close>, a locale with a sorted and an unsorted instance.
  \<^item> \<^verbatim>\<open>Remote_Terminal\<close>, \<^verbatim>\<open>Client_Session\<close>: a mirror as a terminal, and one attachment with every message it hears and
    every operation its owner calls; \<open>client_step\<close> is one happening, \<open>client_reachable\<close> their closure.
  \<^item> \<^verbatim>\<open>Client_Facts\<close>, \<^verbatim>\<open>Client_Traffic\<close>, \<^verbatim>\<open>Client_Pictures\<close>, \<^verbatim>\<open>Properties_Client\<close>: the invariant and the windows, the pacing of
    pastes and heals, the way of a picture, and that an attach shows the session the server took.

  \<^bold>\<open>Configuration and keys\<close> (\<^verbatim>\<open>common/config.cpp\<close>, \<^verbatim>\<open>common/keymap.cpp\<close>, parts of \<^verbatim>\<open>client/client_app.cpp\<close>).
  \<^item> \<^verbatim>\<open>Keymap\<close>, \<^verbatim>\<open>Config\<close>: the grammars of chords, lines and values; loading with all its warnings; saving one key.
  \<^item> \<^verbatim>\<open>Config_Facts\<close>: what a save does to what a file says; the locale \<open>setting\<close> states the laws of one key, and
    its lemmas follow a value through a save and a load.
  \<^item> \<^verbatim>\<open>Settings_Dialog\<close>: the settings changed on the screen, and an interpretation of \<open>setting\<close> for each.
  \<^item> \<^verbatim>\<open>Properties_Config\<close>: a changed setting is the next session's, others are left alone, every loaded setting is
    one the program can work with, chords are read back from their spelling.

  \<^bold>\<open>Copy mode\<close> (\<^verbatim>\<open>client/copy_mode.cpp\<close>).
  \<^item> \<^verbatim>\<open>Copy_Mode\<close>: the history of a terminal as lines of graphemes, selections, the search, and the view with every
    key it knows; \<open>copy_step\<close> is a key or a resize, \<open>copy_reachable\<close> their closure. The height is the toolkit's.
  \<^item> \<^verbatim>\<open>Copy_Facts\<close>, \<^verbatim>\<open>Properties_Copy\<close>: \<open>stands\<close> says where a query is to be found and \<open>turns\<close> how far away that is; a
    search goes to the nearest such place. The cursor stays on a line and on the screen, and a yank is the text of the rows.

  \<^bold>\<open>Keys and the prefix\<close> (\<^verbatim>\<open>client/commands.cpp\<close>, \<^verbatim>\<open>client/prefix_overlay.cpp\<close>, \<^verbatim>\<open>client/key_reference.cpp\<close>, the prefix in
  \<^verbatim>\<open>client/client_app.cpp\<close>).
  \<^item> \<^verbatim>\<open>Key_Table\<close>: the rows of the table and a reader's directives over them; the overlay that waits for the key after
    the prefix, its timer and the call it posts, and what is executed; the printed reference.
  \<^item> \<^verbatim>\<open>Key_Facts\<close>, \<^verbatim>\<open>Properties_Keys\<close>: no chord stands on two rows, a directive takes effect unless a later one
    undoes it, what is advertised is what is done, and a press of the prefix is answered once.

  \<^bold>\<open>The command line\<close> (\<^verbatim>\<open>client/cli.cpp\<close>, \<^verbatim>\<open>client/server_connection.cpp\<close>, \<^verbatim>\<open>main.cpp\<close>).
  \<^item> \<^verbatim>\<open>Server_Link\<close>: connecting, starting a server once, the handshake, and waiting for one message over a stream. What
    each attempt to connect and each wait comes to are lists; a list that ends is a deadline that has passed.
  \<^item> \<^verbatim>\<open>Command_Line\<close>: the words of a command, which session they mean, and every command with what it says and prints.
  \<^item> \<^verbatim>\<open>Link_Facts\<close>, \<^verbatim>\<open>Properties_Command\<close>: messages are heard in order, a kill ends and reports what became of the session,
    \<open>new\<close> prints the session the server of \<^verbatim>\<open>Server_Sessions\<close> made, and \<open>attach\<close> means its words.

  \<^bold>\<open>What processes use\<close> (\<^verbatim>\<open>platform/process_stats.cpp\<close> for Linux, \<^verbatim>\<open>client/stats_format.cpp\<close>, \<^verbatim>\<open>client/capability_grace.cpp\<close>).
  \<^item> \<^verbatim>\<open>Process_Tree\<close>: the walk through a table of parents, the two files a process is read from, the sum over a tree.
  \<^item> \<^verbatim>\<open>Properties_Processes\<close>: the walk reaches every process below its root, each once, loops in the table or not; a
    process is read right whatever it calls itself; ticks become nanoseconds exactly.

  \<^bold>\<open>How the code is carried over.\<close> A struct is a record, a tagged union a datatype, an integer of the wire a word of
  its width (\<open>u8\<close> to \<open>u64\<close>, additions wrap), a size a \<open>nat\<close>, a coordinate an \<open>int\<close>, a string a list of bytes. A
  reference to a client, session or terminal is its id. Errors are values: a failed reader, a decode result, a
  refusal that is sent, a \<open>None\<close>. The clock's reading, what the kernel answers to a write, what the emulator shows
  at a moment and what a file system answers are arguments or lists that operations consume.

  \<^bold>\<open>Parameters\<close> stand for code that is not in the tree: \<open>ckvision\<close> (cells, styles, colours), the emulator and
  its child in \<open>Terminals\<close>, \<open>client_library\<close> (the slot and the object of a new picture), \<open>key_names\<close> (what the library calls
  its keys), the terminal profile, \<open>file_answers\<close>, \<open>machine\<close> (the files of processes), the numbers the registry gives commands,
  and how a number of bytes is written. What is assumed of them are named hypotheses, each shown
  satisfiable by a witness: \<open>sane_names\<close> of the key names, \<open>honest_damage\<close> of the emulator's
  damage report, and \<open>carried\<close> of its cells: what the wire can say, which leaves out underline style and colour.

  \<^bold>\<open>Bounds and fuel.\<close> The circle of \<^verbatim>\<open>Server_Send\<close> is a recursion on a number; \<open>deep\<close>, one more than the chunks that
  wait, is what the operations give it, and \<open>circle_ends\<close> shows that more changes nothing. The owed
  pictures of a tick are paid in a loop on the length of the debt, and a shutdown flushes at most as often as
  the code counts. \<open>await_removal\<close> of \<^verbatim>\<open>Command_Line\<close> has a turn for every byte that can still come, and each turn spends
  one at least; \<open>await_removal_ends\<close> shows that these are enough.
  It waits anew behind every message, so a server that never stops sending would keep it: what is shown is for the finite
  number of bytes that come in. All other recursions are structural or carry a measure; nothing is partial.

  \<^bold>\<open>Ghosts.\<close> \<open>cl_said\<close> (what a client was sent), \<open>sk_peer\<close> (what the kernel took), \<open>tms_ended\<close> (children as they were
  left) and \<open>ca_log\<close> (what a client sent and called back, in order) are kept for the theorems; no operation reads them.

  \<^bold>\<open>Not modelled.\<close> The screens themselves (\<^verbatim>\<open>client/client_app.cpp\<close> but for the settings and the prefix,
  \<^verbatim>\<open>client/run_client.cpp\<close>, how overlays are drawn, printer dialogs and menus): they are calls into the toolkit, which is
  not in the tree. System calls and their wrappers (\<^verbatim>\<open>platform/\<close> but for the queue of a stream and the reading of
  processes): sockets, pollers, pipes, paths, and the process statistics of macOS and Windows. Numbers of bytes written in
  floating point, the pages of help. Callbacks are recorded in
  order and do not call back in the middle of an operation: what the window layer asks in return is an operation
  of its own. What is written to standard error or a trace is left out.
\<close>

end
